(* ===== verification/Prelude.thy ===== *)
theory Prelude
  imports Main "HOL-Library.Word"
begin

text \<open>
  Shared vocabulary of the development: the machine integer types of the
  Rust sources, the integer intrinsics of the Rust standard library the
  sources use, and the generic lemmas on words and lists that the component
  theories share.

  A Rust \<open>uN\<close> is an \<open>N word\<close>; an \<open>iN\<close> is the same word read with
  \<open>sint\<close>. Wrapping arithmetic is the arithmetic of words, \<open>as\<close> casts between
  unsigned types are \<open>ucast\<close>, shifts take their amount as a \<open>nat\<close>.
\<close>

unbundle bit_operations_syntax

type_synonym u8 = "8 word"
type_synonym u16 = "16 word"
type_synonym u32 = "32 word"
type_synonym u64 = "64 word"
type_synonym u128 = "128 word"

named_theorems bitwise
  \<open>rules that turn a word equality into a question about single bits\<close>

declare bit_simps [bitwise]
declare bit_mask_iff [bitwise]

section \<open>Integer intrinsics of the standard library\<close>

text \<open>\<open>leading_zeros\<close>, \<open>trailing_zeros\<close>, \<open>count_ones\<close> and
  \<open>is_power_of_two\<close>, counted from the most (least) significant bit.\<close>

primrec lz_from :: "nat \<Rightarrow> 'a::len word \<Rightarrow> nat" where
  "lz_from 0 x = 0"
| "lz_from (Suc n) x = (if bit x n then 0 else Suc (lz_from n x))"

definition leading_zeros :: "'a::len word \<Rightarrow> nat" where
  "leading_zeros x = lz_from LENGTH('a) x"

primrec tz_upto :: "nat \<Rightarrow> nat \<Rightarrow> 'a::len word \<Rightarrow> nat" where
  "tz_upto 0 i x = 0"
| "tz_upto (Suc n) i x = (if bit x i then 0 else Suc (tz_upto n (Suc i) x))"

definition trailing_zeros :: "'a::len word \<Rightarrow> nat" where
  "trailing_zeros x = tz_upto LENGTH('a) 0 x"

primrec ones_below :: "nat \<Rightarrow> 'a::len word \<Rightarrow> nat" where
  "ones_below 0 x = 0"
| "ones_below (Suc n) x = of_bool (bit x n) + ones_below n x"

definition count_ones :: "'a::len word \<Rightarrow> nat" where
  "count_ones x = ones_below LENGTH('a) x"

definition is_power_of_two :: "'a::len word \<Rightarrow> bool" where
  "is_power_of_two x \<longleftrightarrow> count_ones x = 1"

lemma lz_from_le: "lz_from n x \<le> n"
  by (induction n) auto

lemma lz_from_bits:
  "n - lz_from n x \<le> k \<Longrightarrow> k < n \<Longrightarrow> \<not> bit x k"
proof (induction n)
  case 0
  then show ?case by simp
next
  case (Suc n)
  then show ?case
    by (cases "k = n") (auto split: if_splits simp: Suc_diff_le lz_from_le)
qed

lemma lz_from_top: "lz_from n x < n \<Longrightarrow> bit x (n - 1 - lz_from n x)"
  by (induction n) auto

lemma lz_from_eq: "lz_from n x = n \<longleftrightarrow> (\<forall>k < n. \<not> bit x k)"
proof (induction n)
  case (Suc n)
  then show ?case
    using lz_from_le [of n x] by (auto simp: less_Suc_eq)
qed simp

lemma leading_zeros_le: "leading_zeros (x :: 'a::len word) \<le> LENGTH('a)"
  by (simp add: leading_zeros_def lz_from_le)

lemma leading_zeros_eq_len:
  "leading_zeros (x :: 'a::len word) = LENGTH('a) \<longleftrightarrow> x = 0"
  by (auto simp: leading_zeros_def lz_from_eq intro: bit_word_eqI)

section \<open>Shifts and rotations\<close>

text \<open>\<open>wrapping_shl\<close>, \<open>wrapping_shr\<close> (unsigned and signed) and \<open>rotate_right\<close>:
  the amount is reduced modulo the width.\<close>

definition wrapping_shl :: "'a::len word \<Rightarrow> u32 \<Rightarrow> 'a word" where
  "wrapping_shl x n = push_bit (unat n mod LENGTH('a)) x"

definition wrapping_shr :: "'a::len word \<Rightarrow> u32 \<Rightarrow> 'a word" where
  "wrapping_shr x n = drop_bit (unat n mod LENGTH('a)) x"

definition wrapping_sar :: "'a::len word \<Rightarrow> u32 \<Rightarrow> 'a word" where
  "wrapping_sar x n = signed_drop_bit (unat n mod LENGTH('a)) x"

definition rotate_right :: "'a::len word \<Rightarrow> u32 \<Rightarrow> 'a word" where
  "rotate_right x n = word_rotr (unat n mod LENGTH('a)) x"

definition rotate_left :: "'a::len word \<Rightarrow> u32 \<Rightarrow> 'a word" where
  "rotate_left x n = word_rotl (unat n mod LENGTH('a)) x"

section \<open>Bits of shifted and masked words\<close>

lemma push_bit_minus_one_eq_mask:
  "push_bit n (1 :: 'a::len word) - 1 = mask n"
  by (simp add: mask_eq_exp_minus_1 push_bit_of_1)

lemma bit_ones_word [bitwise]:
  "bit (push_bit n (1 :: 'a::len word) - 1) k \<longleftrightarrow> k < LENGTH('a) \<and> k < n"
  unfolding push_bit_minus_one_eq_mask by (simp add: bit_mask_iff)

lemma unat_and_mask: "unat (x AND mask n :: 'a::len word) = unat x mod 2 ^ n"
proof -
  have "unat (take_bit n x) = take_bit n (unat x)" by (rule unsigned_take_bit_eq)
  also have "\<dots> = unat x mod 2 ^ n" by (rule take_bit_eq_mod)
  finally show ?thesis by (simp only: take_bit_eq_mask)
qed

lemma unat_and_mask_less: "unat (x AND mask n :: 'a::len word) < 2 ^ n"
  by (simp add: unat_and_mask)

lemma unat_mask_word: "n \<le> LENGTH('a) \<Longrightarrow> unat (mask n :: 'a::len word) = 2 ^ n - 1"
proof -
  assume "n \<le> LENGTH('a)"
  then have "uint (mask n :: 'a word) = mask n"
    by (simp only: uint_mask_eq min_absorb2)
  then have "uint (mask n :: 'a word) = 2 ^ n - 1"
    by (simp only: mask_eq_exp_minus_1)
  moreover have "2 ^ n - 1 = int (2 ^ n - 1)" by (simp add: of_nat_diff)
  ultimately show ?thesis by (metis nat_int unat_eq_nat_uint)
qed

lemma take_bit_id_if_unat_less: "unat (x :: 'a::len word) < 2 ^ n \<Longrightarrow> take_bit n x = x"
  by (metis take_bit_nat_eq_self unsigned_take_bit_eq word_unat_eq_iff)

lemma not_bit_if_unat_less: "unat (x :: 'a::len word) < 2 ^ n \<Longrightarrow> n \<le> k \<Longrightarrow> \<not> bit x k"
  using take_bit_id_if_unat_less [of x n] by (metis bit_take_bit_iff linorder_not_less)

lemma word_eqI_bits:
  "(\<And>k. k < LENGTH('a) \<Longrightarrow> bit x k = bit y k) \<Longrightarrow> x = (y :: 'a::len word)"
  by (rule bit_word_eqI)

text \<open>Reading a bit field back.\<close>

lemma ucast_field_eq:
  assumes "unat (x :: 'b::len word) < 2 ^ w"
    and "\<And>k. k < w \<Longrightarrow> bit (p :: 'a::len word) (l + k) = bit x k"
  shows "ucast (drop_bit l p AND mask w) = x"
proof (rule word_eqI_bits)
  fix k assume k: "k < LENGTH('b)"
  show "bit (ucast (drop_bit l p AND mask w) :: 'b word) k = bit x k"
  proof (cases "k < w")
    case True
    then show ?thesis using k assms(2) [of k] bit_imp_le_length [of p "l + k"]
      by (auto simp: bit_simps)
  next
    case False
    then show ?thesis using not_bit_if_unat_less [OF assms(1), of k] by (simp add: bit_simps)
  qed
qed

section \<open>Words as integers modulo the width\<close>

lemma take_bit_uint_len: "LENGTH('a) \<le> n \<Longrightarrow> take_bit n (uint (x::'a::len word)) = uint x"
  by (rule take_bit_int_eq_self) (auto intro: order.strict_trans2[OF uint_lt2p] power_increasing)

lemma uint_ucast_up: "LENGTH('a) \<le> LENGTH('b) \<Longrightarrow> uint (ucast (z::'a::len word)::'b::len word) = uint z"
  by (simp add: unsigned_ucast_eq take_bit_uint_len)

lemma uint_ucast: "uint (ucast (x::'b::len word)::'a::len word) = take_bit LENGTH('a) (uint x)"
  by (simp add: unsigned_ucast_eq)

lemma uint_arith_take:
  fixes x y :: "'a::len word"
  shows "uint (x + y) = take_bit LENGTH('a) (uint x + uint y)"
    "uint (x - y) = take_bit LENGTH('a) (uint x - uint y)"
    "uint (x * y) = take_bit LENGTH('a) (uint x * uint y)"
    "uint (- x) = take_bit LENGTH('a) (- uint x)"
    "uint (NOT x) = take_bit LENGTH('a) (NOT (uint x))"
    "uint (push_bit n x) = take_bit LENGTH('a) (push_bit n (uint x))"
  by (simp_all only: take_bit_eq_mod uint_word_ariths unsigned_not_eq unsigned_push_bit_eq)

lemma uint_drop_bit: "uint (drop_bit n x) = drop_bit n (uint (x :: 'a::len word))"
  by (simp add: unsigned_drop_bit_eq take_bit_uint_len)

lemma unat_amt:
  fixes y :: u64
  shows "unat ((ucast y :: u32) AND 31) mod 32 = nat (uint y mod 32)"
    "unat ((ucast y :: u32) AND 63) mod 64 = nat (uint y mod 64)"
proof -
  have m: "(31 :: u32) = mask 5" "(63 :: u32) = mask 6" by (simp_all add: mask_eq_exp_minus_1)
  have a: "nat (uint y mod 2 ^ n) = unat y mod 2 ^ n" for n :: nat
    by (simp add: nat_mod_distrib nat_power_eq)
  have b: "unat (ucast y :: u32) mod 2 ^ n = unat y mod 2 ^ n" if "n \<le> 32" for n
  proof -
    have "unat (ucast y :: u32) = take_bit 32 (unat y)" by (simp add: unsigned_ucast_eq)
    then show ?thesis using that by (simp flip: take_bit_eq_mod add: min_absorb1)
  qed
  show "unat ((ucast y :: u32) AND 31) mod 32 = nat (uint y mod 32)"
    unfolding m unat_and_mask using b[of 5] a[of 5] by simp
  show "unat ((ucast y :: u32) AND 63) mod 64 = nat (uint y mod 64)"
    unfolding m unat_and_mask using b[of 6] a[of 6] by simp
qed

lemma wrapping_amt:
  fixes y :: u64 and x :: u64 and x' :: u32
  shows "wrapping_shl x' ((ucast y) AND 31) = push_bit (nat (uint y mod 32)) x'"
    "wrapping_shl x ((ucast y) AND 63) = push_bit (nat (uint y mod 64)) x"
    "wrapping_shr x' ((ucast y) AND 31) = drop_bit (nat (uint y mod 32)) x'"
    "wrapping_shr x ((ucast y) AND 63) = drop_bit (nat (uint y mod 64)) x"
    "wrapping_sar x' ((ucast y) AND 31) = signed_drop_bit (nat (uint y mod 32)) x'"
    "wrapping_sar x ((ucast y) AND 63) = signed_drop_bit (nat (uint y mod 64)) x"
    "rotate_right x' ((ucast y) AND 31) = word_rotr (nat (uint y mod 32)) x'"
    "rotate_right x ((ucast y) AND 63) = word_rotr (nat (uint y mod 64)) x"
  by (simp_all add: wrapping_shl_def wrapping_shr_def wrapping_sar_def rotate_right_def unat_amt)

lemma uint_signed_drop:
  fixes x :: "'a::len word"
  shows "uint (signed_drop_bit n x) = take_bit LENGTH('a) (drop_bit n (signed_take_bit (LENGTH('a) - 1) (uint x)))"
proof -
  have "sint (signed_drop_bit n x) = drop_bit n (signed_take_bit (LENGTH('a) - 1) (uint x))"
    unfolding sint_signed_drop_bit_eq by (simp only: sint_uint One_nat_def)
  then show ?thesis by (metis uint_sint)
qed

lemma uint_rotr:
  fixes x :: "'a::len word"
  assumes "n < LENGTH('a)"
  shows "uint (word_rotr n x) = take_bit LENGTH('a) (drop_bit n (uint x) OR push_bit (LENGTH('a) - n) (uint x))"
proof (rule bit_eqI)
  fix k
  let ?r = "take_bit LENGTH('a) (drop_bit n (uint x) OR push_bit (LENGTH('a) - n) (uint x))"
  have r: "bit ?r k \<longleftrightarrow> k < LENGTH('a) \<and>
      (bit x (n + k) \<or> (LENGTH('a) - n \<le> k \<and> bit x (k - (LENGTH('a) - n))))"
    by (auto simp: bit_simps)
  have l: "bit (uint (word_rotr n x)) k \<longleftrightarrow> k < LENGTH('a) \<and> bit x ((k + n) mod LENGTH('a))"
    by (simp add: bit_uint_iff bit_word_rotr_iff)
  show "bit (uint (word_rotr n x)) k = bit ?r k"
  proof (cases "k < LENGTH('a)")
    case False
    then show ?thesis unfolding r l by simp
  next
    case True
    show ?thesis
    proof (cases "k + n < LENGTH('a)")
      case True
      then show ?thesis unfolding r l by (auto simp: add.commute)
    next
      case False
      moreover have "\<not> bit x (n + k)" using False bit_imp_le_length[of x "n + k"] by auto
      moreover have "(k + n) mod LENGTH('a) = k - (LENGTH('a) - n)"
        using False True assms by (simp add: mod_if)
      moreover have "LENGTH('a) - n \<le> k" using False by arith
      ultimately show ?thesis unfolding r l using True by simp
    qed
  qed
qed


lemma amt_less: "nat (uint (y::u64) mod 32) < 32" "nat (uint (y::u64) mod 64) < 64"
  by (simp_all add: nat_less_iff)

lemma take_bit_congs:
  fixes x y :: int
  shows "take_bit w (take_bit w x + take_bit w y) = take_bit w (x + y)"
    "take_bit w (take_bit w x - take_bit w y) = take_bit w (x - y)"
    "take_bit w (take_bit w x * take_bit w y) = take_bit w (x * y)"
    "take_bit w (- take_bit w x) = take_bit w (- x)"
    "take_bit w (NOT (take_bit w x)) = take_bit w (NOT x)"
    "take_bit w (push_bit n (take_bit w x)) = take_bit w (push_bit n x)"
    "take_bit w x AND take_bit w y = take_bit w (x AND y)"
    "take_bit w x OR take_bit w y = take_bit w (x OR y)"
    "take_bit w x XOR take_bit w y = take_bit w (x XOR y)"
  by (simp_all add: take_bit_add take_bit_diff take_bit_mult take_bit_minus push_bit_take_bit take_bit_not_take_bit) 

lemma not_low32: "NOT x AND 0xFFFFFFFF = ucast (NOT (ucast (x :: u64) :: u32))"
proof -
  have "(0xFFFFFFFF :: u64) = mask 32" by (simp add: mask_eq_exp_minus_1)
  then have e: "NOT x AND 0xFFFFFFFF = take_bit 32 (NOT x)" by (simp only: take_bit_eq_mask)
  show ?thesis unfolding e by (rule word_eqI_bits) (auto simp: bit_simps)
qed

lemma not_plus_one: "NOT x + 1 = - (x :: 'a::len word)"
  by (simp add: minus_eq_not_plus_1)

lemma len_eqs: "LENGTH(32) = 32" "LENGTH(64) = 64" "int 32 = 32" "int 64 = 64" by simp_all

lemma uint_zext: "uint (ucast (z :: u32) :: u64) = uint z"
  by (rule uint_ucast_up) simp

lemma uint_low32: "uint (x AND 0xFFFFFFFF :: u64) = take_bit 32 (uint x)"
proof -
  have "(0xFFFFFFFF :: u64) = mask 32" by (simp add: mask_eq_exp_minus_1)
  then have e: "x AND 0xFFFFFFFF = take_bit 32 x" by (simp only: take_bit_eq_mask)
  show ?thesis unfolding e by (simp add: unsigned_take_bit_eq)
qed

lemma shift_sum:
  assumes "\<not> ic + oc > (b :: u64)" "unat ic + unat oc < 2 ^ 64"
  shows "uint (ic + oc) = uint ic + uint oc" "uint ic + uint oc \<le> uint b"
proof -
  have "uint ic + uint oc = int (unat ic + unat oc)" by simp
  also have "\<dots> < int (2 ^ 64)" using assms(2) by (simp only: of_nat_less_iff)
  finally have "uint ic + uint oc < 2 ^ 64" by simp
  then show s: "uint (ic + oc) = uint ic + uint oc"
    by (simp only: uint_word_ariths len_eqs) (simp add: mod_pos_pos_trivial)
  show "uint ic + uint oc \<le> uint b" using assms(1) unfolding s[symmetric] word_less_def by simp
qed

lemma ror_sum:
  "uint ((ic + oc) AND 31 :: u64) mod int 32 = (uint ic + uint oc) mod int 32"
  "uint ((ic + oc) AND 63 :: u64) mod int 64 = (uint ic + uint oc) mod int 64"
proof -
  have m: "(31 :: u64) = mask 5" "(63 :: u64) = mask 6" by (simp_all add: mask_eq_exp_minus_1)
  have t: "uint (x AND mask n :: u64) = take_bit n (uint x)" for x :: u64 and n
    by (simp only: take_bit_eq_mask[symmetric] unsigned_take_bit_eq)
  have e: "int 32 = 2 ^ 5" "int 64 = 2 ^ 6" by simp_all
  show "uint ((ic + oc) AND 31 :: u64) mod int 32 = (uint ic + uint oc) mod int 32"
    unfolding m t uint_arith_take len_eqs(2) e take_bit_eq_mod by (simp add: mod_mod_cancel)
  show "uint ((ic + oc) AND 63 :: u64) mod int 64 = (uint ic + uint oc) mod int 64"
    unfolding m t uint_arith_take len_eqs(2) e take_bit_eq_mod by (simp add: mod_mod_cancel)
qed

lemma if_eqE:
  assumes "(if c then a else b) = r" "c \<Longrightarrow> a = r \<Longrightarrow> P" "\<not> c \<Longrightarrow> b = r \<Longrightarrow> P"
  shows P
  using assms by (cases c) auto

lemma Some_pairE: "Some (a, b) = Some (c, d) \<Longrightarrow> (c = a \<Longrightarrow> d = b \<Longrightarrow> P) \<Longrightarrow> P"
  by auto

lemma None_SomeE: "None = Some x \<Longrightarrow> P"
  by simp

lemma ones_below_0_iff: "ones_below n x = 0 \<longleftrightarrow> (\<forall>k<n. \<not> bit x k)"
  by (induction n) (auto simp: less_Suc_eq)

lemma ones_below_1_single:
  "ones_below n x = 1 \<Longrightarrow> \<exists>j<n. \<forall>k<n. bit x k \<longleftrightarrow> k = j"
proof (induction n)
  case (Suc n)
  show ?case
  proof (cases "bit x n")
    case True
    then have "\<forall>k<n. \<not> bit x k" using Suc.prems by (simp add: ones_below_0_iff)
    then show ?thesis using True by (intro exI[of _ n]) (auto simp: less_Suc_eq)
  next
    case False
    then obtain j where "j < n" "\<forall>k<n. bit x k \<longleftrightarrow> k = j" using Suc by auto
    then show ?thesis using False by (intro exI[of _ j]) (auto simp: less_Suc_eq)
  qed
qed simp

lemma tz_upto_first:
  "i \<le> j \<Longrightarrow> j < i + n \<Longrightarrow> bit x j \<Longrightarrow> (\<And>k. k < j \<Longrightarrow> \<not> bit x k) \<Longrightarrow> tz_upto n i x = j - i"
proof (induction n arbitrary: i)
  case (Suc n)
  show ?case
  proof (cases "i = j")
    case False
    then have "i < j" "\<not> bit x i" using Suc.prems by auto
    then show ?thesis using Suc.IH[of "Suc i"] Suc.prems by simp
  qed (use Suc.prems in simp)
qed simp

lemma power_of_two_single:
  fixes x :: "'a::len word"
  assumes "is_power_of_two x"
  shows "trailing_zeros x < LENGTH('a)" "x = 2 ^ trailing_zeros x"
proof -
  obtain j where j: "j < LENGTH('a)" "\<And>k. k < LENGTH('a) \<Longrightarrow> bit x k \<longleftrightarrow> k = j"
    using ones_below_1_single[of "LENGTH('a)" x] assms
    by (auto simp: is_power_of_two_def count_ones_def)
  have "tz_upto LENGTH('a) 0 x = j - 0" by (rule tz_upto_first) (use j in auto)
  then have t: "trailing_zeros x = j" by (simp add: trailing_zeros_def)
  show "trailing_zeros x < LENGTH('a)" using t j by simp
  show "x = 2 ^ trailing_zeros x" unfolding t by (rule word_eqI_bits) (auto simp: j bit_simps)
qed

section \<open>Lists filled by indexed updates\<close>

lemma foldl_updates_length [simp]: "length (foldl (\<lambda>s i. s[f i := g i]) s is) = length s"
  by (induction "is" arbitrary: s) simp_all

lemma foldl_updates_nth:
  "(\<And>i j. i < n \<Longrightarrow> j < n \<Longrightarrow> f i = f j \<Longrightarrow> i = j) \<Longrightarrow> j < n \<Longrightarrow> f j < length s \<Longrightarrow>
   foldl (\<lambda>s i. s[f i := g i]) s [0..<n] ! f j = g j"
proof (induction n)
  case (Suc n)
  show ?case
  proof (cases "j = n")
    case True
    then show ?thesis using Suc.prems by simp
  next
    case False
    then have "f n \<noteq> f j" using Suc.prems(1)[of n j] Suc.prems(2) by auto
    then show ?thesis using Suc False by simp
  qed
qed simp

lemma foldl_updates_other:
  "(\<And>i. i < n \<Longrightarrow> f i \<noteq> j) \<Longrightarrow> foldl (\<lambda>s i. s[f i := g i]) s [0..<n] ! j = s ! j"
  by (induction n) simp_all

end
