(* ===== verification/Bits.thy ===== *)
theory Bits
  imports Prelude
begin

text \<open>
  The bit-field helpers of \<open>src/util/bits.rs\<close>: field extraction, sign extension
  and the decoder of the A64 logical immediates.
\<close>

section \<open>Field extraction and sign extension\<close>

definition bits :: "u32 \<Rightarrow> nat \<Rightarrow> nat \<Rightarrow> u32" where
  "bits value lsb len = drop_bit lsb value AND (push_bit len 1 - 1)"

definition bit1 :: "u32 \<Rightarrow> nat \<Rightarrow> u32" where
  "bit1 value idx = drop_bit idx value AND 1"

text \<open>The \<open>i64\<close> result is the 64-bit pattern; \<open>>>\<close> on \<open>i64\<close> is arithmetic.\<close>

definition sign_extend :: "u64 \<Rightarrow> nat \<Rightarrow> u64" where
  "sign_extend value b =
     (let shift = 64 - b in signed_drop_bit shift (push_bit shift value))"

section \<open>Logical immediates\<close>

text \<open>The \<open>while filled < width\<close> loop; \<open>esize\<close> is a power of two, at least 2.\<close>

function fill_elems :: "u64 \<Rightarrow> nat \<Rightarrow> nat \<Rightarrow> nat \<Rightarrow> u64 \<Rightarrow> u64" where
  "fill_elems welem esize width filled out =
     (if filled < width \<and> 0 < esize
      then fill_elems welem esize width (filled + esize) (out OR push_bit filled welem)
      else out)"
  by pat_completeness auto
termination
  by (relation "measure (\<lambda>(welem, esize, width, filled, out). width - filled)") auto

declare fill_elems.simps [simp del]

definition decode_bit_masks :: "u32 \<Rightarrow> u32 \<Rightarrow> u32 \<Rightarrow> nat \<Rightarrow> u64 option" where
  "decode_bit_masks n imms immr width =
     (let combined = push_bit 6 n OR (NOT imms AND 0x3f);
          lz = leading_zeros combined
      in if lz > 31 then None
      else let len = 31 - lz
      in if len < 1 then None
      else if width < 2 ^ len then None
      else let levels = push_bit len (1 :: u32) - 1;
               s = unat (imms AND levels);
               r = unat (immr AND levels)
      in if imms AND levels = levels then None
      else let esize = 2 ^ len;
               welem = push_bit (s + 1) (1 :: u64) - 1;
               mask' = (if esize = 64 then - 1 else push_bit esize (1 :: u64) - 1);
               welem_rotated =
                 (if r = 0 then welem
                  else (drop_bit r welem OR push_bit (esize - r) welem) AND mask');
               out = fill_elems (welem_rotated AND mask') esize width 0 0
      in Some (if width = 32 then out AND 0xFFFFFFFF else out))"

section \<open>What the decoder computes\<close>

lemma bit_fill_elems:
  assumes "0 < esize" and "esize dvd width"
    and "\<And>j. esize \<le> j \<Longrightarrow> \<not> bit welem j"
    and "esize dvd filled" and "k < 64"
  shows "bit (fill_elems welem esize width filled out) k \<longleftrightarrow>
    bit out k \<or> (filled \<le> k \<and> k < width \<and> bit welem (k mod esize))"
  using assms
proof (induction welem esize width filled out rule: fill_elems.induct)
  case (1 welem esize width filled out)
  show ?case
  proof (cases "filled < width")
    case True
    from "1.prems" obtain m where m: "filled = esize * m" by (auto elim: dvdE)
    from True "1.prems"(2,4) have le: "filled + esize \<le> width"
      using dvd_imp_le [of esize "width - filled"] by (simp add: dvd_diff_nat)
    have IH: "bit (fill_elems welem esize width filled out) k \<longleftrightarrow>
        bit (out OR push_bit filled welem) k \<or>
        (filled + esize \<le> k \<and> k < width \<and> bit welem (k mod esize))"
      using "1.IH" "1.prems" True
      by (subst fill_elems.simps) (simp only: if_True, simp)
    show ?thesis
    proof (cases "filled + esize \<le> k")
      case high: True
      then have "\<not> bit welem (k - filled)" using "1.prems"(3) by simp
      then show ?thesis using IH high "1.prems"(5)
        by (auto simp: bit_simps)
    next
      case False
      have "k - filled = k mod esize" if "filled \<le> k"
        using that False m by (metis add_less_cancel_left le_add_diff_inverse mod_less
            mod_mult_self2 not_le_imp_less add.commute)
      then show ?thesis using IH False le "1.prems"(5) by (auto simp: bit_simps)
    qed
  next
    case False
    then show ?thesis by (subst fill_elems.simps) auto
  qed
qed

text \<open>Rotating the low \<open>s + 1\<close> ones right by \<open>r\<close> inside an element.\<close>

lemma bit_rotated_ones:
  assumes "s + 1 < esize" and "0 < r" and "r < esize" and "esize \<le> 64" and "k < esize"
  shows "bit (drop_bit r (mask (s + 1) :: u64) OR push_bit (esize - r) (mask (s + 1))) k
    \<longleftrightarrow> (k + r) mod esize \<le> s"
proof (cases "k + r < esize")
  case True
  then show ?thesis using assms by (auto simp: bit_simps)
next
  case False
  then have "(k + r) mod esize = k + r - esize"
    using assms by (simp add: le_mod_geq)
  then show ?thesis using False assms by (auto simp: bit_simps)
qed

text \<open>
  The architecture's description of the immediate: an element of \<open>2 ^ len\<close> bits
  holding \<open>s + 1\<close> consecutive ones rotated right by \<open>r\<close>, replicated.
\<close>

definition limm_bit :: "nat \<Rightarrow> nat \<Rightarrow> nat \<Rightarrow> nat \<Rightarrow> bool" where
  "limm_bit len s r k \<longleftrightarrow> (k mod 2 ^ len + r) mod 2 ^ len \<le> s"

lemma u64_all_ones_eq_mask: "(if (e::nat) = 64 then - 1 else mask e :: u64) = mask e"
  using mask_full [where 'a = 64] by auto

lemma bit_welem_rotated:
  assumes "s + 1 < 2 ^ len" and "r < 2 ^ len" and "len \<le> 6" and "k < 2 ^ len"
  shows "bit ((if r = 0 then mask (s + 1)
      else (drop_bit r (mask (s + 1)) OR push_bit (2 ^ len - r) (mask (s + 1)))
        AND mask (2 ^ len)) AND mask (2 ^ len) :: u64) k \<longleftrightarrow> limm_bit len s r k"
proof -
  have le: "2 ^ len \<le> (64 :: nat)"
    using power_increasing [OF assms(3), of "2 :: nat"] by simp
  show ?thesis
  proof (cases "r = 0")
    case True
    then show ?thesis using assms le by (auto simp: limm_bit_def bit_simps)
  next
    case False
    then show ?thesis
      using assms le bit_rotated_ones [of s "2 ^ len" r k]
      by (simp add: limm_bit_def bit_simps)
  qed
qed

lemma decode_bit_masks_bits:
  assumes "decode_bit_masks n imms immr width = Some v" and "width = 32 \<or> width = 64"
  shows "let len = 31 - leading_zeros (push_bit 6 n OR (NOT imms AND 0x3f));
      s = unat imms mod 2 ^ len; r = unat immr mod 2 ^ len
    in 1 \<le> len \<and> 2 ^ len \<le> width \<and> s + 1 < 2 ^ len \<and>
       (\<forall>k < 64. bit v k \<longleftrightarrow> k < width \<and> limm_bit len s r k)"
proof -
  define len where "len = 31 - leading_zeros (push_bit 6 n OR (NOT imms AND 0x3f))"
  define s where "s = unat (imms AND mask len)"
  define r where "r = unat (immr AND mask len)"
  define we where "we = ((if r = 0 then mask (s + 1)
      else (drop_bit r (mask (s + 1)) OR push_bit (2 ^ len - r) (mask (s + 1)))
        AND mask (2 ^ len)) AND mask (2 ^ len) :: u64)"
  have len1: "1 \<le> len" and lenw: "2 ^ len \<le> width"
    and full: "imms AND mask len \<noteq> mask len"
    and v: "v = (if width = 32 then fill_elems we (2 ^ len) width 0 0 AND 0xFFFFFFFF
      else fill_elems we (2 ^ len) width 0 0)"
    using assms(1) [unfolded decode_bit_masks_def Let_def push_bit_minus_one_eq_mask
        u64_all_ones_eq_mask, folded len_def, folded s_def r_def, folded we_def]
    by (auto split: if_splits)
  have w64: "width \<le> 64" using assms(2) by auto
  then have len6: "len \<le> 6"
    using lenw power_le_imp_le_exp [of "2::nat" len 6] by simp
  have sl: "s < 2 ^ len" and rl: "r < 2 ^ len"
    by (simp_all add: s_def r_def unat_and_mask)
  have "unat (mask len :: u32) = 2 ^ len - 1"
    using len6 by (simp add: unat_mask_word)
  then have "s \<noteq> 2 ^ len - 1" using full by (metis s_def word_unat_eq_iff)
  then have s1: "s + 1 < 2 ^ len" using sl by simp
  have dvd: "2 ^ len dvd width"
    using assms(2) lenw le_imp_power_dvd [of len 5 "2::nat"] len6
      le_imp_power_dvd [of len 6 "2::nat"] power_le_imp_le_exp [of "2::nat" len 5] by auto
  have high: "\<not> bit we j" if "2 ^ len \<le> j" for j
    using that by (simp add: we_def bit_simps)
  have fill: "bit (fill_elems we (2 ^ len) width 0 0) k \<longleftrightarrow> k < width \<and> limm_bit len s r k"
    if "k < 64" for k
    using bit_fill_elems [OF _ dvd high, of 0 k 0] that
      bit_welem_rotated [OF s1 rl len6, of "k mod 2 ^ len"]
    by (simp add: we_def [symmetric] limm_bit_def)
  have "bit v k \<longleftrightarrow> k < width \<and> limm_bit len s r k" if "k < 64" for k
    using fill [OF that] that assms(2)
      bit_mask_iff [of 32 k, where 'a = "64 word"]
    by (auto simp: v bit_simps mask_eq_exp_minus_1)
  then show ?thesis
    using len1 lenw s1 by (simp add: len_def [symmetric] s_def r_def unat_and_mask)
qed

text \<open>
  C37. A logical immediate the decoder accepts is exactly the architecture's
  pattern: with \<open>len\<close> the position of the highest set bit of \<open>N : NOT imms\<close>,
  bit \<open>k\<close> of the result is set iff it is below the register width and the
  rotated run of \<open>imms + 1\<close> ones covers position \<open>k\<close> of its element; the element
  is neither empty nor full.
\<close>

theorem decode_bit_masks_pattern:
  assumes "decode_bit_masks n imms immr width = Some v" and "width = 32 \<or> width = 64"
  shows "let len = 31 - leading_zeros (push_bit 6 n OR (NOT imms AND 0x3f));
      s = unat imms mod 2 ^ len; r = unat immr mod 2 ^ len
    in 1 \<le> len \<and> 2 ^ len \<le> width \<and> s + 1 < 2 ^ len \<and>
       (\<forall>k < 64. bit v k \<longleftrightarrow> k < width \<and> limm_bit len s r k)"
  by (rule decode_bit_masks_bits[OF assms])

theorem decode_bit_masks_pattern_witness:
  "decode_bit_masks 0 0b110011 1 64 = Some 0x8787878787878787 \<and>
   (bit (0x8787878787878787 :: u64) 7 \<longleftrightarrow> limm_bit 3 3 1 7) \<and>
   (bit (0x8787878787878787 :: u64) 12 \<longleftrightarrow> limm_bit 3 3 1 12)"
proof -
  have d: "decode_bit_masks 0 0b110011 1 64 = Some 0x8787878787878787"
    by code_simp
  have len: "31 - leading_zeros (push_bit 6 (0 :: u32) OR (NOT 0b110011 AND 0x3f)) = 3"
    by code_simp
  have "\<forall>k < 64. bit (0x8787878787878787 :: u64) k \<longleftrightarrow> limm_bit 3 3 1 k"
    using decode_bit_masks_pattern [OF d] unfolding len Let_def by simp
  with d show ?thesis by (metis numeral_less_iff semiring_norm(76,78,80,81))
qed

section \<open>Sign extension\<close>

lemma sign_extend_word:
  assumes "0 < b" "b \<le> 64"
  shows "sign_extend v b = signed_take_bit (b - 1) v"
proof (rule bit_word_eqI)
  fix n assume "n < LENGTH(64)"
  then show "bit (sign_extend v b) n = bit (signed_take_bit (b - 1) v) n"
    using assms by (cases "n = b - 1"; cases "b \<le> n") (auto simp: sign_extend_def Let_def bit_simps min_def)
qed

text \<open>
  Sign extension: read as a two's complement number, the result is the low
  \<open>b\<close> bits of the argument read as a \<open>b\<close>-bit two's complement number.
\<close>

theorem sign_extend_value:
  assumes "0 < b" and "b \<le> 64"
  shows "sint (sign_extend value b) = signed_take_bit (b - 1) (uint value)"
proof -
  have "bit (sint (sign_extend value b)) k \<longleftrightarrow> bit (signed_take_bit (b - 1) (uint value)) k" for k
    using assms unfolding sign_extend_def Let_def sint_signed_drop_bit_eq
    by (auto simp: bit_simps bit_sint_iff min_def bit_uint_iff)
  then show ?thesis by (rule bit_eqI)
qed

theorem sign_extend_value_witness:
  "sint (sign_extend 0x1FFFFF 21) = - 1"
  using sign_extend_value [of 21 "0x1FFFFF"] by simp

end
