(* ===== verification/Arch.thy ===== *)
theory Arch
  imports Prelude
begin

text \<open>
  The architectural vocabulary of \<open>src/arch.rs\<close>: condition codes, the packed NZCV
  flags, the condition truth table of the backend, and the packed system register
  numbers.
\<close>

definition NUM_GPRS :: nat where "NUM_GPRS = 31"

definition NUM_VREGS :: nat where "NUM_VREGS = 32"

definition ZR_ENCODING :: nat where "ZR_ENCODING = 31"

section \<open>Condition codes\<close>

datatype cond = EQ | NE | CS | CC | MI | PL | VS | VC | HI | LS | GE | LT | GT | LE | AL | NV

fun cond_code :: "cond \<Rightarrow> u8" where
  "cond_code EQ = 0b0000"
| "cond_code NE = 0b0001"
| "cond_code CS = 0b0010"
| "cond_code CC = 0b0011"
| "cond_code MI = 0b0100"
| "cond_code PL = 0b0101"
| "cond_code VS = 0b0110"
| "cond_code VC = 0b0111"
| "cond_code HI = 0b1000"
| "cond_code LS = 0b1001"
| "cond_code GE = 0b1010"
| "cond_code LT = 0b1011"
| "cond_code GT = 0b1100"
| "cond_code LE = 0b1101"
| "cond_code AL = 0b1110"
| "cond_code NV = 0b1111"

text \<open>\<open>from_bits\<close> transmutes the low four bits: the variant with that discriminant.\<close>

definition all_conds :: "cond list" where
  "all_conds = [EQ, NE, CS, CC, MI, PL, VS, VC, HI, LS, GE, LT, GT, LE, AL, NV]"

definition cond_from_bits :: "u8 \<Rightarrow> cond" where
  "cond_from_bits b = all_conds ! unat (b AND 0xF)"

definition cond_invert :: "cond \<Rightarrow> cond" where
  "cond_invert c = cond_from_bits (cond_code c XOR 1)"

section \<open>NZCV\<close>

type_synonym nzcv = u8

definition N_BIT :: u8 where "N_BIT = push_bit 3 1"
definition Z_BIT :: u8 where "Z_BIT = push_bit 2 1"
definition C_BIT :: u8 where "C_BIT = push_bit 1 1"
definition V_BIT :: u8 where "V_BIT = push_bit 0 1"

definition nzcv_n :: "nzcv \<Rightarrow> bool" where "nzcv_n f \<longleftrightarrow> f AND N_BIT \<noteq> 0"
definition nzcv_z :: "nzcv \<Rightarrow> bool" where "nzcv_z f \<longleftrightarrow> f AND Z_BIT \<noteq> 0"
definition nzcv_c :: "nzcv \<Rightarrow> bool" where "nzcv_c f \<longleftrightarrow> f AND C_BIT \<noteq> 0"
definition nzcv_v :: "nzcv \<Rightarrow> bool" where "nzcv_v f \<longleftrightarrow> f AND V_BIT \<noteq> 0"

fun cond_holds :: "cond \<Rightarrow> bool \<Rightarrow> bool \<Rightarrow> bool \<Rightarrow> bool \<Rightarrow> bool" where
  "cond_holds EQ n z c v = z"
| "cond_holds NE n z c v = (\<not> z)"
| "cond_holds CS n z c v = c"
| "cond_holds CC n z c v = (\<not> c)"
| "cond_holds MI n z c v = n"
| "cond_holds PL n z c v = (\<not> n)"
| "cond_holds VS n z c v = v"
| "cond_holds VC n z c v = (\<not> v)"
| "cond_holds HI n z c v = (c \<and> \<not> z)"
| "cond_holds LS n z c v = (\<not> (c \<and> \<not> z))"
| "cond_holds GE n z c v = (n = v)"
| "cond_holds LT n z c v = (n \<noteq> v)"
| "cond_holds GT n z c v = (\<not> z \<and> n = v)"
| "cond_holds LE n z c v = (\<not> (\<not> z \<and> n = v))"
| "cond_holds AL n z c v = True"
| "cond_holds NV n z c v = True"

definition nzcv_check :: "nzcv \<Rightarrow> cond \<Rightarrow> bool" where
  "nzcv_check f cond = cond_holds cond (nzcv_n f) (nzcv_z f) (nzcv_c f) (nzcv_v f)"

definition COND_TRUTH :: "u16 list" where
  "COND_TRUTH =
    [0xF0F0, 0x0F0F, 0xCCCC, 0x3333, 0xFF00, 0x00FF, 0xAAAA, 0x5555, 0x0C0C, 0xF3F3, 0xAA55,
     0x55AA, 0x0A05, 0xF5FA, 0xFFFF, 0xFFFF]"

datatype reg_size = W | X

fun reg_bits :: "reg_size \<Rightarrow> nat" where
  "reg_bits W = 32"
| "reg_bits X = 64"

section \<open>System register numbers\<close>

definition sysreg_pack :: "u32 \<Rightarrow> u32 \<Rightarrow> u32 \<Rightarrow> u32 \<Rightarrow> u32 \<Rightarrow> u16" where
  "sysreg_pack op0 op1 crn crm op2 =
     ucast (push_bit 14 op0 OR push_bit 11 op1 OR push_bit 7 crn OR push_bit 3 crm OR op2)"

definition SYS_NZCV :: u16 where "SYS_NZCV = sysreg_pack 3 3 4 2 0"
definition SYS_FPCR :: u16 where "SYS_FPCR = sysreg_pack 3 3 4 4 0"
definition SYS_FPSR :: u16 where "SYS_FPSR = sysreg_pack 3 3 4 4 1"
definition SYS_TPIDR_EL0 :: u16 where "SYS_TPIDR_EL0 = sysreg_pack 3 3 13 0 2"
definition SYS_TPIDRRO_EL0 :: u16 where "SYS_TPIDRRO_EL0 = sysreg_pack 3 3 13 0 3"
definition SYS_CTR_EL0 :: u16 where "SYS_CTR_EL0 = sysreg_pack 3 3 0 0 1"
definition SYS_DCZID_EL0 :: u16 where "SYS_DCZID_EL0 = sysreg_pack 3 3 0 0 7"
definition SYS_MIDR_EL1 :: u16 where "SYS_MIDR_EL1 = sysreg_pack 3 0 0 0 0"
definition SYS_MPIDR_EL1 :: u16 where "SYS_MPIDR_EL1 = sysreg_pack 3 0 0 0 5"
definition SYS_CNTFRQ_EL0 :: u16 where "SYS_CNTFRQ_EL0 = sysreg_pack 3 3 14 0 0"
definition SYS_CNTPCT_EL0 :: u16 where "SYS_CNTPCT_EL0 = sysreg_pack 3 3 14 0 1"
definition SYS_CNTVCT_EL0 :: u16 where "SYS_CNTVCT_EL0 = sysreg_pack 3 3 14 0 2"

section \<open>Properties\<close>

lemmas nzcv_flag_defs = nzcv_n_def nzcv_z_def nzcv_c_def nzcv_v_def
  N_BIT_def Z_BIT_def C_BIT_def V_BIT_def

lemma nzcv_flag_bits:
  "nzcv_n f = bit f 3" "nzcv_z f = bit f 2" "nzcv_c f = bit f 1" "nzcv_v f = bit f 0"
  by (simp_all only: nzcv_flag_defs bit_iff_and_push_bit_not_eq_0)

lemma cond_from_bits_code: "cond_from_bits (cond_code c) = c"
  by (cases c) (simp_all add: cond_from_bits_def all_conds_def)

lemma all_conds_complete: "c \<in> set all_conds"
  by (cases c) (simp_all add: all_conds_def)

lemma cond_truth_table:
  "list_all (\<lambda>c. list_all (\<lambda>n. bit (COND_TRUTH ! unat (cond_code c)) n = nzcv_check (of_nat n) c)
     [0..<16]) all_conds"
  by code_simp

text \<open>
  The backend's truth table \<open>COND_TRUTH\<close> and \<open>Nzcv::check\<close> agree on every
  condition and every flag combination.
\<close>

theorem cond_truth_matches_check:
  assumes "unat f < 16"
  shows "bit (COND_TRUTH ! unat (cond_code c)) (unat f) = nzcv_check f c"
proof -
  have "bit (COND_TRUTH ! unat (cond_code c)) n = nzcv_check (of_nat n) c" if "n < 16" for n
    using that cond_truth_table all_conds_complete [of c] by (auto simp: list_all_iff)
  from this [OF assms] show ?thesis by simp
qed

theorem cond_truth_matches_check_witness:
  "bit (COND_TRUTH ! unat (cond_code GT)) 9 \<and> nzcv_check 0b1001 GT"
proof -
  have "nzcv_check 0b1001 GT" by code_simp
  then show ?thesis using cond_truth_matches_check [of "0b1001" GT] by simp
qed

text \<open>
  Inverting a condition negates it, except for the two "always" codes, which
  invert into each other and both hold.
\<close>

theorem cond_invert_negates:
  "nzcv_check f (cond_invert c) = (if c = AL \<or> c = NV then True else \<not> nzcv_check f c)"
  by (cases c) (simp_all add: cond_invert_def cond_from_bits_def all_conds_def nzcv_check_def)

lemma bit_sysreg_pack:
  assumes "unat op0 < 4" "unat op1 < 8" "unat crn < 16" "unat crm < 16" "unat op2 < 8" "k < 16"
  shows "bit (sysreg_pack op0 op1 crn crm op2) k =
    (if k < 3 then bit op2 k else if k < 7 then bit crm (k - 3)
     else if k < 11 then bit crn (k - 7) else if k < 14 then bit op1 (k - 11)
     else bit op0 (k - 14))"
proof -
  note bounds = not_bit_if_unat_less [of op0 2] not_bit_if_unat_less [of op1 3]
    not_bit_if_unat_less [of crn 4] not_bit_if_unat_less [of crm 4] not_bit_if_unat_less [of op2 3]
  show ?thesis
    using assms bounds by (auto simp: sysreg_pack_def bit_simps)
qed

text \<open>
  Packing a system register number loses nothing: each operand of an encoding with
  fields of the architectural widths can be read back from the 16-bit number.
\<close>

theorem sysreg_pack_fields:
  assumes "unat op0 < 4" "unat op1 < 8" "unat crn < 16" "unat crm < 16" "unat op2 < 8"
  defines "p \<equiv> sysreg_pack op0 op1 crn crm op2"
  shows "ucast (drop_bit 14 p AND mask 2) = op0 \<and> ucast (drop_bit 11 p AND mask 3) = op1 \<and>
    ucast (drop_bit 7 p AND mask 4) = crn \<and> ucast (drop_bit 3 p AND mask 4) = crm \<and>
    ucast (drop_bit 0 p AND mask 3) = op2"
proof -
  note pb = bit_sysreg_pack [OF assms(1-5), folded p_def]
  show ?thesis
    by (intro conjI ucast_field_eq) (use assms(1-5) in \<open>simp_all add: pb\<close>)
qed

theorem sysreg_pack_fields_witness:
  "ucast (drop_bit 7 SYS_CNTPCT_EL0 AND mask 4) = (14 :: u32)"
  using sysreg_pack_fields [of 3 3 14 0 1] by (simp add: SYS_CNTPCT_EL0_def)

end
