(* ===== verification/Ir_Op.thy ===== *)
theory Ir_Op
  imports Prelude
begin

text \<open>
  The IR opcodes of \<open>src/ir/opcode.rs\<close>. The Rust enum is \<open>#[repr(u16)]\<close> and the
  code works on the discriminants (\<open>raw\<close>, \<open>base\<close>, \<open>size_log2\<close>), so an opcode
  is its discriminant; every variant is an abbreviation of the number the enum gives it,
  and the variants are tabulated in the order of the enum.
\<close>

datatype op = Op (raw: u16)

abbreviation Op_Void :: op where "Op_Void \<equiv> Op 0x000"
abbreviation Op_Identity :: op where "Op_Identity \<equiv> Op 0x004"
abbreviation Op_ConstU32 :: op where "Op_ConstU32 \<equiv> Op 0x012"
abbreviation Op_ConstU64 :: op where "Op_ConstU64 \<equiv> Op 0x013"
abbreviation Op_ConstU128 :: op where "Op_ConstU128 \<equiv> Op 0x014"
abbreviation Op_GetX :: op where "Op_GetX \<equiv> Op 0x020"
abbreviation Op_SetX :: op where "Op_SetX \<equiv> Op 0x024"
abbreviation Op_GetW :: op where "Op_GetW \<equiv> Op 0x028"
abbreviation Op_SetW :: op where "Op_SetW \<equiv> Op 0x02C"
abbreviation Op_GetSp :: op where "Op_GetSp \<equiv> Op 0x030"
abbreviation Op_SetSp :: op where "Op_SetSp \<equiv> Op 0x034"
abbreviation Op_GetNzcv :: op where "Op_GetNzcv \<equiv> Op 0x038"
abbreviation Op_SetNzcv :: op where "Op_SetNzcv \<equiv> Op 0x03C"
abbreviation Op_GetPc :: op where "Op_GetPc \<equiv> Op 0x040"
abbreviation Op_GetV :: op where "Op_GetV \<equiv> Op 0x044"
abbreviation Op_SetV :: op where "Op_SetV \<equiv> Op 0x048"
abbreviation Op_Add8 :: op where "Op_Add8 \<equiv> Op 0x100"
abbreviation Op_Add16 :: op where "Op_Add16 \<equiv> Op 0x101"
abbreviation Op_Add32 :: op where "Op_Add32 \<equiv> Op 0x102"
abbreviation Op_Add64 :: op where "Op_Add64 \<equiv> Op 0x103"
abbreviation Op_Sub8 :: op where "Op_Sub8 \<equiv> Op 0x104"
abbreviation Op_Sub16 :: op where "Op_Sub16 \<equiv> Op 0x105"
abbreviation Op_Sub32 :: op where "Op_Sub32 \<equiv> Op 0x106"
abbreviation Op_Sub64 :: op where "Op_Sub64 \<equiv> Op 0x107"
abbreviation Op_Adc8 :: op where "Op_Adc8 \<equiv> Op 0x108"
abbreviation Op_Adc16 :: op where "Op_Adc16 \<equiv> Op 0x109"
abbreviation Op_Adc32 :: op where "Op_Adc32 \<equiv> Op 0x10A"
abbreviation Op_Adc64 :: op where "Op_Adc64 \<equiv> Op 0x10B"
abbreviation Op_Sbc8 :: op where "Op_Sbc8 \<equiv> Op 0x10C"
abbreviation Op_Sbc16 :: op where "Op_Sbc16 \<equiv> Op 0x10D"
abbreviation Op_Sbc32 :: op where "Op_Sbc32 \<equiv> Op 0x10E"
abbreviation Op_Sbc64 :: op where "Op_Sbc64 \<equiv> Op 0x10F"
abbreviation Op_AddsFlags8 :: op where "Op_AddsFlags8 \<equiv> Op 0x110"
abbreviation Op_AddsFlags16 :: op where "Op_AddsFlags16 \<equiv> Op 0x111"
abbreviation Op_AddsFlags32 :: op where "Op_AddsFlags32 \<equiv> Op 0x112"
abbreviation Op_AddsFlags64 :: op where "Op_AddsFlags64 \<equiv> Op 0x113"
abbreviation Op_SubsFlags8 :: op where "Op_SubsFlags8 \<equiv> Op 0x114"
abbreviation Op_SubsFlags16 :: op where "Op_SubsFlags16 \<equiv> Op 0x115"
abbreviation Op_SubsFlags32 :: op where "Op_SubsFlags32 \<equiv> Op 0x116"
abbreviation Op_SubsFlags64 :: op where "Op_SubsFlags64 \<equiv> Op 0x117"
abbreviation Op_And8 :: op where "Op_And8 \<equiv> Op 0x118"
abbreviation Op_And16 :: op where "Op_And16 \<equiv> Op 0x119"
abbreviation Op_And32 :: op where "Op_And32 \<equiv> Op 0x11A"
abbreviation Op_And64 :: op where "Op_And64 \<equiv> Op 0x11B"
abbreviation Op_Or8 :: op where "Op_Or8 \<equiv> Op 0x11C"
abbreviation Op_Or16 :: op where "Op_Or16 \<equiv> Op 0x11D"
abbreviation Op_Or32 :: op where "Op_Or32 \<equiv> Op 0x11E"
abbreviation Op_Or64 :: op where "Op_Or64 \<equiv> Op 0x11F"
abbreviation Op_Eor8 :: op where "Op_Eor8 \<equiv> Op 0x120"
abbreviation Op_Eor16 :: op where "Op_Eor16 \<equiv> Op 0x121"
abbreviation Op_Eor32 :: op where "Op_Eor32 \<equiv> Op 0x122"
abbreviation Op_Eor64 :: op where "Op_Eor64 \<equiv> Op 0x123"
abbreviation Op_Bic8 :: op where "Op_Bic8 \<equiv> Op 0x124"
abbreviation Op_Bic16 :: op where "Op_Bic16 \<equiv> Op 0x125"
abbreviation Op_Bic32 :: op where "Op_Bic32 \<equiv> Op 0x126"
abbreviation Op_Bic64 :: op where "Op_Bic64 \<equiv> Op 0x127"
abbreviation Op_Orn8 :: op where "Op_Orn8 \<equiv> Op 0x128"
abbreviation Op_Orn16 :: op where "Op_Orn16 \<equiv> Op 0x129"
abbreviation Op_Orn32 :: op where "Op_Orn32 \<equiv> Op 0x12A"
abbreviation Op_Orn64 :: op where "Op_Orn64 \<equiv> Op 0x12B"
abbreviation Op_Eon8 :: op where "Op_Eon8 \<equiv> Op 0x12C"
abbreviation Op_Eon16 :: op where "Op_Eon16 \<equiv> Op 0x12D"
abbreviation Op_Eon32 :: op where "Op_Eon32 \<equiv> Op 0x12E"
abbreviation Op_Eon64 :: op where "Op_Eon64 \<equiv> Op 0x12F"
abbreviation Op_Not8 :: op where "Op_Not8 \<equiv> Op 0x130"
abbreviation Op_Not16 :: op where "Op_Not16 \<equiv> Op 0x131"
abbreviation Op_Not32 :: op where "Op_Not32 \<equiv> Op 0x132"
abbreviation Op_Not64 :: op where "Op_Not64 \<equiv> Op 0x133"
abbreviation Op_Neg8 :: op where "Op_Neg8 \<equiv> Op 0x134"
abbreviation Op_Neg16 :: op where "Op_Neg16 \<equiv> Op 0x135"
abbreviation Op_Neg32 :: op where "Op_Neg32 \<equiv> Op 0x136"
abbreviation Op_Neg64 :: op where "Op_Neg64 \<equiv> Op 0x137"
abbreviation Op_LogicFlags32 :: op where "Op_LogicFlags32 \<equiv> Op 0x13A"
abbreviation Op_LogicFlags64 :: op where "Op_LogicFlags64 \<equiv> Op 0x13B"
abbreviation Op_Lsl8 :: op where "Op_Lsl8 \<equiv> Op 0x140"
abbreviation Op_Lsl16 :: op where "Op_Lsl16 \<equiv> Op 0x141"
abbreviation Op_Lsl32 :: op where "Op_Lsl32 \<equiv> Op 0x142"
abbreviation Op_Lsl64 :: op where "Op_Lsl64 \<equiv> Op 0x143"
abbreviation Op_Lsr8 :: op where "Op_Lsr8 \<equiv> Op 0x144"
abbreviation Op_Lsr16 :: op where "Op_Lsr16 \<equiv> Op 0x145"
abbreviation Op_Lsr32 :: op where "Op_Lsr32 \<equiv> Op 0x146"
abbreviation Op_Lsr64 :: op where "Op_Lsr64 \<equiv> Op 0x147"
abbreviation Op_Asr8 :: op where "Op_Asr8 \<equiv> Op 0x148"
abbreviation Op_Asr16 :: op where "Op_Asr16 \<equiv> Op 0x149"
abbreviation Op_Asr32 :: op where "Op_Asr32 \<equiv> Op 0x14A"
abbreviation Op_Asr64 :: op where "Op_Asr64 \<equiv> Op 0x14B"
abbreviation Op_Ror8 :: op where "Op_Ror8 \<equiv> Op 0x14C"
abbreviation Op_Ror16 :: op where "Op_Ror16 \<equiv> Op 0x14D"
abbreviation Op_Ror32 :: op where "Op_Ror32 \<equiv> Op 0x14E"
abbreviation Op_Ror64 :: op where "Op_Ror64 \<equiv> Op 0x14F"
abbreviation Op_Ubfm8 :: op where "Op_Ubfm8 \<equiv> Op 0x150"
abbreviation Op_Ubfm16 :: op where "Op_Ubfm16 \<equiv> Op 0x151"
abbreviation Op_Ubfm32 :: op where "Op_Ubfm32 \<equiv> Op 0x152"
abbreviation Op_Ubfm64 :: op where "Op_Ubfm64 \<equiv> Op 0x153"
abbreviation Op_Sbfm8 :: op where "Op_Sbfm8 \<equiv> Op 0x154"
abbreviation Op_Sbfm16 :: op where "Op_Sbfm16 \<equiv> Op 0x155"
abbreviation Op_Sbfm32 :: op where "Op_Sbfm32 \<equiv> Op 0x156"
abbreviation Op_Sbfm64 :: op where "Op_Sbfm64 \<equiv> Op 0x157"
abbreviation Op_Bfm8 :: op where "Op_Bfm8 \<equiv> Op 0x158"
abbreviation Op_Bfm16 :: op where "Op_Bfm16 \<equiv> Op 0x159"
abbreviation Op_Bfm32 :: op where "Op_Bfm32 \<equiv> Op 0x15A"
abbreviation Op_Bfm64 :: op where "Op_Bfm64 \<equiv> Op 0x15B"
abbreviation Op_Extr8 :: op where "Op_Extr8 \<equiv> Op 0x15C"
abbreviation Op_Extr16 :: op where "Op_Extr16 \<equiv> Op 0x15D"
abbreviation Op_Extr32 :: op where "Op_Extr32 \<equiv> Op 0x15E"
abbreviation Op_Extr64 :: op where "Op_Extr64 \<equiv> Op 0x15F"
abbreviation Op_Mul8 :: op where "Op_Mul8 \<equiv> Op 0x160"
abbreviation Op_Mul16 :: op where "Op_Mul16 \<equiv> Op 0x161"
abbreviation Op_Mul32 :: op where "Op_Mul32 \<equiv> Op 0x162"
abbreviation Op_Mul64 :: op where "Op_Mul64 \<equiv> Op 0x163"
abbreviation Op_Madd8 :: op where "Op_Madd8 \<equiv> Op 0x164"
abbreviation Op_Madd16 :: op where "Op_Madd16 \<equiv> Op 0x165"
abbreviation Op_Madd32 :: op where "Op_Madd32 \<equiv> Op 0x166"
abbreviation Op_Madd64 :: op where "Op_Madd64 \<equiv> Op 0x167"
abbreviation Op_Msub8 :: op where "Op_Msub8 \<equiv> Op 0x168"
abbreviation Op_Msub16 :: op where "Op_Msub16 \<equiv> Op 0x169"
abbreviation Op_Msub32 :: op where "Op_Msub32 \<equiv> Op 0x16A"
abbreviation Op_Msub64 :: op where "Op_Msub64 \<equiv> Op 0x16B"
abbreviation Op_UMulH64 :: op where "Op_UMulH64 \<equiv> Op 0x16F"
abbreviation Op_SMulH64 :: op where "Op_SMulH64 \<equiv> Op 0x173"
abbreviation Op_UMull32 :: op where "Op_UMull32 \<equiv> Op 0x176"
abbreviation Op_SMull32 :: op where "Op_SMull32 \<equiv> Op 0x17A"
abbreviation Op_UMAddl :: op where "Op_UMAddl \<equiv> Op 0x17C"
abbreviation Op_SMAddl :: op where "Op_SMAddl \<equiv> Op 0x180"
abbreviation Op_UMSubl :: op where "Op_UMSubl \<equiv> Op 0x184"
abbreviation Op_SMSubl :: op where "Op_SMSubl \<equiv> Op 0x188"
abbreviation Op_UDiv8 :: op where "Op_UDiv8 \<equiv> Op 0x190"
abbreviation Op_UDiv16 :: op where "Op_UDiv16 \<equiv> Op 0x191"
abbreviation Op_UDiv32 :: op where "Op_UDiv32 \<equiv> Op 0x192"
abbreviation Op_UDiv64 :: op where "Op_UDiv64 \<equiv> Op 0x193"
abbreviation Op_SDiv8 :: op where "Op_SDiv8 \<equiv> Op 0x194"
abbreviation Op_SDiv16 :: op where "Op_SDiv16 \<equiv> Op 0x195"
abbreviation Op_SDiv32 :: op where "Op_SDiv32 \<equiv> Op 0x196"
abbreviation Op_SDiv64 :: op where "Op_SDiv64 \<equiv> Op 0x197"
abbreviation Op_Zext :: op where "Op_Zext \<equiv> Op 0x1A0"
abbreviation Op_Sext :: op where "Op_Sext \<equiv> Op 0x1A4"
abbreviation Op_Clz8 :: op where "Op_Clz8 \<equiv> Op 0x1A8"
abbreviation Op_Clz16 :: op where "Op_Clz16 \<equiv> Op 0x1A9"
abbreviation Op_Clz32 :: op where "Op_Clz32 \<equiv> Op 0x1AA"
abbreviation Op_Clz64 :: op where "Op_Clz64 \<equiv> Op 0x1AB"
abbreviation Op_Cls8 :: op where "Op_Cls8 \<equiv> Op 0x1AC"
abbreviation Op_Cls16 :: op where "Op_Cls16 \<equiv> Op 0x1AD"
abbreviation Op_Cls32 :: op where "Op_Cls32 \<equiv> Op 0x1AE"
abbreviation Op_Cls64 :: op where "Op_Cls64 \<equiv> Op 0x1AF"
abbreviation Op_Rbit8 :: op where "Op_Rbit8 \<equiv> Op 0x1B0"
abbreviation Op_Rbit16 :: op where "Op_Rbit16 \<equiv> Op 0x1B1"
abbreviation Op_Rbit32 :: op where "Op_Rbit32 \<equiv> Op 0x1B2"
abbreviation Op_Rbit64 :: op where "Op_Rbit64 \<equiv> Op 0x1B3"
abbreviation Op_Rev16 :: op where "Op_Rev16 \<equiv> Op 0x1B5"
abbreviation Op_Rev32 :: op where "Op_Rev32 \<equiv> Op 0x1B6"
abbreviation Op_Rev64 :: op where "Op_Rev64 \<equiv> Op 0x1B7"
abbreviation Op_Crc32Ieee8 :: op where "Op_Crc32Ieee8 \<equiv> Op 0x1BC"
abbreviation Op_Crc32Ieee16 :: op where "Op_Crc32Ieee16 \<equiv> Op 0x1BD"
abbreviation Op_Crc32Ieee32 :: op where "Op_Crc32Ieee32 \<equiv> Op 0x1BE"
abbreviation Op_Crc32Ieee64 :: op where "Op_Crc32Ieee64 \<equiv> Op 0x1BF"
abbreviation Op_Crc32Castagnoli8 :: op where "Op_Crc32Castagnoli8 \<equiv> Op 0x1C0"
abbreviation Op_Crc32Castagnoli16 :: op where "Op_Crc32Castagnoli16 \<equiv> Op 0x1C1"
abbreviation Op_Crc32Castagnoli32 :: op where "Op_Crc32Castagnoli32 \<equiv> Op 0x1C2"
abbreviation Op_Crc32Castagnoli64 :: op where "Op_Crc32Castagnoli64 \<equiv> Op 0x1C3"
abbreviation Op_Csel8 :: op where "Op_Csel8 \<equiv> Op 0x200"
abbreviation Op_Csel16 :: op where "Op_Csel16 \<equiv> Op 0x201"
abbreviation Op_Csel32 :: op where "Op_Csel32 \<equiv> Op 0x202"
abbreviation Op_Csel64 :: op where "Op_Csel64 \<equiv> Op 0x203"
abbreviation Op_Csinc8 :: op where "Op_Csinc8 \<equiv> Op 0x204"
abbreviation Op_Csinc16 :: op where "Op_Csinc16 \<equiv> Op 0x205"
abbreviation Op_Csinc32 :: op where "Op_Csinc32 \<equiv> Op 0x206"
abbreviation Op_Csinc64 :: op where "Op_Csinc64 \<equiv> Op 0x207"
abbreviation Op_Csinv8 :: op where "Op_Csinv8 \<equiv> Op 0x208"
abbreviation Op_Csinv16 :: op where "Op_Csinv16 \<equiv> Op 0x209"
abbreviation Op_Csinv32 :: op where "Op_Csinv32 \<equiv> Op 0x20A"
abbreviation Op_Csinv64 :: op where "Op_Csinv64 \<equiv> Op 0x20B"
abbreviation Op_Csneg8 :: op where "Op_Csneg8 \<equiv> Op 0x20C"
abbreviation Op_Csneg16 :: op where "Op_Csneg16 \<equiv> Op 0x20D"
abbreviation Op_Csneg32 :: op where "Op_Csneg32 \<equiv> Op 0x20E"
abbreviation Op_Csneg64 :: op where "Op_Csneg64 \<equiv> Op 0x20F"
abbreviation Op_CcmpReg8 :: op where "Op_CcmpReg8 \<equiv> Op 0x210"
abbreviation Op_CcmpReg16 :: op where "Op_CcmpReg16 \<equiv> Op 0x211"
abbreviation Op_CcmpReg32 :: op where "Op_CcmpReg32 \<equiv> Op 0x212"
abbreviation Op_CcmpReg64 :: op where "Op_CcmpReg64 \<equiv> Op 0x213"
abbreviation Op_CcmpImm8 :: op where "Op_CcmpImm8 \<equiv> Op 0x214"
abbreviation Op_CcmpImm16 :: op where "Op_CcmpImm16 \<equiv> Op 0x215"
abbreviation Op_CcmpImm32 :: op where "Op_CcmpImm32 \<equiv> Op 0x216"
abbreviation Op_CcmpImm64 :: op where "Op_CcmpImm64 \<equiv> Op 0x217"
abbreviation Op_CcmnReg8 :: op where "Op_CcmnReg8 \<equiv> Op 0x218"
abbreviation Op_CcmnReg16 :: op where "Op_CcmnReg16 \<equiv> Op 0x219"
abbreviation Op_CcmnReg32 :: op where "Op_CcmnReg32 \<equiv> Op 0x21A"
abbreviation Op_CcmnReg64 :: op where "Op_CcmnReg64 \<equiv> Op 0x21B"
abbreviation Op_CcmnImm8 :: op where "Op_CcmnImm8 \<equiv> Op 0x21C"
abbreviation Op_CcmnImm16 :: op where "Op_CcmnImm16 \<equiv> Op 0x21D"
abbreviation Op_CcmnImm32 :: op where "Op_CcmnImm32 \<equiv> Op 0x21E"
abbreviation Op_CcmnImm64 :: op where "Op_CcmnImm64 \<equiv> Op 0x21F"
abbreviation Op_Branch :: op where "Op_Branch \<equiv> Op 0x300"
abbreviation Op_BranchLink :: op where "Op_BranchLink \<equiv> Op 0x304"
abbreviation Op_BranchIndirect :: op where "Op_BranchIndirect \<equiv> Op 0x308"
abbreviation Op_BranchIndirectLink :: op where "Op_BranchIndirectLink \<equiv> Op 0x30C"
abbreviation Op_Ret :: op where "Op_Ret \<equiv> Op 0x310"
abbreviation Op_BranchCond :: op where "Op_BranchCond \<equiv> Op 0x314"
abbreviation Op_CbZ :: op where "Op_CbZ \<equiv> Op 0x318"
abbreviation Op_CbNz :: op where "Op_CbNz \<equiv> Op 0x31C"
abbreviation Op_TbZ :: op where "Op_TbZ \<equiv> Op 0x320"
abbreviation Op_TbNz :: op where "Op_TbNz \<equiv> Op 0x324"
abbreviation Op_Load8 :: op where "Op_Load8 \<equiv> Op 0x400"
abbreviation Op_Load16 :: op where "Op_Load16 \<equiv> Op 0x401"
abbreviation Op_Load32 :: op where "Op_Load32 \<equiv> Op 0x402"
abbreviation Op_Load64 :: op where "Op_Load64 \<equiv> Op 0x403"
abbreviation Op_Load128 :: op where "Op_Load128 \<equiv> Op 0x404"
abbreviation Op_LoadS8 :: op where "Op_LoadS8 \<equiv> Op 0x408"
abbreviation Op_LoadS16 :: op where "Op_LoadS16 \<equiv> Op 0x409"
abbreviation Op_LoadS32 :: op where "Op_LoadS32 \<equiv> Op 0x40A"
abbreviation Op_Store8 :: op where "Op_Store8 \<equiv> Op 0x40C"
abbreviation Op_Store16 :: op where "Op_Store16 \<equiv> Op 0x40D"
abbreviation Op_Store32 :: op where "Op_Store32 \<equiv> Op 0x40E"
abbreviation Op_Store64 :: op where "Op_Store64 \<equiv> Op 0x40F"
abbreviation Op_Store128 :: op where "Op_Store128 \<equiv> Op 0x410"
abbreviation Op_LoadAcq8 :: op where "Op_LoadAcq8 \<equiv> Op 0x418"
abbreviation Op_LoadAcq16 :: op where "Op_LoadAcq16 \<equiv> Op 0x419"
abbreviation Op_LoadAcq32 :: op where "Op_LoadAcq32 \<equiv> Op 0x41A"
abbreviation Op_LoadAcq64 :: op where "Op_LoadAcq64 \<equiv> Op 0x41B"
abbreviation Op_StoreRel8 :: op where "Op_StoreRel8 \<equiv> Op 0x41C"
abbreviation Op_StoreRel16 :: op where "Op_StoreRel16 \<equiv> Op 0x41D"
abbreviation Op_StoreRel32 :: op where "Op_StoreRel32 \<equiv> Op 0x41E"
abbreviation Op_StoreRel64 :: op where "Op_StoreRel64 \<equiv> Op 0x41F"
abbreviation Op_LoadEx8 :: op where "Op_LoadEx8 \<equiv> Op 0x420"
abbreviation Op_LoadEx16 :: op where "Op_LoadEx16 \<equiv> Op 0x421"
abbreviation Op_LoadEx32 :: op where "Op_LoadEx32 \<equiv> Op 0x422"
abbreviation Op_LoadEx64 :: op where "Op_LoadEx64 \<equiv> Op 0x423"
abbreviation Op_StoreEx8 :: op where "Op_StoreEx8 \<equiv> Op 0x424"
abbreviation Op_StoreEx16 :: op where "Op_StoreEx16 \<equiv> Op 0x425"
abbreviation Op_StoreEx32 :: op where "Op_StoreEx32 \<equiv> Op 0x426"
abbreviation Op_StoreEx64 :: op where "Op_StoreEx64 \<equiv> Op 0x427"
abbreviation Op_LoadPair8 :: op where "Op_LoadPair8 \<equiv> Op 0x428"
abbreviation Op_LoadPair16 :: op where "Op_LoadPair16 \<equiv> Op 0x429"
abbreviation Op_LoadPair32 :: op where "Op_LoadPair32 \<equiv> Op 0x42A"
abbreviation Op_LoadPair64 :: op where "Op_LoadPair64 \<equiv> Op 0x42B"
abbreviation Op_StorePair8 :: op where "Op_StorePair8 \<equiv> Op 0x42C"
abbreviation Op_StorePair16 :: op where "Op_StorePair16 \<equiv> Op 0x42D"
abbreviation Op_StorePair32 :: op where "Op_StorePair32 \<equiv> Op 0x42E"
abbreviation Op_StorePair64 :: op where "Op_StorePair64 \<equiv> Op 0x42F"
abbreviation Op_AtomicRmw8 :: op where "Op_AtomicRmw8 \<equiv> Op 0x430"
abbreviation Op_AtomicRmw16 :: op where "Op_AtomicRmw16 \<equiv> Op 0x431"
abbreviation Op_AtomicRmw32 :: op where "Op_AtomicRmw32 \<equiv> Op 0x432"
abbreviation Op_AtomicRmw64 :: op where "Op_AtomicRmw64 \<equiv> Op 0x433"
abbreviation Op_AtomicCas8 :: op where "Op_AtomicCas8 \<equiv> Op 0x434"
abbreviation Op_AtomicCas16 :: op where "Op_AtomicCas16 \<equiv> Op 0x435"
abbreviation Op_AtomicCas32 :: op where "Op_AtomicCas32 \<equiv> Op 0x436"
abbreviation Op_AtomicCas64 :: op where "Op_AtomicCas64 \<equiv> Op 0x437"
abbreviation Op_LoadEx128 :: op where "Op_LoadEx128 \<equiv> Op 0x438"
abbreviation Op_StoreEx128 :: op where "Op_StoreEx128 \<equiv> Op 0x43C"
abbreviation Op_AtomicCas128 :: op where "Op_AtomicCas128 \<equiv> Op 0x440"
abbreviation Op_Fmov32 :: op where "Op_Fmov32 \<equiv> Op 0x502"
abbreviation Op_Fmov64 :: op where "Op_Fmov64 \<equiv> Op 0x503"
abbreviation Op_Fadd32 :: op where "Op_Fadd32 \<equiv> Op 0x506"
abbreviation Op_Fadd64 :: op where "Op_Fadd64 \<equiv> Op 0x507"
abbreviation Op_Fsub32 :: op where "Op_Fsub32 \<equiv> Op 0x50A"
abbreviation Op_Fsub64 :: op where "Op_Fsub64 \<equiv> Op 0x50B"
abbreviation Op_Fmul32 :: op where "Op_Fmul32 \<equiv> Op 0x50E"
abbreviation Op_Fmul64 :: op where "Op_Fmul64 \<equiv> Op 0x50F"
abbreviation Op_Fdiv32 :: op where "Op_Fdiv32 \<equiv> Op 0x512"
abbreviation Op_Fdiv64 :: op where "Op_Fdiv64 \<equiv> Op 0x513"
abbreviation Op_Fneg32 :: op where "Op_Fneg32 \<equiv> Op 0x516"
abbreviation Op_Fneg64 :: op where "Op_Fneg64 \<equiv> Op 0x517"
abbreviation Op_Fabs32 :: op where "Op_Fabs32 \<equiv> Op 0x51A"
abbreviation Op_Fabs64 :: op where "Op_Fabs64 \<equiv> Op 0x51B"
abbreviation Op_Fsqrt32 :: op where "Op_Fsqrt32 \<equiv> Op 0x51E"
abbreviation Op_Fsqrt64 :: op where "Op_Fsqrt64 \<equiv> Op 0x51F"
abbreviation Op_Fcmp32 :: op where "Op_Fcmp32 \<equiv> Op 0x522"
abbreviation Op_Fcmp64 :: op where "Op_Fcmp64 \<equiv> Op 0x523"
abbreviation Op_Fmax32 :: op where "Op_Fmax32 \<equiv> Op 0x526"
abbreviation Op_Fmax64 :: op where "Op_Fmax64 \<equiv> Op 0x527"
abbreviation Op_Fmin32 :: op where "Op_Fmin32 \<equiv> Op 0x52A"
abbreviation Op_Fmin64 :: op where "Op_Fmin64 \<equiv> Op 0x52B"
abbreviation Op_FcvtZsSW :: op where "Op_FcvtZsSW \<equiv> Op 0x540"
abbreviation Op_FcvtZsSX :: op where "Op_FcvtZsSX \<equiv> Op 0x541"
abbreviation Op_FcvtZsDW :: op where "Op_FcvtZsDW \<equiv> Op 0x542"
abbreviation Op_FcvtZsDX :: op where "Op_FcvtZsDX \<equiv> Op 0x543"
abbreviation Op_ScvtfWS :: op where "Op_ScvtfWS \<equiv> Op 0x544"
abbreviation Op_ScvtfXS :: op where "Op_ScvtfXS \<equiv> Op 0x545"
abbreviation Op_ScvtfWD :: op where "Op_ScvtfWD \<equiv> Op 0x546"
abbreviation Op_ScvtfXD :: op where "Op_ScvtfXD \<equiv> Op 0x547"
abbreviation Op_FcvtSD :: op where "Op_FcvtSD \<equiv> Op 0x548"
abbreviation Op_FcvtDS :: op where "Op_FcvtDS \<equiv> Op 0x549"
abbreviation Op_FcvtZuSW :: op where "Op_FcvtZuSW \<equiv> Op 0x550"
abbreviation Op_FcvtZuSX :: op where "Op_FcvtZuSX \<equiv> Op 0x551"
abbreviation Op_FcvtZuDW :: op where "Op_FcvtZuDW \<equiv> Op 0x552"
abbreviation Op_FcvtZuDX :: op where "Op_FcvtZuDX \<equiv> Op 0x553"
abbreviation Op_Fmadd32 :: op where "Op_Fmadd32 \<equiv> Op 0x554"
abbreviation Op_Fmadd64 :: op where "Op_Fmadd64 \<equiv> Op 0x555"
abbreviation Op_FrsqrtEstimate32 :: op where "Op_FrsqrtEstimate32 \<equiv> Op 0x55A"
abbreviation Op_FrsqrtEstimate64 :: op where "Op_FrsqrtEstimate64 \<equiv> Op 0x55B"
abbreviation Op_FrsqrtStep32 :: op where "Op_FrsqrtStep32 \<equiv> Op 0x55E"
abbreviation Op_FrsqrtStep64 :: op where "Op_FrsqrtStep64 \<equiv> Op 0x55F"
abbreviation Op_SaturatingNarrow :: op where "Op_SaturatingNarrow \<equiv> Op 0x560"
abbreviation Op_FrecipEstimate32 :: op where "Op_FrecipEstimate32 \<equiv> Op 0x566"
abbreviation Op_FrecipEstimate64 :: op where "Op_FrecipEstimate64 \<equiv> Op 0x567"
abbreviation Op_FrecipStep32 :: op where "Op_FrecipStep32 \<equiv> Op 0x56A"
abbreviation Op_FrecipStep64 :: op where "Op_FrecipStep64 \<equiv> Op 0x56B"
abbreviation Op_FabsDiff32 :: op where "Op_FabsDiff32 \<equiv> Op 0x56E"
abbreviation Op_FabsDiff64 :: op where "Op_FabsDiff64 \<equiv> Op 0x56F"
abbreviation Op_FpMinMaxReduce32 :: op where "Op_FpMinMaxReduce32 \<equiv> Op 0x570"
abbreviation Op_IntMinMaxReduce32 :: op where "Op_IntMinMaxReduce32 \<equiv> Op 0x571"
abbreviation Op_FpMinMaxNum32 :: op where "Op_FpMinMaxNum32 \<equiv> Op 0x574"
abbreviation Op_FpMinMaxNum64 :: op where "Op_FpMinMaxNum64 \<equiv> Op 0x575"
abbreviation Op_SaturatingBinary :: op where "Op_SaturatingBinary \<equiv> Op 0x578"
abbreviation Op_FpAbsoluteCompare32 :: op where "Op_FpAbsoluteCompare32 \<equiv> Op 0x57A"
abbreviation Op_FpAbsoluteCompare64 :: op where "Op_FpAbsoluteCompare64 \<equiv> Op 0x57B"
abbreviation Op_Adcs32 :: op where "Op_Adcs32 \<equiv> Op 0x57E"
abbreviation Op_Adcs64 :: op where "Op_Adcs64 \<equiv> Op 0x57F"
abbreviation Op_Sbcs32 :: op where "Op_Sbcs32 \<equiv> Op 0x582"
abbreviation Op_Sbcs64 :: op where "Op_Sbcs64 \<equiv> Op 0x583"
abbreviation Op_UcvtfWS :: op where "Op_UcvtfWS \<equiv> Op 0x54C"
abbreviation Op_UcvtfXS :: op where "Op_UcvtfXS \<equiv> Op 0x54D"
abbreviation Op_UcvtfWD :: op where "Op_UcvtfWD \<equiv> Op 0x54E"
abbreviation Op_UcvtfXD :: op where "Op_UcvtfXD \<equiv> Op 0x54F"
abbreviation Op_VecAdd8 :: op where "Op_VecAdd8 \<equiv> Op 0x600"
abbreviation Op_VecAdd16 :: op where "Op_VecAdd16 \<equiv> Op 0x601"
abbreviation Op_VecAdd32 :: op where "Op_VecAdd32 \<equiv> Op 0x602"
abbreviation Op_VecAdd64 :: op where "Op_VecAdd64 \<equiv> Op 0x603"
abbreviation Op_VecSub8 :: op where "Op_VecSub8 \<equiv> Op 0x604"
abbreviation Op_VecSub16 :: op where "Op_VecSub16 \<equiv> Op 0x605"
abbreviation Op_VecSub32 :: op where "Op_VecSub32 \<equiv> Op 0x606"
abbreviation Op_VecSub64 :: op where "Op_VecSub64 \<equiv> Op 0x607"
abbreviation Op_VecAnd :: op where "Op_VecAnd \<equiv> Op 0x608"
abbreviation Op_VecOrr :: op where "Op_VecOrr \<equiv> Op 0x60C"
abbreviation Op_VecEor :: op where "Op_VecEor \<equiv> Op 0x610"
abbreviation Op_VecBic :: op where "Op_VecBic \<equiv> Op 0x614"
abbreviation Op_VecOrn :: op where "Op_VecOrn \<equiv> Op 0x618"
abbreviation Op_VecDupGpr8 :: op where "Op_VecDupGpr8 \<equiv> Op 0x61C"
abbreviation Op_VecDupGpr16 :: op where "Op_VecDupGpr16 \<equiv> Op 0x61D"
abbreviation Op_VecDupGpr32 :: op where "Op_VecDupGpr32 \<equiv> Op 0x61E"
abbreviation Op_VecDupGpr64 :: op where "Op_VecDupGpr64 \<equiv> Op 0x61F"
abbreviation Op_VecInsGpr8 :: op where "Op_VecInsGpr8 \<equiv> Op 0x620"
abbreviation Op_VecInsGpr16 :: op where "Op_VecInsGpr16 \<equiv> Op 0x621"
abbreviation Op_VecInsGpr32 :: op where "Op_VecInsGpr32 \<equiv> Op 0x622"
abbreviation Op_VecInsGpr64 :: op where "Op_VecInsGpr64 \<equiv> Op 0x623"
abbreviation Op_VecBuildQ :: op where "Op_VecBuildQ \<equiv> Op 0x62C"
abbreviation Op_VecExtractLo64 :: op where "Op_VecExtractLo64 \<equiv> Op 0x630"
abbreviation Op_VecExtractHi64 :: op where "Op_VecExtractHi64 \<equiv> Op 0x634"
abbreviation Op_VecExtract8 :: op where "Op_VecExtract8 \<equiv> Op 0x638"
abbreviation Op_VecExtract16 :: op where "Op_VecExtract16 \<equiv> Op 0x639"
abbreviation Op_VecExtract32 :: op where "Op_VecExtract32 \<equiv> Op 0x63A"
abbreviation Op_VecNeg8 :: op where "Op_VecNeg8 \<equiv> Op 0x640"
abbreviation Op_VecNeg16 :: op where "Op_VecNeg16 \<equiv> Op 0x641"
abbreviation Op_VecNeg32 :: op where "Op_VecNeg32 \<equiv> Op 0x642"
abbreviation Op_VecNeg64 :: op where "Op_VecNeg64 \<equiv> Op 0x643"
abbreviation Op_VecAbs8 :: op where "Op_VecAbs8 \<equiv> Op 0x644"
abbreviation Op_VecAbs16 :: op where "Op_VecAbs16 \<equiv> Op 0x645"
abbreviation Op_VecAbs32 :: op where "Op_VecAbs32 \<equiv> Op 0x646"
abbreviation Op_VecAbs64 :: op where "Op_VecAbs64 \<equiv> Op 0x647"
abbreviation Op_VecNot :: op where "Op_VecNot \<equiv> Op 0x648"
abbreviation Op_VecMul8 :: op where "Op_VecMul8 \<equiv> Op 0x64C"
abbreviation Op_VecMul16 :: op where "Op_VecMul16 \<equiv> Op 0x64D"
abbreviation Op_VecMul32 :: op where "Op_VecMul32 \<equiv> Op 0x64E"
abbreviation Op_VecMul64 :: op where "Op_VecMul64 \<equiv> Op 0x64F"
abbreviation Op_VecShlImm8 :: op where "Op_VecShlImm8 \<equiv> Op 0x650"
abbreviation Op_VecShlImm16 :: op where "Op_VecShlImm16 \<equiv> Op 0x651"
abbreviation Op_VecShlImm32 :: op where "Op_VecShlImm32 \<equiv> Op 0x652"
abbreviation Op_VecShlImm64 :: op where "Op_VecShlImm64 \<equiv> Op 0x653"
abbreviation Op_VecUshrImm8 :: op where "Op_VecUshrImm8 \<equiv> Op 0x654"
abbreviation Op_VecUshrImm16 :: op where "Op_VecUshrImm16 \<equiv> Op 0x655"
abbreviation Op_VecUshrImm32 :: op where "Op_VecUshrImm32 \<equiv> Op 0x656"
abbreviation Op_VecUshrImm64 :: op where "Op_VecUshrImm64 \<equiv> Op 0x657"
abbreviation Op_VecSshrImm8 :: op where "Op_VecSshrImm8 \<equiv> Op 0x658"
abbreviation Op_VecSshrImm16 :: op where "Op_VecSshrImm16 \<equiv> Op 0x659"
abbreviation Op_VecSshrImm32 :: op where "Op_VecSshrImm32 \<equiv> Op 0x65A"
abbreviation Op_VecSshrImm64 :: op where "Op_VecSshrImm64 \<equiv> Op 0x65B"
abbreviation Op_VecCmEq8 :: op where "Op_VecCmEq8 \<equiv> Op 0x65C"
abbreviation Op_VecCmEq16 :: op where "Op_VecCmEq16 \<equiv> Op 0x65D"
abbreviation Op_VecCmEq32 :: op where "Op_VecCmEq32 \<equiv> Op 0x65E"
abbreviation Op_VecCmEq64 :: op where "Op_VecCmEq64 \<equiv> Op 0x65F"
abbreviation Op_VecCmGt8 :: op where "Op_VecCmGt8 \<equiv> Op 0x660"
abbreviation Op_VecCmGt16 :: op where "Op_VecCmGt16 \<equiv> Op 0x661"
abbreviation Op_VecCmGt32 :: op where "Op_VecCmGt32 \<equiv> Op 0x662"
abbreviation Op_VecCmGt64 :: op where "Op_VecCmGt64 \<equiv> Op 0x663"
abbreviation Op_VecCmGe8 :: op where "Op_VecCmGe8 \<equiv> Op 0x664"
abbreviation Op_VecCmGe16 :: op where "Op_VecCmGe16 \<equiv> Op 0x665"
abbreviation Op_VecCmGe32 :: op where "Op_VecCmGe32 \<equiv> Op 0x666"
abbreviation Op_VecCmGe64 :: op where "Op_VecCmGe64 \<equiv> Op 0x667"
abbreviation Op_VecCmHi8 :: op where "Op_VecCmHi8 \<equiv> Op 0x668"
abbreviation Op_VecCmHi16 :: op where "Op_VecCmHi16 \<equiv> Op 0x669"
abbreviation Op_VecCmHi32 :: op where "Op_VecCmHi32 \<equiv> Op 0x66A"
abbreviation Op_VecCmHi64 :: op where "Op_VecCmHi64 \<equiv> Op 0x66B"
abbreviation Op_VecCmHs8 :: op where "Op_VecCmHs8 \<equiv> Op 0x66C"
abbreviation Op_VecCmHs16 :: op where "Op_VecCmHs16 \<equiv> Op 0x66D"
abbreviation Op_VecCmHs32 :: op where "Op_VecCmHs32 \<equiv> Op 0x66E"
abbreviation Op_VecCmHs64 :: op where "Op_VecCmHs64 \<equiv> Op 0x66F"
abbreviation Op_VecBit :: op where "Op_VecBit \<equiv> Op 0x670"
abbreviation Op_VecBif :: op where "Op_VecBif \<equiv> Op 0x674"
abbreviation Op_VecBsl :: op where "Op_VecBsl \<equiv> Op 0x678"
abbreviation Op_VecExt :: op where "Op_VecExt \<equiv> Op 0x67C"
abbreviation Op_VecZip1_8 :: op where "Op_VecZip1_8 \<equiv> Op 0x680"
abbreviation Op_VecZip1_16 :: op where "Op_VecZip1_16 \<equiv> Op 0x681"
abbreviation Op_VecZip1_32 :: op where "Op_VecZip1_32 \<equiv> Op 0x682"
abbreviation Op_VecZip1_64 :: op where "Op_VecZip1_64 \<equiv> Op 0x683"
abbreviation Op_VecZip2_8 :: op where "Op_VecZip2_8 \<equiv> Op 0x684"
abbreviation Op_VecZip2_16 :: op where "Op_VecZip2_16 \<equiv> Op 0x685"
abbreviation Op_VecZip2_32 :: op where "Op_VecZip2_32 \<equiv> Op 0x686"
abbreviation Op_VecZip2_64 :: op where "Op_VecZip2_64 \<equiv> Op 0x687"
abbreviation Op_VecSmin8 :: op where "Op_VecSmin8 \<equiv> Op 0x688"
abbreviation Op_VecSmin16 :: op where "Op_VecSmin16 \<equiv> Op 0x689"
abbreviation Op_VecSmin32 :: op where "Op_VecSmin32 \<equiv> Op 0x68A"
abbreviation Op_VecSmin64 :: op where "Op_VecSmin64 \<equiv> Op 0x68B"
abbreviation Op_VecSmax8 :: op where "Op_VecSmax8 \<equiv> Op 0x68C"
abbreviation Op_VecSmax16 :: op where "Op_VecSmax16 \<equiv> Op 0x68D"
abbreviation Op_VecSmax32 :: op where "Op_VecSmax32 \<equiv> Op 0x68E"
abbreviation Op_VecSmax64 :: op where "Op_VecSmax64 \<equiv> Op 0x68F"
abbreviation Op_VecUmin8 :: op where "Op_VecUmin8 \<equiv> Op 0x690"
abbreviation Op_VecUmin16 :: op where "Op_VecUmin16 \<equiv> Op 0x691"
abbreviation Op_VecUmin32 :: op where "Op_VecUmin32 \<equiv> Op 0x692"
abbreviation Op_VecUmin64 :: op where "Op_VecUmin64 \<equiv> Op 0x693"
abbreviation Op_VecUmax8 :: op where "Op_VecUmax8 \<equiv> Op 0x694"
abbreviation Op_VecUmax16 :: op where "Op_VecUmax16 \<equiv> Op 0x695"
abbreviation Op_VecUmax32 :: op where "Op_VecUmax32 \<equiv> Op 0x696"
abbreviation Op_VecUmax64 :: op where "Op_VecUmax64 \<equiv> Op 0x697"
abbreviation Op_VecAddv32 :: op where "Op_VecAddv32 \<equiv> Op 0x698"
abbreviation Op_VecFAdd_S :: op where "Op_VecFAdd_S \<equiv> Op 0x6A0"
abbreviation Op_VecFAdd_D :: op where "Op_VecFAdd_D \<equiv> Op 0x6A1"
abbreviation Op_VecFSub_S :: op where "Op_VecFSub_S \<equiv> Op 0x6A2"
abbreviation Op_VecFSub_D :: op where "Op_VecFSub_D \<equiv> Op 0x6A3"
abbreviation Op_VecFMul_S :: op where "Op_VecFMul_S \<equiv> Op 0x6A4"
abbreviation Op_VecFMul_D :: op where "Op_VecFMul_D \<equiv> Op 0x6A5"
abbreviation Op_VecFDiv_S :: op where "Op_VecFDiv_S \<equiv> Op 0x6A6"
abbreviation Op_VecFDiv_D :: op where "Op_VecFDiv_D \<equiv> Op 0x6A7"
abbreviation Op_VecFMax_S :: op where "Op_VecFMax_S \<equiv> Op 0x6A8"
abbreviation Op_VecFMax_D :: op where "Op_VecFMax_D \<equiv> Op 0x6A9"
abbreviation Op_VecFMin_S :: op where "Op_VecFMin_S \<equiv> Op 0x6AA"
abbreviation Op_VecFMin_D :: op where "Op_VecFMin_D \<equiv> Op 0x6AB"
abbreviation Op_VecFNeg_S :: op where "Op_VecFNeg_S \<equiv> Op 0x6AC"
abbreviation Op_VecFNeg_D :: op where "Op_VecFNeg_D \<equiv> Op 0x6AD"
abbreviation Op_VecFAbs_S :: op where "Op_VecFAbs_S \<equiv> Op 0x6AE"
abbreviation Op_VecFAbs_D :: op where "Op_VecFAbs_D \<equiv> Op 0x6AF"
abbreviation Op_VecFSqrt_S :: op where "Op_VecFSqrt_S \<equiv> Op 0x6B0"
abbreviation Op_VecFSqrt_D :: op where "Op_VecFSqrt_D \<equiv> Op 0x6B1"
abbreviation Op_VecSaddl :: op where "Op_VecSaddl \<equiv> Op 0x6B4"
abbreviation Op_VecUaddl :: op where "Op_VecUaddl \<equiv> Op 0x6B8"
abbreviation Op_VecSsubl :: op where "Op_VecSsubl \<equiv> Op 0x6E0"
abbreviation Op_VecUsubl :: op where "Op_VecUsubl \<equiv> Op 0x6E4"
abbreviation Op_VecSmull :: op where "Op_VecSmull \<equiv> Op 0x6E8"
abbreviation Op_VecUmull :: op where "Op_VecUmull \<equiv> Op 0x6EC"
abbreviation Op_VecXtn :: op where "Op_VecXtn \<equiv> Op 0x6BC"
abbreviation Op_VecXtn2 :: op where "Op_VecXtn2 \<equiv> Op 0x6F0"
abbreviation Op_VecFCmEq_S :: op where "Op_VecFCmEq_S \<equiv> Op 0x6F4"
abbreviation Op_VecFCmEq_D :: op where "Op_VecFCmEq_D \<equiv> Op 0x6F5"
abbreviation Op_VecFCmGt_S :: op where "Op_VecFCmGt_S \<equiv> Op 0x6F8"
abbreviation Op_VecFCmGt_D :: op where "Op_VecFCmGt_D \<equiv> Op 0x6F9"
abbreviation Op_VecFCmGe_S :: op where "Op_VecFCmGe_S \<equiv> Op 0x6FC"
abbreviation Op_VecFCmGe_D :: op where "Op_VecFCmGe_D \<equiv> Op 0x6FD"
abbreviation Op_VecTbl :: op where "Op_VecTbl \<equiv> Op 0x6C0"
abbreviation Op_VecRev16 :: op where "Op_VecRev16 \<equiv> Op 0x6C4"
abbreviation Op_VecRev32 :: op where "Op_VecRev32 \<equiv> Op 0x6C8"
abbreviation Op_VecRev64 :: op where "Op_VecRev64 \<equiv> Op 0x6CC"
abbreviation Op_VecUzp1 :: op where "Op_VecUzp1 \<equiv> Op 0x6D0"
abbreviation Op_VecUzp2 :: op where "Op_VecUzp2 \<equiv> Op 0x6D4"
abbreviation Op_VecTrn1 :: op where "Op_VecTrn1 \<equiv> Op 0x6D8"
abbreviation Op_VecTrn2 :: op where "Op_VecTrn2 \<equiv> Op 0x6DC"
abbreviation Op_VecFmla_S :: op where "Op_VecFmla_S \<equiv> Op 0x720"
abbreviation Op_VecFmla_D :: op where "Op_VecFmla_D \<equiv> Op 0x721"
abbreviation Op_VecFmls_S :: op where "Op_VecFmls_S \<equiv> Op 0x724"
abbreviation Op_VecFmls_D :: op where "Op_VecFmls_D \<equiv> Op 0x725"
abbreviation Op_VecTbl2 :: op where "Op_VecTbl2 \<equiv> Op 0x728"
abbreviation Op_VecTbl3 :: op where "Op_VecTbl3 \<equiv> Op 0x72C"
abbreviation Op_VecFRintN_S :: op where "Op_VecFRintN_S \<equiv> Op 0x730"
abbreviation Op_VecFRintN_D :: op where "Op_VecFRintN_D \<equiv> Op 0x731"
abbreviation Op_VecFRintM_S :: op where "Op_VecFRintM_S \<equiv> Op 0x734"
abbreviation Op_VecFRintM_D :: op where "Op_VecFRintM_D \<equiv> Op 0x735"
abbreviation Op_VecFRintP_S :: op where "Op_VecFRintP_S \<equiv> Op 0x738"
abbreviation Op_VecFRintP_D :: op where "Op_VecFRintP_D \<equiv> Op 0x739"
abbreviation Op_VecFRintZ_S :: op where "Op_VecFRintZ_S \<equiv> Op 0x73C"
abbreviation Op_VecFRintZ_D :: op where "Op_VecFRintZ_D \<equiv> Op 0x73D"
abbreviation Op_VecFRintA_S :: op where "Op_VecFRintA_S \<equiv> Op 0x740"
abbreviation Op_VecFRintA_D :: op where "Op_VecFRintA_D \<equiv> Op 0x741"
abbreviation Op_VecFRintX_S :: op where "Op_VecFRintX_S \<equiv> Op 0x744"
abbreviation Op_VecFRintX_D :: op where "Op_VecFRintX_D \<equiv> Op 0x745"
abbreviation Op_VecUshl8 :: op where "Op_VecUshl8 \<equiv> Op 0x748"
abbreviation Op_VecUshl16 :: op where "Op_VecUshl16 \<equiv> Op 0x749"
abbreviation Op_VecUshl32 :: op where "Op_VecUshl32 \<equiv> Op 0x74A"
abbreviation Op_VecUshl64 :: op where "Op_VecUshl64 \<equiv> Op 0x74B"
abbreviation Op_VecSshl8 :: op where "Op_VecSshl8 \<equiv> Op 0x74C"
abbreviation Op_VecSshl16 :: op where "Op_VecSshl16 \<equiv> Op 0x74D"
abbreviation Op_VecSshl32 :: op where "Op_VecSshl32 \<equiv> Op 0x74E"
abbreviation Op_VecSshl64 :: op where "Op_VecSshl64 \<equiv> Op 0x74F"
abbreviation Op_AesEncrypt :: op where "Op_AesEncrypt \<equiv> Op 0x750"
abbreviation Op_AesDecrypt :: op where "Op_AesDecrypt \<equiv> Op 0x754"
abbreviation Op_AesMixColumns :: op where "Op_AesMixColumns \<equiv> Op 0x758"
abbreviation Op_AesInverseMixColumns :: op where "Op_AesInverseMixColumns \<equiv> Op 0x75C"
abbreviation Op_Sha256Hash :: op where "Op_Sha256Hash \<equiv> Op 0x760"
abbreviation Op_Sha256Hash2 :: op where "Op_Sha256Hash2 \<equiv> Op 0x764"
abbreviation Op_Sha256Schedule0 :: op where "Op_Sha256Schedule0 \<equiv> Op 0x768"
abbreviation Op_Sha256Schedule1 :: op where "Op_Sha256Schedule1 \<equiv> Op 0x76C"
abbreviation Op_ScalarFpPair32 :: op where "Op_ScalarFpPair32 \<equiv> Op 0x770"
abbreviation Op_ScalarFpPair64 :: op where "Op_ScalarFpPair64 \<equiv> Op 0x771"
abbreviation Op_VecBitAffine :: op where "Op_VecBitAffine \<equiv> Op 0x77C"
abbreviation Op_VecClz16 :: op where "Op_VecClz16 \<equiv> Op 0x781"
abbreviation Op_VecClz32 :: op where "Op_VecClz32 \<equiv> Op 0x785"
abbreviation Op_Sm4Encrypt :: op where "Op_Sm4Encrypt \<equiv> Op 0x782"
abbreviation Op_Sm4KeySchedule :: op where "Op_Sm4KeySchedule \<equiv> Op 0x783"
abbreviation Op_Mrs :: op where "Op_Mrs \<equiv> Op 0x700"
abbreviation Op_Msr :: op where "Op_Msr \<equiv> Op 0x704"
abbreviation Op_Hint :: op where "Op_Hint \<equiv> Op 0x708"
abbreviation Op_Brk :: op where "Op_Brk \<equiv> Op 0x70C"
abbreviation Op_Svc :: op where "Op_Svc \<equiv> Op 0x710"
abbreviation Op_Hvc :: op where "Op_Hvc \<equiv> Op 0x714"
abbreviation Op_MemoryBarrier :: op where "Op_MemoryBarrier \<equiv> Op 0x718"
abbreviation Op_Clrex :: op where "Op_Clrex \<equiv> Op 0x71C"
abbreviation Op_CallHelper :: op where "Op_CallHelper \<equiv> Op 0x800"

section \<open>The variants, in the order of the enum\<close>

definition core_ops :: "op list" where
  "core_ops =
    [Op_Void, Op_Identity, Op_ConstU32, Op_ConstU64, Op_ConstU128, Op_GetX, Op_SetX,
     Op_GetW, Op_SetW, Op_GetSp, Op_SetSp, Op_GetNzcv, Op_SetNzcv, Op_GetPc, Op_GetV,
     Op_SetV]"

definition scalar_ops :: "op list" where
  "scalar_ops =
    [Op_Add8, Op_Add16, Op_Add32, Op_Add64, Op_Sub8, Op_Sub16, Op_Sub32, Op_Sub64, Op_Adc8,
     Op_Adc16, Op_Adc32, Op_Adc64, Op_Sbc8, Op_Sbc16, Op_Sbc32, Op_Sbc64, Op_AddsFlags8,
     Op_AddsFlags16, Op_AddsFlags32, Op_AddsFlags64, Op_SubsFlags8, Op_SubsFlags16,
     Op_SubsFlags32, Op_SubsFlags64, Op_And8, Op_And16, Op_And32, Op_And64, Op_Or8, Op_Or16,
     Op_Or32, Op_Or64, Op_Eor8, Op_Eor16, Op_Eor32, Op_Eor64, Op_Bic8, Op_Bic16, Op_Bic32,
     Op_Bic64, Op_Orn8, Op_Orn16, Op_Orn32, Op_Orn64, Op_Eon8, Op_Eon16, Op_Eon32, Op_Eon64,
     Op_Not8, Op_Not16, Op_Not32, Op_Not64, Op_Neg8, Op_Neg16, Op_Neg32, Op_Neg64,
     Op_LogicFlags32, Op_LogicFlags64, Op_Lsl8, Op_Lsl16, Op_Lsl32, Op_Lsl64, Op_Lsr8,
     Op_Lsr16, Op_Lsr32, Op_Lsr64, Op_Asr8, Op_Asr16, Op_Asr32, Op_Asr64, Op_Ror8, Op_Ror16,
     Op_Ror32, Op_Ror64, Op_Ubfm8, Op_Ubfm16, Op_Ubfm32, Op_Ubfm64, Op_Sbfm8, Op_Sbfm16,
     Op_Sbfm32, Op_Sbfm64, Op_Bfm8, Op_Bfm16, Op_Bfm32, Op_Bfm64, Op_Extr8, Op_Extr16,
     Op_Extr32, Op_Extr64, Op_Mul8, Op_Mul16, Op_Mul32, Op_Mul64, Op_Madd8, Op_Madd16,
     Op_Madd32, Op_Madd64, Op_Msub8, Op_Msub16, Op_Msub32, Op_Msub64, Op_UMulH64,
     Op_SMulH64, Op_UMull32, Op_SMull32, Op_UMAddl, Op_SMAddl, Op_UMSubl, Op_SMSubl,
     Op_UDiv8, Op_UDiv16, Op_UDiv32, Op_UDiv64, Op_SDiv8, Op_SDiv16, Op_SDiv32, Op_SDiv64]"

definition convert_ops :: "op list" where
  "convert_ops =
    [Op_Zext, Op_Sext, Op_Clz8, Op_Clz16, Op_Clz32, Op_Clz64, Op_Cls8, Op_Cls16, Op_Cls32,
     Op_Cls64, Op_Rbit8, Op_Rbit16, Op_Rbit32, Op_Rbit64, Op_Rev16, Op_Rev32, Op_Rev64,
     Op_Crc32Ieee8, Op_Crc32Ieee16, Op_Crc32Ieee32, Op_Crc32Ieee64, Op_Crc32Castagnoli8,
     Op_Crc32Castagnoli16, Op_Crc32Castagnoli32, Op_Crc32Castagnoli64]"

definition cond_ops :: "op list" where
  "cond_ops =
    [Op_Csel8, Op_Csel16, Op_Csel32, Op_Csel64, Op_Csinc8, Op_Csinc16, Op_Csinc32,
     Op_Csinc64, Op_Csinv8, Op_Csinv16, Op_Csinv32, Op_Csinv64, Op_Csneg8, Op_Csneg16,
     Op_Csneg32, Op_Csneg64, Op_CcmpReg8, Op_CcmpReg16, Op_CcmpReg32, Op_CcmpReg64,
     Op_CcmpImm8, Op_CcmpImm16, Op_CcmpImm32, Op_CcmpImm64, Op_CcmnReg8, Op_CcmnReg16,
     Op_CcmnReg32, Op_CcmnReg64, Op_CcmnImm8, Op_CcmnImm16, Op_CcmnImm32, Op_CcmnImm64]"

definition branch_ops :: "op list" where
  "branch_ops =
    [Op_Branch, Op_BranchLink, Op_BranchIndirect, Op_BranchIndirectLink, Op_Ret,
     Op_BranchCond, Op_CbZ, Op_CbNz, Op_TbZ, Op_TbNz]"

definition memory_ops :: "op list" where
  "memory_ops =
    [Op_Load8, Op_Load16, Op_Load32, Op_Load64, Op_Load128, Op_LoadS8, Op_LoadS16,
     Op_LoadS32, Op_Store8, Op_Store16, Op_Store32, Op_Store64, Op_Store128, Op_LoadAcq8,
     Op_LoadAcq16, Op_LoadAcq32, Op_LoadAcq64, Op_StoreRel8, Op_StoreRel16, Op_StoreRel32,
     Op_StoreRel64, Op_LoadEx8, Op_LoadEx16, Op_LoadEx32, Op_LoadEx64, Op_StoreEx8,
     Op_StoreEx16, Op_StoreEx32, Op_StoreEx64, Op_LoadPair8, Op_LoadPair16, Op_LoadPair32,
     Op_LoadPair64, Op_StorePair8, Op_StorePair16, Op_StorePair32, Op_StorePair64,
     Op_AtomicRmw8, Op_AtomicRmw16, Op_AtomicRmw32, Op_AtomicRmw64, Op_AtomicCas8,
     Op_AtomicCas16, Op_AtomicCas32, Op_AtomicCas64, Op_LoadEx128, Op_StoreEx128,
     Op_AtomicCas128]"

definition fp_ops :: "op list" where
  "fp_ops =
    [Op_Fmov32, Op_Fmov64, Op_Fadd32, Op_Fadd64, Op_Fsub32, Op_Fsub64, Op_Fmul32, Op_Fmul64,
     Op_Fdiv32, Op_Fdiv64, Op_Fneg32, Op_Fneg64, Op_Fabs32, Op_Fabs64, Op_Fsqrt32,
     Op_Fsqrt64, Op_Fcmp32, Op_Fcmp64, Op_Fmax32, Op_Fmax64, Op_Fmin32, Op_Fmin64,
     Op_FcvtZsSW, Op_FcvtZsSX, Op_FcvtZsDW, Op_FcvtZsDX, Op_ScvtfWS, Op_ScvtfXS, Op_ScvtfWD,
     Op_ScvtfXD, Op_FcvtSD, Op_FcvtDS, Op_FcvtZuSW, Op_FcvtZuSX, Op_FcvtZuDW, Op_FcvtZuDX,
     Op_Fmadd32, Op_Fmadd64, Op_FrsqrtEstimate32, Op_FrsqrtEstimate64, Op_FrsqrtStep32,
     Op_FrsqrtStep64, Op_SaturatingNarrow, Op_FrecipEstimate32, Op_FrecipEstimate64,
     Op_FrecipStep32, Op_FrecipStep64, Op_FabsDiff32, Op_FabsDiff64, Op_FpMinMaxReduce32,
     Op_IntMinMaxReduce32, Op_FpMinMaxNum32, Op_FpMinMaxNum64, Op_SaturatingBinary,
     Op_FpAbsoluteCompare32, Op_FpAbsoluteCompare64, Op_Adcs32, Op_Adcs64, Op_Sbcs32,
     Op_Sbcs64, Op_UcvtfWS, Op_UcvtfXS, Op_UcvtfWD, Op_UcvtfXD]"

definition vector_ops :: "op list" where
  "vector_ops =
    [Op_VecAdd8, Op_VecAdd16, Op_VecAdd32, Op_VecAdd64, Op_VecSub8, Op_VecSub16,
     Op_VecSub32, Op_VecSub64, Op_VecAnd, Op_VecOrr, Op_VecEor, Op_VecBic, Op_VecOrn,
     Op_VecDupGpr8, Op_VecDupGpr16, Op_VecDupGpr32, Op_VecDupGpr64, Op_VecInsGpr8,
     Op_VecInsGpr16, Op_VecInsGpr32, Op_VecInsGpr64, Op_VecBuildQ, Op_VecExtractLo64,
     Op_VecExtractHi64, Op_VecExtract8, Op_VecExtract16, Op_VecExtract32, Op_VecNeg8,
     Op_VecNeg16, Op_VecNeg32, Op_VecNeg64, Op_VecAbs8, Op_VecAbs16, Op_VecAbs32,
     Op_VecAbs64, Op_VecNot, Op_VecMul8, Op_VecMul16, Op_VecMul32, Op_VecMul64,
     Op_VecShlImm8, Op_VecShlImm16, Op_VecShlImm32, Op_VecShlImm64, Op_VecUshrImm8,
     Op_VecUshrImm16, Op_VecUshrImm32, Op_VecUshrImm64, Op_VecSshrImm8, Op_VecSshrImm16,
     Op_VecSshrImm32, Op_VecSshrImm64, Op_VecCmEq8, Op_VecCmEq16, Op_VecCmEq32, Op_VecCmEq64]"

definition vector_ops2 :: "op list" where
  "vector_ops2 =
    [Op_VecCmGt8, Op_VecCmGt16, Op_VecCmGt32, Op_VecCmGt64, Op_VecCmGe8, Op_VecCmGe16,
     Op_VecCmGe32, Op_VecCmGe64, Op_VecCmHi8, Op_VecCmHi16, Op_VecCmHi32, Op_VecCmHi64,
     Op_VecCmHs8, Op_VecCmHs16, Op_VecCmHs32, Op_VecCmHs64, Op_VecBit, Op_VecBif, Op_VecBsl,
     Op_VecExt, Op_VecZip1_8, Op_VecZip1_16, Op_VecZip1_32, Op_VecZip1_64, Op_VecZip2_8,
     Op_VecZip2_16, Op_VecZip2_32, Op_VecZip2_64, Op_VecSmin8, Op_VecSmin16, Op_VecSmin32,
     Op_VecSmin64, Op_VecSmax8, Op_VecSmax16, Op_VecSmax32, Op_VecSmax64, Op_VecUmin8,
     Op_VecUmin16, Op_VecUmin32, Op_VecUmin64, Op_VecUmax8, Op_VecUmax16, Op_VecUmax32,
     Op_VecUmax64, Op_VecAddv32, Op_VecFAdd_S, Op_VecFAdd_D, Op_VecFSub_S, Op_VecFSub_D,
     Op_VecFMul_S, Op_VecFMul_D, Op_VecFDiv_S, Op_VecFDiv_D, Op_VecFMax_S, Op_VecFMax_D,
     Op_VecFMin_S, Op_VecFMin_D, Op_VecFNeg_S, Op_VecFNeg_D, Op_VecFAbs_S, Op_VecFAbs_D,
     Op_VecFSqrt_S, Op_VecFSqrt_D, Op_VecSaddl, Op_VecUaddl, Op_VecSsubl, Op_VecUsubl,
     Op_VecSmull, Op_VecUmull, Op_VecXtn, Op_VecXtn2, Op_VecFCmEq_S, Op_VecFCmEq_D,
     Op_VecFCmGt_S, Op_VecFCmGt_D, Op_VecFCmGe_S, Op_VecFCmGe_D, Op_VecTbl, Op_VecRev16,
     Op_VecRev32, Op_VecRev64, Op_VecUzp1, Op_VecUzp2, Op_VecTrn1, Op_VecTrn2, Op_VecFmla_S,
     Op_VecFmla_D, Op_VecFmls_S, Op_VecFmls_D, Op_VecTbl2, Op_VecTbl3, Op_VecFRintN_S,
     Op_VecFRintN_D, Op_VecFRintM_S, Op_VecFRintM_D, Op_VecFRintP_S, Op_VecFRintP_D,
     Op_VecFRintZ_S, Op_VecFRintZ_D, Op_VecFRintA_S, Op_VecFRintA_D, Op_VecFRintX_S,
     Op_VecFRintX_D, Op_VecUshl8, Op_VecUshl16, Op_VecUshl32, Op_VecUshl64, Op_VecSshl8,
     Op_VecSshl16, Op_VecSshl32, Op_VecSshl64, Op_AesEncrypt, Op_AesDecrypt,
     Op_AesMixColumns, Op_AesInverseMixColumns, Op_Sha256Hash, Op_Sha256Hash2,
     Op_Sha256Schedule0, Op_Sha256Schedule1, Op_ScalarFpPair32, Op_ScalarFpPair64,
     Op_VecBitAffine, Op_VecClz16, Op_VecClz32, Op_Sm4Encrypt, Op_Sm4KeySchedule]"

definition system_ops :: "op list" where
  "system_ops =
    [Op_Mrs, Op_Msr, Op_Hint, Op_Brk, Op_Svc, Op_Hvc, Op_MemoryBarrier, Op_Clrex,
     Op_CallHelper]"

definition all_ops :: "op list" where
  "all_ops = core_ops @ scalar_ops @ convert_ops @ cond_ops @ branch_ops @ memory_ops @
     fp_ops @ vector_ops @ vector_ops2 @ system_ops"

section \<open>Families and sizes\<close>

definition base :: "op \<Rightarrow> u16" where
  "base a = raw a AND NOT 0b11"

definition size_log2 :: "op \<Rightarrow> u32" where
  "size_log2 a = ucast (raw a AND 0b11)"

definition size_bytes :: "op \<Rightarrow> u32" where
  "size_bytes a = push_bit (unat (size_log2 a)) 1"

definition size_bits :: "op \<Rightarrow> u32" where
  "size_bits a = push_bit (unat (size_log2 a)) 8"

section \<open>Effects\<close>

definition side_effect_ops :: "op list" where
  "side_effect_ops =
    [Op_SetX, Op_SetW, Op_SetSp, Op_SetNzcv, Op_SetV, Op_AddsFlags32, Op_AddsFlags64,
     Op_SubsFlags32, Op_SubsFlags64, Op_LogicFlags32, Op_LogicFlags64, Op_AtomicRmw8,
     Op_AtomicRmw16, Op_AtomicRmw32, Op_AtomicRmw64, Op_AtomicCas8, Op_AtomicCas16,
     Op_AtomicCas32, Op_AtomicCas64, Op_LoadEx128, Op_StoreEx128, Op_AtomicCas128,
     Op_Fcmp32, Op_Fcmp64, Op_FrsqrtEstimate32, Op_FrsqrtEstimate64, Op_FrsqrtStep32,
     Op_FrsqrtStep64, Op_SaturatingNarrow, Op_FrecipEstimate32, Op_FrecipEstimate64,
     Op_FrecipStep32, Op_FrecipStep64, Op_FabsDiff32, Op_FabsDiff64, Op_FpMinMaxReduce32,
     Op_FpMinMaxNum32, Op_FpMinMaxNum64, Op_ScalarFpPair32, Op_ScalarFpPair64,
     Op_SaturatingBinary, Op_FpAbsoluteCompare32, Op_FpAbsoluteCompare64, Op_Adcs32,
     Op_Adcs64, Op_Sbcs32, Op_Sbcs64, Op_Mrs, Op_Msr, Op_Brk, Op_Svc, Op_Hvc, Op_Hint,
     Op_MemoryBarrier, Op_Clrex, Op_CallHelper]"

definition has_side_effects :: "op \<Rightarrow> bool" where
  "has_side_effects a =
     (if a \<in> set side_effect_ops then True
      else let b = base a in
        if b = base Op_Load8 \<or> b = raw Op_Load128 \<or> b = base Op_LoadS8 \<or> b = base Op_LoadAcq8
          \<or> b = base Op_LoadPair8 then True
        else if b = base Op_Store8 then True
        else if b = raw Op_Store128 then True
        else if b = base Op_StoreRel8 then True
        else if b = base Op_StoreEx8 then True
        else if b = base Op_LoadEx8 then True
        else if b = base Op_StorePair8 then True
        else if b = base Op_Branch \<or> b = base Op_BranchLink \<or> b = base Op_BranchIndirect
          \<or> b = base Op_BranchIndirectLink \<or> b = base Op_Ret \<or> b = base Op_BranchCond
          \<or> b = base Op_CbZ \<or> b = base Op_CbNz \<or> b = base Op_TbZ \<or> b = base Op_TbNz then True
        else False)"

definition is_terminator :: "op \<Rightarrow> bool" where
  "is_terminator a \<longleftrightarrow> a \<in> set [Op_Branch, Op_BranchLink, Op_BranchIndirect,
     Op_BranchIndirectLink, Op_Ret, Op_BranchCond, Op_CbZ, Op_CbNz, Op_TbZ, Op_TbNz,
     Op_Brk, Op_Svc, Op_Hvc]"

definition is_pure :: "op \<Rightarrow> bool" where
  "is_pure a =
     (if has_side_effects a then False
      else if a \<in> set [Op_GetX, Op_GetW, Op_GetSp, Op_GetNzcv, Op_GetV, Op_Mrs] then False
      else let b = base a in
        if b = base Op_Load8 then False
        else if b = raw Op_Load128 then False
        else if b = base Op_LoadS8 then False
        else if b = base Op_LoadAcq8 then False
        else if b = base Op_LoadPair8 then False
        else True)"

section \<open>Properties\<close>

lemmas effect_defs = has_side_effects_def is_pure_def base_def side_effect_ops_def

text \<open>
  What the optimiser is free to delete or merge never reaches memory, the
  exclusive monitor, control flow or the system: every such opcode of the enum is marked
  as having side effects, so none of them is pure.
\<close>

theorem observable_ops_have_side_effects:
  "list_all (\<lambda>a. has_side_effects a \<and> \<not> is_pure a) (memory_ops @ branch_ops @ system_ops)"
  by code_simp

end
