(* ===== verification/Ir_Block.thy ===== *)
theory Ir_Block
  imports Ir_Op "HOL-Library.Monad_Syntax"
begin

text \<open>
  IR nodes and blocks: \<open>src/ir/value.rs\<close>, \<open>src/ir/armlet.rs\<close> and \<open>src/ir/block.rs\<close>.
  A block is a vector of nodes threaded into a doubly linked list by index; index 0 is
  a sentinel and stands for "no node". An index expression that panics out of bounds in
  Rust is \<open>None\<close> here. The abstract content of a block is the list of live indices;
  \<open>block_inv b xs\<close> relates the two, and every operation is shown to act on \<open>xs\<close> as
  the corresponding list operation.
\<close>

section \<open>Values and types\<close>

type_synonym value_ref = nat

definition VR_NONE :: value_ref where "VR_NONE = 0"

definition vr_is_none :: "value_ref \<Rightarrow> bool" where "vr_is_none v \<longleftrightarrow> v = 0"
definition vr_is_some :: "value_ref \<Rightarrow> bool" where "vr_is_some v \<longleftrightarrow> v \<noteq> 0"

datatype ty = TyVoid | TyU1 | TyU8 | TyU16 | TyU32 | TyU64 | TyU128 | TyNzcv

fun ty_bits :: "ty \<Rightarrow> nat" where
  "ty_bits TyVoid = 0"
| "ty_bits TyU1 = 1"
| "ty_bits TyU8 = 8"
| "ty_bits TyU16 = 16"
| "ty_bits TyU32 = 32"
| "ty_bits TyU64 = 64"
| "ty_bits TyU128 = 128"
| "ty_bits TyNzcv = 4"

definition ty_is_int :: "ty \<Rightarrow> bool" where
  "ty_is_int t \<longleftrightarrow> t \<in> {TyU1, TyU8, TyU16, TyU32, TyU64, TyU128}"

section \<open>Armlets\<close>

type_synonym armlet_flags = u8

definition NZCV_LIVE :: armlet_flags where "NZCV_LIVE = push_bit 0 1"
definition W_SIZED :: armlet_flags where "W_SIZED = push_bit 1 1"
definition GUEST_BOUND :: armlet_flags where "GUEST_BOUND = push_bit 2 1"
definition FOLDED :: armlet_flags where "FOLDED = push_bit 3 1"

record armlet =
  a_op :: op
  a_ty :: ty
  a_flags :: armlet_flags
  a_prev :: nat
  a_next :: nat
  a_args :: "value_ref list"
  a_imm :: u64
  a_pc :: u64

definition LINK_NONE :: nat where "LINK_NONE = 0"

abbreviation no_args :: "value_ref list" where
  "no_args \<equiv> [0, 0, 0, 0]"

abbreviation arg :: "armlet \<Rightarrow> nat \<Rightarrow> value_ref" where
  "arg a i \<equiv> a_args a ! i"

definition armlet_new :: "op \<Rightarrow> ty \<Rightarrow> armlet" where
  "armlet_new p t = \<lparr>a_op = p, a_ty = t, a_flags = 0, a_prev = LINK_NONE, a_next = LINK_NONE,
     a_args = no_args, a_imm = 0, a_pc = 0\<rparr>"

definition with_args :: "value_ref list \<Rightarrow> armlet \<Rightarrow> armlet" where
  "with_args vs a = a\<lparr>a_args := take 4 vs @ drop (length vs) (a_args a)\<rparr>"

definition with_imm :: "u64 \<Rightarrow> armlet \<Rightarrow> armlet" where
  "with_imm i a = a\<lparr>a_imm := i\<rparr>"

definition with_flags :: "armlet_flags \<Rightarrow> armlet \<Rightarrow> armlet" where
  "with_flags f a = a\<lparr>a_flags := f\<rparr>"

definition arg_iter :: "armlet \<Rightarrow> value_ref list" where
  "arg_iter a = filter vr_is_some (a_args a)"

definition arity :: "armlet \<Rightarrow> nat" where
  "arity a = length (takeWhile vr_is_some (a_args a))"

definition is_eliminated :: "armlet \<Rightarrow> bool" where
  "is_eliminated a \<longleftrightarrow> a_op a = Op_Void"

definition become_identity :: "value_ref \<Rightarrow> armlet \<Rightarrow> armlet" where
  "become_identity src a =
     (armlet_new Op_Identity (a_ty a))\<lparr>a_args := no_args[0 := src],
        a_prev := a_prev a, a_next := a_next a, a_pc := a_pc a\<rparr>"

definition become_const_u32 :: "u32 \<Rightarrow> armlet \<Rightarrow> armlet" where
  "become_const_u32 v a =
     (with_imm (ucast v) (armlet_new Op_ConstU32 TyU32))\<lparr>a_flags := 0 OR FOLDED,
        a_prev := a_prev a, a_next := a_next a, a_pc := a_pc a\<rparr>"

definition become_const_u64 :: "u64 \<Rightarrow> armlet \<Rightarrow> armlet" where
  "become_const_u64 v a =
     (with_imm v (armlet_new Op_ConstU64 TyU64))\<lparr>a_flags := 0 OR FOLDED,
        a_prev := a_prev a, a_next := a_next a, a_pc := a_pc a\<rparr>"

section \<open>Blocks\<close>

datatype exception_kind = Svc | Brk | Hvc | UnknownInst

text \<open>The fields are in the source's order: \<open>LinkBlock next_pc\<close>,
  \<open>DirectBranch target_pc link\<close>, \<open>ConditionalBranch cond_nzcv cond_code taken_pc not_taken_pc\<close>,
  \<open>CompareBranchZero value inverse is_64 taken_pc not_taken_pc\<close>,
  \<open>TestBranchBit value bit inverse taken_pc not_taken_pc\<close>,
  \<open>IndirectBranch target link is_ret\<close>, \<open>Exception kind imm\<close>.\<close>

datatype terminal =
    Invalid
  | LinkBlock u64
  | DirectBranch u64 bool
  | ConditionalBranch value_ref u8 u64 u64
  | CompareBranchZero value_ref bool bool u64 u64
  | TestBranchBit value_ref u8 bool u64 u64
  | IndirectBranch value_ref bool bool
  | Exception exception_kind u32

record block =
  terminal :: terminal
  code :: "armlet list"
  start_pc :: u64
  end_pc :: u64
  head :: nat
  tail :: nat
  cycles :: u32
  use_fastmem :: bool
  fastmem_page_bits :: u8
  fastmem_direct_bits :: u8
  link_indirect :: bool
  ranges :: "(u64 \<times> u64) list"

definition MAX_NODES :: nat where "MAX_NODES = 65536"

definition block_new :: "u64 \<Rightarrow> block" where
  "block_new pc = \<lparr>terminal = Invalid, code = [armlet_new Op_Void TyVoid], start_pc = pc,
     end_pc = pc, head = LINK_NONE, tail = LINK_NONE, cycles = 0, use_fastmem = False,
     fastmem_page_bits = 0, fastmem_direct_bits = 0, link_indirect = False, ranges = []\<rparr>"

definition block_reset :: "u64 \<Rightarrow> block \<Rightarrow> block" where
  "block_reset pc b = b\<lparr>code := [armlet_new Op_Void TyVoid], terminal := Invalid,
     start_pc := pc, end_pc := pc, head := LINK_NONE, tail := LINK_NONE, cycles := 0,
     ranges := []\<rparr>"

text \<open>Indexed access to the node vector; out of bounds is a panic.\<close>

definition node :: "block \<Rightarrow> nat \<Rightarrow> armlet option" where
  "node b i = (if i < length (code b) then Some (code b ! i) else None)"

definition upd_node :: "nat \<Rightarrow> (armlet \<Rightarrow> armlet) \<Rightarrow> block \<Rightarrow> block option" where
  "upd_node i f b =
     (if i < length (code b) then Some (b\<lparr>code := (code b)[i := f (code b ! i)]\<rparr>) else None)"

definition mark :: "block \<Rightarrow> nat \<times> nat" where
  "mark b = (length (code b), tail b)"

definition rollback :: "nat \<times> nat \<Rightarrow> block \<Rightarrow> block option" where
  "rollback m b =
     (let (len, tl) = m;
          b = b\<lparr>code := take len (code b), tail := tl\<rparr>
      in if tl = LINK_NONE then Some (b\<lparr>head := LINK_NONE\<rparr>)
         else upd_node tl (\<lambda>n. n\<lparr>a_next := LINK_NONE\<rparr>) b)"

definition push :: "armlet \<Rightarrow> block \<Rightarrow> (value_ref \<times> block) option" where
  "push a b =
     (let idx = length (code b);
          a = a\<lparr>a_prev := tail b, a_next := LINK_NONE\<rparr>;
          b = b\<lparr>code := code b @ [a]\<rparr>
      in do {
        b \<leftarrow> (if tail b \<noteq> LINK_NONE then upd_node (tail b) (\<lambda>n. n\<lparr>a_next := idx\<rparr>) b
             else Some (b\<lparr>head := idx\<rparr>));
        Some (idx, b\<lparr>tail := idx\<rparr>)
      })"

definition insert_before :: "value_ref \<Rightarrow> armlet \<Rightarrow> block \<Rightarrow> (value_ref \<times> block) option" where
  "insert_before pos a b =
     (let new_idx = length (code b) in do {
        n \<leftarrow> node b pos;
        let prev = a_prev n;
        let a = a\<lparr>a_prev := prev, a_next := pos\<rparr>;
        let b = b\<lparr>code := code b @ [a]\<rparr>;
        b \<leftarrow> (if prev \<noteq> LINK_NONE then upd_node prev (\<lambda>n. n\<lparr>a_next := new_idx\<rparr>) b
             else Some (b\<lparr>head := new_idx\<rparr>));
        b \<leftarrow> upd_node pos (\<lambda>n. n\<lparr>a_prev := new_idx\<rparr>) b;
        Some (new_idx, b)
      })"

definition unlink :: "value_ref \<Rightarrow> block \<Rightarrow> block option" where
  "unlink v b = do {
     n \<leftarrow> node b v;
     let prev = a_prev n;
     let nxt = a_next n;
     b \<leftarrow> (if prev \<noteq> LINK_NONE then upd_node prev (\<lambda>n. n\<lparr>a_next := nxt\<rparr>) b
          else Some (b\<lparr>head := nxt\<rparr>));
     b \<leftarrow> (if nxt \<noteq> LINK_NONE then upd_node nxt (\<lambda>n. n\<lparr>a_prev := prev\<rparr>) b
          else Some (b\<lparr>tail := prev\<rparr>));
     upd_node v (\<lambda>n. n\<lparr>a_prev := LINK_NONE, a_next := LINK_NONE, a_op := Op_Void,
       a_args := no_args\<rparr>) b
   }"

definition is_empty :: "block \<Rightarrow> bool" where
  "is_empty b \<longleftrightarrow> head b = LINK_NONE"

definition link_vr :: "nat \<Rightarrow> value_ref option" where
  "link_vr i = (if i \<noteq> LINK_NONE then Some i else None)"

definition head_vr :: "block \<Rightarrow> value_ref option" where "head_vr b = link_vr (head b)"
definition tail_vr :: "block \<Rightarrow> value_ref option" where "tail_vr b = link_vr (tail b)"

definition next_of :: "value_ref \<Rightarrow> block \<Rightarrow> value_ref option option" where
  "next_of v b = map_option (\<lambda>n. link_vr (a_next n)) (node b v)"

definition prev_of :: "value_ref \<Rightarrow> block \<Rightarrow> value_ref option option" where
  "prev_of v b = map_option (\<lambda>n. link_vr (a_prev n)) (node b v)"

text \<open>
  The live iterators: the indices they yield. \<open>None\<close> is a panic or an iteration longer
  than the fuel; the block's length is enough fuel for a well-formed block
  (\<open>iter_live_inv\<close>).
\<close>

fun iter_from :: "nat \<Rightarrow> (value_ref \<Rightarrow> block \<Rightarrow> value_ref option option) \<Rightarrow> value_ref option
    \<Rightarrow> block \<Rightarrow> value_ref list option" where
  "iter_from fuel step None b = Some []"
| "iter_from 0 step (Some v) b = None"
| "iter_from (Suc fuel) step (Some v) b = do {
     cursor \<leftarrow> step v b;
     rest \<leftarrow> iter_from fuel step cursor b;
     Some (v # rest)
   }"

definition iter_live :: "block \<Rightarrow> value_ref list option" where
  "iter_live b = iter_from (length (code b)) next_of (head_vr b) b"

definition iter_live_rev :: "block \<Rightarrow> value_ref list option" where
  "iter_live_rev b = iter_from (length (code b)) prev_of (tail_vr b) b"

section \<open>The invariant\<close>

fun first_link :: "nat \<Rightarrow> nat list \<Rightarrow> nat" where
  "first_link n [] = n"
| "first_link n (x # xs) = x"

fun last_link :: "nat \<Rightarrow> nat list \<Rightarrow> nat" where
  "last_link p [] = p"
| "last_link p (x # xs) = last_link x xs"

fun linked :: "armlet list \<Rightarrow> nat \<Rightarrow> nat list \<Rightarrow> nat \<Rightarrow> bool" where
  "linked c p [] n = True"
| "linked c p (x # xs) n \<longleftrightarrow>
     a_prev (c ! x) = p \<and> a_next (c ! x) = first_link n xs \<and> linked c x xs n"

definition block_inv :: "block \<Rightarrow> nat list \<Rightarrow> bool" where
  "block_inv b xs \<longleftrightarrow>
     distinct xs \<and> (\<forall>x\<in>set xs. 0 < x \<and> x < length (code b)) \<and> code b \<noteq> [] \<and>
     head b = first_link 0 xs \<and> tail b = last_link 0 xs \<and> linked (code b) 0 xs 0"

lemma first_link_append [simp]: "first_link n (xs @ ys) = first_link (first_link n ys) xs"
  by (cases xs) auto

lemma last_link_append [simp]: "last_link p (xs @ ys) = last_link (last_link p xs) ys"
  by (induction xs arbitrary: p) auto

lemma linked_append [simp]:
  "linked c p (xs @ ys) n \<longleftrightarrow> linked c p xs (first_link n ys) \<and> linked c (last_link p xs) ys n"
  by (induction xs arbitrary: p) auto

lemma last_link_in: "xs \<noteq> [] \<Longrightarrow> last_link p xs \<in> set xs"
  by (induction xs arbitrary: p) (auto split: if_splits, metis last_link.simps(1))

lemma first_link_in: "xs \<noteq> [] \<Longrightarrow> first_link n xs \<in> set xs"
  by (cases xs) auto

lemma last_link_nonempty: "xs \<noteq> [] \<Longrightarrow> last_link p xs = last xs"
  by (induction xs arbitrary: p) auto

lemma linked_cong:
  "(\<And>x. x \<in> set xs \<Longrightarrow> a_prev (c' ! x) = a_prev (c ! x) \<and> a_next (c' ! x) = a_next (c ! x)) \<Longrightarrow>
   linked c' p xs n = linked c p xs n"
  by (induction xs arbitrary: p) auto

lemma linked_update_outside [simp]:
  "v \<notin> set xs \<Longrightarrow> linked (c[v := a]) p xs n = linked c p xs n"
  by (rule linked_cong) (metis nth_list_update_neq)

lemma linked_append_code [simp]:
  "\<forall>x\<in>set xs. x < length c \<Longrightarrow> linked (c @ d) p xs n = linked c p xs n"
  by (rule linked_cong) (simp add: nth_append)

lemma linked_take_code:
  "\<forall>x\<in>set xs. x < k \<Longrightarrow> linked (take k c) p xs n = linked c p xs n"
  by (rule linked_cong) simp

text \<open>Relinking the last node of a segment to a new successor.\<close>

lemma linked_set_next:
  assumes "linked c p (xs @ [x]) n" "x \<notin> set xs" "x < length c"
  shows "linked (c[x := (c ! x)\<lparr>a_next := m\<rparr>]) p (xs @ [x]) m"
  using assms by simp

lemma linked_set_prev:
  assumes "linked c p (x # xs) n" "x \<notin> set xs" "x < length c"
  shows "linked (c[x := (c ! x)\<lparr>a_prev := q\<rparr>]) q (x # xs) n"
  using assms by simp

lemma block_invD:
  assumes "block_inv b xs"
  shows "distinct xs" "\<And>x. x \<in> set xs \<Longrightarrow> x < length (code b)" "0 \<notin> set xs"
    "head b = first_link 0 xs" "tail b = last_link 0 xs" "linked (code b) 0 xs 0"
  using assms unfolding block_inv_def by auto

lemma block_inv_new: "block_inv (block_new pc) []"
  by (simp add: block_inv_def block_new_def LINK_NONE_def)

lemma block_inv_reset: "block_inv (block_reset pc b) []"
  by (simp add: block_inv_def block_reset_def LINK_NONE_def)

text \<open>Everything of a node but its links, and everything of a block but its node list.\<close>

definition payload :: "armlet \<Rightarrow> armlet" where
  "payload a = a\<lparr>a_prev := LINK_NONE, a_next := LINK_NONE\<rparr>"

lemma payload_links [simp]:
  "payload (a\<lparr>a_prev := p\<rparr>) = payload a" "payload (a\<lparr>a_next := n\<rparr>) = payload a"
  "payload (a\<lparr>a_prev := p, a_next := n\<rparr>) = payload a" "payload (payload a) = payload a"
  by (simp_all add: payload_def)

definition same_nodes :: "armlet list \<Rightarrow> armlet list \<Rightarrow> nat set \<Rightarrow> bool" where
  "same_nodes c c' X \<longleftrightarrow> (\<forall>i\<in>X. payload (c' ! i) = payload (c ! i))"

definition content :: "block \<Rightarrow> nat list \<Rightarrow> (nat \<times> armlet) list" where
  "content b xs = map (\<lambda>i. (i, payload (code b ! i))) xs"

lemma payload_update:
  "payload (c[i := f (c ! i)] ! j) = payload (c ! j)"
  if "\<And>a. payload (f a) = payload a" "j < length c"
  using that by (cases "i = j") auto

section \<open>Operations preserve the invariant\<close>

lemma push_inv:
  assumes "block_inv b xs"
  shows "\<exists>b'. push a b = Some (length (code b), b') \<and>
     block_inv b' (xs @ [length (code b)]) \<and>
     content b' (xs @ [length (code b)]) = content b xs @ [(length (code b), payload a)] \<and>
     length (code b') = Suc (length (code b))"
proof (cases xs rule: rev_cases)
  case Nil
  then show ?thesis using assms
    by (auto simp: push_def block_inv_def content_def LINK_NONE_def nth_append Let_def)
next
  case (snoc ys y)
  note inv = assms[unfolded snoc]
  have y: "y < length (code b)" "y \<noteq> 0" "y \<notin> set ys" "distinct ys"
    using block_invD[OF inv] by auto
  have lt: "\<forall>x\<in>set (ys @ [y]). 0 < x \<and> x < length (code b)" using inv by (simp add: block_inv_def)
  have t: "tail b = y" using block_invD(5)[OF inv] by simp
  show ?thesis
    unfolding snoc using y lt t block_invD(4,6)[OF inv]
    by (auto simp: push_def upd_node_def block_inv_def content_def LINK_NONE_def nth_append
        Let_def list_update_append payload_update nth_list_update)
qed


text \<open>Splitting the live list around a node.\<close>

lemma block_inv_split:
  assumes "block_inv b xs" "v \<in> set xs"
  obtains ys zs where "xs = ys @ v # zs" "v \<notin> set ys" "v \<notin> set zs" "set ys \<inter> set zs = {}"
    "v \<noteq> 0" "v < length (code b)"
    "a_prev (code b ! v) = last_link 0 ys" "a_next (code b ! v) = first_link 0 zs"
proof -
  obtain ys zs where xs: "xs = ys @ v # zs" using split_list[OF assms(2)] by blast
  show thesis
    using assms(1) unfolding xs block_inv_def by (intro that[OF xs]) auto
qed

lemma insert_before_inv:
  assumes "block_inv b (ys @ v # zs)"
  defines "n \<equiv> length (code b)"
  shows "\<exists>b'. insert_before v a b = Some (n, b') \<and> block_inv b' (ys @ n # v # zs) \<and>
     content b' (ys @ n # v # zs) = content b ys @ (n, payload a) # content b (v # zs) \<and>
     length (code b') = Suc n"
proof (cases ys rule: rev_cases)
  case Nil
  then show ?thesis using assms
    by (auto simp: insert_before_def block_inv_def content_def LINK_NONE_def nth_append Let_def
        node_def upd_node_def list_update_append payload_update nth_list_update)
next
  case (snoc us u)
  show ?thesis
    using assms unfolding snoc
    by (auto simp: insert_before_def block_inv_def content_def LINK_NONE_def nth_append Let_def
        node_def upd_node_def list_update_append payload_update nth_list_update intro: less_SucI)
qed

lemma unlink_inv:
  assumes "block_inv b (ys @ v # zs)"
  shows "\<exists>b'. unlink v b = Some b' \<and> block_inv b' (ys @ zs) \<and>
     content b' (ys @ zs) = content b ys @ content b zs \<and>
     length (code b') = length (code b)"
proof (cases ys rule: rev_cases)
  case Nil
  note ys = this
  show ?thesis
  proof (cases zs)
    case Nil
    then show ?thesis using assms ys
      by (auto simp: unlink_def block_inv_def content_def LINK_NONE_def Let_def
        node_def upd_node_def payload_update nth_list_update)
  next
    case (Cons w ws)
    then show ?thesis using assms ys
      by (auto simp: unlink_def block_inv_def content_def LINK_NONE_def Let_def
        node_def upd_node_def payload_update nth_list_update)
  qed
next
  case (snoc us u)
  show ?thesis
  proof (cases zs)
    case Nil
    then show ?thesis using assms unfolding snoc
      by (auto simp: unlink_def block_inv_def content_def LINK_NONE_def Let_def
        node_def upd_node_def payload_update nth_list_update)
  next
    case (Cons w ws)
    then show ?thesis using assms unfolding snoc
      by (auto simp: unlink_def block_inv_def content_def LINK_NONE_def Let_def
        node_def upd_node_def payload_update nth_list_update)
  qed
qed


section \<open>Iteration\<close>

lemma iter_from_next:
  assumes "linked (code b) p xs 0" "\<forall>x\<in>set xs. 0 < x \<and> x < length (code b)" "length xs \<le> fuel"
  shows "iter_from fuel next_of (link_vr (first_link 0 xs)) b = Some xs"
  using assms
proof (induction xs arbitrary: p fuel)
  case Nil
  then show ?case by (simp add: link_vr_def LINK_NONE_def)
next
  case (Cons x xs)
  obtain f where f: "fuel = Suc f" using Cons.prems(3) by (cases fuel) auto
  have "iter_from f next_of (link_vr (first_link 0 xs)) b = Some xs"
    using Cons.prems f by (intro Cons.IH[of x]) auto
  moreover have "link_vr x = Some x" "next_of x b = Some (link_vr (first_link 0 xs))"
    using Cons.prems by (auto simp: link_vr_def LINK_NONE_def next_of_def node_def)
  ultimately show ?case by (simp add: f)
qed

lemma iter_from_prev:
  assumes "linked (code b) 0 xs n" "\<forall>x\<in>set xs. 0 < x \<and> x < length (code b)" "length xs \<le> fuel"
  shows "iter_from fuel prev_of (link_vr (last_link 0 xs)) b = Some (rev xs)"
  using assms
proof (induction xs arbitrary: n fuel rule: rev_induct)
  case Nil
  then show ?case by (simp add: link_vr_def LINK_NONE_def)
next
  case (snoc x xs)
  obtain f where f: "fuel = Suc f" using snoc.prems(3) by (cases fuel) auto
  have "iter_from f prev_of (link_vr (last_link 0 xs)) b = Some (rev xs)"
    using snoc.prems f by (intro snoc.IH[of x]) auto
  moreover have "link_vr x = Some x" "prev_of x b = Some (link_vr (last_link 0 xs))"
    using snoc.prems by (auto simp: link_vr_def LINK_NONE_def prev_of_def node_def)
  ultimately show ?case by (simp add: f)
qed

lemma block_inv_length:
  assumes "block_inv b xs" shows "length xs < length (code b)"
proof -
  have "insert 0 (set xs) \<subseteq> {..< length (code b)}" using assms by (auto simp: block_inv_def)
  from card_mono[OF _ this] have "card (insert 0 (set xs)) \<le> length (code b)" by simp
  then show ?thesis using block_invD[OF assms] by (simp add: distinct_card)
qed

lemma iter_live_inv:
  assumes "block_inv b xs"
  shows "iter_live b = Some xs" "iter_live_rev b = Some (rev xs)"
proof -
  have b: "\<forall>x\<in>set xs. 0 < x \<and> x < length (code b)" "length xs \<le> length (code b)"
    using assms block_inv_length[OF assms] by (auto simp: block_inv_def)
  show "iter_live b = Some xs"
    unfolding iter_live_def head_vr_def block_invD(4)[OF assms]
    by (rule iter_from_next[OF block_invD(6)[OF assms] b])
  show "iter_live_rev b = Some (rev xs)"
    unfolding iter_live_rev_def tail_vr_def block_invD(5)[OF assms]
    by (rule iter_from_prev[OF block_invD(6)[OF assms] b])
qed

section \<open>The interface of an instruction sequence\<close>

text \<open>
  What the translator and the optimiser rely on: pushing appends a fresh node, inserting puts
  one in front of a live node, unlinking removes a live node, and no operation disturbs the
  remaining nodes or their order.
\<close>

fun push_list :: "('a \<Rightarrow> 'b \<Rightarrow> (nat \<times> 'b) option) \<Rightarrow> 'a list \<Rightarrow> 'b \<Rightarrow> (nat list \<times> 'b) option" where
  "push_list psh [] b = Some ([], b)"
| "push_list psh (a # as) b = do {
     (n, b) \<leftarrow> psh a b;
     (ns, b) \<leftarrow> push_list psh as b;
     Some (n # ns, b)
   }"

fun unlink_list :: "(nat \<Rightarrow> 'b \<Rightarrow> 'b option) \<Rightarrow> nat list \<Rightarrow> 'b \<Rightarrow> 'b option" where
  "unlink_list unl [] b = Some b"
| "unlink_list unl (v # vs) b = do { b \<leftarrow> unl v b; unlink_list unl vs b }"

locale instr_seq =
  fixes inv :: "'b \<Rightarrow> nat list \<Rightarrow> bool"
    and get :: "'b \<Rightarrow> nat \<Rightarrow> 'a"
    and canon :: "'a \<Rightarrow> 'a"
    and psh :: "'a \<Rightarrow> 'b \<Rightarrow> (nat \<times> 'b) option"
    and ins :: "nat \<Rightarrow> 'a \<Rightarrow> 'b \<Rightarrow> (nat \<times> 'b) option"
    and unl :: "nat \<Rightarrow> 'b \<Rightarrow> 'b option"
  assumes inv_distinct: "inv b xs \<Longrightarrow> distinct xs"
    and psh_law: "inv b xs \<Longrightarrow> \<exists>n b'. psh a b = Some (n, b') \<and> inv b' (xs @ [n]) \<and>
          get b' n = canon a \<and> (\<forall>i\<in>set xs. get b' i = get b i)"
    and ins_law: "inv b (ys @ v # zs) \<Longrightarrow> \<exists>n b'. ins v a b = Some (n, b') \<and>
          inv b' (ys @ n # v # zs) \<and> get b' n = canon a \<and>
          (\<forall>i\<in>set (ys @ v # zs). get b' i = get b i)"
    and unl_law: "inv b (ys @ v # zs) \<Longrightarrow> \<exists>b'. unl v b = Some b' \<and> inv b' (ys @ zs) \<and>
          (\<forall>i\<in>set (ys @ zs). get b' i = get b i)"
begin

lemma push_list_appends:
  "inv b xs \<Longrightarrow> \<exists>ns b'. push_list psh as b = Some (ns, b') \<and> inv b' (xs @ ns) \<and>
     map (get b') (xs @ ns) = map (get b) xs @ map canon as"
proof (induction as arbitrary: b xs)
  case Nil
  then show ?case by simp
next
  case (Cons a as)
  obtain n b1 where 1: "psh a b = Some (n, b1)" "inv b1 (xs @ [n])" "get b1 n = canon a"
    "\<forall>i\<in>set xs. get b1 i = get b i"
    using psh_law[OF Cons.prems] by blast
  obtain ns b2 where 2: "push_list psh as b1 = Some (ns, b2)" "inv b2 (xs @ n # ns)"
    "map (get b2) (xs @ n # ns) = map (get b1) (xs @ [n]) @ map canon as"
    using Cons.IH[OF 1(2)] by auto
  show ?case using 1 2 by (intro exI[of _ "n # ns"] exI[of _ b2]) auto
qed

lemma unlink_one:
  assumes "inv b xs" "v \<in> set xs"
  obtains b' where "unl v b = Some b'" "inv b' (filter (\<lambda>x. x \<noteq> v) xs)"
    "\<forall>i\<in>set (filter (\<lambda>x. x \<noteq> v) xs). get b' i = get b i"
proof -
  obtain ys zs where xs: "xs = ys @ v # zs" using split_list[OF assms(2)] by blast
  have "filter (\<lambda>x. x \<noteq> v) xs = ys @ zs"
    using inv_distinct[OF assms(1)] by (auto simp: xs intro!: arg_cong2[of _ _ _ _ append] filter_True)
  then show thesis using unl_law[OF assms(1)[unfolded xs]] that by auto
qed

lemma unlink_list_filters:
  "inv b xs \<Longrightarrow> set vs \<subseteq> set xs \<Longrightarrow> distinct vs \<Longrightarrow>
   \<exists>b'. unlink_list unl vs b = Some b' \<and> inv b' (filter (\<lambda>x. x \<notin> set vs) xs) \<and>
     (\<forall>i\<in>set xs - set vs. get b' i = get b i)"
proof (induction vs arbitrary: b xs)
  case Nil
  then show ?case by simp
next
  case (Cons v vs)
  obtain b1 where 1: "unl v b = Some b1" "inv b1 (filter (\<lambda>x. x \<noteq> v) xs)"
    "\<forall>i\<in>set (filter (\<lambda>x. x \<noteq> v) xs). get b1 i = get b i"
    using unlink_one[OF Cons.prems(1), of v] Cons.prems(2) by auto
  have "set vs \<subseteq> set (filter (\<lambda>x. x \<noteq> v) xs)" "distinct vs" using Cons.prems by auto
  from Cons.IH[OF 1(2) this] 1(1,3) show ?case by (auto simp: conj_commute)
qed

end

lemma content_get: "content b' (map f xs) = content b (map f xs) \<Longrightarrow> x \<in> set xs \<Longrightarrow>
    payload (code b' ! f x) = payload (code b ! f x)"
  by (simp add: content_def)

interpretation blk: instr_seq block_inv "\<lambda>b i. payload (code b ! i)" payload push insert_before unlink
proof
  show "block_inv b xs \<Longrightarrow> distinct xs" for b xs by (rule block_invD)
next
  fix b xs a assume "block_inv b xs"
  from push_inv[OF this, of a]
  show "\<exists>n b'. push a b = Some (n, b') \<and> block_inv b' (xs @ [n]) \<and>
      payload (code b' ! n) = payload a \<and>
      (\<forall>i\<in>set xs. payload (code b' ! i) = payload (code b ! i))"
    by (auto simp: content_def)
next
  fix b ys v zs a assume "block_inv b (ys @ v # zs)"
  from insert_before_inv[OF this, of a]
  show "\<exists>n b'. insert_before v a b = Some (n, b') \<and> block_inv b' (ys @ n # v # zs) \<and>
      payload (code b' ! n) = payload a \<and>
      (\<forall>i\<in>set (ys @ v # zs). payload (code b' ! i) = payload (code b ! i))"
    by (auto simp: content_def)
next
  fix b ys v zs assume "block_inv b (ys @ v # zs)"
  from unlink_inv[OF this]
  show "\<exists>b'. unlink v b = Some b' \<and> block_inv b' (ys @ zs) \<and>
      (\<forall>i\<in>set (ys @ zs). payload (code b' ! i) = payload (code b ! i))"
    by (auto simp: content_def)
qed

section \<open>Rollback\<close>

definition grown :: "block \<Rightarrow> block \<Rightarrow> bool" where
  "grown b b' \<longleftrightarrow> rollback (mark b) b' = Some b \<and> length (code b) \<le> length (code b') \<and>
     (tail b' = tail b \<or> (length (code b) \<le> tail b' \<and> tail b' < length (code b')))"

lemma take_update_beyond: "k \<le> i \<Longrightarrow> take k (xs[i := x]) = take k xs"
  by (simp add: take_update_swap list_update_beyond)

lemma grown_push:
  assumes "grown b b'" "push a b' = Some (v, b'')" "tail b < length (code b)"
  shows "grown b b''"
  using assms
  by (auto simp: grown_def push_def rollback_def mark_def upd_node_def LINK_NONE_def Let_def
      list_update_append nth_append nth_list_update take_update_swap list_update_beyond split: if_splits option.splits)


lemma same_next: "a_next a = n \<Longrightarrow> a\<lparr>a_next := n\<rparr> = a"
  by (cases a) simp

lemma grown_refl:
  assumes "block_inv b xs"
  shows "grown b b"
proof -
  have "tail b \<noteq> 0 \<Longrightarrow> tail b < length (code b) \<and> a_next (code b ! tail b) = 0"
    using assms by (cases xs rule: rev_cases) (auto simp: block_inv_def)
  moreover have "tail b = 0 \<Longrightarrow> head b = 0"
    using assms by (cases xs rule: rev_cases) (auto simp: block_inv_def)
  ultimately show ?thesis
    by (auto simp: grown_def rollback_def mark_def upd_node_def LINK_NONE_def Let_def same_next)
qed

lemma grown_push_list:
  "push_list push as b' = Some (vs, b'') \<Longrightarrow> grown b b' \<Longrightarrow> tail b < length (code b) \<Longrightarrow> grown b b''"
proof (induction as arbitrary: b' vs)
  case Nil
  then show ?case by simp
next
  case (Cons a as)
  obtain n b1 ns where p: "push a b' = Some (n, b1)" "push_list push as b1 = Some (ns, b'')"
    using Cons.prems(1) by (auto split: bind_splits)
  show ?case
    by (rule Cons.IH[OF p(2) grown_push[OF Cons.prems(2) p(1) Cons.prems(3)] Cons.prems(3)])
qed

lemma block_inv_tail: "block_inv b xs \<Longrightarrow> tail b < length (code b)"
  by (cases xs rule: rev_cases) (auto simp: block_inv_def)

section \<open>Properties\<close>

text \<open>
  Block construction refines list append: pushing any sequence of nodes on a well-formed
  block cannot panic, iterating the result forwards (backwards) yields the old live nodes
  followed by the new ones (the reverse), and every node carries exactly what was pushed.
\<close>

theorem push_list_iterates:
  assumes "block_inv b xs"
  shows "\<exists>ns b'. push_list push as b = Some (ns, b') \<and> block_inv b' (xs @ ns) \<and>
     iter_live b' = Some (xs @ ns) \<and> iter_live_rev b' = Some (rev (xs @ ns)) \<and>
     map (\<lambda>i. payload (code b' ! i)) (xs @ ns) = map (\<lambda>i. payload (code b ! i)) xs @ map payload as"
  using blk.push_list_appends[OF assms, of "as"] iter_live_inv by blast

definition sample_block :: block where
  "sample_block = snd (the (push_list push
     [armlet_new Op_ConstU64 TyU64, armlet_new Op_SetX TyVoid, armlet_new Op_SetW TyVoid] (block_new 0)))"

lemma sample_block_inv: "block_inv sample_block [1, 2, 3]"
  by code_simp

theorem push_list_iterates_witness:
  "\<exists>ns b'. push_list push [armlet_new Op_GetX TyU64] sample_block = Some (ns, b') \<and>
     iter_live b' = Some ([1, 2, 3] @ ns)"
  using push_list_iterates[OF sample_block_inv, of "[armlet_new Op_GetX TyU64]"] by blast

text \<open>
  C26. Unlinking: removing any set of live nodes, one at a time and in any order, cannot panic
  and leaves exactly the other nodes, in their order and with their contents.
\<close>

theorem unlink_list_iterates:
  assumes "block_inv b xs" "set vs \<subseteq> set xs" "distinct vs"
  shows "\<exists>b'. unlink_list unlink vs b = Some b' \<and>
     iter_live b' = Some (filter (\<lambda>x. x \<notin> set vs) xs) \<and>
     iter_live_rev b' = Some (rev (filter (\<lambda>x. x \<notin> set vs) xs)) \<and>
     (\<forall>i\<in>set xs - set vs. payload (code b' ! i) = payload (code b ! i))"
  using blk.unlink_list_filters[OF assms] iter_live_inv by blast

theorem unlink_list_iterates_witness:
  "\<exists>b'. unlink_list unlink [3, 1] sample_block = Some b' \<and> iter_live b' = Some [2]"
  using unlink_list_iterates[OF sample_block_inv, of "[3, 1]"] by auto

text \<open>
  Inserting before a live node makes the new node its only new neighbour: iteration
  yields the old nodes with the fresh one in front of that node.
\<close>

theorem insert_before_iterates:
  assumes "block_inv b (ys @ v # zs)"
  shows "\<exists>n b'. insert_before v a b = Some (n, b') \<and>
     iter_live b' = Some (ys @ n # v # zs) \<and> iter_live_rev b' = Some (rev zs @ v # n # rev ys) \<and>
     payload (code b' ! n) = payload a \<and>
     (\<forall>i\<in>set (ys @ v # zs). payload (code b' ! i) = payload (code b ! i))"
proof -
  obtain n b' where n: "insert_before v a b = Some (n, b')" "block_inv b' (ys @ n # v # zs)"
    "payload (code b' ! n) = payload a"
    "\<forall>i\<in>set (ys @ v # zs). payload (code b' ! i) = payload (code b ! i)"
    using blk.ins_law[OF assms, of a] by blast
  then show ?thesis using iter_live_inv[OF n(2)] by auto
qed

theorem insert_before_iterates_witness:
  "\<exists>n b'. insert_before 2 (armlet_new Op_GetX TyU64) sample_block = Some (n, b') \<and>
     iter_live b' = Some [1, n, 2, 3]"
  using insert_before_iterates[of sample_block "[1]" 2 "[3]" "armlet_new Op_GetX TyU64"]
    sample_block_inv by auto

text \<open>
  C27. Rollback is exact: whatever is pushed after a mark, rolling back to the mark restores
  the very same block, including the tail's forward link.
\<close>

theorem rollback_undoes_pushes:
  assumes "block_inv b xs" "push_list push as b = Some (vs, b')"
  shows "rollback (mark b) b' = Some b"
  using grown_push_list[OF assms(2) grown_refl[OF assms(1)] block_inv_tail[OF assms(1)]]
  by (simp add: grown_def)

lemma sample_push: "\<exists>vs b'. push_list push [armlet_new Op_GetX TyU64] sample_block = Some (vs, b')"
  using blk.push_list_appends[OF sample_block_inv] by blast

theorem rollback_undoes_pushes_witness:
  "\<exists>vs b'. push_list push [armlet_new Op_GetX TyU64] sample_block = Some (vs, b') \<and>
     rollback (mark sample_block) b' = Some sample_block"
  using sample_push rollback_undoes_pushes[OF sample_block_inv] by blast

end
