(* ===== verification/Opt_Rules.thy ===== *)
theory Opt_Rules
  imports Arch Ir_Block
begin

text \<open>
  The rewrite rules of the optimiser (\<open>src/optimizer/pass.rs\<close>): constant folding,
  strength reduction, combination of constant operands, multiplication folding and
  terminal simplification. The reference semantics of the arithmetic operations is
  \<open>alu_sem\<close>, on integers and parametric in the operand width; each rule is proved
  sound with respect to it.
\<close>

section \<open>Reference semantics of the arithmetic operations\<close>

datatype alu = AluAdd | AluSub | AluAnd | AluOr | AluEor | AluMul | AluLsl | AluLsr | AluAsr
  | AluRor | AluNot | AluNeg

fun alu_sem :: "alu \<Rightarrow> nat \<Rightarrow> int \<Rightarrow> int \<Rightarrow> int" where
  "alu_sem AluAdd w x y = take_bit w (x + y)"
| "alu_sem AluSub w x y = take_bit w (x - y)"
| "alu_sem AluAnd w x y = take_bit w (x AND y)"
| "alu_sem AluOr w x y = take_bit w (x OR y)"
| "alu_sem AluEor w x y = take_bit w (x XOR y)"
| "alu_sem AluMul w x y = take_bit w (x * y)"
| "alu_sem AluLsl w x y = take_bit w (push_bit (nat (y mod int w)) x)"
| "alu_sem AluLsr w x y = drop_bit (nat (y mod int w)) (take_bit w x)"
| "alu_sem AluAsr w x y = take_bit w (drop_bit (nat (y mod int w)) (signed_take_bit (w - 1) x))"
| "alu_sem AluRor w x y =
     (let n = nat (y mod int w); z = take_bit w x
      in take_bit w (drop_bit n z OR push_bit (w - n) z))"
| "alu_sem AluNot w x y = take_bit w (NOT x)"
| "alu_sem AluNeg w x y = take_bit w (- x)"

definition alu_table :: "(op \<times> alu \<times> nat) list" where
  "alu_table =
    [(Op_Add32, AluAdd, 32), (Op_Add64, AluAdd, 64), (Op_Sub32, AluSub, 32), (Op_Sub64, AluSub, 64),
     (Op_And32, AluAnd, 32), (Op_And64, AluAnd, 64), (Op_Or32, AluOr, 32), (Op_Or64, AluOr, 64),
     (Op_Eor32, AluEor, 32), (Op_Eor64, AluEor, 64), (Op_Mul32, AluMul, 32), (Op_Mul64, AluMul, 64),
     (Op_Lsl32, AluLsl, 32), (Op_Lsl64, AluLsl, 64), (Op_Lsr32, AluLsr, 32), (Op_Lsr64, AluLsr, 64),
     (Op_Asr32, AluAsr, 32), (Op_Asr64, AluAsr, 64), (Op_Ror32, AluRor, 32), (Op_Ror64, AluRor, 64),
     (Op_Not32, AluNot, 32), (Op_Not64, AluNot, 64), (Op_Neg32, AluNeg, 32), (Op_Neg64, AluNeg, 64)]"

definition alu_of :: "op \<Rightarrow> (alu \<times> nat) option" where
  "alu_of = map_of alu_table"

lemmas alu_of_simps = alu_of_def alu_table_def

section \<open>Constant folding\<close>

type_synonym const_table = "u64 option list"

text \<open>\<open>consts.get(v.as_usize()).copied().flatten()\<close>.\<close>

definition cget :: "const_table \<Rightarrow> value_ref \<Rightarrow> u64 option" where
  "cget cs v = (if v < length cs then cs ! v else None)"

definition fold_op :: "op \<Rightarrow> u64 \<Rightarrow> u64 option \<Rightarrow> u64 option" where
  "fold_op p x y_opt =
    (let x32 = ucast x :: u32; lo = (\<lambda>y. ucast y :: u32) in
     if p = Op_Add32 then do { y \<leftarrow> y_opt; Some (ucast (x32 + lo y)) }
     else if p = Op_Add64 then do { y \<leftarrow> y_opt; Some (x + y) }
     else if p = Op_Sub32 then do { y \<leftarrow> y_opt; Some (ucast (x32 - lo y)) }
     else if p = Op_Sub64 then do { y \<leftarrow> y_opt; Some (x - y) }
     else if p = Op_And32 then do { y \<leftarrow> y_opt; Some (ucast (x32 AND lo y)) }
     else if p = Op_And64 then do { y \<leftarrow> y_opt; Some (x AND y) }
     else if p = Op_Or32 then do { y \<leftarrow> y_opt; Some (ucast (x32 OR lo y)) }
     else if p = Op_Or64 then do { y \<leftarrow> y_opt; Some (x OR y) }
     else if p = Op_Eor32 then do { y \<leftarrow> y_opt; Some (ucast (x32 XOR lo y)) }
     else if p = Op_Eor64 then do { y \<leftarrow> y_opt; Some (x XOR y) }
     else if p = Op_Lsl32 then do { y \<leftarrow> y_opt; Some (ucast (wrapping_shl x32 (lo y AND 31))) }
     else if p = Op_Lsl64 then do { y \<leftarrow> y_opt; Some (wrapping_shl x (lo y AND 63)) }
     else if p = Op_Lsr32 then do { y \<leftarrow> y_opt; Some (ucast (wrapping_shr x32 (lo y AND 31))) }
     else if p = Op_Lsr64 then do { y \<leftarrow> y_opt; Some (wrapping_shr x (lo y AND 63)) }
     else if p = Op_Asr32 then do { y \<leftarrow> y_opt; Some (ucast (wrapping_sar x32 (lo y AND 31))) }
     else if p = Op_Asr64 then do { y \<leftarrow> y_opt; Some (wrapping_sar x (lo y AND 63)) }
     else if p = Op_Ror32 then do { y \<leftarrow> y_opt; Some (ucast (rotate_right x32 (lo y AND 31))) }
     else if p = Op_Ror64 then do { y \<leftarrow> y_opt; Some (rotate_right x (lo y AND 63)) }
     else if p = Op_Mul32 then do { y \<leftarrow> y_opt; Some (ucast (x32 * lo y)) }
     else if p = Op_Mul64 then do { y \<leftarrow> y_opt; Some (x * y) }
     else if p = Op_Not32 then Some (NOT x AND 0xFFFFFFFF)
     else if p = Op_Not64 then Some (NOT x)
     else if p = Op_Neg32 then Some (ucast (NOT x32 + 1))
     else if p = Op_Neg64 then Some (NOT x + 1)
     else if p = Op_Identity then Some x
     else None)"

text \<open>The outer \<open>option\<close> is the bounds check of \<open>consts[v]\<close>.\<close>

definition fold_get :: "const_table \<Rightarrow> value_ref \<Rightarrow> u64 option option" where
  "fold_get cs v =
     (if vr_is_none v then Some None else if v < length cs then Some (cs ! v) else None)"

definition try_fold :: "op \<Rightarrow> armlet \<Rightarrow> const_table \<Rightarrow> u64 option option" where
  "try_fold p a cs = do {
     x_opt \<leftarrow> fold_get cs (arg a 0);
     case x_opt of
       None \<Rightarrow> Some None
     | Some x \<Rightarrow> do { y_opt \<leftarrow> fold_get cs (arg a 1); Some (fold_op p x y_opt) }
   }"

section \<open>Strength reduction\<close>

datatype simplify = ToConst u64 | ToIdentity value_ref

definition try_strength_reduce :: "op \<Rightarrow> armlet \<Rightarrow> const_table \<Rightarrow> simplify option" where
  "try_strength_reduce p a cs =
    (let arg0 = arg a 0; arg1 = arg a 1;
         c0 = (if vr_is_some arg0 then cget cs arg0 else None);
         c1 = (if vr_is_some arg1 then cget cs arg1 else None);
         all_ones_32 = 0xFFFFFFFF; all_ones_64 = NOT 0 in
     if p \<in> {Op_Add32, Op_Add64} then
       (if c0 = Some 0 then Some (ToIdentity arg1)
        else if c1 = Some 0 then Some (ToIdentity arg0) else None)
     else if p \<in> {Op_Sub32, Op_Sub64} then
       (if c1 = Some 0 then Some (ToIdentity arg0)
        else if arg0 = arg1 \<and> vr_is_some arg0 then Some (ToConst 0) else None)
     else if p = Op_And32 then
       (if c0 = Some 0 \<or> c1 = Some 0 then Some (ToConst 0)
        else if c0 = Some all_ones_32 then Some (ToIdentity arg1)
        else if c1 = Some all_ones_32 then Some (ToIdentity arg0)
        else if arg0 = arg1 \<and> vr_is_some arg0 then Some (ToIdentity arg0) else None)
     else if p = Op_And64 then
       (if c0 = Some 0 \<or> c1 = Some 0 then Some (ToConst 0)
        else if c0 = Some all_ones_64 then Some (ToIdentity arg1)
        else if c1 = Some all_ones_64 then Some (ToIdentity arg0)
        else if arg0 = arg1 \<and> vr_is_some arg0 then Some (ToIdentity arg0) else None)
     else if p = Op_Or32 then
       (if c0 = Some 0 then Some (ToIdentity arg1)
        else if c1 = Some 0 then Some (ToIdentity arg0)
        else if c0 = Some all_ones_32 \<or> c1 = Some all_ones_32 then Some (ToConst all_ones_32)
        else if arg0 = arg1 \<and> vr_is_some arg0 then Some (ToIdentity arg0) else None)
     else if p = Op_Or64 then
       (if c0 = Some 0 then Some (ToIdentity arg1)
        else if c1 = Some 0 then Some (ToIdentity arg0)
        else if c0 = Some all_ones_64 \<or> c1 = Some all_ones_64 then Some (ToConst all_ones_64)
        else if arg0 = arg1 \<and> vr_is_some arg0 then Some (ToIdentity arg0) else None)
     else if p \<in> {Op_Eor32, Op_Eor64} then
       (if c0 = Some 0 then Some (ToIdentity arg1)
        else if c1 = Some 0 then Some (ToIdentity arg0)
        else if arg0 = arg1 \<and> vr_is_some arg0 then Some (ToConst 0) else None)
     else if p \<in> {Op_Mul32, Op_Mul64} then
       (if c0 = Some 0 \<or> c1 = Some 0 then Some (ToConst 0)
        else if c0 = Some 1 then Some (ToIdentity arg1)
        else if c1 = Some 1 then Some (ToIdentity arg0) else None)
     else if p \<in> {Op_Lsl32, Op_Lsl64, Op_Lsr32, Op_Lsr64, Op_Asr32, Op_Asr64, Op_Ror32, Op_Ror64} then
       (if c1 = Some 0 then Some (ToIdentity arg0) else None)
     else None)"

section \<open>Combining two constant operands\<close>

definition op_mask :: "op \<Rightarrow> u64" where
  "op_mask p = (if size_bits p \<ge> 64 then NOT 0 else push_bit (unat (size_bits p)) 1 - 1)"

definition combine_consts :: "op \<Rightarrow> op \<Rightarrow> u64 \<Rightarrow> u64 \<Rightarrow> (u64 \<times> op) option" where
  "combine_consts outer inner ic oc =
    (let m = op_mask outer; bits_minus_1 = ucast (size_bits outer - 1) :: u64 in
     if (outer, inner) = (Op_Add32, Op_Add32) then Some ((ic + oc) AND m, Op_Add32)
     else if (outer, inner) = (Op_Add64, Op_Add64) then Some (ic + oc, Op_Add64)
     else if (outer, inner) = (Op_Sub32, Op_Sub32) then Some ((0 - (ic + oc)) AND m, Op_Add32)
     else if (outer, inner) = (Op_Sub64, Op_Sub64) then Some (0 - (ic + oc), Op_Add64)
     else if (outer, inner) = (Op_And32, Op_And32) then Some ((ic AND oc) AND m, Op_And32)
     else if (outer, inner) = (Op_And64, Op_And64) then Some (ic AND oc, Op_And64)
     else if (outer, inner) = (Op_Or32, Op_Or32) then Some ((ic OR oc) AND m, Op_Or32)
     else if (outer, inner) = (Op_Or64, Op_Or64) then Some (ic OR oc, Op_Or64)
     else if (outer, inner) = (Op_Eor32, Op_Eor32) then Some ((ic XOR oc) AND m, Op_Eor32)
     else if (outer, inner) = (Op_Eor64, Op_Eor64) then Some (ic XOR oc, Op_Eor64)
     else if (outer, inner) = (Op_Mul32, Op_Mul32) then Some ((ic * oc) AND m, Op_Mul32)
     else if (outer, inner) = (Op_Mul64, Op_Mul64) then Some (ic * oc, Op_Mul64)
     else if (outer, inner) = (Op_Add32, Op_Sub32) then Some ((oc - ic) AND m, Op_Add32)
     else if (outer, inner) = (Op_Add64, Op_Sub64) then Some (oc - ic, Op_Add64)
     else if (outer, inner) = (Op_Sub32, Op_Add32) then Some ((ic - oc) AND m, Op_Add32)
     else if (outer, inner) = (Op_Sub64, Op_Add64) then Some (ic - oc, Op_Add64)
     else if (outer, inner) \<in> {(Op_Lsl32, Op_Lsl32), (Op_Lsl64, Op_Lsl64), (Op_Lsr32, Op_Lsr32),
         (Op_Lsr64, Op_Lsr64), (Op_Asr32, Op_Asr32), (Op_Asr64, Op_Asr64)} then
       (let sum = ic + oc in if sum > bits_minus_1 then None else Some (sum, outer))
     else if (outer, inner) \<in> {(Op_Ror32, Op_Ror32), (Op_Ror64, Op_Ror64)} then
       Some ((ic + oc) AND bits_minus_1, outer)
     else None)"

definition try_combine_const :: "armlet \<Rightarrow> block \<Rightarrow> const_table \<Rightarrow> (value_ref \<times> u64 \<times> op) option" where
  "try_combine_const a b cs = do {
     oc \<leftarrow> cget cs (arg a 1);
     if \<not> vr_is_some (arg a 0) then None else do {
       inner \<leftarrow> node b (arg a 0);
       ic \<leftarrow> cget cs (arg inner 1);
       if \<not> vr_is_some (arg inner 0) then None else do {
         (new_const, new_op) \<leftarrow> combine_consts (a_op a) (a_op inner) ic oc;
         Some (arg inner 0, new_const, new_op)
       }
     }
   }"

section \<open>Multiplication folding\<close>

record mul_term =
  t_base :: value_ref
  t_coeff :: u64
  t_has_mul :: bool

definition leaf_term :: "value_ref \<Rightarrow> mul_term" where
  "leaf_term v = \<lparr>t_base = v, t_coeff = 1, t_has_mul = False\<rparr>"

definition term_const :: "const_table \<Rightarrow> value_ref \<Rightarrow> u64 option" where
  "term_const cs v = (if vr_is_none v then None else cget cs v)"

text \<open>
  The recursion of \<open>extract_term\<close> follows operand references; \<open>None\<close> is a chain longer
  than the fuel (unbounded recursion on a cyclic graph).
\<close>

fun extract_term :: "nat \<Rightarrow> block \<Rightarrow> value_ref \<Rightarrow> const_table \<Rightarrow> u32 \<Rightarrow> mul_term option" where
  "extract_term 0 b v cs bits = None"
| "extract_term (Suc fuel) b v cs bits =
    (if v \<ge> length (code b) \<or> vr_is_none v then Some (leaf_term v)
     else let a = code b ! v in
       if (a_op a = Op_Mul32 \<or> a_op a = Op_Mul64) \<and> size_bits (a_op a) = bits then
         (case term_const cs (arg a 0) of
            Some c \<Rightarrow> do {
              inner \<leftarrow> extract_term fuel b (arg a 1) cs bits;
              Some \<lparr>t_base = t_base inner, t_coeff = t_coeff inner * c, t_has_mul = True\<rparr> }
          | None \<Rightarrow>
            (case term_const cs (arg a 1) of
               Some c \<Rightarrow> do {
                 inner \<leftarrow> extract_term fuel b (arg a 0) cs bits;
                 Some \<lparr>t_base = t_base inner, t_coeff = t_coeff inner * c, t_has_mul = True\<rparr> }
             | None \<Rightarrow> Some (leaf_term v)))
       else if (a_op a = Op_Lsl32 \<or> a_op a = Op_Lsl64) \<and> size_bits (a_op a) = bits then
         (case term_const cs (arg a 1) of
            Some k \<Rightarrow> do {
              inner \<leftarrow> extract_term fuel b (arg a 0) cs bits;
              let shift = (ucast k :: u32) AND (bits - 1);
              Some \<lparr>t_base = t_base inner, t_coeff = wrapping_shl (t_coeff inner) shift,
                t_has_mul = t_has_mul inner\<rparr> }
          | None \<Rightarrow> Some (leaf_term v))
       else if a_op a = Op_Identity then extract_term fuel b (arg a 0) cs bits
       else Some (leaf_term v))"

definition try_mul_fold ::
    "nat \<Rightarrow> armlet \<Rightarrow> block \<Rightarrow> const_table \<Rightarrow> (value_ref \<times> u64) option option" where
  "try_mul_fold fuel a b cs = do {
     let bits = size_bits (a_op a);
     let is_sub = a_op a \<in> {Op_Sub32, Op_Sub64};
     lhs \<leftarrow> extract_term fuel b (arg a 0) cs bits;
     rhs \<leftarrow> extract_term fuel b (arg a 1) cs bits;
     Some (if t_base lhs \<noteq> t_base rhs \<or> vr_is_none (t_base lhs) then None
       else if \<not> (t_has_mul lhs \<or> t_has_mul rhs) then None
       else let combined = (if is_sub then t_coeff lhs - t_coeff rhs
                            else t_coeff lhs + t_coeff rhs) AND op_mask (a_op a)
       in if combined = 0 \<or> combined = 1 then None else Some (t_base lhs, combined))
   }"

section \<open>Terminal simplification\<close>

definition simplified :: "terminal \<Rightarrow> const_table \<Rightarrow> terminal option" where
  "simplified t cs =
    (let const_of = (\<lambda>v. if vr_is_none v then None else cget cs v) in
     case t of
       CompareBranchZero v negate is_64 taken_pc not_taken_pc \<Rightarrow>
         map_option (\<lambda>c.
           let c = (if is_64 then c else c AND 0xFFFFFFFF);
               take = ((c = 0) \<noteq> negate)
           in DirectBranch (if take then taken_pc else not_taken_pc) False) (const_of v)
     | TestBranchBit v bt negate taken_pc not_taken_pc \<Rightarrow>
         map_option (\<lambda>c.
           let bit_set = (drop_bit (unat bt) c AND 1 \<noteq> 0);
               take = (if negate then bit_set else \<not> bit_set)
           in DirectBranch (if take then taken_pc else not_taken_pc) False) (const_of v)
     | ConditionalBranch cond_nzcv code4 taken_pc not_taken_pc \<Rightarrow>
         (let cond = cond_from_bits code4 in
          if cond \<in> {AL, NV} then Some (DirectBranch taken_pc False)
          else map_option (\<lambda>nz.
            DirectBranch (if nzcv_check (ucast nz) cond then taken_pc else not_taken_pc) False)
            (const_of cond_nzcv))
     | _ \<Rightarrow> None)"

definition simplify_terminal :: "const_table \<Rightarrow> block \<Rightarrow> block option" where
  "simplify_terminal cs b =
    (case simplified (terminal b) cs of
       None \<Rightarrow> Some b
     | Some new_term \<Rightarrow>
         let b = b\<lparr>terminal := new_term\<rparr> in
         (case tail_vr b of
            None \<Rightarrow> Some b
          | Some t \<Rightarrow> do {
              n \<leftarrow> node b t;
              if a_op n \<in> {Op_CbZ, Op_CbNz, Op_TbZ, Op_TbNz, Op_BranchCond} then unlink t b
              else Some b }))"

section \<open>The operations compute their reference semantics\<close>

definition is_unary :: "alu \<Rightarrow> bool" where
  "is_unary k \<longleftrightarrow> k \<in> {AluNot, AluNeg}"

lemma fold_op_simps:
  shows "fold_op Op_Add32 x (Some y) = Some (ucast (ucast x + ucast y :: u32))"
    "fold_op Op_Add64 x (Some y) = Some (x + y)"
    "fold_op Op_Sub32 x (Some y) = Some (ucast (ucast x - ucast y :: u32))"
    "fold_op Op_Sub64 x (Some y) = Some (x - y)"
    "fold_op Op_And32 x (Some y) = Some (ucast (ucast x AND ucast y :: u32))"
    "fold_op Op_And64 x (Some y) = Some (x AND y)"
    "fold_op Op_Or32 x (Some y) = Some (ucast (ucast x OR ucast y :: u32))"
    "fold_op Op_Or64 x (Some y) = Some (x OR y)"
    "fold_op Op_Eor32 x (Some y) = Some (ucast (ucast x XOR ucast y :: u32))"
    "fold_op Op_Eor64 x (Some y) = Some (x XOR y)"
    "fold_op Op_Mul32 x (Some y) = Some (ucast (ucast x * ucast y :: u32))"
    "fold_op Op_Mul64 x (Some y) = Some (x * y)"
    "fold_op Op_Lsl32 x (Some y) = Some (ucast (wrapping_shl (ucast x :: u32) (ucast y AND 31)))"
    "fold_op Op_Lsl64 x (Some y) = Some (wrapping_shl x (ucast y AND 63))"
    "fold_op Op_Lsr32 x (Some y) = Some (ucast (wrapping_shr (ucast x :: u32) (ucast y AND 31)))"
    "fold_op Op_Lsr64 x (Some y) = Some (wrapping_shr x (ucast y AND 63))"
    "fold_op Op_Asr32 x (Some y) = Some (ucast (wrapping_sar (ucast x :: u32) (ucast y AND 31)))"
    "fold_op Op_Asr64 x (Some y) = Some (wrapping_sar x (ucast y AND 63))"
    "fold_op Op_Ror32 x (Some y) = Some (ucast (rotate_right (ucast x :: u32) (ucast y AND 31)))"
    "fold_op Op_Ror64 x (Some y) = Some (rotate_right x (ucast y AND 63))"
    "fold_op Op_Not32 x y_opt = Some (NOT x AND 0xFFFFFFFF)"
    "fold_op Op_Not64 x y_opt = Some (NOT x)"
    "fold_op Op_Neg32 x y_opt = Some (ucast (NOT (ucast x) + 1 :: u32))"
    "fold_op Op_Neg64 x y_opt = Some (NOT x + 1)"
  by (simp_all add: fold_op_def Let_def)



text \<open>One generic lemma per operation; \<open>'a\<close> is the operand width.\<close>

lemma alu_word:
  fixes x y :: "'b::len word"
  shows "uint (ucast x + ucast y :: 'a::len word) = alu_sem AluAdd LENGTH('a) (uint x) (uint y)"
    "uint (ucast x - ucast y :: 'a::len word) = alu_sem AluSub LENGTH('a) (uint x) (uint y)"
    "uint (ucast x * ucast y :: 'a::len word) = alu_sem AluMul LENGTH('a) (uint x) (uint y)"
    "uint (ucast x AND ucast y :: 'a::len word) = alu_sem AluAnd LENGTH('a) (uint x) (uint y)"
    "uint (ucast x OR ucast y :: 'a::len word) = alu_sem AluOr LENGTH('a) (uint x) (uint y)"
    "uint (ucast x XOR ucast y :: 'a::len word) = alu_sem AluEor LENGTH('a) (uint x) (uint y)"
    "uint (NOT (ucast x) :: 'a::len word) = alu_sem AluNot LENGTH('a) (uint x) (uint y)"
    "uint (- ucast x :: 'a::len word) = alu_sem AluNeg LENGTH('a) (uint x) (uint y)"
  by (simp_all only: alu_sem.simps uint_arith_take uint_ucast take_bit_congs(1-6)
      unsigned_and_eq unsigned_or_eq unsigned_xor_eq take_bit_and take_bit_or take_bit_xor)

lemma alu_word_shift:
  fixes x :: "'b::len word"
  assumes "n = nat (y mod int LENGTH('a))"
  shows "uint (push_bit n (ucast x) :: 'a::len word) = alu_sem AluLsl LENGTH('a) (uint x) y"
    "uint (drop_bit n (ucast x) :: 'a::len word) = alu_sem AluLsr LENGTH('a) (uint x) y"
    "uint (signed_drop_bit n (ucast x) :: 'a::len word) = alu_sem AluAsr LENGTH('a) (uint x) y"
    "uint (word_rotr n (ucast x) :: 'a::len word) = alu_sem AluRor LENGTH('a) (uint x) y"
proof -
  have n: "n < LENGTH('a)" using assms by (simp add: nat_less_iff)
  show "uint (push_bit n (ucast x) :: 'a::len word) = alu_sem AluLsl LENGTH('a) (uint x) y"
    by (simp only: alu_sem.simps uint_arith_take uint_ucast take_bit_congs(1-6) assms)
  show "uint (drop_bit n (ucast x) :: 'a::len word) = alu_sem AluLsr LENGTH('a) (uint x) y"
    by (simp only: alu_sem.simps uint_drop_bit uint_ucast assms)
  have "signed_take_bit (LENGTH('a) - 1) (take_bit LENGTH('a) z) = signed_take_bit (LENGTH('a) - 1) z"
    for z :: int
    by (simp add: signed_take_bit_take_bit)
  then show "uint (signed_drop_bit n (ucast x) :: 'a::len word) = alu_sem AluAsr LENGTH('a) (uint x) y"
    by (simp only: alu_sem.simps uint_signed_drop uint_ucast assms)
  show "uint (word_rotr n (ucast x) :: 'a::len word) = alu_sem AluRor LENGTH('a) (uint x) y"
    by (simp only: alu_sem.simps uint_rotr[OF n[unfolded assms]] uint_ucast assms Let_def)
qed



lemmas alu_word_32 = alu_word[where 'a = 32 and 'b = 64, unfolded len_eqs]
lemmas alu_word_64 = alu_word[where 'a = 64 and 'b = 64, unfolded len_eqs ucast_id]
lemmas alu_shift_32 = alu_word_shift[where 'a = 32 and 'b = 64, unfolded len_eqs, OF refl]
lemmas alu_shift_64 = alu_word_shift[where 'a = 64 and 'b = 64, unfolded len_eqs ucast_id, OF refl]

lemma fold_op_alu:
  "(p, k, w) \<in> set alu_table \<Longrightarrow> is_unary k \<or> y_opt = Some y \<Longrightarrow>
   \<exists>r. fold_op p x y_opt = Some r \<and> uint r = alu_sem k w (uint x) (uint y)"
  for x y :: u64
  unfolding alu_table_def
  apply (simp only: list.set insert_iff empty_iff prod.inject)
  apply (elim disjE conjE)
  apply (simp_all only: is_unary_def simp_thms insert_iff empty_iff alu.distinct fold_op_simps option.inject
      wrapping_amt not_low32 not_plus_one uint_zext alu_word_32[of x y] alu_word_64[of x y] alu_shift_32 alu_shift_64)
  done

lemma alu_of_eqs [simp]:
  shows "alu_of Op_Add32 = Some (AluAdd, 32)"
    "alu_of Op_Add64 = Some (AluAdd, 64)"
    "alu_of Op_Sub32 = Some (AluSub, 32)"
    "alu_of Op_Sub64 = Some (AluSub, 64)"
    "alu_of Op_And32 = Some (AluAnd, 32)"
    "alu_of Op_And64 = Some (AluAnd, 64)"
    "alu_of Op_Or32 = Some (AluOr, 32)"
    "alu_of Op_Or64 = Some (AluOr, 64)"
    "alu_of Op_Eor32 = Some (AluEor, 32)"
    "alu_of Op_Eor64 = Some (AluEor, 64)"
    "alu_of Op_Mul32 = Some (AluMul, 32)"
    "alu_of Op_Mul64 = Some (AluMul, 64)"
    "alu_of Op_Lsl32 = Some (AluLsl, 32)"
    "alu_of Op_Lsl64 = Some (AluLsl, 64)"
    "alu_of Op_Lsr32 = Some (AluLsr, 32)"
    "alu_of Op_Lsr64 = Some (AluLsr, 64)"
    "alu_of Op_Asr32 = Some (AluAsr, 32)"
    "alu_of Op_Asr64 = Some (AluAsr, 64)"
    "alu_of Op_Ror32 = Some (AluRor, 32)"
    "alu_of Op_Ror64 = Some (AluRor, 64)"
    "alu_of Op_Not32 = Some (AluNot, 32)"
    "alu_of Op_Not64 = Some (AluNot, 64)"
    "alu_of Op_Neg32 = Some (AluNeg, 32)"
    "alu_of Op_Neg64 = Some (AluNeg, 64)"
  by (simp_all add: alu_of_def alu_table_def)

lemma size_bits_eqs [simp]:
  shows "size_bits Op_Add32 = 32"
    "size_bits Op_Add64 = 64"
    "size_bits Op_Sub32 = 32"
    "size_bits Op_Sub64 = 64"
    "size_bits Op_And32 = 32"
    "size_bits Op_And64 = 64"
    "size_bits Op_Or32 = 32"
    "size_bits Op_Or64 = 64"
    "size_bits Op_Eor32 = 32"
    "size_bits Op_Eor64 = 64"
    "size_bits Op_Mul32 = 32"
    "size_bits Op_Mul64 = 64"
    "size_bits Op_Lsl32 = 32"
    "size_bits Op_Lsl64 = 64"
    "size_bits Op_Lsr32 = 32"
    "size_bits Op_Lsr64 = 64"
    "size_bits Op_Asr32 = 32"
    "size_bits Op_Asr64 = 64"
    "size_bits Op_Ror32 = 32"
    "size_bits Op_Ror64 = 64"
    "size_bits Op_Not32 = 32"
    "size_bits Op_Not64 = 64"
    "size_bits Op_Neg32 = 32"
    "size_bits Op_Neg64 = 64"
  by (simp_all add: size_bits_def size_log2_def)

lemma op_mask_eqs [simp]:
  shows "op_mask Op_Add32 = 0xFFFFFFFF"
    "op_mask Op_Add64 = NOT 0"
    "op_mask Op_Sub32 = 0xFFFFFFFF"
    "op_mask Op_Sub64 = NOT 0"
    "op_mask Op_And32 = 0xFFFFFFFF"
    "op_mask Op_And64 = NOT 0"
    "op_mask Op_Or32 = 0xFFFFFFFF"
    "op_mask Op_Or64 = NOT 0"
    "op_mask Op_Eor32 = 0xFFFFFFFF"
    "op_mask Op_Eor64 = NOT 0"
    "op_mask Op_Mul32 = 0xFFFFFFFF"
    "op_mask Op_Mul64 = NOT 0"
    "op_mask Op_Lsl32 = 0xFFFFFFFF"
    "op_mask Op_Lsl64 = NOT 0"
    "op_mask Op_Lsr32 = 0xFFFFFFFF"
    "op_mask Op_Lsr64 = NOT 0"
    "op_mask Op_Asr32 = 0xFFFFFFFF"
    "op_mask Op_Asr64 = NOT 0"
    "op_mask Op_Ror32 = 0xFFFFFFFF"
    "op_mask Op_Ror64 = NOT 0"
    "op_mask Op_Not32 = 0xFFFFFFFF"
    "op_mask Op_Not64 = NOT 0"
    "op_mask Op_Neg32 = 0xFFFFFFFF"
    "op_mask Op_Neg64 = NOT 0"
  by (simp_all add: op_mask_def)

lemma row_arith:
  fixes x ic oc :: int
  shows "c = take_bit w (ic + oc) \<Longrightarrow>
      alu_sem AluAdd w x c = alu_sem AluAdd w (alu_sem AluAdd w x ic) oc"
    "c = take_bit w (- (ic + oc)) \<Longrightarrow>
      alu_sem AluAdd w x c = alu_sem AluSub w (alu_sem AluSub w x ic) oc"
    "c = take_bit w (oc - ic) \<Longrightarrow>
      alu_sem AluAdd w x c = alu_sem AluAdd w (alu_sem AluSub w x ic) oc"
    "c = take_bit w (ic - oc) \<Longrightarrow>
      alu_sem AluAdd w x c = alu_sem AluSub w (alu_sem AluAdd w x ic) oc"
    "c = take_bit w (ic * oc) \<Longrightarrow>
      alu_sem AluMul w x c = alu_sem AluMul w (alu_sem AluMul w x ic) oc"
  by (simp_all add: take_bit_eq_mod mod_simps algebra_simps)

lemma row_logic:
  fixes x ic oc :: int
  shows "c = take_bit w (ic AND oc) \<Longrightarrow>
      alu_sem AluAnd w x c = alu_sem AluAnd w (alu_sem AluAnd w x ic) oc"
    "c = take_bit w (ic OR oc) \<Longrightarrow>
      alu_sem AluOr w x c = alu_sem AluOr w (alu_sem AluOr w x ic) oc"
    "c = take_bit w (ic XOR oc) \<Longrightarrow>
      alu_sem AluEor w x c = alu_sem AluEor w (alu_sem AluEor w x ic) oc"
  by (simp_all add: take_bit_and take_bit_or take_bit_xor ac_simps)

lemma row_shift:
  fixes x ic oc :: int
  assumes "0 \<le> ic" "0 \<le> oc" "ic + oc < int w"
  shows "alu_sem AluLsl w x (ic + oc) = alu_sem AluLsl w (alu_sem AluLsl w x ic) oc"
    "alu_sem AluLsr w x (ic + oc) = alu_sem AluLsr w (alu_sem AluLsr w x ic) oc"
    "alu_sem AluAsr w x (ic + oc) = alu_sem AluAsr w (alu_sem AluAsr w x ic) oc"
proof -
  have m: "(ic + oc) mod int w = ic + oc" "ic mod int w = ic" "oc mod int w = oc"
    using assms by simp_all
  have n: "nat (ic + oc) = nat oc + nat ic" using assms by simp
  have lt: "nat ic < w" "nat oc < w" using assms by auto
  show "alu_sem AluLsl w x (ic + oc) = alu_sem AluLsl w (alu_sem AluLsl w x ic) oc"
    unfolding alu_sem.simps m n take_bit_congs(6) by (simp add: push_bit_push_bit)
  show "alu_sem AluLsr w x (ic + oc) = alu_sem AluLsr w (alu_sem AluLsr w x ic) oc"
    unfolding alu_sem.simps m n using lt
    by (intro bit_eqI) (auto simp: bit_simps ac_simps)
  show "alu_sem AluAsr w x (ic + oc) = alu_sem AluAsr w (alu_sem AluAsr w x ic) oc"
    unfolding alu_sem.simps m n using lt assms(3)
    by (intro bit_eqI) (auto simp: bit_simps ac_simps min_def)
qed

lemma bit_alu_ror:
  assumes "0 < w"
  shows "bit (alu_sem AluRor w x y) k \<longleftrightarrow> k < w \<and> bit x (nat ((int k + y) mod int w))"
proof -
  define n where "n = nat (y mod int w)"
  have n: "n < w" "y mod int w = int n" using assms by (auto simp: n_def nat_less_iff)
  have "(int k + y) mod int w = (int k + y mod int w) mod int w" by (simp add: mod_simps)
  then have idx: "nat ((int k + y) mod int w) = (k + n) mod w"
    unfolding n(2) by (metis nat_int of_nat_add zmod_int)
  have l: "bit (alu_sem AluRor w x y) k \<longleftrightarrow> k < w \<and>
      (bit (take_bit w x) (n + k) \<or> (w - n \<le> k \<and> bit (take_bit w x) (k - (w - n))))"
    unfolding alu_sem.simps Let_def n_def[symmetric] by (auto simp: bit_simps)
  show ?thesis
  proof (cases "k + n < w")
    case True
    then show ?thesis unfolding l idx using n by (auto simp: bit_simps add.commute)
  next
    case False
    moreover have "k < w \<Longrightarrow> (k + n) mod w = k - (w - n)"
      using False n by (simp add: mod_if)
    ultimately show ?thesis unfolding l idx using n by (auto simp: bit_simps)
  qed
qed

lemma row_ror:
  fixes x ic oc :: int
  assumes "0 < w" "c mod int w = (ic + oc) mod int w"
  shows "alu_sem AluRor w x c = alu_sem AluRor w (alu_sem AluRor w x ic) oc"
proof (rule bit_eqI)
  fix k
  have m: "nat (z mod int w) < w" for z using assms(1) by (simp add: nat_less_iff)
  have "(int k + c) mod int w = (int (nat ((int k + oc) mod int w)) + ic) mod int w"
  proof -
    have "(int k + c) mod int w = (int k + c mod int w) mod int w" by (simp add: mod_simps)
    also have "\<dots> = (int k + oc + ic) mod int w" unfolding assms(2) by (simp add: mod_simps ac_simps)
    also have "\<dots> = ((int k + oc) mod int w + ic) mod int w" by (simp add: mod_simps)
    finally show ?thesis using assms(1) by simp
  qed
  then show "bit (alu_sem AluRor w x c) k = bit (alu_sem AluRor w (alu_sem AluRor w x ic) oc) k"
    unfolding bit_alu_ror[OF assms(1)] using m by simp
qed


definition combines :: "op \<Rightarrow> op \<Rightarrow> op \<Rightarrow> u64 \<Rightarrow> u64 \<Rightarrow> u64 \<Rightarrow> bool" where
  "combines outer inner new_op ic oc nc \<longleftrightarrow>
     (\<exists>ko ki kn w. alu_of outer = Some (ko, w) \<and> alu_of inner = Some (ki, w) \<and>
        alu_of new_op = Some (kn, w) \<and>
        (\<forall>x. alu_sem kn w x (uint nc) = alu_sem ko w (alu_sem ki w x (uint ic)) (uint oc)))"

lemma combinesI:
  assumes "alu_of outer = Some (ko, w)" "alu_of inner = Some (ki, w)" "alu_of new_op = Some (kn, w)"
    "\<And>x. alu_sem kn w x (uint nc) = alu_sem ko w (alu_sem ki w x (uint ic)) (uint oc)"
  shows "combines outer inner new_op ic oc nc"
  using assms unfolding combines_def by blast

definition is_shift :: "op \<Rightarrow> bool" where
  "is_shift p \<longleftrightarrow> p \<in> {Op_Lsl32, Op_Lsl64, Op_Lsr32, Op_Lsr64, Op_Asr32, Op_Asr64}"

lemmas nc_eqs = uint_low32 uint_arith_take unsigned_and_eq unsigned_or_eq unsigned_xor_eq
  take_bit_take_bit len_eqs

lemma combine_shift:
  assumes p: "alu_of p = Some (k, w)" and k: "k \<in> {AluLsl, AluLsr, AluAsr}"
    and sz: "ucast (size_bits p - 1) = (of_nat (w - 1) :: u64)" "0 < w" "w \<le> 64"
    and le: "\<not> ucast (size_bits p - 1) < ic + oc" and nw: "unat ic + unat oc < 2 ^ 64"
  shows "combines p p p ic oc (ic + oc)"
proof (rule combinesI[OF p p p])
  fix x
  have "uint (of_nat (w - 1) :: u64) = int (w - 1)"
    using sz(3) by (simp add: unsigned_of_nat take_bit_nat_eq_self)
  then have "uint ic + uint oc < int w"
    using shift_sum(2)[OF le[unfolded sz(1)] nw] sz(2) by simp
  from row_shift[OF uint_ge_0 uint_ge_0 this, of x]
  show "alu_sem k w x (uint (ic + oc)) = alu_sem k w (alu_sem k w x (uint ic)) (uint oc)"
    using k unfolding shift_sum(1)[OF le nw] by auto
qed

lemma combine_ror:
  assumes "alu_of p = Some (AluRor, w)" "0 < w"
    "uint nc mod int w = (uint ic + uint oc) mod int w"
  shows "combines p p p ic oc nc"
  by (rule combinesI[OF assms(1) assms(1) assms(1)], rule row_ror[OF assms(2,3)])

lemma combine_consts_sound:
  assumes "combine_consts outer inner ic oc = Some (nc, new_op)"
    and "is_shift outer \<Longrightarrow> unat ic + unat oc < 2 ^ 64"
  shows "combines outer inner new_op ic oc nc"
  using assms unfolding combine_consts_def Let_def
  apply (elim if_eqE Some_pairE Pair_inject insertE emptyE None_SomeE; (hypsubst_thin+)?)
  subgoal by (rule combinesI, rule alu_of_eqs, rule alu_of_eqs, rule alu_of_eqs, rule row_arith(1), (simp only: uint_low32 op_mask_eqs diff_0 and.assoc[symmetric])?, (simp only: nc_eqs take_bit_congs(4))?, (simp add: nc_eqs take_bit_uint_len)?)
  subgoal by (rule combinesI, rule alu_of_eqs, rule alu_of_eqs, rule alu_of_eqs, rule row_arith(1), (simp only: uint_low32 op_mask_eqs diff_0 and.assoc[symmetric])?, (simp only: nc_eqs take_bit_congs(4))?, (simp add: nc_eqs take_bit_uint_len)?)
  subgoal by (rule combinesI, rule alu_of_eqs, rule alu_of_eqs, rule alu_of_eqs, rule row_arith(2), (simp only: uint_low32 op_mask_eqs diff_0 and.assoc[symmetric])?, (simp only: nc_eqs take_bit_congs(4))?, (simp add: nc_eqs take_bit_uint_len)?)
  subgoal by (rule combinesI, rule alu_of_eqs, rule alu_of_eqs, rule alu_of_eqs, rule row_arith(2), (simp only: uint_low32 op_mask_eqs diff_0 and.assoc[symmetric])?, (simp only: nc_eqs take_bit_congs(4))?, (simp add: nc_eqs take_bit_uint_len)?)
  subgoal by (rule combinesI, rule alu_of_eqs, rule alu_of_eqs, rule alu_of_eqs, rule row_logic(1), (simp only: uint_low32 op_mask_eqs diff_0 and.assoc[symmetric])?, (simp only: nc_eqs take_bit_congs(4))?, (simp add: nc_eqs take_bit_uint_len)?)
  subgoal by (rule combinesI, rule alu_of_eqs, rule alu_of_eqs, rule alu_of_eqs, rule row_logic(1), (simp only: uint_low32 op_mask_eqs diff_0 and.assoc[symmetric])?, (simp only: nc_eqs take_bit_congs(4))?, (simp add: nc_eqs take_bit_uint_len)?)
  subgoal by (rule combinesI, rule alu_of_eqs, rule alu_of_eqs, rule alu_of_eqs, rule row_logic(2), (simp only: uint_low32 op_mask_eqs diff_0 and.assoc[symmetric])?, (simp only: nc_eqs take_bit_congs(4))?, (simp add: nc_eqs take_bit_uint_len)?)
  subgoal by (rule combinesI, rule alu_of_eqs, rule alu_of_eqs, rule alu_of_eqs, rule row_logic(2), (simp only: uint_low32 op_mask_eqs diff_0 and.assoc[symmetric])?, (simp only: nc_eqs take_bit_congs(4))?, (simp add: nc_eqs take_bit_uint_len)?)
  subgoal by (rule combinesI, rule alu_of_eqs, rule alu_of_eqs, rule alu_of_eqs, rule row_logic(3), (simp only: uint_low32 op_mask_eqs diff_0 and.assoc[symmetric])?, (simp only: nc_eqs take_bit_congs(4))?, (simp add: nc_eqs take_bit_uint_len)?)
  subgoal by (rule combinesI, rule alu_of_eqs, rule alu_of_eqs, rule alu_of_eqs, rule row_logic(3), (simp only: uint_low32 op_mask_eqs diff_0 and.assoc[symmetric])?, (simp only: nc_eqs take_bit_congs(4))?, (simp add: nc_eqs take_bit_uint_len)?)
  subgoal by (rule combinesI, rule alu_of_eqs, rule alu_of_eqs, rule alu_of_eqs, rule row_arith(5), (simp only: uint_low32 op_mask_eqs diff_0 and.assoc[symmetric])?, (simp only: nc_eqs take_bit_congs(4))?, (simp add: nc_eqs take_bit_uint_len)?)
  subgoal by (rule combinesI, rule alu_of_eqs, rule alu_of_eqs, rule alu_of_eqs, rule row_arith(5), (simp only: uint_low32 op_mask_eqs diff_0 and.assoc[symmetric])?, (simp only: nc_eqs take_bit_congs(4))?, (simp add: nc_eqs take_bit_uint_len)?)
  subgoal by (rule combinesI, rule alu_of_eqs, rule alu_of_eqs, rule alu_of_eqs, rule row_arith(3), (simp only: uint_low32 op_mask_eqs diff_0 and.assoc[symmetric])?, (simp only: nc_eqs take_bit_congs(4))?, (simp add: nc_eqs take_bit_uint_len)?)
  subgoal by (rule combinesI, rule alu_of_eqs, rule alu_of_eqs, rule alu_of_eqs, rule row_arith(3), (simp only: uint_low32 op_mask_eqs diff_0 and.assoc[symmetric])?, (simp only: nc_eqs take_bit_congs(4))?, (simp add: nc_eqs take_bit_uint_len)?)
  subgoal by (rule combinesI, rule alu_of_eqs, rule alu_of_eqs, rule alu_of_eqs, rule row_arith(4), (simp only: uint_low32 op_mask_eqs diff_0 and.assoc[symmetric])?, (simp only: nc_eqs take_bit_congs(4))?, (simp add: nc_eqs take_bit_uint_len)?)
  subgoal by (rule combinesI, rule alu_of_eqs, rule alu_of_eqs, rule alu_of_eqs, rule row_arith(4), (simp only: uint_low32 op_mask_eqs diff_0 and.assoc[symmetric])?, (simp only: nc_eqs take_bit_congs(4))?, (simp add: nc_eqs take_bit_uint_len)?)
  subgoal by (rule combine_shift, rule alu_of_eqs) (simp_all add: is_shift_def)
  subgoal by (rule combine_shift, rule alu_of_eqs) (simp_all add: is_shift_def)
  subgoal by (rule combine_shift, rule alu_of_eqs) (simp_all add: is_shift_def)
  subgoal by (rule combine_shift, rule alu_of_eqs) (simp_all add: is_shift_def)
  subgoal by (rule combine_shift, rule alu_of_eqs) (simp_all add: is_shift_def)
  subgoal by (rule combine_shift, rule alu_of_eqs) (simp_all add: is_shift_def)
  subgoal by (rule combine_ror, rule alu_of_eqs) (simp_all add: ror_sum[simplified])
  subgoal by (rule combine_ror, rule alu_of_eqs) (simp_all add: ror_sum[simplified])
  done

section \<open>Soundness of the rules\<close>

text \<open>
  \<open>env\<close> assigns each node the 64-bit register the backend holds for it. Constants are
  exact; a 32-bit operation determines the low half of its register only.
\<close>

definition consts_ok :: "const_table \<Rightarrow> (value_ref \<Rightarrow> u64) \<Rightarrow> bool" where
  "consts_ok cs env \<longleftrightarrow>
     list_all (\<lambda>v. case cs ! v of None \<Rightarrow> True | Some c \<Rightarrow> env v = c) [0..<length cs]"

definition node_ok :: "block \<Rightarrow> (value_ref \<Rightarrow> u64) \<Rightarrow> value_ref \<Rightarrow> bool" where
  "node_ok b env i \<longleftrightarrow>
     (let a = code b ! i in
       (case alu_of (a_op a) of
          None \<Rightarrow> True
        | Some (k, w) \<Rightarrow>
            take_bit w (uint (env i)) = alu_sem k w (uint (env (arg a 0))) (uint (env (arg a 1)))) \<and>
       (a_op a = Op_Identity \<longrightarrow> env i = env (arg a 0)))"

definition env_ok :: "block \<Rightarrow> (value_ref \<Rightarrow> u64) \<Rightarrow> bool" where
  "env_ok b env \<longleftrightarrow> list_all (node_ok b env) [0..<length (code b)]"

lemma consts_okD: "consts_ok cs env \<Longrightarrow> cget cs v = Some c \<Longrightarrow> env v = c"
  by (auto simp: consts_ok_def cget_def list_all_iff split: if_splits dest!: bspec[of _ _ v])

lemma env_okD: "env_ok b env \<Longrightarrow> i < length (code b) \<Longrightarrow> node_ok b env i"
  by (auto simp: env_ok_def list_all_iff)

lemma alu_of_table: "alu_of p = Some (k, w) \<Longrightarrow> (p, k, w) \<in> set alu_table"
  unfolding alu_of_def by (rule map_of_SomeD)

lemma alu_of_width: "alu_of p = Some (k, w) \<Longrightarrow> w = 32 \<or> w = 64"
  by (drule alu_of_table) (auto simp: alu_table_def)

lemma alu_sem_cong1:
  assumes "take_bit w x = take_bit w x'" "0 < w"
  shows "alu_sem k w x y = alu_sem k w x' y"
proof -
  have s: "signed_take_bit (w - 1) x = signed_take_bit (w - 1) x'"
  proof -
    have "signed_take_bit (w - 1) (take_bit w z) = signed_take_bit (w - 1) z" for z :: int
    proof -
      have "\<not> w \<le> w - 1" using assms(2) by arith
      then show ?thesis by (simp only: signed_take_bit_take_bit if_False)
    qed
    then show ?thesis using assms(1) by metis
  qed
  show ?thesis
  proof (cases k)
    case AluAdd
    then show ?thesis using assms(1) by (metis alu_sem.simps(1) take_bit_add)
  next
    case AluSub
    then show ?thesis using assms(1) by (metis alu_sem.simps(2) take_bit_diff)
  next
    case AluMul
    then show ?thesis using assms(1) by (metis alu_sem.simps(6) take_bit_mult)
  next
    case AluLsl
    then show ?thesis using assms(1) by (metis alu_sem.simps(7) take_bit_congs(6))
  next
    case AluNot
    then show ?thesis using assms(1) by (metis alu_sem.simps(11) take_bit_congs(5))
  next
    case AluNeg
    then show ?thesis using assms(1) by (metis alu_sem.simps(12) take_bit_congs(4))
  qed (use assms(1) s in \<open>simp_all add: take_bit_and take_bit_or take_bit_xor Let_def\<close>)
qed


lemma uint_of_take: "take_bit 64 (uint (x :: u64)) = uint x"
  by (rule take_bit_uint_len) simp

lemma alu_zero:
  assumes "w = 32 \<or> w = 64"
  shows "alu_sem AluAdd w x 0 = take_bit w x" "alu_sem AluAdd w 0 x = take_bit w x"
    "alu_sem AluSub w x 0 = take_bit w x" "alu_sem AluSub w x x = 0"
    "alu_sem AluAnd w x 0 = 0" "alu_sem AluAnd w 0 x = 0" "alu_sem AluAnd w x x = take_bit w x"
    "alu_sem AluAnd w x (mask w) = take_bit w x" "alu_sem AluAnd w (mask w) x = take_bit w x"
    "alu_sem AluOr w x 0 = take_bit w x" "alu_sem AluOr w 0 x = take_bit w x"
    "alu_sem AluOr w x x = take_bit w x"
    "alu_sem AluOr w x (mask w) = mask w" "alu_sem AluOr w (mask w) x = mask w"
    "alu_sem AluEor w x 0 = take_bit w x" "alu_sem AluEor w 0 x = take_bit w x"
    "alu_sem AluEor w x x = 0"
    "alu_sem AluMul w x 0 = 0" "alu_sem AluMul w 0 x = 0"
    "alu_sem AluMul w x 1 = take_bit w x" "alu_sem AluMul w 1 x = take_bit w x"
    "alu_sem AluLsl w x 0 = take_bit w x" "alu_sem AluLsr w x 0 = take_bit w x"
    "alu_sem AluAsr w x 0 = take_bit w x" "alu_sem AluRor w x 0 = take_bit w x"
proof -
  have w: "0 < w" using assms by auto
  show "alu_sem AluAnd w x (mask w) = take_bit w x" "alu_sem AluAnd w (mask w) x = take_bit w x"
    "alu_sem AluOr w x (mask w) = mask w" "alu_sem AluOr w (mask w) x = mask w"
    by (auto intro!: bit_eqI simp: bit_simps)
  have top: "n = w - Suc 0" if "w - Suc 0 \<le> n" "n < w" for n using that by arith
  show "alu_sem AluAsr w x 0 = take_bit w x"
    using w by (intro bit_eqI) (auto simp: bit_simps min_def dest: top)
  show "alu_sem AluRor w x 0 = take_bit w x"
    using w by (intro bit_eqI) (auto simp: bit_alu_ror bit_simps simp del: alu_sem.simps)
qed (simp_all add: take_bit_and take_bit_or)


lemma alu_const_all_ones: "uint (0xFFFFFFFF :: u64) = mask 32" "uint (- 1 :: u64) = mask 64"
  by (simp_all add: mask_eq_exp_minus_1 unsigned_minus_1_eq_mask)

lemma alu_ones32:
  "alu_sem AluAnd 32 x 0xFFFFFFFF = take_bit 32 x" "alu_sem AluAnd 32 0xFFFFFFFF x = take_bit 32 x"
  "alu_sem AluOr 32 x 0xFFFFFFFF = 0xFFFFFFFF" "alu_sem AluOr 32 0xFFFFFFFF x = 0xFFFFFFFF"
proof -
  have m: "mask 32 = (0xFFFFFFFF :: int)" by (simp add: mask_eq_exp_minus_1)
  show "alu_sem AluAnd 32 x 0xFFFFFFFF = take_bit 32 x" "alu_sem AluAnd 32 0xFFFFFFFF x = take_bit 32 x"
    "alu_sem AluOr 32 x 0xFFFFFFFF = 0xFFFFFFFF" "alu_sem AluOr 32 0xFFFFFFFF x = 0xFFFFFFFF"
    using alu_zero(8,9,13,14)[of 32 x] unfolding m by blast+
qed

definition simplify_ok :: "simplify \<Rightarrow> (value_ref \<Rightarrow> u64) \<Rightarrow> nat \<Rightarrow> int \<Rightarrow> bool" where
  "simplify_ok s env w r =
     (case s of ToConst c \<Rightarrow> uint c = r | ToIdentity v \<Rightarrow> take_bit w (uint (env v)) = r)"

text \<open>
  C20. Strength reduction is sound: a node rewritten to a constant has exactly the reference
  result; a node rewritten to a copy of an operand agrees with it on the bits of the
  operation's width.
\<close>

theorem try_strength_reduce_sound:
  assumes "alu_of p = Some (k, w)" "consts_ok cs env" "try_strength_reduce p a cs = Some s"
  shows "simplify_ok s env w (alu_sem k w (uint (env (arg a 0))) (uint (env (arg a 1))))"
proof -
  note g = consts_okD[OF assms(2)]
  have "(p, k, w) \<in> set alu_table" by (rule alu_of_table[OF assms(1)])
  then show ?thesis
    using assms(3) unfolding alu_table_def
    apply (simp only: list.set insert_iff empty_iff prod.inject)
    apply (elim disjE conjE)
    apply (simp_all only: try_strength_reduce_def Let_def)
    apply (auto simp: simplify_ok_def alu_zero alu_const_all_ones alu_ones32 split: if_splits simp del: alu_sem.simps dest!: g)
    done
qed


text \<open>
  C21. Combining two constant operands is sound, provided the two shift amounts do not
  overflow 64 bits: the combined operation has the operand width of the original and
  applied to the inner operand it gives the outer node's reference result.
\<close>

theorem try_combine_const_sound:
  assumes "consts_ok cs env" "node_ok b env (arg a 0)"
    and "try_combine_const a b cs = Some (base_vr, nc, new_op)"
    and "is_shift (a_op a) \<Longrightarrow>
      unat (env (arg (code b ! arg a 0) 1)) + unat (env (arg a 1)) < 2 ^ 64"
  shows "\<exists>ko kn w. alu_of (a_op a) = Some (ko, w) \<and> alu_of new_op = Some (kn, w) \<and>
    alu_sem kn w (uint (env base_vr)) (uint nc) =
    alu_sem ko w (uint (env (arg a 0))) (uint (env (arg a 1)))"
proof -
  let ?inner = "code b ! arg a 0"
  note g = consts_okD[OF assms(1)]
  obtain ic oc where c: "cget cs (arg ?inner 1) = Some ic" "cget cs (arg a 1) = Some oc"
    "combine_consts (a_op a) (a_op ?inner) ic oc = Some (nc, new_op)" "base_vr = arg ?inner 0"
    using assms(3)
    by (auto simp: try_combine_const_def node_def split: bind_splits if_splits)
  have e: "env (arg ?inner 1) = ic" "env (arg a 1) = oc" using g c by auto
  have "combines (a_op a) (a_op ?inner) new_op ic oc nc"
    using combine_consts_sound[OF c(3)] assms(4) e by simp
  then obtain ko ki kn w where r: "alu_of (a_op a) = Some (ko, w)" "alu_of (a_op ?inner) = Some (ki, w)"
    "alu_of new_op = Some (kn, w)"
    "\<And>x. alu_sem kn w x (uint nc) = alu_sem ko w (alu_sem ki w x (uint ic)) (uint oc)"
    unfolding combines_def by blast
  have w: "0 < w" using alu_of_width[OF r(1)] by auto
  have "take_bit w (uint (env (arg a 0))) = alu_sem ki w (uint (env base_vr)) (uint ic)"
    using assms(2) r(2) e c(4) by (simp add: node_ok_def Let_def)
  then have "alu_sem ko w (uint (env (arg a 0))) (uint oc) =
      alu_sem ko w (alu_sem ki w (uint (env base_vr)) (uint ic)) (uint oc)"
    by (intro alu_sem_cong1[OF _ w]) (metis take_bit_take_bit min.idem)
  then show ?thesis using r e by auto
qed

text \<open>Terms: \<open>env v = env base * coeff\<close> modulo the width.\<close>

definition term_ok :: "(value_ref \<Rightarrow> u64) \<Rightarrow> nat \<Rightarrow> value_ref \<Rightarrow> mul_term \<Rightarrow> bool" where
  "term_ok env w v t \<longleftrightarrow>
     take_bit w (uint (env v)) = take_bit w (uint (env (t_base t)) * uint (t_coeff t))"

lemma leaf_ok: "term_ok env w v (leaf_term v)"
  by (simp add: term_ok_def leaf_term_def)

lemma size_width: "alu_of p = Some (k, w) \<Longrightarrow> size_bits p = of_nat w' \<Longrightarrow> w' = 32 \<or> w' = 64 \<Longrightarrow> w' = w"
  by (drule alu_of_table) (auto simp: alu_table_def)

lemma term_ok_mul:
  assumes "term_ok env w v t" "w \<le> 64"
    and "take_bit w (uint (env u)) = alu_sem AluMul w (uint (env v)) (uint c)"
  shows "term_ok env w u \<lparr>t_base = t_base t, t_coeff = t_coeff t * c, t_has_mul = h\<rparr>"
proof -
  have "take_bit w (uint (t_coeff t * c)) = take_bit w (uint (t_coeff t) * uint c)"
    using assms(2) by (simp add: uint_arith_take)
  then have "take_bit w (uint (env (t_base t)) * uint (t_coeff t * c)) =
      take_bit w (uint (env (t_base t)) * uint (t_coeff t) * uint c)"
    by (metis mult.assoc take_bit_mult)
  also have "\<dots> = take_bit w (uint (env v) * uint c)"
    using assms(1) unfolding term_ok_def by (metis take_bit_mult)
  finally show ?thesis using assms(3) by (simp add: term_ok_def)
qed


lemma alu_mul_commute: "alu_sem AluMul w x y = alu_sem AluMul w y x"
  by (simp add: mult.commute)

lemma term_shift_amt:
  fixes c y :: u64
  assumes "w = 32 \<or> w = 64"
  shows "wrapping_shl c (ucast y AND (of_nat w - 1)) = push_bit (nat (uint y mod int w)) c"
proof -
  have "unat ((ucast y :: u32) AND 31) < 32"
    using unat_and_mask_less[of "ucast y :: u32" 5] by (simp add: mask_eq_exp_minus_1)
  then have "unat ((ucast y :: u32) AND 31) mod 64 = nat (uint y mod 32)"
    using unat_amt(1)[of y] by simp
  then show ?thesis using assms unat_amt(2)[of y] by (auto simp: wrapping_shl_def)
qed

lemma take_bit_cong2:
  fixes x y :: int
  assumes "take_bit w x = take_bit w x'" "take_bit w y = take_bit w y'"
  shows "take_bit w (x + y) = take_bit w (x' + y')" "take_bit w (x - y) = take_bit w (x' - y')"
  using assms by (metis take_bit_add, metis take_bit_diff)

lemma take_bit_cong_mult:
  fixes x z :: int
  assumes "take_bit w x = take_bit w x'"
  shows "take_bit w (z * x) = take_bit w (z * x')" "take_bit w (x * z) = take_bit w (x' * z)"
  using assms by (metis take_bit_mult)+

lemma low_arith:
  fixes c d :: u64
  assumes "w \<le> 64"
  shows "take_bit w (uint (c + d)) = take_bit w (uint c + uint d)"
    "take_bit w (uint (c - d)) = take_bit w (uint c - uint d)"
    "take_bit w (uint (push_bit n c)) = take_bit w (uint c * 2 ^ n)"
proof -
  have m: "min w 64 = w" using assms by simp
  show "take_bit w (uint (c + d)) = take_bit w (uint c + uint d)"
    "take_bit w (uint (c - d)) = take_bit w (uint c - uint d)"
    by (simp_all only: uint_arith_take len_eqs take_bit_take_bit m)
  show "take_bit w (uint (push_bit n c)) = take_bit w (uint c * 2 ^ n)"
    by (simp only: uint_arith_take(6) len_eqs take_bit_take_bit m) (simp only: push_bit_eq_mult)
qed

lemma term_ok_shl:
  fixes k :: u64
  assumes "term_ok env w v t" "w = 32 \<or> w = 64"
    and "take_bit w (uint (env u)) = alu_sem AluLsl w (uint (env v)) (uint k)"
  shows "term_ok env w u \<lparr>t_base = t_base t,
     t_coeff = wrapping_shl (t_coeff t) (ucast k AND (of_nat w - 1)), t_has_mul = h\<rparr>"
proof -
  let ?n = "nat (uint k mod int w)"
  let ?c = "wrapping_shl (t_coeff t) (ucast k AND (of_nat w - 1))"
  have "take_bit w (uint ?c) = take_bit w (uint (t_coeff t) * 2 ^ ?n)"
    unfolding term_shift_amt[OF assms(2)] by (rule low_arith(3)) (use assms(2) in auto)
  from take_bit_cong_mult(1)[OF this, of "uint (env (t_base t))"]
  have "take_bit w (uint (env (t_base t)) * uint ?c) =
      take_bit w (uint (env (t_base t)) * uint (t_coeff t) * 2 ^ ?n)"
    by (simp only: mult.assoc)
  also have "\<dots> = take_bit w (uint (env v) * 2 ^ ?n)"
    using assms(1) unfolding term_ok_def by (intro take_bit_cong_mult(2)) (rule sym)
  finally show ?thesis using assms(3) by (simp add: term_ok_def push_bit_eq_mult)
qed

lemma node_alu:
  assumes "env_ok b env" "v < length (code b)" "alu_of (a_op (code b ! v)) = Some (k, w)"
  shows "take_bit w (uint (env v)) =
    alu_sem k w (uint (env (arg (code b ! v) 0))) (uint (env (arg (code b ! v) 1)))"
  using env_okD[OF assms(1,2)] assms(3) by (simp add: node_ok_def Let_def)

lemma term_constD: "consts_ok cs env \<Longrightarrow> term_const cs v = Some c \<Longrightarrow> env v = c"
  by (auto simp: term_const_def consts_okD split: if_splits)

lemma mul_width:
  "p = Op_Mul32 \<or> p = Op_Mul64 \<Longrightarrow> size_bits p = of_nat w \<Longrightarrow> w = 32 \<or> w = 64 \<Longrightarrow>
   alu_of p = Some (AluMul, w)"
  "p = Op_Lsl32 \<or> p = Op_Lsl64 \<Longrightarrow> size_bits p = of_nat w \<Longrightarrow> w = 32 \<or> w = 64 \<Longrightarrow>
   alu_of p = Some (AluLsl, w)"
  by auto

lemma extract_term_ok:
  assumes "env_ok b env" "consts_ok cs env" "w = 32 \<or> w = 64"
  shows "extract_term fuel b v cs (of_nat w) = Some t \<Longrightarrow> term_ok env w v t"
proof (induction fuel arbitrary: v t)
  case 0
  then show ?case by simp
next
  case (Suc fuel)
  let ?a = "code b ! v"
  have w: "w \<le> 64" using assms(3) by auto
  note na = node_alu[OF assms(1)]
  show ?case
  proof (cases "v \<ge> length (code b) \<or> vr_is_none v")
    case True
    then show ?thesis using Suc.prems leaf_ok by auto
  next
    case v: False
    then have vl: "v < length (code b)" by simp
    consider (mul) "a_op ?a = Op_Mul32 \<or> a_op ?a = Op_Mul64" "size_bits (a_op ?a) = of_nat w"
      | (shl) "a_op ?a = Op_Lsl32 \<or> a_op ?a = Op_Lsl64" "size_bits (a_op ?a) = of_nat w"
      | (ident) "a_op ?a = Op_Identity"
      | (other) "t = leaf_term v"
      using Suc.prems v by (auto simp: Let_def split: if_splits)
    then show ?thesis
    proof cases
      case mul
      note n = na[OF vl mul_width(1)[OF mul assms(3)]]
      have "extract_term (Suc fuel) b v cs (of_nat w) =
         (case term_const cs (arg ?a 0) of
            Some c \<Rightarrow> do { inner \<leftarrow> extract_term fuel b (arg ?a 1) cs (of_nat w);
              Some \<lparr>t_base = t_base inner, t_coeff = t_coeff inner * c, t_has_mul = True\<rparr> }
          | None \<Rightarrow> (case term_const cs (arg ?a 1) of
               Some c \<Rightarrow> do { inner \<leftarrow> extract_term fuel b (arg ?a 0) cs (of_nat w);
                 Some \<lparr>t_base = t_base inner, t_coeff = t_coeff inner * c, t_has_mul = True\<rparr> }
             | None \<Rightarrow> Some (leaf_term v)))"
        using v mul by (simp add: Let_def)
      with Suc.prems n show ?thesis
        by (auto split: option.splits bind_splits simp: leaf_ok alu_mul_commute[of w "uint (env (arg ?a 0))"]
            dest!: term_constD[OF assms(2)] Suc.IH simp del: alu_sem.simps intro!: term_ok_mul w)
    next
      case shl
      note n = na[OF vl mul_width(2)[OF shl assms(3)]]
      have "extract_term (Suc fuel) b v cs (of_nat w) =
         (case term_const cs (arg ?a 1) of
            Some k \<Rightarrow> do { inner \<leftarrow> extract_term fuel b (arg ?a 0) cs (of_nat w);
              Some \<lparr>t_base = t_base inner,
                t_coeff = wrapping_shl (t_coeff inner) (ucast k AND (of_nat w - 1)),
                t_has_mul = t_has_mul inner\<rparr> }
          | None \<Rightarrow> Some (leaf_term v))"
        using v shl by (auto simp: Let_def split: option.split)
      with Suc.prems n assms(3) show ?thesis
        by (auto split: option.splits bind_splits simp: leaf_ok
            dest!: term_constD[OF assms(2)] Suc.IH simp del: alu_sem.simps intro!: term_ok_shl)
    next
      case ident
      have "extract_term fuel b (arg ?a 0) cs (of_nat w) = Some t"
        using Suc.prems v ident by (simp add: Let_def)
      moreover have "env v = env (arg ?a 0)"
        using env_okD[OF assms(1) vl] ident by (simp add: node_ok_def Let_def)
      ultimately show ?thesis using Suc.IH by (simp add: term_ok_def)
    next
      case other
      then show ?thesis by (simp add: leaf_ok)
    qed
  qed
qed


text \<open>
  C22. Multiplication folding is sound: \<open>x * a (+|-) x * b\<close> rewritten to \<open>x * c\<close> has the
  reference value of the addition or subtraction, modulo the width.
\<close>

theorem try_mul_fold_sound:
  assumes "env_ok b env" "consts_ok cs env" "try_mul_fold fuel a b cs = Some (Some (base_vr, coeff))"
    and "alu_of (a_op a) = Some (k, w)" "k = AluAdd \<or> k = AluSub"
  shows "alu_sem AluMul w (uint (env base_vr)) (uint coeff) =
    alu_sem k w (uint (env (arg a 0))) (uint (env (arg a 1)))"
proof -
  have w: "w = 32 \<or> w = 64" by (rule alu_of_width[OF assms(4)])
  have sz: "size_bits (a_op a) = of_nat w" "op_mask (a_op a) = (if w = 32 then 0xFFFFFFFF else NOT 0)"
    and sub: "a_op a \<in> {Op_Sub32, Op_Sub64} \<longleftrightarrow> k = AluSub"
    using alu_of_table[OF assms(4)] assms(5) by (auto simp: alu_table_def)
  obtain l r where lr: "extract_term fuel b (arg a 0) cs (of_nat w) = Some l"
    "extract_term fuel b (arg a 1) cs (of_nat w) = Some r" "t_base l = base_vr" "t_base r = base_vr"
    "coeff = (if k = AluSub then t_coeff l - t_coeff r else t_coeff l + t_coeff r) AND op_mask (a_op a)"
    using assms(3) unfolding try_mul_fold_def sub sz(1) Let_def
    by (auto split: bind_splits if_splits)
  have c: "take_bit w (uint coeff) =
    take_bit w (if k = AluSub then uint (t_coeff l) - uint (t_coeff r) else uint (t_coeff l) + uint (t_coeff r))"
  proof -
    have "take_bit w (uint (z AND op_mask (a_op a))) = take_bit w (uint z)" for z :: u64
      using w unfolding sz(2) by (auto simp: uint_low32)
    then show ?thesis using w low_arith(1,2)[of w] unfolding lr(5) by auto
  qed
  have ok: "take_bit w (uint (env (arg a 0))) = take_bit w (uint (env base_vr) * uint (t_coeff l))"
    "take_bit w (uint (env (arg a 1))) = take_bit w (uint (env base_vr) * uint (t_coeff r))"
    using extract_term_ok[OF assms(1,2) w lr(1)] extract_term_ok[OF assms(1,2) w lr(2)]
    by (simp_all add: term_ok_def lr(3,4))
  have "take_bit w (uint (env base_vr) * uint coeff) =
      take_bit w (uint (env base_vr) * (if k = AluSub then uint (t_coeff l) - uint (t_coeff r)
        else uint (t_coeff l) + uint (t_coeff r)))"
    using c by (metis take_bit_mult)
  also have "\<dots> = alu_sem k w (uint (env (arg a 0))) (uint (env (arg a 1)))"
    using assms(5) take_bit_cong2[OF ok]
    by (elim disjE) (simp_all only: alu_sem.simps alu.distinct if_True if_False simp_thms
        right_diff_distrib distrib_left)
  finally show ?thesis by simp
qed

text \<open>
  \<open>extract_term\<close> returns when operand references are well-founded: any rank that
  decreases from a node to its operands bounds the fuel it needs.
\<close>

definition ranked :: "block \<Rightarrow> (value_ref \<Rightarrow> nat) \<Rightarrow> bool" where
  "ranked b rank \<longleftrightarrow>
     list_all (\<lambda>i. rank (arg (code b ! i) 0) < rank i \<and> rank (arg (code b ! i) 1) < rank i)
       [1..<length (code b)]"

lemma extract_term_terminates:
  "ranked b rank \<Longrightarrow> rank v < fuel \<Longrightarrow> \<exists>t. extract_term fuel b v cs sz = Some t"
proof (induction fuel arbitrary: v)
  case (Suc fuel)
  show ?case
  proof (cases "v \<ge> length (code b) \<or> vr_is_none v")
    case False
    then have "rank (arg (code b ! v) 0) < fuel" "rank (arg (code b ! v) 1) < fuel"
      using Suc.prems by (auto simp: ranked_def list_all_iff vr_is_none_def dest!: bspec[of _ _ v])
    with Suc.IH[OF Suc.prems(1)] obtain t0 t1 where
      "extract_term fuel b (arg (code b ! v) 0) cs sz = Some t0"
      "extract_term fuel b (arg (code b ! v) 1) cs sz = Some t1" by blast
    then show ?thesis by (auto simp: Let_def split: option.split)
  qed auto
qed simp

text \<open>
  Multiplication folding terminates on every acyclic graph: with more fuel than the rank
  of the operands the analysis returns.
\<close>

theorem try_mul_fold_terminates:
  assumes "ranked b rank" "rank (arg a 0) < fuel" "rank (arg a 1) < fuel"
  shows "\<exists>r. try_mul_fold fuel a b cs = Some r"
proof -
  obtain t0 t1 where "extract_term fuel b (arg a 0) cs (size_bits (a_op a)) = Some t0"
    "extract_term fuel b (arg a 1) cs (size_bits (a_op a)) = Some t1"
    using extract_term_terminates[OF assms(1,2)] extract_term_terminates[OF assms(1,3)] by metis
  then show ?thesis by (simp add: try_mul_fold_def Let_def)
qed


section \<open>Terminals\<close>

lemma upd_node_terminal: "upd_node i f b = Some b' \<Longrightarrow> terminal b' = terminal b"
  by (auto simp: upd_node_def split: if_splits)

lemma unlink_terminal: "unlink v b = Some b' \<Longrightarrow> terminal b' = terminal b"
  by (auto simp: unlink_def Let_def dest!: upd_node_terminal split: bind_splits if_splits)

text \<open>Where a terminal continues, on the registers \<open>env\<close>; \<open>None\<close> leaves the block's code.\<close>

fun branch_target :: "terminal \<Rightarrow> (value_ref \<Rightarrow> u64) \<Rightarrow> u64 option" where
  "branch_target (LinkBlock pc) env = Some pc"
| "branch_target (DirectBranch pc lnk) env = Some pc"
| "branch_target (ConditionalBranch nz c t n) env =
     Some (if nzcv_check (ucast (env nz)) (cond_from_bits c) then t else n)"
| "branch_target (CompareBranchZero v negate wide t n) env =
     (let zero = (if wide then env v = 0 else take_bit 32 (env v) = 0)
      in Some (if zero \<noteq> negate then t else n))"
| "branch_target (TestBranchBit v bt negate t n) env =
     Some (if bit (env v) (unat bt) = negate then t else n)"
| "branch_target (IndirectBranch v lnk ret) env = Some (env v)"
| "branch_target t env = None"

lemma low32_mask: "(x :: u64) AND 0xFFFFFFFF = take_bit 32 x"
proof -
  have "(0xFFFFFFFF :: u64) = mask 32" by (simp add: mask_eq_exp_minus_1)
  then show ?thesis by (simp only: take_bit_eq_mask)
qed

lemma bit_test: "drop_bit n (x :: u64) AND 1 \<noteq> 0 \<longleftrightarrow> bit x n"
  by (simp add: and_one_eq bit_iff_odd_drop_bit odd_iff_mod_2_eq_one)

lemma cond_always: "c = AL \<or> c = NV \<Longrightarrow> nzcv_check f c"
  by (auto simp: nzcv_check_def)

lemma simplified_target:
  assumes "consts_ok cs env" "simplified t cs = Some t'"
  shows "branch_target t' env = branch_target t env"
  using assms(2)
  by (cases t)
    (auto simp: simplified_def Let_def low32_mask bit_test cond_always consts_okD[OF assms(1)]
      split: if_splits)

text \<open>
  Terminal simplification never panics on a well-formed block, keeps the address where
  execution continues, and removes at most the branch node at the end of the block.
\<close>

theorem simplify_terminal_sound:
  assumes "consts_ok cs env" "block_inv b xs"
  shows "\<exists>b' ys. simplify_terminal cs b = Some b' \<and> block_inv b' ys \<and>
     branch_target (terminal b') env = branch_target (terminal b) env \<and>
     (ys = xs \<or> (\<exists>v. xs = ys @ [v] \<and>
        a_op (code b ! v) \<in> {Op_CbZ, Op_CbNz, Op_TbZ, Op_TbNz, Op_BranchCond}))"
proof (cases "simplified (terminal b) cs")
  case None
  then show ?thesis using assms(2) by (auto simp: simplify_terminal_def)
next
  case (Some t')
  let ?b = "b\<lparr>terminal := t'\<rparr>"
  have inv: "block_inv ?b xs" using assms(2) by (simp add: block_inv_def)
  note tgt = simplified_target[OF assms(1) Some]
  show ?thesis
  proof (cases xs rule: rev_cases)
    case Nil
    then have "tail_vr ?b = None" using block_invD(5)[OF inv] by (simp add: tail_vr_def link_vr_def LINK_NONE_def)
    then show ?thesis using Some inv tgt Nil by (auto simp: simplify_terminal_def)
  next
    case (snoc ys v)
    have v: "v \<noteq> 0" "v < length (code b)" "tail b = v"
      using block_invD[OF inv] snoc by auto
    then have tl: "tail_vr ?b = Some v" "node ?b v = Some (code b ! v)"
      by (simp_all add: tail_vr_def link_vr_def LINK_NONE_def node_def)
    obtain b2 where u: "unlink v ?b = Some b2" "block_inv b2 ys"
      using unlink_inv[of ?b ys v "[]"] inv snoc by auto
    have "terminal b2 = t'" using unlink_terminal[OF u(1)] by simp
    then show ?thesis
      using Some tl u inv snoc tgt
      by (cases "a_op (code b ! v) \<in> {Op_CbZ, Op_CbNz, Op_TbZ, Op_TbNz, Op_BranchCond}")
        (auto simp: simplify_terminal_def)
  qed
qed


section \<open>Concrete instances\<close>

text \<open>\<open>x * 3 << 2 + x\<close> at \<open>x = 7\<close>.\<close>

definition demo_block :: block where
  "demo_block = snd (the (push_list push
     [armlet_new Op_GetX TyU64,
      with_imm 3 (armlet_new Op_ConstU64 TyU64),
      with_args [1, 2] (armlet_new Op_Mul64 TyU64),
      with_imm 2 (armlet_new Op_ConstU64 TyU64),
      with_args [3, 4] (armlet_new Op_Lsl64 TyU64),
      with_args [5, 1] (armlet_new Op_Add64 TyU64),
      with_args [5, 4] (armlet_new Op_Lsl64 TyU64),
      with_args [6] (armlet_new Op_CbZ TyVoid)]
     (block_new 0))) \<lparr>terminal := CompareBranchZero 4 False True 0x100 0x200\<rparr>"

definition demo_env :: "value_ref \<Rightarrow> u64" where
  "demo_env v = [0, 7, 3, 21, 2, 84, 91, 336, 0] ! v"

definition demo_consts :: const_table where
  "demo_consts = [None, None, Some 3, None, Some 2, None, None, None, None]"

lemma demo_ok: "env_ok demo_block demo_env" "consts_ok demo_consts demo_env"
  "block_inv demo_block [1, 2, 3, 4, 5, 6, 7, 8]" "ranked demo_block id"
  by code_simp+



theorem try_strength_reduce_sound_witness:
  "simplify_ok (ToIdentity 1) demo_env 64 (alu_sem AluMul 64 7 1)"
proof -
  define a where "a = with_args [1, 2] (armlet_new Op_Mul64 TyU64)"
  define cs :: const_table where "cs = [None, None, Some 1]"
  define env :: "value_ref \<Rightarrow> u64" where "env v = [0, 7, 1] ! v" for v
  have "consts_ok cs env" "try_strength_reduce Op_Mul64 a cs = Some (ToIdentity 1)"
    "env (arg a 0) = 7" "env (arg a 1) = 1"
    unfolding a_def cs_def env_def by code_simp+
  with try_strength_reduce_sound[of Op_Mul64 AluMul 64 cs env a "ToIdentity 1"]
  show ?thesis by (simp add: simplify_ok_def env_def demo_env_def)
qed

theorem try_combine_const_sound_witness:
  "\<exists>cs env b a nc. try_combine_const a b cs = Some (1, nc, Op_Lsl64) \<and>
     alu_sem AluLsl 64 7 (uint nc) = alu_sem AluLsl 64 28 2"
proof -
  define a where "a = with_args [2, 4] (armlet_new Op_Lsl64 TyU64)"
  define b where "b = snd (the (push_list push
    [armlet_new Op_GetX TyU64, with_args [1, 4] (armlet_new Op_Lsl64 TyU64), armlet_new Op_Void TyVoid,
     with_imm 2 (armlet_new Op_ConstU64 TyU64)] (block_new 0)))"
  define env :: "value_ref \<Rightarrow> u64" where "env v = [0, 7, 28, 0, 2] ! v" for v
  define cs :: const_table where "cs = [None, None, None, None, Some 2]"
  have h: "consts_ok cs env" "node_ok b env (arg a 0)"
    "try_combine_const a b cs = Some (1, 4, Op_Lsl64)"
    "env (arg (code b ! arg a 0) 1) = 2" "a_op a = Op_Lsl64"
    "env (arg a 0) = 28" "env (arg a 1) = 2" "env 1 = 7"
    unfolding cs_def a_def b_def env_def by code_simp+
  from try_combine_const_sound[OF h(1-3)] h(4-8)
  have "alu_sem AluLsl 64 7 (uint (4 :: u64)) = alu_sem AluLsl 64 28 2" by simp
  with h(3) show ?thesis by blast
qed

theorem try_mul_fold_sound_witness:
  "try_mul_fold 9 (code demo_block ! 6) demo_block demo_consts = Some (Some (1, 13)) \<and>
   alu_sem AluMul 64 7 13 = alu_sem AluAdd 64 84 7"
proof -
  have h: "try_mul_fold 9 (code demo_block ! 6) demo_block demo_consts = Some (Some (1, 13))"
    "a_op (code demo_block ! 6) = Op_Add64" "demo_env 1 = 7"
    "demo_env (arg (code demo_block ! 6) 0) = 84" "demo_env (arg (code demo_block ! 6) 1) = 7"
    by code_simp+
  show ?thesis
    using try_mul_fold_sound[OF demo_ok(1,2) h(1), of AluAdd 64] h by simp
qed

theorem try_mul_fold_terminates_witness:
  "\<exists>r. try_mul_fold 9 (code demo_block ! 6) demo_block demo_consts = Some r"
proof -
  have "id (arg (code demo_block ! 6) 0) < 9" "id (arg (code demo_block ! 6) 1) < 9" by code_simp+
  then show ?thesis by (rule try_mul_fold_terminates[OF demo_ok(4)])
qed

theorem simplify_terminal_sound_witness:
  "\<exists>b'. simplify_terminal demo_consts demo_block = Some b' \<and>
     branch_target (terminal b') demo_env = branch_target (terminal demo_block) demo_env"
  using simplify_terminal_sound[OF demo_ok(2,3)] by blast


end
