(* ===== verification/Lanes.thy ===== *)
theory Lanes
  imports Prelude
begin

text \<open>
  Vector registers as words: lane \<open>i\<close> of a register, registers assembled from lanes, and
  the parity arithmetic of GF(2) used by the affine byte transforms. The little-endian
  byte views (\<open>to_le_bytes\<close>, \<open>from_le_bytes\<close>) are the case of 8-bit lanes.
\<close>

section \<open>Lanes\<close>

definition lane :: "nat \<Rightarrow> 'a::len word \<Rightarrow> 'b::len word" where
  "lane i v = ucast (drop_bit (LENGTH('b) * i) v)"

definition join :: "nat \<Rightarrow> (nat \<Rightarrow> 'b::len word) \<Rightarrow> 'a::len word" where
  "join n g = foldl (\<lambda>r i. r OR push_bit (LENGTH('b) * i) (ucast (g i))) 0 [0..<n]"

lemma bit_lane: "bit (lane i v :: 'b::len word) k \<longleftrightarrow> k < LENGTH('b) \<and> bit v (LENGTH('b) * i + k)"
  for v :: "'a::len word"
  by (auto simp: lane_def bit_simps bit_imp_le_length)

lemma bit_join:
  fixes g :: "nat \<Rightarrow> 'b::len word"
  shows "LENGTH('b) * n \<le> LENGTH('a) \<Longrightarrow> bit (join n g :: 'a::len word) k \<longleftrightarrow>
     k < LENGTH('b) * n \<and> bit (g (k div LENGTH('b))) (k mod LENGTH('b))"
proof (induction n)
  case 0
  then show ?case by (simp add: join_def)
next
  case (Suc n)
  let ?w = "LENGTH('b)"
  have IH: "bit (join n g :: 'a word) k \<longleftrightarrow> k < ?w * n \<and> bit (g (k div ?w)) (k mod ?w)"
    using Suc by simp
  have j: "join (Suc n) g = (join n g OR push_bit (?w * n) (ucast (g n)) :: 'a word)"
    by (simp add: join_def)
  show ?case
  proof (cases "k < ?w * n")
    case True
    then show ?thesis unfolding j by (simp add: bit_simps IH)
  next
    case False
    show ?thesis
    proof (cases "k < ?w * Suc n")
      case True
      then have d: "k div ?w = n"
        using False by (auto intro: div_nat_eqI simp: mult.commute)
      then have "k mod ?w = k - ?w * n" by (simp add: modulo_nat_def mult.commute)
      with d show ?thesis unfolding j using False True Suc.prems by (auto simp: bit_simps IH)
    next
      case k: False
      have "\<not> bit (g n) (k - ?w * n)" using k bit_imp_le_length[of "g n" "k - ?w * n"] by auto
      then show ?thesis unfolding j using False k by (auto simp: bit_simps IH)
    qed
  qed
qed

lemma lane_join:
  fixes g :: "nat \<Rightarrow> 'b::len word"
  assumes "LENGTH('b) * n \<le> LENGTH('a)" "i < n"
  shows "lane i (join n g :: 'a::len word) = g i"
proof (rule word_eqI_bits)
  fix k assume "k < LENGTH('b)"
  moreover from this have "LENGTH('b) * i + k < LENGTH('b) * n"
    using assms(2) by (metis add.commute less_le_trans mult_Suc_right mult_le_mono2 nat_add_left_cancel_less Suc_leI)
  ultimately show "bit (lane i (join n g :: 'a word) :: 'b word) k = bit (g i) k"
    by (simp add: bit_lane bit_join[OF assms(1)])
qed

lemma lanes_eqI:
  fixes v v' :: "'a::len word"
  assumes "LENGTH('b::len) * n = LENGTH('a)"
    and "\<And>i. i < n \<Longrightarrow> (lane i v :: 'b word) = lane i v'"
  shows "v = v'"
proof (rule word_eqI_bits)
  fix k assume k: "k < LENGTH('a)"
  let ?w = "LENGTH('b)"
  have "k div ?w < n" using k assms(1) by (simp add: less_mult_imp_div_less mult.commute)
  from assms(2)[OF this] have "bit (lane (k div ?w) v :: 'b word) (k mod ?w) = bit (lane (k div ?w) v' :: 'b word) (k mod ?w)"
    by simp
  then show "bit v k = bit v' k" by (simp add: bit_lane)
qed

lemma join_lanes:
  assumes "LENGTH('b::len) * n = LENGTH('a)"
  shows "join n (\<lambda>i. lane i v :: 'b word) = (v :: 'a::len word)"
proof (rule lanes_eqI[where 'b = 'b, OF assms])
  fix i assume "i < n"
  then show "(lane i (join n (\<lambda>i. lane i v :: 'b word) :: 'a word) :: 'b word) = lane i v"
    using assms by (simp add: lane_join)
qed

lemma join_cong: "(\<And>i. i < n \<Longrightarrow> g i = g' i) \<Longrightarrow> join n g = join n g'"
  unfolding join_def by (rule foldl_cong) auto

text \<open>Apply a byte function to every byte of a register.\<close>

definition map_bytes :: "(u8 \<Rightarrow> u8) \<Rightarrow> 'a::len word \<Rightarrow> 'a word" where
  "map_bytes f v = join (LENGTH('a) div 8) (\<lambda>i. f (lane i v))"

section \<open>Parity\<close>

lemma odd_ones_xor:
  "odd (ones_below n (x XOR y)) \<longleftrightarrow> odd (ones_below n x) \<noteq> odd (ones_below n y)"
  by (induction n) (auto simp: bit_simps)

lemma ones_below_zero [simp]: "ones_below n 0 = 0"
  by (induction n) auto

lemma ones_below_single:
  "n \<le> LENGTH('a) \<Longrightarrow> ones_below n ((2 :: 'a::len word) ^ j AND x) = of_bool (j < n \<and> bit x j)"
  by (induction n) (auto simp: bit_simps less_Suc_eq)

definition parity :: "'a::len word \<Rightarrow> bool" where
  "parity x \<longleftrightarrow> odd (count_ones x)"

lemma parity_xor [simp]: "parity (x XOR y) \<longleftrightarrow> parity x \<noteq> parity y"
  by (simp add: parity_def count_ones_def odd_ones_xor)

lemma parity_0 [simp]: "\<not> parity 0" "\<not> parity (0 AND x)" "\<not> parity (x AND 0)"
  by (simp_all add: parity_def count_ones_def)

lemma parity_and_xor: "parity ((x XOR y) AND z) \<longleftrightarrow> parity (x AND z) \<noteq> parity (y AND z)"
  by (simp add: and.commute[of _ z] bit.conj_xor_distrib)

lemma parity_single [simp]:
  "parity ((2 :: 'a::len word) ^ j AND x) \<longleftrightarrow> bit x j"
  using bit_imp_le_length[of x j] by (auto simp: parity_def count_ones_def ones_below_single)

end
