(* ===== verification/Gfni.thy ===== *)
theory Gfni
  imports Lanes
begin

text \<open>
  Byte maps over GF(2): \<open>matrix\<close>, \<open>diagonal\<close> and \<open>linear\<close> of
  \<open>src/optimizer/affine.rs\<close> and the whole of \<open>src/backend/gfni.rs\<close> - the shift
  matrices, the recognisers of cheap matrices, the cost function and the instruction
  sequences emitted with and without the GFNI extension. The emitted sequences are run on
  a machine with SSE registers and proved to apply the matrix to every byte.
\<close>

section \<open>Matrices\<close>

definition matrix_row :: "u64 \<Rightarrow> nat \<Rightarrow> u8" where
  "matrix_row m b = ucast (drop_bit ((7 - b) * 8) m)"

definition matrix :: "(nat \<Rightarrow> u8) \<Rightarrow> u64" where
  "matrix rows = foldl (\<lambda>value b. value OR push_bit ((7 - b) * 8) (ucast (rows b))) 0 [0..<8]"

definition diagonal :: "u8 \<Rightarrow> u64" where
  "diagonal mask' = matrix (\<lambda>b. mask' AND push_bit b 1)"

definition linear :: "u64 \<Rightarrow> u8 \<Rightarrow> u8" where
  "linear m value = foldl (\<lambda>result b.
     let row = ucast (drop_bit ((7 - b) * 8) m) :: u8
     in result OR push_bit b (of_nat (count_ones (row AND value)) AND 1)) 0 [0..<8]"

definition REVERSE_MATRIX :: u64 where "REVERSE_MATRIX = 0x8040201008040201"
definition IDENTITY_MATRIX :: u64 where "IDENTITY_MATRIX = 0x0102040810204080"

definition left_shift_matrix :: "nat \<Rightarrow> u64" where
  "left_shift_matrix shift = foldl (\<lambda>m output.
     if output \<ge> shift then m OR push_bit (8 * (7 - output)) (push_bit (output - shift) 1) else m)
     0 [0..<8]"

definition right_shift_matrix :: "nat \<Rightarrow> bool \<Rightarrow> u64" where
  "right_shift_matrix shift is_signed = foldl (\<lambda>m output.
     let input = output + shift
     in if is_signed \<or> input < 8 then m OR push_bit (8 * (7 - output)) (push_bit (min input 7) 1) else m)
     0 [0..<8]"

text \<open>The loop of \<open>shifted_diagonal\<close>; the outer \<open>None\<close> is its early return.\<close>

fun shifted_diagonal_loop ::
    "u64 \<Rightarrow> nat list \<Rightarrow> int option \<Rightarrow> u8 \<Rightarrow> (int option \<times> u8) option" where
  "shifted_diagonal_loop m [] delta mask' = Some (delta, mask')"
| "shifted_diagonal_loop m (output # rest) delta mask' =
     (let row = matrix_row m output in
      if row = 0 then shifted_diagonal_loop m rest delta mask'
      else if \<not> is_power_of_two row then None
      else let row_delta = int (trailing_zeros row) - int output in
        if (case delta of None \<Rightarrow> False | Some value \<Rightarrow> value \<noteq> row_delta) then None
        else shifted_diagonal_loop m rest (Some row_delta) (mask' OR push_bit output 1))"

definition shifted_diagonal :: "u64 \<Rightarrow> (int \<times> u8) option" where
  "shifted_diagonal m =
     (case shifted_diagonal_loop m [0..<8] None 0 of
        None \<Rightarrow> None
      | Some (delta, mask') \<Rightarrow> map_option (\<lambda>d. (d, mask')) delta)"

definition signed_right_shift :: "u64 \<Rightarrow> nat option" where
  "signed_right_shift m = find (\<lambda>shift. m = right_shift_matrix shift True) [1..<9]"

definition affine_cost :: "u64 \<Rightarrow> u8 \<Rightarrow> bool \<Rightarrow> bool \<Rightarrow> nat" where
  "affine_cost m addend q gfni =
     (let tail = (if addend = 0 then 0 else 4);
          core = (if gfni then 4
            else if m = IDENTITY_MATRIX then tail
            else if m = 0 then (if addend = 0 then 1 else 3)
            else if m = REVERSE_MATRIX then 27 + tail
            else (case (signed_right_shift m, shifted_diagonal m) of
                (Some _, _) \<Rightarrow> 7 + tail
              | (None, Some (delta, mask')) \<Rightarrow>
                  of_bool (delta \<noteq> 0) + (if mask' = 0xff then 0 else 4) + tail
              | (None, None) \<Rightarrow>
                  foldl (\<lambda>cost output. let row = matrix_row m output
                    in cost + (if row = 0 then 0 else if is_power_of_two row then 8 else 19))
                    (2 + tail) [0..<8]))
      in core + of_bool (\<not> q))"

section \<open>What a matrix computes\<close>

lemma upt8: "[0..<8] = [0, 1, 2, 3, 4, 5, 6, 7 :: nat]"
  by code_simp

lemma matrix_join: "matrix rows = join 8 (\<lambda>i. rows (7 - i))"
  unfolding matrix_def join_def upt8 by (simp add: or.commute or.left_commute or.assoc)

lemma matrix_row_lane: "b < 8 \<Longrightarrow> matrix_row m b = lane (7 - b) m"
  by (simp add: matrix_row_def lane_def mult.commute)

lemma matrix_row_matrix: "b < 8 \<Longrightarrow> matrix_row (matrix rows) b = rows b"
proof -
  assume b: "b < 8"
  then have "7 - (7 - b) = b" by arith
  then show ?thesis using b by (simp add: matrix_row_lane matrix_join lane_join)
qed

lemma matrix_rows: "matrix (matrix_row m) = m"
proof -
  have "matrix (matrix_row m) = join 8 (\<lambda>i. lane i m :: u8)"
    unfolding matrix_join join_def upt8 by (simp add: matrix_row_lane)
  then show ?thesis using join_lanes[where 'b = 8 and 'a = 64 and n = 8 and v = m] by simp
qed

lemma bit_1_and: "bit (of_nat n AND 1 :: u8) k \<longleftrightarrow> k = 0 \<and> odd n"
  unfolding bit_and_iff bit_1_iff bit_of_nat_iff by (auto simp: bit_0)

lemma linear_fold:
  "n \<le> 8 \<Longrightarrow> bit (foldl (\<lambda>result b. result OR push_bit b (of_nat (g b) AND 1)) 0 [0..<n] :: u8) i \<longleftrightarrow>
     i < n \<and> odd (g i)"
proof (induction n)
  case 0
  then show ?case by simp
next
  case (Suc n)
  have p: "bit (push_bit n (of_nat (g n) AND 1) :: u8) i \<longleftrightarrow> i = n \<and> odd (g n)"
    using Suc.prems unfolding bit_push_bit_iff bit_1_and by auto
  have IH: "bit (foldl (\<lambda>result b. result OR push_bit b (of_nat (g b) AND 1)) 0 [0..<n] :: u8) i \<longleftrightarrow>
     i < n \<and> odd (g i)" by (rule Suc.IH) (use Suc.prems in simp)
  show ?case unfolding upt_Suc_append[OF le0] foldl_append foldl.simps bit_or_iff p IH
    by (auto simp: less_Suc_eq)
qed

lemma bit_linear: "bit (linear m x) i \<longleftrightarrow> i < 8 \<and> parity (matrix_row m i AND x)"
  unfolding linear_def Let_def parity_def matrix_row_def[symmetric] by (rule linear_fold) simp

lemma bit_linear_matrix: "bit (linear (matrix rows) x) i \<longleftrightarrow> i < 8 \<and> parity (rows i AND x)"
  by (auto simp: bit_linear matrix_row_matrix)


lemma foldl_or_cong:
  "(\<And>b m. b \<in> set xs \<Longrightarrow> f m b = g m b) \<Longrightarrow> foldl f a xs = foldl g a xs"
  by (rule foldl_cong) auto

lemma ucast_pow8: "k < 8 \<Longrightarrow> ucast (push_bit k (1 :: u8)) = (push_bit k 1 :: u64)"
  by (rule word_eqI_bits) (auto simp: bit_simps)

lemma left_shift_matrix_rows:
  "left_shift_matrix s = matrix (\<lambda>b. if b \<ge> s then push_bit (b - s) 1 else 0)"
  unfolding left_shift_matrix_def matrix_def
  by (rule foldl_or_cong) (auto simp: ucast_pow8 mult.commute simp del: push_bit_of_1)

lemma right_shift_matrix_rows:
  "right_shift_matrix s sg = matrix (\<lambda>b. if sg \<or> b + s < 8 then push_bit (min (b + s) 7) 1 else 0)"
  unfolding right_shift_matrix_def matrix_def Let_def
  by (rule foldl_or_cong) (auto simp: ucast_pow8 mult.commute min_def simp del: push_bit_of_1)

lemma linear_left: "linear (left_shift_matrix s) x = push_bit s x"
  by (rule word_eqI_bits) (auto simp: left_shift_matrix_rows bit_linear_matrix bit_simps)

lemma linear_right: "linear (right_shift_matrix s False) x = drop_bit s x"
  by (rule word_eqI_bits)
    (auto simp: right_shift_matrix_rows bit_linear_matrix bit_simps add.commute dest: bit_imp_le_length)

lemma linear_right_signed: "linear (right_shift_matrix s True) x = signed_drop_bit s x"
  by (rule word_eqI_bits)
    (auto simp: right_shift_matrix_rows bit_linear_matrix bit_simps min_def add.commute eval_nat_numeral)

text \<open>
  The shift matrices shift: applied to a byte they give the left shift and the logical
  and arithmetic right shifts, for every amount (also 8 and more).
\<close>

theorem shift_matrices:
  "linear (left_shift_matrix s) x = push_bit s x \<and>
   linear (right_shift_matrix s False) x = drop_bit s x \<and>
   linear (right_shift_matrix s True) x = signed_drop_bit s x"
  by (simp add: linear_left linear_right linear_right_signed)

lemma named_rows:
  assumes "i < 8"
  shows "matrix_row IDENTITY_MATRIX i = 2 ^ i" "matrix_row REVERSE_MATRIX i = 2 ^ (7 - i)"
proof -
  have "list_all (\<lambda>i. matrix_row IDENTITY_MATRIX i = 2 ^ i \<and> matrix_row REVERSE_MATRIX i = 2 ^ (7 - i)) [0..<8]"
    by code_simp
  then show "matrix_row IDENTITY_MATRIX i = 2 ^ i" "matrix_row REVERSE_MATRIX i = 2 ^ (7 - i)"
    using assms by (simp_all add: list_all_iff)
qed

lemma linear_identity: "linear IDENTITY_MATRIX x = x"
  by (rule word_eqI_bits) (simp add: bit_linear named_rows)

lemma bit_reverse: "i < 8 \<Longrightarrow> bit (linear REVERSE_MATRIX x) i = bit x (7 - i)"
  by (simp add: bit_linear named_rows)

definition row_ok :: "u64 \<Rightarrow> int option \<Rightarrow> u8 \<Rightarrow> nat \<Rightarrow> bool" where
  "row_ok m delta mask' o' \<longleftrightarrow>
     (if matrix_row m o' = 0 then \<not> bit mask' o'
      else bit mask' o' \<and> (\<exists>d. delta = Some d \<and> 0 \<le> int o' + d \<and> int o' + d < 8 \<and>
        matrix_row m o' = 2 ^ nat (int o' + d)))"

lemma shifted_diagonal_loop_mono:
  "shifted_diagonal_loop m outs delta mask' = Some (delta', mask'') \<Longrightarrow>
   (\<forall>k. k \<notin> set outs \<longrightarrow> bit mask'' k = bit mask' k) \<and> (delta \<noteq> None \<longrightarrow> delta' = delta)"
proof (induction outs arbitrary: delta mask')
  case (Cons o' outs)
  from Cons.prems consider
    "shifted_diagonal_loop m outs delta mask' = Some (delta', mask'')"
    | row_delta where "shifted_diagonal_loop m outs (Some row_delta) (mask' OR push_bit o' 1) = Some (delta', mask'')"
      "delta = None \<or> delta = Some row_delta"
    by (auto simp: Let_def split: if_splits option.splits)
  then show ?case
  proof cases
    case 1
    then show ?thesis using Cons.IH by auto
  next
    case 2
    then show ?thesis using Cons.IH[OF 2(1)] by (auto simp: bit_simps)
  qed
qed simp

lemma shifted_diagonal_loop_rows:
  "shifted_diagonal_loop m outs delta mask' = Some (delta', mask'') \<Longrightarrow> distinct outs \<Longrightarrow>
   set outs \<subseteq> {..<8} \<Longrightarrow> \<forall>k\<in>set outs. \<not> bit mask' k \<Longrightarrow> o' \<in> set outs \<Longrightarrow> row_ok m delta' mask'' o'"
proof (induction outs arbitrary: delta mask')
  case (Cons p outs)
  let ?row = "matrix_row m p" and ?d = "int (trailing_zeros (matrix_row m p)) - int p"
  let ?mask = "if ?row = 0 then mask' else mask' OR push_bit p 1"
  let ?delta = "if ?row = 0 then delta else Some ?d"
  have rest: "shifted_diagonal_loop m outs ?delta ?mask = Some (delta', mask'')"
    and pow: "?row \<noteq> 0 \<Longrightarrow> is_power_of_two ?row"
    using Cons.prems(1) by (auto simp: Let_def split: if_splits option.splits)
  note mono = shifted_diagonal_loop_mono[OF rest]
  have fresh: "\<forall>k\<in>set outs. \<not> bit ?mask k"
    using Cons.prems by (auto simp: bit_simps)
  show ?case
  proof (cases "o' = p")
    case True
    then have "bit mask'' o' = bit ?mask o'" using mono Cons.prems(2) by auto
    then have bm: "bit mask'' o' \<longleftrightarrow> ?row \<noteq> 0"
      using Cons.prems(3,4) True by (auto simp: bit_simps)
    show ?thesis
    proof (cases "?row = 0")
      case False
      then have "delta' = Some ?d" using mono by auto
      then show ?thesis
        using power_of_two_single[OF pow[OF False]] False bm True by (simp add: row_ok_def)
    qed (use bm True in \<open>simp add: row_ok_def\<close>)
  next
    case False
    then show ?thesis using Cons.IH[OF rest _ _ fresh] Cons.prems by auto
  qed
qed simp

definition shift_mask :: "int \<Rightarrow> u8 \<Rightarrow> u8 \<Rightarrow> u8" where
  "shift_mask delta mask' x =
     (if delta < 0 then push_bit (nat (- delta)) x else drop_bit (nat delta) x) AND mask'"

lemma shifted_diagonal_linear:
  assumes "shifted_diagonal m = Some (delta, mask')"
  shows "linear m x = shift_mask delta mask' x"
    "\<forall>i<8. bit mask' i \<longrightarrow> 0 \<le> int i + delta \<and> int i + delta < 8"
proof -
  have "shifted_diagonal_loop m [0..<8] None 0 = Some (Some delta, mask')"
    using assms by (auto simp: shifted_diagonal_def split: option.splits)
  then have r: "row_ok m (Some delta) mask' i" if "i < 8" for i
    by (rule shifted_diagonal_loop_rows) (use that in \<open>auto simp: bit_simps\<close>)
  show "linear m x = shift_mask delta mask' x"
  proof (rule word_eqI_bits)
    fix i assume "i < LENGTH(8)"
    then have i: "i < 8" by simp
    note ri = r[OF i]
    show "bit (linear m x) i = bit (shift_mask delta mask' x) i"
    proof (cases "matrix_row m i = 0")
      case True
      then show ?thesis using ri i by (simp add: bit_linear row_ok_def shift_mask_def bit_simps)
    next
      case False
      then have h: "bit mask' i" "0 \<le> int i + delta" "int i + delta < 8"
        "matrix_row m i = 2 ^ nat (int i + delta)" using ri by (auto simp: row_ok_def)
      have "bit (shift_mask delta mask' x) i = bit x (nat (int i + delta))"
      proof (cases "delta < 0")
        case True
        then have "nat (int i + delta) = i - nat (- delta)" "nat (- delta) \<le> i" using h by auto
        then show ?thesis using True h i by (simp add: shift_mask_def bit_simps)
      next
        case False
        then have "nat (int i + delta) = nat delta + i" by auto
        then show ?thesis using False h i by (simp add: shift_mask_def bit_simps)
      qed
      then show ?thesis using h i by (simp add: bit_linear)
    qed
  qed
  show "\<forall>i<8. bit mask' i \<longrightarrow> 0 \<le> int i + delta \<and> int i + delta < 8"
  proof (intro allI impI)
    fix i :: nat assume "i < 8" "bit mask' i"
    then show "0 \<le> int i + delta \<and> int i + delta < 8"
      using r[of i] by (auto simp: row_ok_def split: if_splits)
  qed
qed

text \<open>
  The shifted-diagonal recogniser is sound: when it answers a distance and a mask, the
  matrix is that shift followed by that mask, and it moves no bit across the byte boundary.
\<close>

theorem shifted_diagonal_sound:
  assumes "shifted_diagonal m = Some (delta, mask')"
  shows "linear m x = shift_mask delta mask' x \<and>
    (\<forall>i<8. bit mask' i \<longrightarrow> 0 \<le> int i + delta \<and> int i + delta < 8)"
  using shifted_diagonal_linear[OF assms] by blast

theorem shifted_diagonal_sound_witness:
  "shifted_diagonal 0x0000010204081020 = Some (- 2, 0xfc) \<and>
   linear 0x0000010204081020 0x81 = shift_mask (- 2) 0xfc 0x81"
proof -
  have "shifted_diagonal 0x0000010204081020 = Some (- 2, 0xfc)" by code_simp
  from this shifted_diagonal_sound[OF this] show ?thesis by blast
qed

section \<open>Emission\<close>

text \<open>
  The SSE instructions the emitter uses, on a machine with \<open>rax\<close> and the \<open>xmm\<close>
  registers. \<open>gf2p8affineqb\<close> takes its matrix from the quadword of the source that
  holds the byte; \<open>linear\<close> is its per-byte product.
\<close>

datatype xinsn =
    Mov_rax u64
  | Movq nat
  | Punpcklqdq nat nat
  | Gf2p8affineqb nat nat u8
  | Pxor nat nat
  | Pand nat nat
  | Por nat nat
  | Movdqa nat nat
  | Psrlw nat nat
  | Psllw nat nat
  | Psraw nat nat
  | Pmovsxbw nat nat
  | Psrldq nat nat
  | Packsswb nat nat

record machine =
  rax :: u64
  xmm :: "nat \<Rightarrow> u128"

definition words16 :: "(u16 \<Rightarrow> u16) \<Rightarrow> u128 \<Rightarrow> u128" where
  "words16 f v = join 8 (\<lambda>i. f (lane i v))"

definition sat8 :: "u16 \<Rightarrow> u8" where
  "sat8 w = (if sint w > 127 then 127 else if sint w < - 128 then - 128 else ucast w)"

definition set_xmm :: "nat \<Rightarrow> u128 \<Rightarrow> machine \<Rightarrow> machine" where
  "set_xmm d v s = s\<lparr>xmm := (xmm s)(d := v)\<rparr>"

fun exec_x :: "xinsn \<Rightarrow> machine \<Rightarrow> machine" where
  "exec_x (Mov_rax v) s = s\<lparr>rax := v\<rparr>"
| "exec_x (Movq d) s = set_xmm d (ucast (rax s)) s"
| "exec_x (Punpcklqdq d r) s =
     set_xmm d (join 2 (\<lambda>i. lane 0 (xmm s (if i = 0 then d else r)) :: u64)) s"
| "exec_x (Gf2p8affineqb d r imm) s =
     set_xmm d (join 16 (\<lambda>i. linear (lane (i div 8) (xmm s r)) (lane i (xmm s d)) XOR imm)) s"
| "exec_x (Pxor d r) s = set_xmm d (xmm s d XOR xmm s r) s"
| "exec_x (Pand d r) s = set_xmm d (xmm s d AND xmm s r) s"
| "exec_x (Por d r) s = set_xmm d (xmm s d OR xmm s r) s"
| "exec_x (Movdqa d r) s = set_xmm d (xmm s r) s"
| "exec_x (Psrlw d n) s = set_xmm d (words16 (drop_bit n) (xmm s d)) s"
| "exec_x (Psllw d n) s = set_xmm d (words16 (push_bit n) (xmm s d)) s"
| "exec_x (Psraw d n) s = set_xmm d (words16 (signed_drop_bit n) (xmm s d)) s"
| "exec_x (Pmovsxbw d r) s = set_xmm d (join 8 (\<lambda>i. scast (lane i (xmm s r) :: u8) :: u16)) s"
| "exec_x (Psrldq d n) s = set_xmm d (drop_bit (8 * n) (xmm s d)) s"
| "exec_x (Packsswb d r) s =
     set_xmm d (join 16 (\<lambda>i. sat8 (lane (i mod 8) (xmm s (if i < 8 then d else r))))) s"

abbreviation run_x :: "xinsn list \<Rightarrow> machine \<Rightarrow> machine" where
  "run_x is s \<equiv> fold exec_x is s"

definition repeat_byte :: "u8 \<Rightarrow> u64" where
  "repeat_byte b = join 8 (\<lambda>i. b)"

definition emit_broadcast :: "nat \<Rightarrow> u64 \<Rightarrow> xinsn list" where
  "emit_broadcast reg value = [Mov_rax value, Movq reg, Punpcklqdq reg reg]"

definition emit_reverse_step :: "nat \<times> u8 \<Rightarrow> xinsn list" where
  "emit_reverse_step = (\<lambda>(shift, mask').
     [Movdqa 1 0, Psrlw 1 shift] @ emit_broadcast 2 (repeat_byte mask') @
     [Pand 1 2, Pand 0 2, Psllw 0 shift, Por 0 1])"

definition emit_row :: "u64 \<Rightarrow> nat \<Rightarrow> xinsn list" where
  "emit_row m output =
     (let row = matrix_row m output in
      if row = 0 then []
      else (if is_power_of_two row then [Movdqa 2 0, Psrlw 2 (trailing_zeros row)]
            else emit_broadcast 2 (repeat_byte row) @ [Pand 2 0] @
              concat (map (\<lambda>shift. [Movdqa 3 2, Psrlw 3 shift, Pxor 2 3]) [4, 2, 1])) @
        emit_broadcast 3 0x0101010101010101 @ [Pand 2 3, Psllw 2 output, Por 1 2])"

definition emit_addend :: "u8 \<Rightarrow> xinsn list" where
  "emit_addend addend =
     (if addend \<noteq> 0 then emit_broadcast 1 (repeat_byte addend) @ [Pxor 0 1] else [])"

definition emit_affine :: "bool \<Rightarrow> u64 \<Rightarrow> u8 \<Rightarrow> xinsn list" where
  "emit_affine has_gfni m addend =
     (if has_gfni then emit_broadcast 1 m @ [Gf2p8affineqb 0 1 addend]
      else if m = IDENTITY_MATRIX then emit_addend addend
      else if m = 0 then
        (if addend = 0 then [Pxor 0 0] else emit_broadcast 0 (repeat_byte addend))
      else if m = REVERSE_MATRIX then
        concat (map emit_reverse_step [(1, 0x55), (2, 0x33), (4, 0x0f)]) @ emit_addend addend
      else (case (signed_right_shift m, shifted_diagonal m) of
          (Some shift, _) \<Rightarrow>
            [Pmovsxbw 1 0, Psraw 1 shift, Psrldq 0 8, Pmovsxbw 2 0, Psraw 2 shift,
             Packsswb 1 2, Movdqa 0 1] @ emit_addend addend
        | (None, Some (delta, mask')) \<Rightarrow>
            (if delta < 0 then [Psllw 0 (nat (- delta))]
             else if delta > 0 then [Psrlw 0 (nat delta)] else []) @
            (if mask' \<noteq> 0xff then emit_broadcast 1 (repeat_byte mask') @ [Pand 0 1] else []) @
            emit_addend addend
        | (None, None) \<Rightarrow>
            [Pxor 1 1] @ concat (map (emit_row m) [0..<8]) @ [Movdqa 0 1] @ emit_addend addend))"

text \<open>Bits of the registers, addressed by byte and bit.\<close>

lemma bit_lane16: "bit (lane i v :: u16) k \<longleftrightarrow> k < 16 \<and> bit v (16 * i + k)"
  by (simp only: bit_lane) simp

lemma bit_lane8: "bit (lane i v :: u8) k \<longleftrightarrow> k < 8 \<and> bit v (8 * i + k)"
  by (simp only: bit_lane) simp

lemma bit_words16: "bit (words16 f v) k \<longleftrightarrow> k < 128 \<and> bit (f (lane (k div 16) v)) (k mod 16)"
  by (simp add: words16_def bit_join)

lemma bit_words16_drop:
  "bit (words16 (drop_bit n) v) k \<longleftrightarrow> k mod 16 + n < 16 \<and> bit v (k + n)"
proof -
  have "16 * (k div 16) + (n + k mod 16) = k + n" by simp
  moreover have "bit v (k + n) \<Longrightarrow> k < 128" using bit_imp_le_length[of v "k + n"] by simp
  ultimately show ?thesis
    by (auto simp only: bit_words16 bit_lane16 bit_drop_bit_eq comp_def add.commute[of n])
qed

lemma bit_words16_push:
  "bit (words16 (push_bit n) v) k \<longleftrightarrow> k < 128 \<and> n \<le> k mod 16 \<and> bit v (k - n)"
proof -
  have "n \<le> k mod 16 \<Longrightarrow> 16 * (k div 16) + (k mod 16 - n) = k - n"
    using div_mult_mod_eq[of k 16] by linarith
  moreover have "k mod 16 - n < 16" by (meson diff_le_self le_less_trans mod_less_divisor zero_less_numeral)
  moreover have "possible_bit TYPE(u16) (k mod 16)" by simp
  ultimately show ?thesis
    by (auto simp only: bit_words16 bit_lane16 bit_push_bit_iff)
qed

lemma bit_repeat: "bit (repeat_byte b) k \<longleftrightarrow> k < 64 \<and> bit b (k mod 8)"
  by (simp add: repeat_byte_def bit_join)

definition dup64 :: "u64 \<Rightarrow> u128" where
  "dup64 v = join 2 (\<lambda>i. v)"

lemma bit_dup64: "bit (dup64 v) k \<longleftrightarrow> k < 128 \<and> bit v (k mod 64)"
  by (simp add: dup64_def bit_join)

lemma mod_64_8: "(k mod 64) mod 8 = k mod (8 :: nat)"
  by (simp add: mod_mod_cancel)

lemma bit_dup_repeat: "bit (dup64 (repeat_byte b)) k \<longleftrightarrow> k < 128 \<and> bit b (k mod 8)"
  by (simp add: bit_dup64 bit_repeat mod_64_8)

lemma run_broadcast:
  "run_x (emit_broadcast r v) s = s\<lparr>rax := v, xmm := (xmm s)(r := dup64 v)\<rparr>"
proof -
  have "lane 0 (ucast v :: u128) = v" by (rule word_eqI_bits) (simp add: bit_lane bit_simps)
  then show ?thesis by (simp add: emit_broadcast_def set_xmm_def dup64_def cong: if_cong)
qed

lemma bit_map_bytes:
  "bit (map_bytes f (v :: u128)) k \<longleftrightarrow> k < 128 \<and> bit (f (lane (k div 8) v)) (k mod 8)"
  by (simp add: map_bytes_def bit_join)


lemma map_bytesI:
  assumes "\<And>k. k < 128 \<Longrightarrow> bit (v :: u128) k = bit (f (lane (k div 8) w)) (k mod 8)"
  shows "v = map_bytes f w"
  by (rule word_eqI_bits) (use assms in \<open>simp add: bit_map_bytes\<close>)

lemma mod_16_8: "k mod 16 = 8 * (k div 8 mod 2) + k mod 8" for k :: nat
  using mod_mult2_eq[of k 8 2] by simp

lemma idx_up: "k mod 8 + n < 8 \<Longrightarrow> k mod 16 + n < 16 \<and> 8 * (k div 8) + (n + k mod 8) = k + n" for k n :: nat
proof -
  assume "k mod 8 + n < 8"
  moreover have "k div 8 mod 2 \<le> 1" by simp
  ultimately show ?thesis using mod_16_8[of k] mult_div_mod_eq[of 8 k] by linarith
qed

lemma idx_down: "n \<le> k mod 8 \<Longrightarrow> n \<le> k mod 16 \<and> 8 * (k div 8) + (k mod 8 - n) = k - n" for k n :: nat
  using mod_16_8[of k] mult_div_mod_eq[of 8 k] by linarith

lemma bit_lane_down: "bit (push_bit n (lane (k div 8) v :: u8)) (k mod 8) \<longleftrightarrow> n \<le> k mod 8 \<and> bit (v :: u128) (k - n)"
proof -
  have p: "possible_bit TYPE(u8) (k mod 8)" "k mod 8 - n < 8" by (simp_all add: less_imp_diff_less)
  show ?thesis
    by (cases "n \<le> k mod 8")
      (simp_all only: bit_push_bit_iff bit_lane8 p idx_down[THEN conjunct2] simp_thms)
qed

lemma bit_lane_up: "bit (drop_bit n (lane (k div 8) v :: u8)) (k mod 8) \<longleftrightarrow> k mod 8 + n < 8 \<and> bit (v :: u128) (k + n)"
  using idx_up[of k n] by (auto simp only: bit_drop_bit_eq comp_def bit_lane8 add.commute[of n])

lemma bit_lane_self: "bit (lane (k div 8) (v :: u128) :: u8) (k mod 8) \<longleftrightarrow> bit v k"
  by (simp add: bit_lane8)

lemma run_addend:
  "xmm (run_x (emit_addend addend) s) 0 = map_bytes (\<lambda>x. x XOR addend) (xmm s 0)"
  by (rule map_bytesI)
    (auto simp: emit_addend_def run_broadcast set_xmm_def bit_simps bit_dup_repeat bit_lane_self)

lemma map_bytes_map_bytes: "map_bytes f (map_bytes g v) = map_bytes (\<lambda>x. f (g x)) (v :: u128)"
proof (rule map_bytesI)
  fix k :: nat assume "k < 128"
  then have "lane (k div 8) (map_bytes g v) = g (lane (k div 8) v)"
    unfolding map_bytes_def by (subst lane_join) auto
  then show "bit (map_bytes f (map_bytes g v)) k = bit (f (g (lane (k div 8) v))) (k mod 8)"
    using \<open>k < 128\<close> by (simp add: bit_map_bytes)
qed

lemma run_with_addend:
  assumes "xmm (run_x is s) 0 = map_bytes f (xmm s 0)"
  shows "xmm (run_x (is @ emit_addend addend) s) 0 = map_bytes (\<lambda>x. f x XOR addend) (xmm s 0)"
  using assms by (simp add: run_addend map_bytes_map_bytes)

lemma run_shift_mask:
  assumes "\<forall>i<8. bit mask' i \<longrightarrow> 0 \<le> int i + delta \<and> int i + delta < 8"
  shows "xmm (run_x ((if delta < 0 then [Psllw 0 (nat (- delta))]
             else if delta > 0 then [Psrlw 0 (nat delta)] else []) @
            (if mask' \<noteq> 0xff then emit_broadcast 1 (repeat_byte mask') @ [Pand 0 1] else [])) s) 0
     = map_bytes (shift_mask delta mask') (xmm s 0)"
    (is "xmm (run_x (?sh @ ?mk) s) 0 = _")
proof (rule map_bytesI)
  fix k :: nat assume k: "k < 128"
  let ?v = "xmm s 0"
  have sh: "bit (xmm (run_x ?sh s) 0) k \<longleftrightarrow>
     (if delta < 0 then nat (- delta) \<le> k mod 16 \<and> bit ?v (k - nat (- delta))
      else k mod 16 + nat delta < 16 \<and> bit ?v (k + nat delta))"
    using k by (auto simp: set_xmm_def bit_words16_drop bit_words16_push)
  have ones: "bit (0xff :: u8) (k mod 8)"
  proof -
    have "(0xff :: u8) = - 1" by simp
    then show ?thesis by (simp only: bit_minus_1_iff possible_bit_word) simp
  qed
  have "bit (xmm (run_x (?sh @ ?mk) s) 0) k \<longleftrightarrow> bit (xmm (run_x ?sh s) 0) k \<and> bit mask' (k mod 8)"
    using k ones by (auto simp: run_broadcast set_xmm_def bit_simps bit_dup_repeat)
  moreover have "bit mask' (k mod 8) \<Longrightarrow> bit (xmm (run_x ?sh s) 0) k \<longleftrightarrow>
     (if delta < 0 then nat (- delta) \<le> k mod 8 \<and> bit ?v (k - nat (- delta))
      else k mod 8 + nat delta < 8 \<and> bit ?v (k + nat delta))"
  proof -
    assume "bit mask' (k mod 8)"
    then have "0 \<le> int (k mod 8) + delta" "int (k mod 8) + delta < 8" using assms by auto
    then have a: "delta < 0 \<Longrightarrow> nat (- delta) \<le> k mod 8" "\<not> delta < 0 \<Longrightarrow> k mod 8 + nat delta < 8"
      by linarith+
    then have "delta < 0 \<Longrightarrow> nat (- delta) \<le> k mod 16" "\<not> delta < 0 \<Longrightarrow> k mod 16 + nat delta < 16"
      using idx_down[of "nat (- delta)" k] idx_up[of k "nat delta"] by auto
    with a show ?thesis unfolding sh by auto
  qed
  moreover have "bit (shift_mask delta mask' (lane (k div 8) ?v)) (k mod 8) \<longleftrightarrow> bit mask' (k mod 8) \<and>
     (if delta < 0 then nat (- delta) \<le> k mod 8 \<and> bit ?v (k - nat (- delta))
      else k mod 8 + nat delta < 8 \<and> bit ?v (k + nat delta))"
    by (cases "delta < 0")
      (auto simp only: shift_mask_def bit_and_iff bit_lane_down bit_lane_up if_True if_False simp_thms)
  ultimately show "bit (xmm (run_x (?sh @ ?mk) s) 0) k = bit (shift_mask delta mask' (lane (k div 8) ?v)) (k mod 8)"
    by blast
qed


lemma sat8_signed:
  "sat8 (signed_drop_bit n (scast (b :: u8) :: u16)) = signed_drop_bit n b"
proof -
  let ?w = "signed_drop_bit n (scast b :: u16)"
  have sb: "sint (scast b :: u16) = sint b"
  proof (rule bit_eqI)
    fix n :: nat
    have t: "bit b n \<Longrightarrow> n < 8" for n using bit_imp_le_length[of b n] by simp
    consider "n < 7" | "n = 7" | "7 < n" by arith
    then show "bit (sint (scast b :: u16)) n = bit (sint b) n"
      by cases (auto simp: bit_sint_iff bit_signed_iff min_def dest: t)
  qed
  have s: "sint ?w = drop_bit n (sint b)" by (simp add: sint_signed_drop_bit_eq sb)
  have r: "- 128 \<le> sint b" "sint b \<le> 127"
    using sint_ge[of b] sint_lt[of b] by simp_all
  have "- 128 \<le> drop_bit n (sint b)" "drop_bit n (sint b) \<le> 127"
  proof -
    have "1 \<le> (2 :: int) ^ n" by simp
    show "- 128 \<le> drop_bit n (sint b)"
      unfolding drop_bit_eq_div using r(1) \<open>1 \<le> 2 ^ n\<close>
      by (smt (verit) div_by_1 zdiv_mono2_neg zdiv_mono1 div_pos_pos_trivial pos_imp_zdiv_nonneg_iff)
    show "drop_bit n (sint b) \<le> 127"
      unfolding drop_bit_eq_div using r(2) \<open>1 \<le> 2 ^ n\<close>
      by (smt (verit) zdiv_mono1 div_by_1 zdiv_mono2 pos_imp_zdiv_neg_iff)
  qed
  then have "sat8 ?w = ucast ?w" unfolding sat8_def s by simp
  also have "\<dots> = signed_drop_bit n b"
  proof (rule word_eqI_bits)
    fix k
    have seven: "7 \<le> n + k \<Longrightarrow> \<not> 8 - n \<le> k \<Longrightarrow> n + k = 7" by arith
    show "k < LENGTH(8) \<Longrightarrow> bit (ucast ?w :: u8) k = bit (signed_drop_bit n b) k"
      by (auto simp: bit_simps min_def dest: seven)
  qed
  finally show ?thesis .
qed

lemma lane_words16_join: "i < 8 \<Longrightarrow> lane i (words16 f (join 8 g)) = f (g i)"
  by (simp add: words16_def lane_join)

lemma lane_upper: "lane i (drop_bit 64 (v :: u128)) = (lane (8 + i) v :: u8)"
  by (simp add: lane_def add.commute)

lemma run_signed:
  "xmm (run_x [Pmovsxbw 1 0, Psraw 1 n, Psrldq 0 8, Pmovsxbw 2 0, Psraw 2 n,
             Packsswb 1 2, Movdqa 0 1] s) 0 = map_bytes (signed_drop_bit n) (xmm s 0)"
proof -
  have "8 + i mod 8 = i" if "\<not> i < 8" "i < 16" for i :: nat using that by presburger
  then show ?thesis
    by (auto simp: set_xmm_def map_bytes_def lane_words16_join lane_upper sat8_signed intro!: join_cong)
qed

definition swap_bits :: "nat \<Rightarrow> u8 \<Rightarrow> u8 \<Rightarrow> u8" where
  "swap_bits n mask' x = (drop_bit n x AND mask') OR push_bit n (x AND mask')"


lemma bit_swap:
  assumes "j < 8"
  shows "bit (swap_bits n mask' x) j \<longleftrightarrow>
    bit mask' j \<and> bit x (j + n) \<or> n \<le> j \<and> bit mask' (j - n) \<and> bit x (j - n)"
  using assms by (auto simp: swap_bits_def bit_simps add.commute)

lemma run_reverse_step:
  assumes "\<forall>j<8. bit mask' j \<longrightarrow> j + n < 8"
  shows "xmm (run_x (emit_reverse_step (n, mask')) s) 0 = map_bytes (swap_bits n mask') (xmm s 0)"
proof (rule map_bytesI)
  fix k :: nat assume k: "k < 128"
  let ?v = "xmm s 0" and ?j = "k mod 8"
  have "bit (xmm (run_x (emit_reverse_step (n, mask')) s) 0) k \<longleftrightarrow>
     (?j < 8 \<and> bit mask' ?j \<and> k mod 16 + n < 16 \<and> bit ?v (k + n)) \<or>
     (n \<le> k mod 16 \<and> bit mask' ((k - n) mod 8) \<and> bit ?v (k - n))"
    using k by (auto simp: emit_reverse_step_def run_broadcast set_xmm_def bit_simps bit_dup_repeat
        bit_words16_drop bit_words16_push)
  moreover have "bit mask' ?j \<Longrightarrow> k mod 16 + n < 16 \<and> k + n = 8 * (k div 8) + (?j + n) \<and> ?j + n < 8"
    using assms[rule_format, of ?j] idx_up[of k n] by (simp add: add.commute)
  moreover have "n \<le> k mod 16 \<and> bit mask' ((k - n) mod 8) \<longleftrightarrow> n \<le> ?j \<and> bit mask' (?j - n)"
  proof
    assume l: "n \<le> k mod 16 \<and> bit mask' ((k - n) mod 8)"
    then have lt: "(k - n) mod 8 + n < 8" using assms by auto
    have "k = 8 * ((k - n) div 8) + ((k - n) mod 8 + n)"
      using l mult_div_mod_eq[of 8 "k - n"] mod_less_eq_dividend[of k 16] by linarith
    then have "k mod 8 = (k - n) mod 8 + n"
      using lt by (metis mod_less mod_mult_self4)
    then show "n \<le> ?j \<and> bit mask' (?j - n)" using l by simp
  next
    assume r: "n \<le> ?j \<and> bit mask' (?j - n)"
    then have "k - n = 8 * (k div 8) + (?j - n)" using idx_down[of n k] by simp
    then have "(k - n) mod 8 = (?j - n) mod 8" by simp
    also have "\<dots> = ?j - n" by (simp add: less_imp_diff_less)
    finally have "(k - n) mod 8 = ?j - n" .
    then show "n \<le> k mod 16 \<and> bit mask' ((k - n) mod 8)" using r idx_down[of n k] by simp
  qed
  moreover have "n \<le> ?j \<Longrightarrow> k - n = 8 * (k div 8) + (?j - n)" using idx_down[of n k] by simp
  ultimately show "bit (xmm (run_x (emit_reverse_step (n, mask')) s) 0) k =
      bit (swap_bits n mask' (lane (k div 8) ?v)) ?j"
    by (auto simp: bit_swap bit_lane8)
qed

lemma swap_reverse: "swap_bits 4 0x0f (swap_bits 2 0x33 (swap_bits 1 0x55 x)) = linear REVERSE_MATRIX x"
proof (rule word_eqI_bits)
  fix j assume "j < LENGTH(8)"
  then consider "j = 0" | "j = 1" | "j = 2" | "j = 3" | "j = 4" | "j = 5" | "j = 6" | "j = 7"
    by fastforce
  moreover have "bit (linear REVERSE_MATRIX x) j = bit x (7 - j)"
    using \<open>j < LENGTH(8)\<close> by (simp add: bit_reverse)
  ultimately show "bit (swap_bits 4 0x0f (swap_bits 2 0x33 (swap_bits 1 0x55 x))) j =
      bit (linear REVERSE_MATRIX x) j"
    by cases (simp_all add: bit_swap numeral_2_eq_2 numeral_3_eq_3)
qed


lemma odd_ones_Suc: "odd (ones_below (Suc n) y) \<longleftrightarrow> bit y n \<noteq> odd (ones_below n y)"
  by simp

lemma parity8:
  "parity (y :: u8) \<longleftrightarrow> bit y 7 \<noteq> (bit y 6 \<noteq> (bit y 5 \<noteq> (bit y 4 \<noteq> (bit y 3 \<noteq> (bit y 2 \<noteq> (bit y 1 \<noteq> bit y 0))))))"
proof -
  have "LENGTH(8) = Suc 7" "(7 :: nat) = Suc 6" "(6 :: nat) = Suc 5" "(5 :: nat) = Suc 4" "(4 :: nat) = Suc 3"
    "(3 :: nat) = Suc 2" "(2 :: nat) = Suc 1" "(1 :: nat) = Suc 0" by simp_all
  then have "parity y \<longleftrightarrow> bit y 7 \<noteq> odd (ones_below 7 y)"
    "odd (ones_below 7 y) \<longleftrightarrow> bit y 6 \<noteq> odd (ones_below 6 y)"
    "odd (ones_below 6 y) \<longleftrightarrow> bit y 5 \<noteq> odd (ones_below 5 y)"
    "odd (ones_below 5 y) \<longleftrightarrow> bit y 4 \<noteq> odd (ones_below 4 y)"
    "odd (ones_below 4 y) \<longleftrightarrow> bit y 3 \<noteq> odd (ones_below 3 y)"
    "odd (ones_below 3 y) \<longleftrightarrow> bit y 2 \<noteq> odd (ones_below 2 y)"
    "odd (ones_below 2 y) \<longleftrightarrow> bit y 1 \<noteq> odd (ones_below 1 y)"
    "odd (ones_below 1 y) \<longleftrightarrow> bit y 0"
    unfolding parity_def count_ones_def by (metis odd_ones_Suc ones_below.simps(1) even_zero)+
  then show ?thesis by simp
qed

definition parity_stage :: "u64 \<Rightarrow> nat \<Rightarrow> machine \<Rightarrow> u128" where
  "parity_stage m output s =
     (let row = matrix_row m output in
      if is_power_of_two row then words16 (drop_bit (trailing_zeros row)) (xmm s 0)
      else foldl (\<lambda>v shift. v XOR words16 (drop_bit shift) v)
        (dup64 (repeat_byte row) AND xmm s 0) [4, 2, 1])"

lemma run_emit_row:
  "matrix_row m output \<noteq> 0 \<Longrightarrow>
   xmm (run_x (emit_row m output) s) 0 = xmm s 0 \<and>
   xmm (run_x (emit_row m output) s) 1 =
     xmm s 1 OR words16 (push_bit output) (parity_stage m output s AND dup64 0x0101010101010101)"
  by (simp add: emit_row_def Let_def run_broadcast set_xmm_def parity_stage_def)

lemma bit_parity_stage:
  assumes "i < 16"
  shows "bit (parity_stage m output s) (8 * i) \<longleftrightarrow> parity (matrix_row m output AND lane i (xmm s 0))"
proof (cases "is_power_of_two (matrix_row m output)")
  case True
  let ?row = "matrix_row m output"
  have tz: "trailing_zeros ?row < 8" "?row = 2 ^ trailing_zeros ?row"
    using power_of_two_single[OF True] by simp_all
  have "8 * i mod 16 + trailing_zeros ?row < 16" using tz idx_up[of "8 * i"] by simp
  then have "bit (parity_stage m output s) (8 * i) \<longleftrightarrow> bit (lane i (xmm s 0) :: u8) (trailing_zeros ?row)"
    using True tz(1) by (simp add: parity_stage_def Let_def bit_words16_drop bit_lane8)
  then show ?thesis using tz(2) by (metis parity_single)
next
  case False
  let ?row = "matrix_row m output" and ?v = "xmm s 0"
  define p where "p = dup64 (repeat_byte ?row) AND ?v"
  have b: "bit p (8 * i + j) \<longleftrightarrow> bit (?row AND lane i ?v) j" if "j < 8" for j
    using that assms by (simp add: p_def bit_simps bit_dup_repeat bit_lane8)
  have fold: "bit (q XOR words16 (drop_bit n) q) (8 * i + j) \<longleftrightarrow> bit q (8 * i + j) \<noteq> bit q (8 * i + (j + n))"
    if "j + n < 8" for q j n
    using idx_up[of "8 * i + j" n] that by (simp add: bit_xor_iff bit_words16_drop add.assoc)
  define q4 where "q4 = p XOR words16 (drop_bit 4) p"
  define q2 where "q2 = q4 XOR words16 (drop_bit 2) q4"
  have s: "parity_stage m output s = q2 XOR words16 (drop_bit 1) q2"
    using False by (simp add: parity_stage_def Let_def p_def q4_def q2_def)
  define P where "P j \<longleftrightarrow> bit p (8 * i + j)" for j
  define Q4 where "Q4 j \<longleftrightarrow> bit q4 (8 * i + j)" for j
  define Q2 where "Q2 j \<longleftrightarrow> bit q2 (8 * i + j)" for j
  have 4: "Q4 j \<longleftrightarrow> P j \<noteq> P (j + 4)" if "j < 4" for j
    unfolding Q4_def P_def q4_def by (rule fold) (use that in simp)
  have 2: "Q2 j \<longleftrightarrow> Q4 j \<noteq> Q4 (j + 2)" if "j < 2" for j
    unfolding Q2_def Q4_def q2_def by (rule fold) (use that in simp)
  have "bit (parity_stage m output s) (8 * i + 0) \<longleftrightarrow> Q2 0 \<noteq> Q2 (0 + 1)"
    unfolding s Q2_def by (rule fold) simp
  then have "bit (parity_stage m output s) (8 * i) \<longleftrightarrow>
     ((P 0 \<noteq> P 4) \<noteq> (P 2 \<noteq> P 6)) \<noteq> ((P 1 \<noteq> P 5) \<noteq> (P 3 \<noteq> P 7))"
    using 2[of 0] 2[of 1] 4[of 0] 4[of 1] 4[of 2] 4[of 3] by (simp add: numeral_2_eq_2 numeral_3_eq_3)
  moreover have "parity (?row AND lane i ?v) \<longleftrightarrow>
     P 7 \<noteq> (P 6 \<noteq> (P 5 \<noteq> (P 4 \<noteq> (P 3 \<noteq> (P 2 \<noteq> (P 1 \<noteq> P 0))))))"
    unfolding parity8 P_def using b[of 0] b[of 1] b[of 2] b[of 3] b[of 4] b[of 5] b[of 6] b[of 7] by simp
  ultimately show ?thesis by argo
qed

lemma run_emit_row_bits:
  assumes "output < 8" "k < 128"
  shows "xmm (run_x (emit_row m output) s) 0 = xmm s 0"
    "bit (xmm (run_x (emit_row m output) s) 1) k \<longleftrightarrow> bit (xmm s 1) k \<or>
      (k mod 8 = output \<and> parity (matrix_row m output AND lane (k div 8) (xmm s 0)))"
proof -
  show "xmm (run_x (emit_row m output) s) 0 = xmm s 0"
    using run_emit_row by (cases "matrix_row m output = 0") (auto simp: emit_row_def)
  show "bit (xmm (run_x (emit_row m output) s) 1) k \<longleftrightarrow> bit (xmm s 1) k \<or>
      (k mod 8 = output \<and> parity (matrix_row m output AND lane (k div 8) (xmm s 0)))"
  proof (cases "matrix_row m output = 0")
    case True
    then show ?thesis by (simp add: emit_row_def)
  next
    case False
    let ?P = "parity_stage m output s"
    have ones: "bit (dup64 0x0101010101010101) q \<longleftrightarrow> q < 128 \<and> q mod 8 = 0" for q
    proof -
      have "(0x0101010101010101 :: u64) = repeat_byte 1" by code_simp
      then show ?thesis by (simp only: bit_dup_repeat bit_1_iff)
    qed
    have "bit (words16 (push_bit output) (?P AND dup64 0x0101010101010101)) k \<longleftrightarrow>
      output \<le> k mod 16 \<and> bit ?P (k - output) \<and> (k - output) mod 8 = 0"
      using assms(2) by (auto simp: bit_words16_push bit_and_iff ones)
    also have "\<dots> \<longleftrightarrow> k mod 8 = output \<and> bit ?P (8 * (k div 8))"
    proof
      assume l: "output \<le> k mod 16 \<and> bit ?P (k - output) \<and> (k - output) mod 8 = 0"
      have "output \<le> k" using l mod_less_eq_dividend[of k 16] by linarith
      then have e: "k = 8 * ((k - output) div 8) + output" using l mult_div_mod_eq[of 8 "k - output"] by linarith
      then have "k mod 8 = output" using assms(1) by (metis mod_less mod_mult_self4)
      moreover from this have "k - output = 8 * (k div 8)" using mult_div_mod_eq[of 8 k] by linarith
      ultimately show "k mod 8 = output \<and> bit ?P (8 * (k div 8))" using l by simp
    next
      assume r: "k mod 8 = output \<and> bit ?P (8 * (k div 8))"
      then have "k - output = 8 * (k div 8)" using mult_div_mod_eq[of 8 k] by linarith
      then show "output \<le> k mod 16 \<and> bit ?P (k - output) \<and> (k - output) mod 8 = 0"
        using r idx_down[of "output" k] by simp
    qed
    also have "bit ?P (8 * (k div 8)) \<longleftrightarrow> parity (matrix_row m output AND lane (k div 8) (xmm s 0))"
      by (rule bit_parity_stage) (use assms(2) in auto)
    finally show ?thesis by (simp add: run_emit_row[OF False] bit_or_iff del: One_nat_def)
  qed
qed

lemma run_rows:
  "n \<le> 8 \<Longrightarrow> xmm (run_x (concat (map (emit_row m) [0..<n])) s) 0 = xmm s 0 \<and>
    (\<forall>k<128. bit (xmm (run_x (concat (map (emit_row m) [0..<n])) s) 1) k \<longleftrightarrow> bit (xmm s 1) k \<or>
      (k mod 8 < n \<and> parity (matrix_row m (k mod 8) AND lane (k div 8) (xmm s 0))))"
proof (induction n)
  case (Suc n)
  let ?t = "run_x (concat (map (emit_row m) [0..<n])) s"
  have IH: "xmm ?t 0 = xmm s 0" "\<And>k. k < 128 \<Longrightarrow> bit (xmm ?t 1) k \<longleftrightarrow> bit (xmm s 1) k \<or>
      (k mod 8 < n \<and> parity (matrix_row m (k mod 8) AND lane (k div 8) (xmm s 0)))"
    using Suc by auto
  have "run_x (concat (map (emit_row m) [0..<Suc n])) s = run_x (emit_row m n) ?t" by simp
  moreover have "n < 8" using Suc.prems by simp
  ultimately show ?case using run_emit_row_bits(1)[of n 0 m ?t] run_emit_row_bits(2)[of n _ m ?t] IH by (auto simp: less_Suc_eq)
qed simp

lemma run_general:
  "xmm (run_x ([Pxor 1 1] @ concat (map (emit_row m) [0..<8]) @ [Movdqa 0 1]) s) 0 =
   map_bytes (linear m) (xmm s 0)"
proof (rule map_bytesI)
  fix k :: nat assume k: "k < 128"
  let ?s = "run_x [Pxor 1 1] s"
  have "xmm ?s 0 = xmm s 0" "xmm ?s 1 = 0" by (simp_all add: set_xmm_def)
  with run_rows[of 8 m ?s] k
  have "bit (xmm (run_x (concat (map (emit_row m) [0..<8])) ?s) 1) k \<longleftrightarrow>
    parity (matrix_row m (k mod 8) AND lane (k div 8) (xmm s 0))" by simp
  then show "bit (xmm (run_x ([Pxor 1 1] @ concat (map (emit_row m) [0..<8]) @ [Movdqa 0 1]) s) 0) k =
      bit (linear m (lane (k div 8) (xmm s 0))) (k mod 8)"
    by (simp add: set_xmm_def bit_linear)
qed


lemma linear_zero: "linear 0 x = 0"
  by (rule word_eqI_bits) (simp add: bit_linear matrix_row_def)

lemma map_bytes_id: "map_bytes (\<lambda>x. x) v = (v :: u128)"
  by (rule map_bytesI[symmetric]) (simp add: bit_lane_self)

lemma run_gfni:
  "xmm (run_x (emit_broadcast 1 m @ [Gf2p8affineqb 0 1 addend]) s) 0 =
   map_bytes (\<lambda>x. linear m x XOR addend) (xmm s 0)"
proof -
  have "lane (i div 8) (dup64 m) = m" if "i < 16" for i
    unfolding dup64_def by (rule lane_join) (use that in auto)
  then show ?thesis
    by (auto simp: run_broadcast set_xmm_def map_bytes_def intro!: join_cong)
qed

lemma run_zero:
  "xmm (run_x (if addend = 0 then [Pxor 0 0] else emit_broadcast 0 (repeat_byte addend)) s) 0 =
   map_bytes (\<lambda>x. linear 0 x XOR addend) (xmm s 0)"
  by (rule map_bytesI) (auto simp: run_broadcast set_xmm_def linear_zero bit_dup_repeat)

lemma run_reverse:
  "xmm (run_x (concat (map emit_reverse_step [(1, 0x55), (2, 0x33), (4, 0x0f)])) s) 0 =
   map_bytes (linear REVERSE_MATRIX) (xmm s 0)"
proof -
  have m: "\<forall>j<8. bit (0x55 :: u8) j \<longrightarrow> j + 1 < 8" "\<forall>j<8. bit (0x33 :: u8) j \<longrightarrow> j + 2 < 8"
    "\<forall>j<8. bit (0x0f :: u8) j \<longrightarrow> j + 4 < 8"
  proof -
    have "list_all (\<lambda>j. (bit (0x55 :: u8) j \<longrightarrow> j + 1 < 8) \<and> (bit (0x33 :: u8) j \<longrightarrow> j + 2 < 8) \<and>
      (bit (0x0f :: u8) j \<longrightarrow> j + 4 < 8)) [0..<8]" by code_simp
    then show "\<forall>j<8. bit (0x55 :: u8) j \<longrightarrow> j + 1 < 8" "\<forall>j<8. bit (0x33 :: u8) j \<longrightarrow> j + 2 < 8"
      "\<forall>j<8. bit (0x0f :: u8) j \<longrightarrow> j + 4 < 8" by (auto simp: list_all_iff)
  qed
  show ?thesis
    by (simp only: list.map concat.simps append_Nil2 fold_append comp_apply
        run_reverse_step[OF m(1)] run_reverse_step[OF m(2)] run_reverse_step[OF m(3)]
        map_bytes_map_bytes swap_reverse)
qed

lemma signed_right_shift_matrix: "signed_right_shift m = Some n \<Longrightarrow> m = right_shift_matrix n True"
  by (auto simp: signed_right_shift_def find_Some_iff)

lemma linear_signed: "linear (right_shift_matrix n True) = signed_drop_bit n"
  by (rule ext) (rule linear_right_signed)

text \<open>
  C25. The emitted code is correct: for every matrix and addend, with or without the GFNI
  extension, running the emitted instructions replaces each of the 16 bytes of \<open>xmm0\<close> by
  its image under the affine map.
\<close>

theorem emit_affine_correct:
  "xmm (run_x (emit_affine has_gfni m addend) s) 0 =
   map_bytes (\<lambda>x. linear m x XOR addend) (xmm s 0)"
proof -
  consider (gfni) "has_gfni"
    | (ident) "\<not> has_gfni" "m = IDENTITY_MATRIX"
    | (zero) "\<not> has_gfni" "m \<noteq> IDENTITY_MATRIX" "m = 0"
    | (rev) "\<not> has_gfni" "m \<noteq> IDENTITY_MATRIX" "m \<noteq> 0" "m = REVERSE_MATRIX"
    | (gen) "\<not> has_gfni" "m \<noteq> IDENTITY_MATRIX" "m \<noteq> 0" "m \<noteq> REVERSE_MATRIX" by blast
  then show ?thesis
  proof cases
    case gfni
    then show ?thesis by (simp only: emit_affine_def if_True run_gfni)
  next
    case ident
    then show ?thesis by (simp add: emit_affine_def run_addend linear_identity)
  next
    case zero
    then have "emit_affine has_gfni m addend =
        (if addend = 0 then [Pxor 0 0] else emit_broadcast 0 (repeat_byte addend))"
      by (simp add: emit_affine_def)
    then show ?thesis unfolding zero(3) by (simp only: run_zero)
  next
    case rev
    have "emit_affine has_gfni m addend =
        concat (map emit_reverse_step [(1, 0x55), (2, 0x33), (4, 0x0f)]) @ emit_addend addend"
      using rev by (simp only: emit_affine_def if_True if_False refl)
    then show ?thesis unfolding rev(4) by (simp only: run_with_addend[OF run_reverse])
  next
    case gen
    show ?thesis
    proof (cases "signed_right_shift m")
      case (Some n)
      then have "emit_affine has_gfni m addend =
          [Pmovsxbw 1 0, Psraw 1 n, Psrldq 0 8, Pmovsxbw 2 0, Psraw 2 n,
             Packsswb 1 2, Movdqa 0 1] @ emit_addend addend"
        using gen by (simp add: emit_affine_def)
      then show ?thesis
        by (simp only: run_with_addend[OF run_signed] signed_right_shift_matrix[OF Some] linear_signed)
    next
      case None
      note sr = this
      show ?thesis
      proof (cases "shifted_diagonal m")
        case None
        then have "emit_affine has_gfni m addend =
            ([Pxor 1 1] @ concat (map (emit_row m) [0..<8]) @ [Movdqa 0 1]) @ emit_addend addend"
          using gen sr by (simp add: emit_affine_def)
        then show ?thesis by (simp only: run_with_addend[OF run_general])
      next
        case (Some dm)
        obtain delta mask' where dm: "shifted_diagonal m = Some (delta, mask')" using Some by (cases dm) auto
        note snd = shifted_diagonal_linear[OF dm]
        have "emit_affine has_gfni m addend =
          ((if delta < 0 then [Psllw 0 (nat (- delta))]
             else if delta > 0 then [Psrlw 0 (nat delta)] else []) @
            (if mask' \<noteq> 0xff then emit_broadcast 1 (repeat_byte mask') @ [Pand 0 1] else [])) @
            emit_addend addend"
          using gen sr dm by (simp add: emit_affine_def)
        then show ?thesis
          by (simp only: run_with_addend[OF run_shift_mask[OF snd(2)]]) (simp only: snd(1))
      qed
    qed
  qed
qed

lemma length_addend: "length (emit_addend addend) = (if addend = 0 then 0 else 4)"
  by (simp add: emit_addend_def emit_broadcast_def)

lemma length_row:
  "length (emit_row m b) =
     (if matrix_row m b = 0 then 0 else if is_power_of_two (matrix_row m b) then 8 else 19)"
  by (simp add: emit_row_def Let_def emit_broadcast_def)

lemma foldl_cost:
  "foldl (\<lambda>cost b. let row = matrix_row m b
     in cost + (if row = 0 then 0 else if is_power_of_two row then 8 else 19)) n bs =
   n + length (concat (map (emit_row m) bs))"
  by (induction bs arbitrary: n) (simp_all add: Let_def length_row)

text \<open>
  The optimiser's cost model is exact: \<open>affine_cost\<close> is the number of instructions the
  emitter produces, plus one for clearing the upper half of a 64-bit vector.
\<close>

theorem affine_cost_exact:
  "affine_cost m addend q gfni = length (emit_affine gfni m addend) + of_bool (\<not> q)"
  unfolding affine_cost_def emit_affine_def Let_def[of "if addend = 0 then 0 else 4"] Let_def[of "If _ _ _"]
  by (auto simp: foldl_cost length_addend emit_broadcast_def emit_reverse_step_def simp del: upt_rec_numeral split: option.split)

end
