(* ===== verification/Affine.thy ===== *)
theory Affine
  imports Opt_Rules Gfni
begin

text \<open>
  The affine analysis of the optimiser (\<open>src/optimizer/affine.rs\<close> and
  \<open>src/optimizer/affine/cost.rs\<close>): recognising byte-wise vector operations as affine maps
  over GF(2), composing them, tracking vector constants and deciding whether a rewrite
  pays. A 128-bit vector is a pair of 64-bit halves.
\<close>

type_synonym vec = "u64 \<times> u64"
type_synonym vec_table = "vec option list"

record byte_map =
  bm_source :: value_ref
  bm_matrix :: u64
  bm_addend :: u8
  bm_q :: bool

definition vget :: "vec_table \<Rightarrow> value_ref \<Rightarrow> vec option" where
  "vget vs v = (if v < length vs then vs ! v else None)"

definition uniform_byte :: "value_ref \<Rightarrow> bool \<Rightarrow> vec_table \<Rightarrow> u8 option" where
  "uniform_byte v q vs = do {
     (h0, h1) \<leftarrow> vget vs v;
     let byte = ucast h0;
     let repeated = repeat_byte byte;
     if h0 = repeated \<and> (\<not> q \<or> h1 = repeated) then Some byte else None
   }"

text \<open>The constant operand of a commutative operation, second operand first; the other
  operand becomes the source.\<close>

definition uniform_operand :: "armlet \<Rightarrow> bool \<Rightarrow> vec_table \<Rightarrow> (value_ref \<times> u8) option" where
  "uniform_operand a q vs =
    (case uniform_byte (arg a 1) q vs of
       Some byte \<Rightarrow> Some (arg a 0, byte)
     | None \<Rightarrow> map_option (\<lambda>byte. (arg a 1, byte)) (uniform_byte (arg a 0) q vs))"

definition left_rows :: "nat \<Rightarrow> nat \<Rightarrow> u8" where
  "left_rows shift b = (if b \<ge> shift then push_bit (b - shift) 1 else 0)"

definition right_rows :: "nat \<Rightarrow> nat \<Rightarrow> u8" where
  "right_rows shift b = (if b + shift < 8 then push_bit (b + shift) 1 else 0)"

definition signed_rows :: "nat \<Rightarrow> nat \<Rightarrow> u8" where
  "signed_rows shift b = push_bit (min (b + shift) 7) 1"

definition shl_rows :: "bool \<Rightarrow> int \<Rightarrow> nat \<Rightarrow> u8" where
  "shl_rows is_sshl count b =
    (if count \<ge> 0 then
       (if count < 8 \<and> b \<ge> nat count then push_bit (b - nat count) 1 else 0)
     else if is_sshl then signed_rows (nat (- count)) b
     else right_rows (nat (- count)) b)"

definition recognize_op :: "armlet \<Rightarrow> block \<Rightarrow> const_table \<Rightarrow> vec_table \<Rightarrow>
    (value_ref \<times> u64 \<times> u8) option" where
  "recognize_op a b cs vs =
    (let p = a_op a; imm = a_imm a; q = (imm AND 1 \<noteq> 0); source = arg a 0;
         shift = unat (drop_bit 1 imm) in
     if p = Op_VecBitAffine \<and> imm AND NOT 0xff01 = 0 then do {
       n \<leftarrow> node b (arg a 1);
       if a_op n \<noteq> Op_ConstU64 then None else do {
         m \<leftarrow> cget cs (arg a 1);
         Some (source, m, ucast (drop_bit 8 imm)) } }
     else if p = Op_VecNot \<and> imm \<le> 1 then Some (source, diagonal 0xff, 0xff)
     else if p = Op_VecShlImm8 \<and> drop_bit 1 imm < 8 then Some (source, matrix (left_rows shift), 0)
     else if p = Op_VecUshrImm8 \<and> drop_bit 1 imm \<le> 8 then Some (source, matrix (right_rows shift), 0)
     else if p = Op_VecSshrImm8 \<and> drop_bit 1 imm \<le> 8 then Some (source, matrix (signed_rows shift), 0)
     else if p = Op_VecAdd8 \<and> imm \<le> 1 \<and> arg a 0 = arg a 1 then
       Some (source, matrix (\<lambda>b. if b > 0 then push_bit (b - 1) 1 else 0), 0)
     else if p = Op_VecMul8 \<and> imm \<le> 1 then do {
       (source, multiplier) \<leftarrow> uniform_operand a q vs;
       if \<not> is_power_of_two multiplier then None
       else Some (source, matrix (left_rows (trailing_zeros multiplier)), 0) }
     else if (p = Op_VecUshl8 \<or> p = Op_VecSshl8) \<and> imm \<le> 1 then do {
       byte \<leftarrow> uniform_byte (arg a 1) q vs;
       let count = sint byte;
       Some (source, matrix (shl_rows (p = Op_VecSshl8) count), 0) }
     else if (p = Op_VecAnd \<or> p = Op_VecOrr \<or> p = Op_VecEor) \<and> imm \<le> 1 then do {
       (source, mask') \<leftarrow> uniform_operand a q vs;
       Some (if p = Op_VecAnd then (source, diagonal mask', 0)
         else if p = Op_VecOrr then (source, diagonal (NOT mask'), mask')
         else (source, diagonal 0xff, mask')) }
     else if (p = Op_VecBic \<or> p = Op_VecOrn) \<and> imm \<le> 1 then do {
       mask' \<leftarrow> uniform_byte (arg a 1) q vs;
       Some (if p = Op_VecBic then (source, diagonal (NOT mask'), 0)
         else (source, diagonal mask', NOT mask')) }
     else None)"

definition recognize :: "armlet \<Rightarrow> block \<Rightarrow> const_table \<Rightarrow> vec_table \<Rightarrow> byte_map option" where
  "recognize a b cs vs =
    (if a_ty a \<noteq> TyU128 then None
     else do {
       (source, m, addend) \<leftarrow> recognize_op a b cs vs;
       if vr_is_none source then None else do {
         n \<leftarrow> node b source;
         if a_ty n \<noteq> TyU128 then None
         else Some \<lparr>bm_source = source, bm_matrix = m, bm_addend = addend, bm_q = (a_imm a AND 1 \<noteq> 0)\<rparr>
       }
     })"

definition compose :: "byte_map \<Rightarrow> byte_map \<Rightarrow> byte_map option" where
  "compose outer inner =
    (if \<not> bm_q inner \<and> bm_q outer \<and> bm_addend outer \<noteq> 0 then None
     else
       let combined = matrix (\<lambda>b.
         let outer_row = matrix_row (bm_matrix outer) b
         in foldl (\<lambda>row input. if outer_row AND push_bit input 1 \<noteq> 0
              then row XOR matrix_row (bm_matrix inner) input else row) 0 [0..<8])
       in Some \<lparr>bm_source = bm_source inner, bm_matrix = combined,
          bm_addend = linear (bm_matrix outer) (bm_addend inner) XOR bm_addend outer,
          bm_q = (bm_q outer \<and> bm_q inner)\<rparr>)"

definition vector_constant ::
    "armlet \<Rightarrow> block \<Rightarrow> const_table \<Rightarrow> vec_table \<Rightarrow> byte_map option \<Rightarrow> vec option" where
  "vector_constant a b cs vs recognized =
    (if a_ty a \<noteq> TyU128 then None
     else if a_op a = Op_Identity then vget vs (arg a 0)
     else if a_op a = Op_VecBuildQ then
       (let half = (\<lambda>v. do { n \<leftarrow> node b v; if a_ty n \<noteq> TyU64 then None else cget cs v })
        in do { h0 \<leftarrow> half (arg a 0); h1 \<leftarrow> half (arg a 1); Some (h0, h1) })
     else if a_op a = Op_VecDupGpr8 \<and> a_imm a \<le> 1 then do {
       n \<leftarrow> node b (arg a 0);
       if a_ty n \<notin> {TyU32, TyU64} then None else do {
         c \<leftarrow> cget cs (arg a 0);
         let repeated = repeat_byte (ucast c);
         Some (repeated, if a_imm a AND 1 \<noteq> 0 then repeated else 0) } }
     else do {
       m \<leftarrow> recognized;
       (h0, h1) \<leftarrow> vget vs (bm_source m);
       let convert = map_bytes (\<lambda>byte. linear (bm_matrix m) byte XOR bm_addend m);
       Some (convert h0, if bm_q m then convert h1 else 0) })"

section \<open>Cost and use counts\<close>

type_synonym use_counts = "u8 list"

definition saturating_add_u8 :: "u8 \<Rightarrow> u8 \<Rightarrow> u8" where
  "saturating_add_u8 x y = (if unat x + unat y > 255 then 255 else x + y)"

definition saturating_sub_u8 :: "u8 \<Rightarrow> u8 \<Rightarrow> u8" where
  "saturating_sub_u8 x y = (if x < y then 0 else x - y)"

text \<open>The \<open>while\<close> loop follows identities to strictly smaller references.\<close>

function count_reference :: "block \<Rightarrow> value_ref \<Rightarrow> use_counts \<Rightarrow> use_counts option" where
  "count_reference b v uses =
     (if \<not> vr_is_some v then Some uses
      else if v \<ge> length uses then Some uses
      else let uses = uses[v := saturating_add_u8 (uses ! v) 1] in do {
        n \<leftarrow> node b v;
        if a_op n \<noteq> Op_Identity then Some uses
        else let nxt = arg n 0
        in if vr_is_none nxt \<or> nxt \<ge> v then Some uses else count_reference b nxt uses
      })"
  by pat_completeness auto
termination
  by (relation "measure (\<lambda>(b, v, uses). v)") auto

declare count_reference.simps [simp del]

definition terminal_values :: "terminal \<Rightarrow> value_ref list" where
  "terminal_values t = (case t of
     ConditionalBranch cond_nzcv _ _ _ \<Rightarrow> [cond_nzcv, VR_NONE]
   | CompareBranchZero v _ _ _ _ \<Rightarrow> [v, VR_NONE]
   | TestBranchBit v _ _ _ _ \<Rightarrow> [v, VR_NONE]
   | IndirectBranch target _ _ \<Rightarrow> [target, VR_NONE]
   | _ \<Rightarrow> [VR_NONE, VR_NONE])"

fun count_references :: "block \<Rightarrow> value_ref list \<Rightarrow> use_counts \<Rightarrow> use_counts option" where
  "count_references b [] uses = Some uses"
| "count_references b (v # vs) uses = do { uses \<leftarrow> count_reference b v uses; count_references b vs uses }"

definition seed_uses :: "block \<Rightarrow> use_counts \<Rightarrow> use_counts option" where
  "seed_uses b uses = do {
     live \<leftarrow> iter_live b;
     uses \<leftarrow> count_references b (concat (map (\<lambda>i. a_args (code b ! i)) live)) uses;
     count_references b (terminal_values (terminal b)) uses
   }"

text \<open>\<open>xmm0\<close> is not a spill register, so moving it costs two instructions.\<close>

definition fixed_transport :: nat where "fixed_transport = 2"

definition core_cost :: "armlet \<Rightarrow> block \<Rightarrow> bool \<Rightarrow> nat option" where
  "core_cost a b gfni =
    (let q = (a_imm a AND 1 \<noteq> 0); clear = of_bool (\<not> q); p = a_op a in
     if p = Op_VecBitAffine then do {
       literal \<leftarrow> node b (arg a 1);
       if a_op literal \<noteq> Op_ConstU64 then None
       else Some (affine_cost (a_imm literal) (ucast (drop_bit 8 (a_imm a))) q gfni + fixed_transport) }
     else if p = Op_VecNot then Some (2 + clear)
     else if p \<in> {Op_VecAnd, Op_VecOrr, Op_VecEor, Op_VecBic, Op_VecOrn, Op_VecAdd8} then Some (1 + clear)
     else if p = Op_VecMul8 then Some (10 + clear)
     else if p \<in> {Op_VecShlImm8, Op_VecUshrImm8} then
       Some (if gfni then 4 + clear + fixed_transport else 5 + clear)
     else if p = Op_VecSshrImm8 then
       Some (if gfni then 4 + clear + fixed_transport else (if q then 6 else 3) + clear)
     else if p = Op_VecUshl8 then Some ((if q then 16 else 8) * 9 + 1)
     else if p = Op_VecSshl8 then Some ((if q then 16 else 8) * 10 + 1)
     else if p = Op_GetV \<and> a_ty a = TyU128 then Some 1
     else None)"

text \<open>The recursion follows operands; \<open>None\<close> is a panic or a chain longer than the fuel.\<close>

fun dead_constant :: "nat \<Rightarrow> value_ref \<Rightarrow> block \<Rightarrow> use_counts \<Rightarrow> vec_table \<Rightarrow> nat option" where
  "dead_constant 0 v b uses vs = None"
| "dead_constant (Suc fuel) v b uses vs =
    (if vr_is_none v \<or> \<not> (v < length uses \<and> uses ! v = 1) then Some 0
     else do {
       n \<leftarrow> node b v;
       if a_op n \<in> {Op_ConstU32, Op_ConstU64} then Some 2
       else if a_op n = Op_VecBuildQ \<and> vget vs v \<noteq> None then do {
         c0 \<leftarrow> dead_constant fuel (arg n 0) b uses vs;
         c1 \<leftarrow> dead_constant fuel (arg n 1) b uses vs;
         Some (4 + c0 + c1) }
       else if a_op n = Op_VecDupGpr8 \<and> vget vs v \<noteq> None then do {
         c0 \<leftarrow> dead_constant fuel (arg n 0) b uses vs;
         Some (4 + of_bool (a_imm n AND 1 = 0) + c0) }
       else Some 0 })"

fun dead_operands_loop :: "nat \<Rightarrow> value_ref list \<Rightarrow> value_ref list \<Rightarrow> value_ref \<Rightarrow> block \<Rightarrow> use_counts \<Rightarrow>
    vec_table \<Rightarrow> nat option" where
  "dead_operands_loop fuel seen [] source b uses vs = Some 0"
| "dead_operands_loop fuel seen (v # rest) source b uses vs = do {
     c \<leftarrow> (if v \<noteq> source \<and> v \<notin> set seen then dead_constant fuel v b uses vs else Some 0);
     credit \<leftarrow> dead_operands_loop fuel (seen @ [v]) rest source b uses vs;
     Some (c + credit)
   }"

definition dead_operands :: "nat \<Rightarrow> armlet \<Rightarrow> value_ref \<Rightarrow> block \<Rightarrow> use_counts \<Rightarrow> vec_table \<Rightarrow> nat option" where
  "dead_operands fuel a source b uses vs = dead_operands_loop fuel [] (a_args a) source b uses vs"

text \<open>The outer \<open>option\<close> of the result is the panic; the inner \<open>None\<close> is the source's
  \<open>else return false\<close>.\<close>

definition old_cost :: "nat \<Rightarrow> armlet \<Rightarrow> block \<Rightarrow> use_counts \<Rightarrow> vec_table \<Rightarrow> byte_map \<Rightarrow> byte_map option \<Rightarrow>
    bool \<Rightarrow> nat option option" where
  "old_cost fuel a b uses vs original inner gfni =
    (case core_cost a b gfni of
       None \<Rightarrow> Some None
     | Some old \<Rightarrow> do {
         credit \<leftarrow> dead_operands fuel a (bm_source original) b uses vs;
         let old = old + credit;
         let src = bm_source original;
         case inner of
           Some inner \<Rightarrow>
             if src < length uses \<and> uses ! src = 1 then do {
               predecessor \<leftarrow> node b src;
               case core_cost predecessor b gfni of
                 None \<Rightarrow> Some None
               | Some removed \<Rightarrow> do {
                   credit \<leftarrow> dead_operands fuel predecessor (bm_source inner) b uses vs;
                   Some (Some (old + (removed + credit))) } }
             else Some (Some old)
         | None \<Rightarrow> Some (Some old) })"

definition worthwhile :: "nat \<Rightarrow> armlet \<Rightarrow> block \<Rightarrow> use_counts \<Rightarrow> vec_table \<Rightarrow> byte_map \<Rightarrow> byte_map \<Rightarrow>
    byte_map option \<Rightarrow> bool option" where
  "worthwhile fuel a b uses vs original replacement inner =
    (let ok = (\<lambda>gfni. do {
         old \<leftarrow> old_cost fuel a b uses vs original inner gfni;
         Some (case old of None \<Rightarrow> False
           | Some old \<Rightarrow> affine_cost (bm_matrix replacement) (bm_addend replacement)
               (bm_q replacement) gfni + 4 \<le> old) })
     in do {
       r0 \<leftarrow> ok False;
       if \<not> r0 then Some False else ok True
     })"


section \<open>What affine maps do to vectors\<close>

definition apply_map :: "byte_map \<Rightarrow> vec \<Rightarrow> vec" where
  "apply_map m v =
    (let convert = map_bytes (\<lambda>byte. linear (bm_matrix m) byte XOR bm_addend m)
     in (convert (fst v), if bm_q m then convert (snd v) else 0))"

lemma bit_map_bytes64:
  "bit (map_bytes f (v :: u64)) k \<longleftrightarrow> k < 64 \<and> bit (f (lane (k div 8) v)) (k mod 8)"
  by (simp add: map_bytes_def bit_join)

lemma map_bytes64_comp: "map_bytes f (map_bytes g v) = map_bytes (\<lambda>x. f (g x)) (v :: u64)"
proof (rule word_eqI_bits)
  fix k :: nat assume "k < LENGTH(64)"
  then have "lane (k div 8) (map_bytes g v) = g (lane (k div 8) v)"
    unfolding map_bytes_def by (subst lane_join) auto
  then show "bit (map_bytes f (map_bytes g v)) k = bit (map_bytes (\<lambda>x. f (g x)) v) k"
    by (simp add: bit_map_bytes64)
qed

lemma map_bytes64_zero:
  assumes "f 0 = 0" shows "map_bytes f (0 :: u64) = 0"
proof (rule word_eqI_bits)
  fix k :: nat
  have "lane (k div 8) (0 :: u64) = (0 :: u8)" by (rule word_eqI_bits) (simp add: bit_lane8)
  then show "bit (map_bytes f (0 :: u64)) k = bit 0 k" using assms by (simp add: bit_map_bytes64)
qed

lemma linear_xor: "linear m (x XOR y) = linear m x XOR linear m y"
  by (rule word_eqI_bits)
    (simp add: bit_linear bit_xor_iff and.commute[of "matrix_row m _"] bit.conj_xor_distrib2)

lemma parity_row_fold:
  "n \<le> 8 \<Longrightarrow> parity (foldl (\<lambda>row i. if P i then row XOR f i else row) 0 [0..<n] AND x) \<longleftrightarrow>
     odd (ones_below n (y :: u8))"
  if "\<And>i. i < 8 \<Longrightarrow> bit y i \<longleftrightarrow> P i \<and> parity (f i AND x)"
  using that by (induction n) (auto simp: parity_and_xor)

lemma linear_compose:
  "linear (matrix (\<lambda>b. foldl (\<lambda>row input. if matrix_row m b AND push_bit input 1 \<noteq> 0
      then row XOR matrix_row m' input else row) 0 [0..<8])) x = linear m (linear m' x)"
proof (rule word_eqI_bits)
  fix i assume "i < LENGTH(8)"
  then have i: "i < 8" by simp
  let ?P = "\<lambda>k. matrix_row m i AND push_bit k 1 \<noteq> 0"
  have "parity (foldl (\<lambda>row k. if ?P k then row XOR matrix_row m' k else row) 0 [0..<8] AND x) \<longleftrightarrow>
      odd (ones_below 8 (matrix_row m i AND linear m' x))"
  proof (rule parity_row_fold)
    fix k :: nat assume "k < 8"
    then show "bit (matrix_row m i AND linear m' x) k \<longleftrightarrow> ?P k \<and> parity (matrix_row m' k AND x)"
      unfolding bit_iff_and_push_bit_not_eq_0[of "matrix_row m i" k, symmetric]
      by (simp add: bit_and_iff bit_linear)
  qed simp
  then show "bit (linear (matrix (\<lambda>b. foldl (\<lambda>row input. if matrix_row m b AND push_bit input 1 \<noteq> 0
      then row XOR matrix_row m' input else row) 0 [0..<8])) x) i = bit (linear m (linear m' x)) i"
    using i by (simp add: bit_linear_matrix bit_linear[of m] parity_def[of "_ AND linear m' x"] count_ones_def)
qed

lemma compose_apply:
  assumes "compose outer inner = Some c"
  shows "apply_map c v = apply_map outer (apply_map inner v)"
proof -
  let ?f = "\<lambda>m byte. linear (bm_matrix m) byte XOR bm_addend m"
  have ok: "\<not> (\<not> bm_q inner \<and> bm_q outer \<and> bm_addend outer \<noteq> 0)"
    using assms by (auto simp: compose_def split: if_splits)
  have c: "bm_matrix c = matrix (\<lambda>b. foldl (\<lambda>row input. if matrix_row (bm_matrix outer) b AND push_bit input 1 \<noteq> 0
              then row XOR matrix_row (bm_matrix inner) input else row) 0 [0..<8])"
    "bm_addend c = linear (bm_matrix outer) (bm_addend inner) XOR bm_addend outer"
    "bm_q c = (bm_q outer \<and> bm_q inner)"
    using assms ok by (auto simp: compose_def Let_def)
  have f: "?f c = (\<lambda>x. ?f outer (?f inner x))"
    by (rule ext) (simp only: c linear_compose linear_xor xor.assoc)
  have z: "map_bytes (?f outer) (0 :: u64) = 0" if "bm_addend outer = 0"
    by (rule map_bytes64_zero) (use linear_xor[of "bm_matrix outer" 0 0] that in simp)
  show ?thesis
    using ok z by (auto simp: apply_map_def Let_def map_bytes64_comp f c(3))
qed


text \<open>The byte function each recognised operation applies; \<open>m\<close> is the matrix operand.\<close>

definition byte_sem :: "op \<Rightarrow> u64 \<Rightarrow> u64 \<Rightarrow> u8 \<Rightarrow> u8 \<Rightarrow> u8" where
  "byte_sem p imm m x y =
    (let shift = unat (drop_bit 1 imm) in
     if p = Op_VecBitAffine then linear m x XOR ucast (drop_bit 8 imm)
     else if p = Op_VecNot then NOT x
     else if p = Op_VecShlImm8 then push_bit shift x
     else if p = Op_VecUshrImm8 then drop_bit shift x
     else if p = Op_VecSshrImm8 then signed_drop_bit shift x
     else if p = Op_VecAdd8 then x + y
     else if p = Op_VecMul8 then x * y
     else if p = Op_VecUshl8 then
       (if sint y \<ge> 0 then push_bit (nat (sint y)) x else drop_bit (nat (- sint y)) x)
     else if p = Op_VecSshl8 then
       (if sint y \<ge> 0 then push_bit (nat (sint y)) x else signed_drop_bit (nat (- sint y)) x)
     else if p = Op_VecAnd then x AND y
     else if p = Op_VecOrr then x OR y
     else if p = Op_VecEor then x XOR y
     else if p = Op_VecBic then x AND NOT y
     else if p = Op_VecOrn then x OR NOT y
     else 0)"

definition vec_sem :: "op \<Rightarrow> u64 \<Rightarrow> u64 \<Rightarrow> vec \<Rightarrow> vec \<Rightarrow> vec" where
  "vec_sem p imm m x y =
    (let half = (\<lambda>a b. join 8 (\<lambda>i. byte_sem p imm m (lane i a) (lane i b)))
     in (half (fst x) (fst y), if imm AND 1 \<noteq> 0 then half (snd x) (snd y) else 0))"

definition vectors_ok :: "vec_table \<Rightarrow> (value_ref \<Rightarrow> vec) \<Rightarrow> bool" where
  "vectors_ok vs venv \<longleftrightarrow>
     list_all (\<lambda>v. case vs ! v of None \<Rightarrow> True | Some c \<Rightarrow> venv v = c) [0..<length vs]"

lemma vectors_okD: "vectors_ok vs venv \<Longrightarrow> vget vs v = Some c \<Longrightarrow> venv v = c"
  by (auto simp: vectors_ok_def vget_def list_all_iff split: if_splits dest!: bspec[of _ _ v])

lemma lane_repeat: "i < 8 \<Longrightarrow> lane i (repeat_byte b) = b"
  unfolding repeat_byte_def by (rule lane_join) auto

definition uniform :: "bool \<Rightarrow> vec \<Rightarrow> u8 \<Rightarrow> bool" where
  "uniform q v c \<longleftrightarrow> fst v = repeat_byte c \<and> (q \<longrightarrow> snd v = repeat_byte c)"

lemma uniform_byteD:
  "uniform_byte v q vs = Some c \<Longrightarrow> vectors_ok vs venv \<Longrightarrow> uniform q (venv v) c"
  by (auto simp: uniform_byte_def uniform_def Let_def dest!: vectors_okD split: bind_splits if_splits)

lemma linear_diagonal: "linear (diagonal m) x = x AND m"
proof (rule word_eqI_bits)
  fix k assume k: "k < LENGTH(8)"
  have "parity ((m AND 2 ^ k) AND x) \<longleftrightarrow> bit (m AND x) k"
    by (simp only: and.commute[of m] and.assoc parity_single)
  then show "bit (linear (diagonal m) x) k = bit (x AND m) k"
    using k by (auto simp: diagonal_def bit_linear_matrix bit_and_iff)
qed

lemma linear_left_rows: "linear (matrix (left_rows s)) x = push_bit s x"
  using linear_left[of s x] by (simp add: left_shift_matrix_rows left_rows_def[abs_def])

lemma linear_right_rows: "linear (matrix (right_rows s)) x = drop_bit s x"
  by (rule word_eqI_bits)
    (auto simp: right_rows_def bit_linear_matrix bit_simps add.commute dest: bit_imp_le_length)

lemma linear_signed_rows: "linear (matrix (signed_rows s)) x = signed_drop_bit s x"
  using linear_right_signed[of s x] by (simp add: right_shift_matrix_rows signed_rows_def[abs_def])

lemma linear_rows_cong: "(\<And>b. b < 8 \<Longrightarrow> r b = r' b) \<Longrightarrow> linear (matrix r) x = linear (matrix r') x"
  by (rule word_eqI_bits) (simp add: bit_linear_matrix)


lemma uniform_lane:
  assumes "uniform q v c" "i < 8"
  shows "lane i (fst v) = c" "q \<Longrightarrow> lane i (snd v) = c"
  using assms by (auto simp: uniform_def lane_repeat)

text \<open>The map agrees with the operation on every byte of the low half and, when \<open>q\<close>, of the
  high half.\<close>

definition bytes_agree :: "bool \<Rightarrow> (u8 \<Rightarrow> u8) \<Rightarrow> vec \<Rightarrow> (u8 \<Rightarrow> u8 \<Rightarrow> u8) \<Rightarrow> vec \<Rightarrow> vec \<Rightarrow> bool" where
  "bytes_agree q f src g x y \<longleftrightarrow>
     (\<forall>i<8. f (lane i (fst src)) = g (lane i (fst x)) (lane i (fst y)) \<and>
       (q \<longrightarrow> f (lane i (snd src)) = g (lane i (snd x)) (lane i (snd y))))"

lemma bytes_agree_unary: "(\<And>x y. f x = g x y) \<Longrightarrow> bytes_agree q f x g x y"
  by (simp add: bytes_agree_def)

lemma bytes_agree_same: "(\<And>x. f x = g x x) \<Longrightarrow> bytes_agree q f x g x x"
  by (simp add: bytes_agree_def)

lemma bytes_agree_right: "uniform q y c \<Longrightarrow> (\<And>x. f x = g x c) \<Longrightarrow> bytes_agree q f x g x y"
  by (simp add: bytes_agree_def uniform_lane)

lemma bytes_agree_left: "uniform q x c \<Longrightarrow> (\<And>y. f y = g c y) \<Longrightarrow> bytes_agree q f y g x y"
  by (simp add: bytes_agree_def uniform_lane)

lemma mul_pow2:
  fixes x c :: u8
  assumes "is_power_of_two c"
  shows "x * c = push_bit (trailing_zeros c) x" "c * x = push_bit (trailing_zeros c) x"
proof -
  have "c = 2 ^ trailing_zeros c" by (rule power_of_two_single[OF assms])
  then show "x * c = push_bit (trailing_zeros c) x" by (metis push_bit_eq_mult)
  then show "c * x = push_bit (trailing_zeros c) x" by (simp add: mult.commute)
qed

lemma or_mask: "(x AND NOT m) XOR m = x OR (m :: u8)" "m XOR (x AND NOT m) = x OR (m :: u8)"
  by (rule word_eqI_bits, auto simp: bit_simps)+

lemma orn_mask: "(x AND m) XOR NOT m = x OR NOT (m :: u8)" "NOT ((x AND m) XOR m) = x OR NOT m"
  by (rule word_eqI_bits, auto simp: bit_simps)+

lemma ones_u8: "(0xff :: u8) = - 1"
  by simp

lemma and_ones_u8: "x AND (0xff :: u8) = x"
  by (simp only: ones_u8 bit.conj_one_right)

lemma xor_ones_u8: "x XOR (0xff :: u8) = NOT x"
  by (simp only: ones_u8 bit.xor_one_right)

lemma select_uniform:
  assumes "uniform_operand a q vs = Some (s, c)"
    and "vectors_ok vs venv" "\<And>x. f x = g x c" "\<And>y. f y = g c y"
  shows "bytes_agree q f (venv s) g (venv (arg a 0)) (venv (arg a 1))"
proof (cases "uniform_byte (arg a 1) q vs")
  case (Some w)
  then show ?thesis
    using assms(1) bytes_agree_right[OF uniform_byteD[OF Some assms(2)], of f g] assms(3)
    by (auto simp: uniform_operand_def)
next
  case None
  then have u: "uniform_byte (arg a 0) q vs = Some c" "s = arg a 1"
    using assms(1) by (auto simp: uniform_operand_def)
  show ?thesis
    unfolding u(2) by (rule bytes_agree_left[OF uniform_byteD[OF u(1) assms(2)]]) (rule assms(4))
qed

lemma shift_rows:
  "(\<lambda>b. if b > 0 then push_bit (b - 1) 1 else 0) = left_rows 1"
  by (rule ext) (auto simp: left_rows_def)

lemma linear_shl_rows:
  "linear (matrix (shl_rows sg c)) x =
     (if c \<ge> 0 then push_bit (nat c) x else if sg then signed_drop_bit (nat (- c)) x
      else drop_bit (nat (- c)) x)"
proof -
  have "linear (matrix (shl_rows sg c)) x = linear (matrix
      (if c \<ge> 0 then left_rows (nat c) else if sg then signed_rows (nat (- c)) else right_rows (nat (- c)))) x"
    by (rule linear_rows_cong) (auto simp: shl_rows_def left_rows_def)
  then show ?thesis by (simp add: linear_left_rows linear_right_rows linear_signed_rows)
qed

lemma recognize_op_sound:
  assumes "recognize_op a b cs vs = Some (src, m, ad)" "consts_ok cs env" "vectors_ok vs venv"
  shows "bytes_agree (a_imm a AND 1 \<noteq> 0) (\<lambda>x. linear m x XOR ad) (venv src)
    (byte_sem (a_op a) (a_imm a) (env (arg a 1))) (venv (arg a 0)) (venv (arg a 1))"
  using assms(1) unfolding recognize_op_def Let_def
  apply (elim if_eqE conjE)
  subgoal
    by (auto intro!: bytes_agree_unary simp: byte_sem_def split: bind_splits if_splits
        dest!: consts_okD[OF assms(2)])
  subgoal by (auto intro!: bytes_agree_unary simp: byte_sem_def linear_diagonal and_ones_u8 xor_ones_u8)
  subgoal by (auto intro!: bytes_agree_unary simp: byte_sem_def linear_left_rows)
  subgoal by (auto intro!: bytes_agree_unary simp: byte_sem_def linear_right_rows)
  subgoal by (auto intro!: bytes_agree_unary simp: byte_sem_def linear_signed_rows)
  subgoal
    unfolding shift_rows
    by (auto intro!: bytes_agree_same simp: byte_sem_def linear_left_rows push_bit_eq_mult)
  subgoal
    by (clarsimp simp: bind_eq_Some_conv simp del: One_nat_def split: if_splits, erule select_uniform[OF _ assms(3)])
      (simp_all add: byte_sem_def linear_left_rows mul_pow2)
  subgoal
    by (clarsimp simp: bind_eq_Some_conv simp del: One_nat_def, drule uniform_byteD[OF _ assms(3)], erule bytes_agree_right)
      (elim disjE, simp_all add: byte_sem_def linear_shl_rows)
  subgoal
    by (elim disjE; clarsimp simp: bind_eq_Some_conv simp del: One_nat_def;
        erule select_uniform[OF _ assms(3)];
        simp add: byte_sem_def linear_diagonal or_mask and_ones_u8 and.commute or.commute xor.commute)
  subgoal
    by (elim disjE; clarsimp simp: bind_eq_Some_conv simp del: One_nat_def;
        drule uniform_byteD[OF _ assms(3)]; erule bytes_agree_right;
        simp add: byte_sem_def linear_diagonal orn_mask)
  subgoal by simp
  done


lemma map_bytes_agree:
  assumes "\<And>i. i < 8 \<Longrightarrow> f (lane i v) = g i"
  shows "map_bytes f (v :: u64) = join 8 g"
proof -
  have n: "LENGTH(64) div 8 = 8" by simp
  show ?thesis unfolding map_bytes_def n by (rule join_cong) (rule assms)
qed

lemma recognize_apply:
  assumes "recognize a b cs vs = Some m" "consts_ok cs env" "vectors_ok vs venv"
  shows "apply_map m (venv (bm_source m)) =
    vec_sem (a_op a) (a_imm a) (env (arg a 1)) (venv (arg a 0)) (venv (arg a 1))"
proof -
  obtain src mat ad where r: "recognize_op a b cs vs = Some (src, mat, ad)"
    "m = \<lparr>bm_source = src, bm_matrix = mat, bm_addend = ad, bm_q = (a_imm a AND 1 \<noteq> 0)\<rparr>"
    using assms(1) unfolding recognize_def
    by (auto simp: bind_eq_Some_conv simp del: One_nat_def split: if_splits)
  show ?thesis
    using recognize_op_sound[OF r(1) assms(2,3)] unfolding bytes_agree_def
    by (auto simp: r(2) apply_map_def vec_sem_def Let_def simp del: One_nat_def intro!: map_bytes_agree)
qed

text \<open>
  C23. Recognition is sound: when the optimiser recognises a byte-wise operation as an
  affine map, applying the map to the map's source vector gives the result of the operation
  on its operands, for every value of the non-constant operand and both vector widths.
\<close>

theorem recognize_sound:
  assumes "recognize a b cs vs = Some m" "consts_ok cs env" "vectors_ok vs venv"
  shows "apply_map m (venv (bm_source m)) =
    vec_sem (a_op a) (a_imm a) (env (arg a 1)) (venv (arg a 0)) (venv (arg a 1))"
  by (rule recognize_apply[OF assms])

text \<open>
  C24. Composition is sound: the composed map is the outer map applied after the inner one,
  including the clearing of the upper half when either map is 64 bits wide.
\<close>

theorem compose_sound:
  assumes "compose outer inner = Some c"
  shows "apply_map c v = apply_map outer (apply_map inner v)"
  by (rule compose_apply[OF assms])

definition dup_byte :: "u64 \<Rightarrow> u64 \<Rightarrow> vec" where
  "dup_byte imm x = (let r = repeat_byte (ucast x) in (r, if imm AND 1 \<noteq> 0 then r else 0))"

text \<open>
  Vector constants are right: whenever the analysis assigns a vector node a constant,
  it is the value the node computes from its operands.
\<close>

theorem vector_constant_sound:
  assumes "vector_constant a b cs vs (recognize a b cs vs) = Some h"
    and "consts_ok cs env" "vectors_ok vs venv"
  shows "h = (if a_op a = Op_Identity then venv (arg a 0)
    else if a_op a = Op_VecBuildQ then (env (arg a 0), env (arg a 1))
    else if a_op a = Op_VecDupGpr8 then dup_byte (a_imm a) (env (arg a 0))
    else vec_sem (a_op a) (a_imm a) (env (arg a 1)) (venv (arg a 0)) (venv (arg a 1)))"
proof -
  note c = consts_okD[OF assms(2)] and v = vectors_okD[OF assms(3)]
  have dup: "a_op a \<noteq> Op_VecDupGpr8 \<or> a_imm a \<le> 1"
  proof (rule ccontr)
    assume n: "\<not> ?thesis"
    then have "recognize_op a b cs vs = None" by (auto simp: recognize_op_def)
    then show False using assms(1) n by (auto simp: vector_constant_def recognize_def split: if_splits)
  qed
  consider (id) "a_op a = Op_Identity" | (build) "a_op a = Op_VecBuildQ" | (dup) "a_op a = Op_VecDupGpr8"
    | (map) "a_op a \<noteq> Op_Identity" "a_op a \<noteq> Op_VecBuildQ" "a_op a \<noteq> Op_VecDupGpr8" by blast
  then show ?thesis
  proof cases
    case map
    then obtain m h0 h1 where m: "recognize a b cs vs = Some m" "vget vs (bm_source m) = Some (h0, h1)"
      "h = apply_map m (h0, h1)"
      using assms(1) by (auto simp: vector_constant_def apply_map_def Let_def bind_eq_Some_conv split: if_splits)
    then show ?thesis using map recognize_apply[OF m(1) assms(2,3)] v[OF m(2)] by simp
  qed (use assms(1) dup c v in \<open>auto simp: vector_constant_def Let_def dup_byte_def bind_eq_Some_conv
      simp del: One_nat_def split: if_splits\<close>)
qed

section \<open>Concrete instances\<close>

text \<open>\<open>v1 = dup 0x0f; v2 = v0 AND v1; v3 = v2 << 4\<close> on 64-bit vectors.\<close>

definition aff_block :: block where
  "aff_block = snd (the (push_list push
     [armlet_new Op_GetV TyU128,
      armlet_new Op_VecBuildQ TyU128,
      with_args [1, 2] (armlet_new Op_VecAnd TyU128),
      with_imm 8 (with_args [3] (armlet_new Op_VecShlImm8 TyU128))] (block_new 0)))"

definition aff_vecs :: vec_table where
  "aff_vecs = [None, None, Some (0x0f0f0f0f0f0f0f0f, 0), None, None]"

definition aff_venv :: "value_ref \<Rightarrow> vec" where
  "aff_venv v = (if v = 2 then (0x0f0f0f0f0f0f0f0f, 0) else (0x123456789abcdef0, 1))"

lemma aff_ok: "vectors_ok aff_vecs aff_venv" "consts_ok [] (\<lambda>v. 0)"
  by code_simp+

theorem recognize_sound_witness:
  "\<exists>m. recognize (code aff_block ! 3) aff_block [] aff_vecs = Some m \<and>
     apply_map m (0x123456789abcdef0, 1) =
     vec_sem Op_VecAnd 0 0 (0x123456789abcdef0, 1) (0x0f0f0f0f0f0f0f0f, 0)"
proof -
  let ?a = "code aff_block ! 3"
  have r: "recognize ?a aff_block [] aff_vecs = Some \<lparr>bm_source = 1, bm_matrix = diagonal 0x0f,
      bm_addend = 0, bm_q = False\<rparr>" by code_simp
  have v: "a_op ?a = Op_VecAnd" "a_imm ?a = 0" "aff_venv (arg ?a 0) = (0x123456789abcdef0, 1)"
    "aff_venv (arg ?a 1) = (0x0f0f0f0f0f0f0f0f, 0)" "aff_venv 1 = (0x123456789abcdef0, 1)" by code_simp+
  show ?thesis using recognize_sound[OF r aff_ok(2) aff_ok(1)] r by (auto simp: v simp del: One_nat_def)
qed

theorem compose_sound_witness:
  "\<exists>c. compose \<lparr>bm_source = 3, bm_matrix = left_shift_matrix 4, bm_addend = 0, bm_q = True\<rparr>
      \<lparr>bm_source = 1, bm_matrix = diagonal 0x0f, bm_addend = 0, bm_q = False\<rparr> = Some c \<and>
     apply_map c (0x123456789abcdef0, 1) = apply_map \<lparr>bm_source = 3, bm_matrix = left_shift_matrix 4, bm_addend = 0, bm_q = True\<rparr>
       (apply_map \<lparr>bm_source = 1, bm_matrix = diagonal 0x0f, bm_addend = 0, bm_q = False\<rparr> (0x123456789abcdef0, 1))"
    (is "\<exists>c. compose ?o ?i = Some c \<and> _ c")
proof -
  obtain c where "compose ?o ?i = Some c" by (simp add: compose_def Let_def)
  then show ?thesis using compose_sound by blast
qed

theorem vector_constant_sound_witness:
  "(0x0505050505050505, 0) = dup_byte 0 0x105"
proof -
  define a where "a = with_args [1] (armlet_new Op_VecDupGpr8 TyU128)"
  define b where "b = snd (the (push_list push [with_imm 0x105 (armlet_new Op_ConstU64 TyU64)] (block_new 0)))"
  define env :: "value_ref \<Rightarrow> u64" where "env v = (if v = 1 then 0x105 else 0)" for v
  have h: "vector_constant a b [None, Some 0x105] [] (recognize a b [None, Some 0x105] []) =
      Some (0x0505050505050505, 0)" "consts_ok [None, Some 0x105] env" "vectors_ok [] (\<lambda>v. (0, 0))"
    "a_op a = Op_VecDupGpr8" "a_imm a = 0" "env (arg a 0) = 0x105"
    unfolding a_def b_def env_def by code_simp+
  show ?thesis using vector_constant_sound[OF h(1-3)] h(4-6) by simp
qed

end
