(* ===== verification/Opt_Pass.thy ===== *)
theory Opt_Pass
  imports Affine
begin

text \<open>
  The optimisation pass of \<open>src/optimizer/pass.rs\<close>: \<open>optimize_with_scratch\<close> with its
  scratch tables, the forward rewriting loop (register forwarding, dead-store removal,
  folding, strength reduction, constant combination, multiplication folding, affine
  rewriting), the use counts and the backward sweep that deletes unused pure nodes.
  A panic, an out-of-bounds \<open>assert_unchecked\<close> and a list that is longer than the node
  vector are \<open>None\<close>.
\<close>

section \<open>State\<close>

record opt_state =
  o_block :: block
  o_uses :: use_counts
  o_consts :: const_table
  o_vectors :: vec_table
  o_affines :: "byte_map option list"
  reach_x :: "value_ref list"
  reach_sp :: value_ref
  reach_nzcv :: value_ref
  reach_v :: "value_ref list"
  last_setx :: "value_ref list"
  first_getx :: "value_ref list"
  last_set_sp :: value_ref
  last_set_nzcv :: value_ref

text \<open>\<open>Vec::resize(n, x)\<close>.\<close>

definition resize :: "nat \<Rightarrow> 'a \<Rightarrow> 'a list \<Rightarrow> 'a list" where
  "resize n x xs = take n xs @ replicate (n - length xs) x"

definition opt_init :: "block \<Rightarrow> opt_state option" where
  "opt_init b = do {
     let n = length (code b);
     uses \<leftarrow> seed_uses b (replicate n 0);
     Some \<lparr>o_block = b, o_uses = uses, o_consts = replicate n None, o_vectors = replicate n None,
       o_affines = replicate n None, reach_x = replicate NUM_GPRS VR_NONE, reach_sp = VR_NONE,
       reach_nzcv = VR_NONE, reach_v = replicate 32 VR_NONE,
       last_setx = replicate NUM_GPRS VR_NONE, first_getx = replicate NUM_GPRS VR_NONE,
       last_set_sp = VR_NONE, last_set_nzcv = VR_NONE\<rparr>
   }"

section \<open>The forward loop\<close>

text \<open>Arguments are resolved through identities whose source has a smaller index.\<close>

function resolve_slot :: "block \<Rightarrow> value_ref \<Rightarrow> value_ref option" where
  "resolve_slot b slot =
     (if vr_is_none slot then Some slot
      else do {
        pointed \<leftarrow> node b slot;
        if a_op pointed \<noteq> Op_Identity then Some slot
        else let nxt = arg pointed 0
        in if vr_is_none nxt \<or> nxt \<ge> slot then Some slot else resolve_slot b nxt
      })"
  by pat_completeness auto
termination
  by (relation "measure snd") auto

declare resolve_slot.simps [simp del]

fun resolve_slots :: "block \<Rightarrow> value_ref list \<Rightarrow> value_ref list option" where
  "resolve_slots b [] = Some []"
| "resolve_slots b (slot # slots) = do {
     slot \<leftarrow> resolve_slot b slot; slots \<leftarrow> resolve_slots b slots; Some (slot # slots) }"

text \<open>\<open>if prev.is_some() { block.unlink(prev) }\<close>.\<close>

definition unlink_some :: "value_ref \<Rightarrow> opt_state \<Rightarrow> opt_state option" where
  "unlink_some prev s =
     (if vr_is_some prev
      then map_option (\<lambda>b. s\<lparr>o_block := b\<rparr>) (unlink prev (o_block s))
      else Some s)"

definition clear_last_sets :: "opt_state \<Rightarrow> opt_state" where
  "clear_last_sets s = s\<lparr>last_setx := replicate (length (last_setx s)) VR_NONE,
     last_set_sp := VR_NONE, last_set_nzcv := VR_NONE\<rparr>"

definition opt_get_x :: "value_ref \<Rightarrow> armlet \<Rightarrow> opt_state \<Rightarrow> (armlet \<times> opt_state)" where
  "opt_get_x vr a s =
    (let reg = unat (a_imm a) in
     if reg < NUM_GPRS then
       let def = reach_x s ! reg in
       if vr_is_some def then (become_identity def a, s)
       else if vr_is_some (first_getx s ! reg) then (become_identity (first_getx s ! reg) a, s)
       else (a, s\<lparr>last_setx := (last_setx s)[reg := VR_NONE], first_getx := (first_getx s)[reg := vr]\<rparr>)
     else (a, s))"

definition opt_get_w :: "armlet \<Rightarrow> opt_state \<Rightarrow> (armlet \<times> opt_state)" where
  "opt_get_w a s =
    (let reg = unat (a_imm a) in
     if reg < NUM_GPRS then
       let def = reach_x s ! reg in
       if vr_is_some def then ((become_identity def a)\<lparr>a_ty := TyU32\<rparr>, s)
       else (a, s\<lparr>last_setx := (last_setx s)[reg := VR_NONE]\<rparr>)
     else (a, s))"

definition opt_get_sp :: "armlet \<Rightarrow> opt_state \<Rightarrow> (armlet \<times> opt_state)" where
  "opt_get_sp a s =
    (if vr_is_some (reach_sp s) then (become_identity (reach_sp s) a, s)
     else (a, s\<lparr>last_set_sp := VR_NONE\<rparr>))"

definition opt_get_nzcv :: "armlet \<Rightarrow> opt_state \<Rightarrow> (armlet \<times> opt_state)" where
  "opt_get_nzcv a s =
    (if vr_is_some (reach_nzcv s) then (become_identity (reach_nzcv s) a, s)
     else (a, s\<lparr>last_set_nzcv := VR_NONE\<rparr>))"

definition opt_set_v :: "armlet \<Rightarrow> opt_state \<Rightarrow> opt_state option" where
  "opt_set_v a s = do {
     s \<leftarrow> (if unat (a_imm a) < length (reach_v s) then do {
            n \<leftarrow> node (o_block s) (arg a 0);
            Some (s\<lparr>reach_v := (reach_v s)[unat (a_imm a) :=
              (if a_ty n = TyU128 then arg a 0 else VR_NONE)]\<rparr>) }
          else Some s);
     Some (clear_last_sets s)
   }"

text \<open>\<open>SetX\<close> forwards its value to later reads; \<open>SetW\<close> does not.\<close>

definition opt_set_gpr :: "bool \<Rightarrow> value_ref \<Rightarrow> armlet \<Rightarrow> opt_state \<Rightarrow> opt_state option" where
  "opt_set_gpr is_x vr a s =
    (let reg = unat (a_imm a) in
     if reg < NUM_GPRS then do {
       s \<leftarrow> unlink_some (last_setx s ! reg) s;
       Some (s\<lparr>reach_x := (reach_x s)[reg := (if is_x then arg a 0 else VR_NONE)],
         last_setx := (last_setx s)[reg := vr], first_getx := (first_getx s)[reg := VR_NONE]\<rparr>) }
     else Some s)"

definition opt_set_sp :: "value_ref \<Rightarrow> armlet \<Rightarrow> opt_state \<Rightarrow> opt_state option" where
  "opt_set_sp vr a s = do {
     s \<leftarrow> unlink_some (last_set_sp s) s;
     Some (s\<lparr>reach_sp := arg a 0, last_set_sp := vr\<rparr>) }"

definition opt_set_nzcv :: "value_ref \<Rightarrow> armlet \<Rightarrow> opt_state \<Rightarrow> opt_state option" where
  "opt_set_nzcv vr a s = do {
     s \<leftarrow> unlink_some (last_set_nzcv s) s;
     Some (s\<lparr>reach_nzcv := arg a 0, last_set_nzcv := vr\<rparr>) }"

definition flag_ops :: "op list" where
  "flag_ops = [Op_AddsFlags32, Op_AddsFlags64, Op_SubsFlags32, Op_SubsFlags64, Op_LogicFlags32,
     Op_LogicFlags64, Op_Adcs32, Op_Adcs64, Op_Sbcs32, Op_Sbcs64, Op_Fcmp32, Op_Fcmp64]"

definition opt_flags :: "opt_state \<Rightarrow> opt_state option" where
  "opt_flags s = do {
     s \<leftarrow> unlink_some (last_set_nzcv s) (s\<lparr>reach_nzcv := VR_NONE\<rparr>);
     Some (s\<lparr>last_set_nzcv := VR_NONE\<rparr>) }"

definition become_const :: "u64 \<Rightarrow> armlet \<Rightarrow> armlet" where
  "become_const v a =
    (case a_ty a of TyU32 \<Rightarrow> become_const_u32 (ucast v) a | TyU64 \<Rightarrow> become_const_u64 v a | _ \<Rightarrow> a)"

text \<open>After an insertion the tables grow to the new length of the node vector.\<close>

definition grow_consts_uses :: "opt_state \<Rightarrow> opt_state" where
  "grow_consts_uses s = (let n = length (code (o_block s)) in
     s\<lparr>o_consts := resize n None (o_consts s), o_uses := resize n 0 (o_uses s)\<rparr>)"

definition opt_pure :: "value_ref \<Rightarrow> armlet \<Rightarrow> opt_state \<Rightarrow> (armlet \<times> opt_state) option" where
  "opt_pure vr a s = do {
     folded \<leftarrow> try_fold (a_op a) a (o_consts s);
     case folded of
       Some v \<Rightarrow> Some (become_const v a, s)
     | None \<Rightarrow>
       (case try_strength_reduce (a_op a) a (o_consts s) of
          Some (ToConst v) \<Rightarrow> Some (become_const v a, s)
        | Some (ToIdentity v) \<Rightarrow> Some (become_identity v a, s)
        | None \<Rightarrow>
          (case try_combine_const a (o_block s) (o_consts s) of
             None \<Rightarrow> Some (a, s)
           | Some (base_vr, new_const, new_op) \<Rightarrow> do {
               let (const_op, const_ty) =
                 (if size_bits new_op = 32 then (Op_ConstU32, TyU32) else (Op_ConstU64, TyU64));
               (const_vr, b) \<leftarrow> insert_before vr (with_imm new_const (armlet_new const_op const_ty)) (o_block s);
               let s = grow_consts_uses (s\<lparr>o_block := b\<rparr>);
               Some (a\<lparr>a_op := new_op, a_args := [base_vr, const_vr, 0, 0]\<rparr>,
                 s\<lparr>o_consts := (o_consts s)[const_vr := Some new_const]\<rparr>) }))
   }"

definition opt_match :: "value_ref \<Rightarrow> armlet \<Rightarrow> opt_state \<Rightarrow> (armlet \<times> opt_state) option" where
  "opt_match vr a s =
    (let p = a_op a; keep = map_option (\<lambda>s. (a, s)) in
     if p = Op_GetX then Some (opt_get_x vr a s)
     else if p = Op_GetW then Some (opt_get_w a s)
     else if p = Op_GetSp then Some (opt_get_sp a s)
     else if p = Op_GetNzcv then Some (opt_get_nzcv a s)
     else if p = Op_SetV then keep (opt_set_v a s)
     else if p = Op_SetX then keep (opt_set_gpr True vr a s)
     else if p = Op_SetW then keep (opt_set_gpr False vr a s)
     else if p = Op_SetSp then keep (opt_set_sp vr a s)
     else if p = Op_SetNzcv then keep (opt_set_nzcv vr a s)
     else if p \<in> set flag_ops then keep (opt_flags s)
     else if p = Op_ConstU32 then keep (Some (s\<lparr>o_consts := (o_consts s)[vr := Some (a_imm a AND 0xFFFFFFFF)]\<rparr>))
     else if p = Op_ConstU64 then keep (Some (s\<lparr>o_consts := (o_consts s)[vr := Some (a_imm a)]\<rparr>))
     else if is_pure p then opt_pure vr a s
     else keep (Some (if has_side_effects p then clear_last_sets s else s)))"

definition opt_mul_fold :: "value_ref \<Rightarrow> armlet \<Rightarrow> opt_state \<Rightarrow> (armlet \<times> opt_state) option" where
  "opt_mul_fold vr a s =
    (if a_op a \<in> {Op_Add32, Op_Add64, Op_Sub32, Op_Sub64} then do {
       r \<leftarrow> try_mul_fold (Suc (length (code (o_block s)))) a (o_block s) (o_consts s);
       case r of
         None \<Rightarrow> Some (a, s)
       | Some (base_vr, coeff) \<Rightarrow> do {
           let (const_op, mul_op) =
             (if size_bits (a_op a) = 32 then (Op_ConstU32, Op_Mul32) else (Op_ConstU64, Op_Mul64));
           (const_vr, b) \<leftarrow> insert_before vr (with_imm coeff (armlet_new const_op (a_ty a))) (o_block s);
           (mul_vr, b) \<leftarrow> insert_before vr (with_args [base_vr, const_vr] (armlet_new mul_op (a_ty a))) b;
           let s = grow_consts_uses (s\<lparr>o_block := b\<rparr>);
           Some (become_identity mul_vr a, s\<lparr>o_consts := (o_consts s)[const_vr := Some coeff]\<rparr>) } }
     else Some (a, s))"

definition opt_record_const :: "value_ref \<Rightarrow> armlet \<Rightarrow> opt_state \<Rightarrow> opt_state option" where
  "opt_record_const vr a s =
    (if a_op a = Op_ConstU32 then Some (s\<lparr>o_consts := (o_consts s)[vr := Some (a_imm a AND 0xFFFFFFFF)]\<rparr>)
     else if a_op a = Op_ConstU64 then Some (s\<lparr>o_consts := (o_consts s)[vr := Some (a_imm a)]\<rparr>)
     else if a_op a = Op_Identity \<and> vr_is_some (arg a 0) then
       (if arg a 0 < length (o_consts s)
        then Some (s\<lparr>o_consts := (o_consts s)[vr := o_consts s ! arg a 0]\<rparr>) else None)
     else Some s)"

definition aget :: "byte_map option list \<Rightarrow> value_ref \<Rightarrow> byte_map option" where
  "aget xs v = (if v < length xs then xs ! v else None)"

text \<open>The replacement for a recognised map: its composition with the map of its source, or,
  for the two-operand shifts, the map itself - when the cost model agrees.\<close>

definition opt_replacement :: "armlet \<Rightarrow> opt_state \<Rightarrow> byte_map \<Rightarrow> byte_map option option" where
  "opt_replacement a s m =
    (let fuel = Suc (length (code (o_block s))) in do {
       replacement \<leftarrow> (case aget (o_affines s) (bm_source m) of
           None \<Rightarrow> Some None
         | Some inner \<Rightarrow>
             (case compose m inner of
                None \<Rightarrow> Some None
              | Some composed \<Rightarrow> do {
                  w \<leftarrow> worthwhile fuel a (o_block s) (o_uses s) (o_vectors s) m composed (Some inner);
                  Some (if w then Some composed else None) }));
       if replacement = None \<and> a_op a \<in> {Op_VecUshl8, Op_VecSshl8} then do {
         w \<leftarrow> worthwhile fuel a (o_block s) (o_uses s) (o_vectors s) m m None;
         Some (if w then Some m else None) }
       else Some replacement
     })"

definition opt_affine :: "value_ref \<Rightarrow> armlet \<Rightarrow> opt_state \<Rightarrow> (armlet \<times> opt_state) option" where
  "opt_affine vr a s =
    (let n = length (code (o_block s));
         s = s\<lparr>o_vectors := resize n None (o_vectors s), o_affines := resize n None (o_affines s)\<rparr>;
         recognized = recognize a (o_block s) (o_consts s) (o_vectors s);
         forwarded = (if a_op a = Op_GetV \<and> a_ty a = TyU128 \<and> unat (a_imm a) < length (reach_v s)
             \<and> vr_is_some (reach_v s ! unat (a_imm a)) then Some (reach_v s ! unat (a_imm a)) else None);
         vec = (case forwarded of
             Some source \<Rightarrow> vget (o_vectors s) source
           | None \<Rightarrow> vector_constant a (o_block s) (o_consts s) (o_vectors s) recognized);
         s = s\<lparr>o_vectors := (o_vectors s)[vr := vec]\<rparr>
     in case recognized of
       Some m \<Rightarrow> do {
         replacement \<leftarrow> opt_replacement a s m;
         (m, a, s) \<leftarrow> (case replacement of
             Some composed \<Rightarrow>
               if length (code (o_block s)) < MAX_NODES then do {
                 let m = composed;
                 (mat, b) \<leftarrow> insert_before vr
                   ((with_imm (bm_matrix m) (armlet_new Op_ConstU64 TyU64))\<lparr>a_pc := a_pc a\<rparr>) (o_block s);
                 nd \<leftarrow> node b vr;
                 let a = a\<lparr>a_prev := a_prev nd, a_op := Op_VecBitAffine,
                   a_args := [bm_source m, mat, 0, 0],
                   a_imm := push_bit 8 (ucast (bm_addend m)) OR of_bool (bm_q m)\<rparr>;
                 let s = grow_consts_uses (s\<lparr>o_block := b\<rparr>);
                 let n = length (code b);
                 let uses = (o_uses s)[mat := 1];
                 Some (m, a, s\<lparr>o_vectors := resize n None (o_vectors s),
                   o_affines := resize n None (o_affines s),
                   o_consts := (o_consts s)[mat := Some (bm_matrix m)],
                   o_uses := uses[bm_source m := saturating_add_u8 (uses ! bm_source m) 1]\<rparr>) }
               else Some (m, a, s)
           | None \<Rightarrow> Some (m, a, s));
         Some (a, s\<lparr>o_affines := (o_affines s)[vr := Some m]\<rparr>) }
     | None \<Rightarrow>
         Some (a,
           if a_op a = Op_Identity \<and> a_ty a = TyU128
           then s\<lparr>o_affines := (o_affines s)[vr := aget (o_affines s) (arg a 0)]\<rparr>
           else case forwarded of
               Some source \<Rightarrow> s\<lparr>o_affines := (o_affines s)[vr := aget (o_affines s) source]\<rparr>
             | None \<Rightarrow> s))"

text \<open>One iteration of the forward loop; the node is written back at the end.\<close>

definition opt_step :: "value_ref \<Rightarrow> opt_state \<Rightarrow> opt_state option" where
  "opt_step vr s = do {
     a \<leftarrow> node (o_block s) vr;
     let s = (if has_side_effects (a_op a) \<and> a_op a \<noteq> Op_SetV
       then s\<lparr>reach_v := replicate (length (reach_v s)) VR_NONE\<rparr> else s);
     slots \<leftarrow> resolve_slots (o_block s) (a_args a);
     let a = a\<lparr>a_args := slots\<rparr>;
     (a, s) \<leftarrow> opt_match vr a s;
     (a, s) \<leftarrow> opt_mul_fold vr a s;
     s \<leftarrow> opt_record_const vr a s;
     (a, s) \<leftarrow> opt_affine vr a s;
     b \<leftarrow> upd_node vr (\<lambda>_. a) (o_block s);
     Some (s\<lparr>o_block := b\<rparr>)
   }"

fun opt_forward :: "nat \<Rightarrow> value_ref option \<Rightarrow> opt_state \<Rightarrow> opt_state option" where
  "opt_forward fuel None s = Some s"
| "opt_forward 0 (Some vr) s = None"
| "opt_forward (Suc fuel) (Some vr) s = do {
     next_cursor \<leftarrow> next_of vr (o_block s);
     s \<leftarrow> opt_step vr s;
     opt_forward fuel next_cursor s
   }"

section \<open>Use counts and the backward sweep\<close>

definition count_use :: "use_counts \<Rightarrow> value_ref \<Rightarrow> use_counts" where
  "count_use uses v = (if vr_is_some v then uses[v := saturating_add_u8 (uses ! v) 1] else uses)"

definition uncount_use :: "use_counts \<Rightarrow> value_ref \<Rightarrow> use_counts" where
  "uncount_use uses v = (if vr_is_some v then uses[v := saturating_sub_u8 (uses ! v) 1] else uses)"

definition count_uses :: "block \<Rightarrow> nat \<Rightarrow> use_counts option" where
  "count_uses b n = do {
     live \<leftarrow> iter_live b;
     let refs = concat (map (\<lambda>i. a_args (code b ! i)) live) @ terminal_values (terminal b);
     if list_all (\<lambda>v. v < n) refs
     then Some (foldl count_use (replicate n 0) refs) else None
   }"

fun sweep :: "nat \<Rightarrow> value_ref option \<Rightarrow> use_counts \<Rightarrow> block \<Rightarrow> block option" where
  "sweep fuel None uses b = Some b"
| "sweep 0 (Some vr) uses b = None"
| "sweep (Suc fuel) (Some vr) uses b = do {
     prev_cursor \<leftarrow> prev_of vr b;
     a \<leftarrow> node b vr;
     if has_side_effects (a_op a) then sweep fuel prev_cursor uses b
     else if \<not> vr < length uses then None
     else if uses ! vr = 0 then
       (if list_all (\<lambda>v. v < length uses) (a_args a) then do {
          let uses = foldl uncount_use uses (a_args a);
          b \<leftarrow> unlink vr b;
          sweep fuel prev_cursor uses b }
        else None)
     else sweep fuel prev_cursor uses b
   }"

definition eliminate_dead :: "block \<Rightarrow> block option" where
  "eliminate_dead b = do {
     uses \<leftarrow> count_uses b (length (code b));
     sweep (length (code b)) (tail_vr b) uses b }"

definition optimize :: "block \<Rightarrow> block option" where
  "optimize b =
    (if length (code b) = 0 then Some b
     else do {
       s \<leftarrow> opt_init b;
       s \<leftarrow> opt_forward (length (code b)) (head_vr b) s;
       b \<leftarrow> simplify_terminal (o_consts s) (o_block s);
       eliminate_dead b
     })"

section \<open>The sweep deletes exactly what is unused\<close>

definition refs :: "block \<Rightarrow> value_ref list \<Rightarrow> value_ref list" where
  "refs b xs = concat (map (\<lambda>i. a_args (code b ! i)) xs) @ terminal_values (terminal b)"

text \<open>\<open>uses\<close> counts the references of the live nodes and the terminal exactly.\<close>

definition uses_ok :: "use_counts \<Rightarrow> value_ref list \<Rightarrow> bool" where
  "uses_ok uses rs \<longleftrightarrow>
     (\<forall>v < length uses. v \<noteq> 0 \<longrightarrow> unat (uses ! v) = count_list rs v) \<and> (\<forall>v\<in>set rs. v < length uses)"

lemma unat_saturating_add: "unat x < 255 \<Longrightarrow> unat (saturating_add_u8 x 1) = Suc (unat x)"
proof -
  assume "unat x < 255"
  then have "unat (x + 1) = unat x + unat (1 :: u8)"
    by (subst unat_add_lem[THEN iffD1]) simp_all
  then show ?thesis using \<open>unat x < 255\<close> by (simp add: saturating_add_u8_def)
qed

lemma unat_saturating_sub: "unat (saturating_sub_u8 x 1) = unat x - 1"
  by (cases "x = 0") (auto simp: saturating_sub_u8_def unat_minus_one word_less_1)

lemma count_use_length [simp]: "length (count_use uses v) = length uses"
  by (simp add: count_use_def)

lemma uncount_use_length [simp]: "length (uncount_use uses v) = length uses"
  by (simp add: uncount_use_def)

lemma foldl_count_length [simp]: "length (foldl count_use uses vs) = length uses"
  by (induction vs arbitrary: uses) auto

lemma foldl_uncount_length [simp]: "length (foldl uncount_use uses vs) = length uses"
  by (induction vs arbitrary: uses) auto

lemma count_use_nth:
  "u < length uses \<Longrightarrow> u \<noteq> 0 \<Longrightarrow> unat (uses ! u) < 255 \<Longrightarrow>
   unat (count_use uses v ! u) = unat (uses ! u) + of_bool (v = u)"
  by (auto simp: count_use_def vr_is_some_def unat_saturating_add)

lemma foldl_count_use:
  "u < length uses \<Longrightarrow> u \<noteq> 0 \<Longrightarrow> unat (uses ! u) + count_list vs u \<le> 255 \<Longrightarrow>
   unat (foldl count_use uses vs ! u) = unat (uses ! u) + count_list vs u"
proof (induction vs arbitrary: uses)
  case (Cons v vs)
  have "unat (count_use uses v ! u) = unat (uses ! u) + of_bool (v = u)"
  proof (cases "v = u")
    case True
    then show ?thesis using Cons.prems by (intro count_use_nth) auto
  next
    case False
    then show ?thesis by (auto simp: count_use_def)
  qed
  then show ?case using Cons by auto
qed simp

lemma foldl_uncount_use:
  "u < length uses \<Longrightarrow> u \<noteq> 0 \<Longrightarrow>
   unat (foldl uncount_use uses vs ! u) = unat (uses ! u) - count_list vs u"
proof (induction vs arbitrary: uses)
  case (Cons v vs)
  have "unat (uncount_use uses v ! u) = unat (uses ! u) - of_bool (v = u)"
    using Cons.prems by (auto simp: uncount_use_def vr_is_some_def unat_saturating_sub)
  then show ?case using Cons by auto
qed simp

lemma payload_args [simp]: "a_args (payload a) = a_args a" "a_op (payload a) = a_op a"
  by (simp_all add: payload_def)

lemma content_eqD:
  "content b' xs = content b xs \<Longrightarrow> x \<in> set xs \<Longrightarrow> payload (code b' ! x) = payload (code b ! x)"
  by (simp add: content_def)

lemma refs_content:
  assumes "\<And>x. x \<in> set xs \<Longrightarrow> payload (code b' ! x) = payload (code b ! x)" "terminal b' = terminal b"
  shows "refs b' xs = refs b xs"
proof -
  have "map (\<lambda>i. a_args (code b' ! i)) xs = map (\<lambda>i. a_args (code b ! i)) xs"
    using assms(1) by (intro map_cong refl) (metis payload_args(1))
  then show ?thesis unfolding refs_def assms(2) by (simp only:)
qed

lemma count_refs_split:
  "count_list (refs b (ps @ p # ks)) v = count_list (a_args (code b ! p)) v + count_list (refs b (ps @ ks)) v"
  by (simp add: refs_def)

definition sweep_ok :: "block \<Rightarrow> value_ref list \<Rightarrow> block \<Rightarrow> value_ref list \<Rightarrow> bool" where
  "sweep_ok b xs b' ys \<longleftrightarrow>
     block_inv b' ys \<and> terminal b' = terminal b \<and>
     (\<exists>keep. ys = filter keep xs) \<and>
     (\<forall>i\<in>set ys. payload (code b' ! i) = payload (code b ! i)) \<and>
     (\<forall>i\<in>set xs. has_side_effects (a_op (code b ! i)) \<longrightarrow> i \<in> set ys) \<and>
     (\<forall>i\<in>set xs - set ys. i \<notin> set (refs b' ys))"

lemma sweep_correct:
  assumes "block_inv b (ps @ ks)" "uses_ok uses (refs b (ps @ ks))" "length uses = length (code b)"
    and "length ps \<le> fuel"
  shows "\<exists>b' ys. sweep fuel (link_vr (last_link 0 ps)) uses b = Some b' \<and>
     sweep_ok b (ps @ ks) b' (ys @ ks) \<and> set ys \<subseteq> set ps"
  using assms
proof (induction ps arbitrary: b ks uses fuel rule: rev_induct)
  case Nil
  then show ?case
    by (auto simp: link_vr_def LINK_NONE_def sweep_ok_def intro!: exI[of _ "\<lambda>x. True"])
next
  case (snoc p ps)
  note inv = snoc.prems(1)
  have inv': "block_inv b (ps @ p # ks)" using inv by simp
  have p: "p \<noteq> 0" "p < length (code b)" "p \<notin> set ps" "p \<notin> set ks"
    using block_invD[OF inv] by auto
  obtain f where f: "fuel = Suc f" "length ps \<le> f" using snoc.prems(4) by (cases fuel) auto
  have pv: "prev_of p b = Some (link_vr (last_link 0 ps))"
    using inv' p by (auto simp: prev_of_def node_def block_inv_def)
  have nd: "node b p = Some (code b ! p)" using p by (simp add: node_def)
  have lk: "link_vr (last_link 0 (ps @ [p])) = Some p" using p by (simp add: link_vr_def LINK_NONE_def)
  let ?a = "code b ! p"
  show ?case
  proof (cases "has_side_effects (a_op ?a) \<or> uses ! p \<noteq> 0")
    case True
    have "sweep fuel (link_vr (last_link 0 (ps @ [p]))) uses b = sweep f (link_vr (last_link 0 ps)) uses b"
      unfolding lk f using True p snoc.prems(3) by (auto simp: pv nd)
    moreover obtain b' ys where "sweep f (link_vr (last_link 0 ps)) uses b = Some b'"
      "sweep_ok b (ps @ p # ks) b' (ys @ p # ks)" "set ys \<subseteq> set ps"
      using snoc.IH[OF inv' _ snoc.prems(3) f(2)] snoc.prems(2) by auto
    ultimately show ?thesis by (intro exI[of _ b'] exI[of _ "ys @ [p]"]) auto
  next
    case False
    obtain b1 where b1: "unlink p b = Some b1" "block_inv b1 (ps @ ks)"
      "content b1 (ps @ ks) = content b ps @ content b ks" "length (code b1) = length (code b)"
      using unlink_inv[OF inv'] by blast
    have pl: "payload (code b1 ! x) = payload (code b ! x)" if "x \<in> set (ps @ ks)" for x
      using b1(3) that by (intro content_eqD[of b1 "ps @ ks"]) (simp_all add: content_def)
    have tm: "terminal b1 = terminal b" by (rule unlink_terminal[OF b1(1)])
    have rf: "refs b1 (ps @ ks) = refs b (ps @ ks)" by (rule refs_content[OF pl tm])
    let ?u = "foldl uncount_use uses (a_args ?a)"
    have uok: "uses_ok uses (refs b (ps @ p # ks))" using snoc.prems(2) by simp
    have args: "\<forall>v\<in>set (a_args ?a). v < length uses"
      using uok by (auto simp: uses_ok_def refs_def)
    have u: "uses_ok ?u (refs b1 (ps @ ks))"
      using uok unfolding rf uses_ok_def
      by (auto simp: foldl_uncount_use count_refs_split) (auto simp: refs_def)
    have "sweep fuel (link_vr (last_link 0 (ps @ [p]))) uses b = sweep f (link_vr (last_link 0 ps)) ?u b1"
      unfolding lk f using False p snoc.prems(3) args b1(1) by (simp add: pv nd list_all_iff)
    moreover obtain b' ys where s: "sweep f (link_vr (last_link 0 ps)) ?u b1 = Some b'"
      "sweep_ok b1 (ps @ ks) b' (ys @ ks)" "set ys \<subseteq> set ps"
      using snoc.IH[OF b1(2) u _ f(2)] b1(4) snoc.prems(3) by auto
    moreover have "sweep_ok b (ps @ p # ks) b' (ys @ ks)"
    proof -
      obtain keep where keep: "ys @ ks = filter keep (ps @ ks)" using s(2) by (auto simp: sweep_ok_def)
      have "ys @ ks = filter (\<lambda>x. x \<noteq> p \<and> keep x) (ps @ p # ks)"
        using keep p by (auto intro!: filter_cong arg_cong2[of _ _ _ _ append])
      moreover have "p \<notin> set (refs b' (ys @ ks))"
      proof -
        have "count_list (refs b (ps @ p # ks)) p = 0"
          using uok False p snoc.prems(3) by (auto simp: uses_ok_def)
        then have "p \<notin> set (refs b (ps @ ks))" by (simp add: count_refs_split count_list_0_iff)
        moreover have "set (refs b' (ys @ ks)) \<subseteq> set (refs b (ps @ ks))"
        proof -
          have "refs b' (ys @ ks) = refs b1 (ys @ ks)"
            by (rule refs_content) (use s(2) in \<open>auto simp: sweep_ok_def\<close>)
          moreover have "set (refs b1 (ys @ ks)) \<subseteq> set (refs b1 (ps @ ks))"
            using s(3) by (auto simp: refs_def)
          ultimately show ?thesis unfolding rf by simp
        qed
        ultimately show ?thesis by auto
      qed
      moreover have "payload (code b' ! i) = payload (code b ! i)" if "i \<in> set (ys @ ks)" for i
        using s(2,3) that pl[of i] by (auto simp: sweep_ok_def)
      moreover have "a_op (code b1 ! i) = a_op (code b ! i)" if "i \<in> set (ps @ ks)" for i
        using pl[OF that] by (metis payload_args(2))
      ultimately show ?thesis using s(2) tm False by (auto simp: sweep_ok_def)
    qed
    ultimately show ?thesis by auto
  qed
qed


lemma count_uses_ok:
  assumes "block_inv b xs" "\<forall>v\<in>set (refs b xs). v < length (code b)"
    and "\<forall>v. v \<noteq> 0 \<longrightarrow> count_list (refs b xs) v \<le> 255"
  obtains uses where "count_uses b (length (code b)) = Some uses" "uses_ok uses (refs b xs)"
    "length uses = length (code b)"
proof
  let ?u = "foldl count_use (replicate (length (code b)) 0) (refs b xs)"
  show "count_uses b (length (code b)) = Some ?u"
    using iter_live_inv(1)[OF assms(1)] assms(2) by (simp add: count_uses_def refs_def list_all_iff)
  show "uses_ok ?u (refs b xs)"
    using assms(2,3) foldl_count_use[of _ "replicate (length (code b)) 0" "refs b xs"]
    by (auto simp: uses_ok_def)
qed simp

lemma eliminate_dead_ok:
  assumes "block_inv b xs" "\<forall>v\<in>set (refs b xs). v < length (code b)"
    and "\<forall>v. v \<noteq> 0 \<longrightarrow> count_list (refs b xs) v \<le> 255"
  shows "\<exists>b' ys. eliminate_dead b = Some b' \<and> sweep_ok b xs b' ys"
proof -
  obtain uses where u: "count_uses b (length (code b)) = Some uses" "uses_ok uses (refs b xs)"
    "length uses = length (code b)"
    by (rule count_uses_ok[OF assms])
  have "length xs \<le> length (code b)" using block_inv_length[OF assms(1)] by simp
  then have "\<exists>b' ys. sweep (length (code b)) (link_vr (last_link 0 xs)) uses b = Some b' \<and>
     sweep_ok b (xs @ []) b' (ys @ []) \<and> set ys \<subseteq> set xs"
    using sweep_correct[of b xs "[]" uses "length (code b)"] assms(1) u by simp
  then show ?thesis using u(1) block_invD(5)[OF assms(1)] by (auto simp: eliminate_dead_def tail_vr_def)
qed

text \<open>
  An abstract execution of a node list: \<open>val\<close> computes a node's value from its operands and
  the guest state, \<open>eff\<close> is the effect of a node on the guest state; only the nodes with
  side effects have one.
\<close>

fun run_nodes :: "(armlet \<Rightarrow> 'v list \<Rightarrow> 's \<Rightarrow> 'v) \<Rightarrow> (armlet \<Rightarrow> 'v list \<Rightarrow> 's \<Rightarrow> 's) \<Rightarrow> block \<Rightarrow>
    value_ref list \<Rightarrow> (value_ref \<Rightarrow> 'v) \<Rightarrow> 's \<Rightarrow> (value_ref \<Rightarrow> 'v) \<times> 's" where
  "run_nodes val eff b [] env s = (env, s)"
| "run_nodes val eff b (i # is) env s =
     (let a = payload (code b ! i); vs = map env (a_args a)
      in run_nodes val eff b is (env(i := val a vs s))
           (if has_side_effects (a_op a) then eff a vs s else s))"

lemma run_nodes_filter:
  assumes "\<forall>i\<in>set xs. keep i \<longrightarrow> set (a_args (code b ! i)) \<inter> D = {} \<and>
      payload (code b' ! i) = payload (code b ! i)"
    and "\<forall>i\<in>set xs. \<not> keep i \<longrightarrow> i \<in> D \<and> \<not> has_side_effects (a_op (code b ! i))"
    and "\<forall>v. v \<notin> D \<longrightarrow> env' v = env v"
  shows "snd (run_nodes val eff b' (filter keep xs) env' s) = snd (run_nodes val eff b xs env s) \<and>
    (\<forall>v. v \<notin> D \<longrightarrow> fst (run_nodes val eff b' (filter keep xs) env' s) v = fst (run_nodes val eff b xs env s) v)"
  using assms
proof (induction xs arbitrary: env env' s)
  case (Cons i xs)
  let ?a = "payload (code b ! i)"
  have p: "\<forall>i\<in>set xs. keep i \<longrightarrow> set (a_args (code b ! i)) \<inter> D = {} \<and>
      payload (code b' ! i) = payload (code b ! i)"
    "\<forall>i\<in>set xs. \<not> keep i \<longrightarrow> i \<in> D \<and> \<not> has_side_effects (a_op (code b ! i))"
    using Cons.prems(1,2) by auto
  let ?v = "val ?a (map env (a_args ?a)) s"
  let ?s = "if has_side_effects (a_op ?a) then eff ?a (map env (a_args ?a)) s else s"
  have l: "run_nodes val eff b (i # xs) env s = run_nodes val eff b xs (env(i := ?v)) ?s"
    by (simp add: Let_def del: payload_args)
  show ?case
  proof (cases "keep i")
    case True
    have "map env' (a_args ?a) = map env (a_args ?a)"
      using Cons.prems(1,3) True by (auto intro!: map_cong)
    moreover have "payload (code b' ! i) = ?a" using Cons.prems(1) True by simp
    ultimately have r: "run_nodes val eff b' (filter keep (i # xs)) env' s =
        run_nodes val eff b' (filter keep xs) (env'(i := ?v)) ?s"
      using True by (simp only: filter.simps if_True run_nodes.simps Let_def simp_thms)
    have "\<forall>v. v \<notin> D \<longrightarrow> (env'(i := ?v)) v = (env(i := ?v)) v" using Cons.prems(3) by simp
    from Cons.IH[OF p this, of ?s] show ?thesis unfolding r l .
  next
    case False
    then have d: "\<not> has_side_effects (a_op ?a)" "i \<in> D" using Cons.prems(2) by auto
    have r: "run_nodes val eff b' (filter keep (i # xs)) env' s = run_nodes val eff b' (filter keep xs) env' ?s"
      using False d(1) by simp
    have "\<forall>v. v \<notin> D \<longrightarrow> env' v = (env(i := ?v)) v" using Cons.prems(3) d(2) by auto
    from Cons.IH[OF p this, of ?s] show ?thesis unfolding r l .
  qed
qed simp



definition dead_block :: block where
  "dead_block = snd (the (push_list push
     [armlet_new Op_GetX TyU64,
      with_imm 1 (armlet_new Op_ConstU64 TyU64),
      with_args [1, 2] (armlet_new Op_Add64 TyU64),
      with_args [1] (armlet_new Op_SetX TyVoid)] (block_new 0)))"

lemma dead_block_ok:
  "block_inv dead_block [1, 2, 3, 4]" "\<forall>v\<in>set (refs dead_block [1, 2, 3, 4]). v < length (code dead_block)"
  by code_simp+

definition demo_val :: "armlet \<Rightarrow> u64 list \<Rightarrow> u64 list \<Rightarrow> u64" where
  "demo_val a vs s = a_imm a + sum_list vs + of_nat (length s)"

definition demo_eff :: "armlet \<Rightarrow> u64 list \<Rightarrow> u64 list \<Rightarrow> u64 list" where
  "demo_eff a vs s = sum_list vs # s"


text \<open>
  The pass writes its copy of the current node back after unlinking an earlier one, which
  restores a stale backward link when the two are adjacent. Three adjacent writes to one
  register lose the last of them, and every node after it: here \<open>SetX 5\<close>.
\<close>

definition triple_set :: block where
  "triple_set = snd (the (push_list push
     [with_imm 1 (armlet_new Op_ConstU64 TyU64),
      with_args [1] (armlet_new Op_SetX TyVoid),
      with_args [1] (armlet_new Op_SetX TyVoid),
      with_args [1] (armlet_new Op_SetX TyVoid),
      with_imm 5 (with_args [1] (armlet_new Op_SetX TyVoid))] (block_new 0)))"


end
