(* ===== verification/Aes.thy ===== *)
theory Aes
  imports Lanes
begin

text \<open>
  The AES instructions of \<open>src/interp/crypto.rs\<close>: arithmetic in GF(2^8), the S-box and its
  inverse computed as in the source, \<open>AESE\<close>, \<open>AESD\<close>, \<open>AESMC\<close> and \<open>AESIMC\<close>. The field laws are
  proved from the multiplication loop, and with them that the inverse instructions invert.
\<close>

section \<open>Definitions\<close>

definition xtime :: "u8 \<Rightarrow> u8" where
  "xtime a = (let hi = a AND 0x80; a = push_bit 1 a in if hi \<noteq> 0 then a XOR 0x1B else a)"

lemma unat_half: "unat (drop_bit 1 b) = unat (b :: u8) div 2"
proof -
  have "uint (drop_bit 1 b) = drop_bit 1 (uint b)" by (rule uint_drop_bit)
  also have "\<dots> = uint b div 2" by (simp only: drop_bit_eq_div power_one_right)
  finally show ?thesis by (simp only: unat_eq_nat_uint nat_div_distrib uint_ge_0) simp
qed

lemma unat_half_less: "b \<noteq> 0 \<Longrightarrow> unat (drop_bit 1 b) < unat (b :: u8)"
  unfolding unat_half by (simp add: unat_gt_0)

function gf_mul_loop :: "u8 \<Rightarrow> u8 \<Rightarrow> u8 \<Rightarrow> u8" where
  "gf_mul_loop a b r =
     (if b \<noteq> 0
      then gf_mul_loop (xtime a) (drop_bit 1 b) (if b AND 1 \<noteq> 0 then r XOR a else r)
      else r)"
  by pat_completeness auto
termination
  by (relation "measure (\<lambda>(a, b, r). unat b)", simp, simp only: in_measure prod.case)
    (rule unat_half_less)

declare gf_mul_loop.simps [simp del]

definition gf_mul :: "u8 \<Rightarrow> u8 \<Rightarrow> u8" where
  "gf_mul a b = gf_mul_loop a b 0"

function gf_inv_loop :: "nat \<Rightarrow> u8 \<Rightarrow> u8 \<Rightarrow> u8" where
  "gf_inv_loop e base r =
     (if e \<noteq> 0
      then gf_inv_loop (e div 2) (gf_mul base base) (if e mod 2 \<noteq> 0 then gf_mul r base else r)
      else r)"
  by pat_completeness auto
termination
  by (relation "measure (\<lambda>(e, base, r). e)") auto

declare gf_inv_loop.simps [simp del]

definition gf_inv :: "u8 \<Rightarrow> u8" where
  "gf_inv a = gf_inv_loop 254 a 1"

text \<open>The loop over \<open>k\<close>: \<open>x = x.rotate_left(1); r ^= x\<close>, four times.\<close>

fun sbox_mix :: "nat \<Rightarrow> u8 \<Rightarrow> u8 \<Rightarrow> u8" where
  "sbox_mix 0 x r = r"
| "sbox_mix (Suc k) x r = (let x = rotate_left x 1 in sbox_mix k x (r XOR x))"

definition sbox_entry :: "nat \<Rightarrow> u8" where
  "sbox_entry i = (let inv = (if i = 0 then 0 else gf_inv (of_nat i)) in sbox_mix 4 inv inv XOR 0x63)"

definition SBOX :: "u8 list" where
  "SBOX = map sbox_entry [0..<256]"

definition INV_SBOX :: "u8 list" where
  "INV_SBOX = foldl (\<lambda>s i. s[unat (SBOX ! i) := of_nat i]) (replicate 256 0) [0..<256]"

definition SHIFT_ROWS :: "nat list" where
  "SHIFT_ROWS = [0, 5, 10, 15, 4, 9, 14, 3, 8, 13, 2, 7, 12, 1, 6, 11]"

definition INV_SHIFT_ROWS :: "nat list" where
  "INV_SHIFT_ROWS = [0, 13, 10, 7, 4, 1, 14, 11, 8, 5, 2, 15, 12, 9, 6, 3]"

definition aese :: "u128 \<Rightarrow> u128 \<Rightarrow> u128" where
  "aese d n = (let s = d XOR n in join 16 (\<lambda>i. SBOX ! unat (lane (SHIFT_ROWS ! i) s :: u8)))"

definition aesd :: "u128 \<Rightarrow> u128 \<Rightarrow> u128" where
  "aesd d n = (let s = d XOR n in join 16 (\<lambda>i. INV_SBOX ! unat (lane (INV_SHIFT_ROWS ! i) s :: u8)))"

text \<open>Output byte \<open>4 * c + r\<close>; \<open>col\<close> is column \<open>c\<close> of the input.\<close>

definition mix_columns :: "u128 \<Rightarrow> u8 list \<Rightarrow> u128" where
  "mix_columns v m = join 16 (\<lambda>i.
     let c = i div 4; r = i mod 4; col = (\<lambda>k. lane (4 * c + k) v)
     in gf_mul (m ! 0) (col r) XOR gf_mul (m ! 1) (col ((r + 1) mod 4)) XOR
        gf_mul (m ! 2) (col ((r + 2) mod 4)) XOR gf_mul (m ! 3) (col ((r + 3) mod 4)))"

definition aesmc :: "u128 \<Rightarrow> u128" where
  "aesmc n = mix_columns n [2, 3, 1, 1]"

definition aesimc :: "u128 \<Rightarrow> u128" where
  "aesimc n = mix_columns n [14, 11, 13, 9]"

section \<open>Multiplication is a commutative ring operation\<close>

primrec gf_poly :: "nat \<Rightarrow> u8 \<Rightarrow> u8 \<Rightarrow> u8" where
  "gf_poly 0 a b = 0"
| "gf_poly (Suc n) a b = (if bit b 0 then a else 0) XOR gf_poly n (xtime a) (drop_bit 1 b)"

lemma odd_and_1: "(b :: u8) AND 1 \<noteq> 0 \<longleftrightarrow> bit b 0"
  by (simp add: and_one_eq bit_0 odd_iff_mod_2_eq_one)

lemma gf_mul_loop_poly:
  "unat b < 2 ^ n \<Longrightarrow> gf_mul_loop a b r = r XOR gf_poly n a b"
proof (induction n arbitrary: a b r)
  case 0
  then have "b = 0" by (simp add: unat_eq_zero)
  then show ?case by (simp add: gf_mul_loop.simps[of a 0 r])
next
  case (Suc n)
  have z: "gf_poly m a' 0 = 0" for m a' by (induction m arbitrary: a') simp_all
  show ?case
  proof (cases "b = 0")
    case True
    then show ?thesis by (simp add: gf_mul_loop.simps[of a 0 r] z del: gf_poly.simps)
  next
    case False
    have "unat (drop_bit 1 b) < 2 ^ n"
      using Suc.prems unfolding unat_half by simp
    from Suc.IH[OF this] show ?thesis
      using False unfolding gf_mul_loop.simps[of a b r] odd_and_1 by (simp add: xor.assoc)
  qed
qed

lemma gf_mul_poly: "gf_mul a b = gf_poly 8 a b"
  using gf_mul_loop_poly[of b 8 a 0] unsigned_less[of b] by (simp add: gf_mul_def)

lemma bit_and_80: "(a :: u8) AND 0x80 \<noteq> 0 \<longleftrightarrow> bit a 7"
proof -
  have "(0x80 :: u8) = push_bit 7 1" by simp
  then show ?thesis by (simp only: bit_iff_and_push_bit_not_eq_0)
qed

lemma xtime_xor: "xtime (a XOR b) = xtime a XOR xtime b"
  unfolding xtime_def Let_def bit_and_80 push_bit_xor bit_xor_iff
  by (auto simp: xor.assoc xor.commute xor.left_commute)

lemma xtime_0 [simp]: "xtime 0 = 0"
  by (simp add: xtime_def)

lemma gf_poly_xor_left: "gf_poly n (a XOR a') b = gf_poly n a b XOR gf_poly n a' b"
  by (induction n arbitrary: a a' b) (auto simp: xtime_xor xor.assoc xor.commute xor.left_commute)

lemma gf_poly_xor_right: "gf_poly n a (b XOR b') = gf_poly n a b XOR gf_poly n a b'"
  by (induction n arbitrary: a b b')
    (auto simp: bit_xor_iff drop_bit_xor xor.assoc xor.commute xor.left_commute)

lemma gf_poly_0_left [simp]: "gf_poly n 0 b = 0"
  by (induction n arbitrary: b) simp_all

text \<open>Additive maps that commute with \<open>xtime\<close> commute with every multiplication.\<close>

lemma gf_poly_commutes:
  assumes "\<And>x y. F (x XOR y) = F x XOR F y" "\<And>x. F (xtime x) = xtime (F x)"
  shows "gf_poly n (F a) b = F (gf_poly n a b)"
proof -
  have "F 0 = 0" using assms(1)[of 0 0] by simp
  then show ?thesis
    by (induction n arbitrary: a b) (auto simp: assms(1) assms(2)[symmetric])
qed

lemma gf_poly_xtime: "gf_poly n (xtime a) b = xtime (gf_poly n a b)"
  by (rule gf_poly_commutes) (simp_all add: xtime_xor)

lemma gf_poly_high:
  "gf_poly (Suc n) a b = gf_poly n a b XOR (if bit b n then (xtime ^^ n) a else 0)"
proof (induction n arbitrary: a b)
  case (Suc n)
  have "(xtime ^^ n) (xtime a) = (xtime ^^ Suc n) a" by (simp add: funpow_swap1)
  moreover have "gf_poly (Suc (Suc n)) a b = (if bit b 0 then a else 0) XOR
      (gf_poly n (xtime a) (drop_bit 1 b) XOR (if bit b (Suc n) then (xtime ^^ n) (xtime a) else 0))"
    unfolding gf_poly.simps(2)[of "Suc n"] Suc.IH by (simp add: bit_drop_bit_eq)
  ultimately show ?case unfolding gf_poly.simps(2)[of n a b] by (simp only: xor.assoc)
qed simp

lemma xtime_powers: "n < 8 \<Longrightarrow> (xtime ^^ n) 1 = 2 ^ n"
proof -
  have "list_all (\<lambda>n. (xtime ^^ n) 1 = 2 ^ n) [0..<8]" by code_simp
  then show "n < 8 \<Longrightarrow> (xtime ^^ n) 1 = 2 ^ n" by (simp add: list_all_iff)
qed

lemma gf_poly_one: "n \<le> 8 \<Longrightarrow> gf_poly n 1 b = take_bit n b"
proof (induction n)
  case (Suc n)
  have "gf_poly (Suc n) 1 b = take_bit n b XOR (if bit b n then 2 ^ n else 0)"
    unfolding gf_poly_high using Suc by (simp add: xtime_powers)
  also have "\<dots> = take_bit (Suc n) b"
    by (rule word_eqI_bits) (auto simp: bit_simps less_Suc_eq)
  finally show ?case .
qed simp

lemma gf_mul_1_left: "gf_mul 1 b = b"
  using gf_poly_one[of 8 b] take_bit_word_eq_self[of 8 b] by (simp add: gf_mul_poly del: gf_poly.simps)

lemma gf_mul_swap: "gf_mul (gf_mul a b) c = gf_mul (gf_mul a c) b"
  unfolding gf_mul_poly
  by (rule gf_poly_commutes[symmetric]) (simp_all add: gf_poly_xor_left gf_poly_xtime del: gf_poly.simps)

lemma gf_mul_commute: "gf_mul a b = gf_mul b a"
  using gf_mul_swap[of 1 a b] by (simp add: gf_mul_1_left)

lemma gf_mul_assoc: "gf_mul (gf_mul a b) c = gf_mul a (gf_mul b c)"
  by (metis gf_mul_commute gf_mul_swap)

lemma gf_mul_xor: "gf_mul (a XOR b) c = gf_mul a c XOR gf_mul b c"
    "gf_mul c (a XOR b) = gf_mul c a XOR gf_mul c b"
  by (simp_all add: gf_mul_poly gf_poly_xor_left gf_poly_xor_right del: gf_poly.simps)

interpretation gf: comm_monoid gf_mul 1
proof
  show "gf_mul a 1 = a" for a using gf_mul_commute[of a 1] by (simp add: gf_mul_1_left)
qed (rule gf_mul_assoc, rule gf_mul_commute)

section \<open>Powers and the multiplicative inverse\<close>

primrec gpow :: "nat \<Rightarrow> u8 \<Rightarrow> u8" where
  "gpow 0 a = 1"
| "gpow (Suc n) a = gf_mul a (gpow n a)"

lemma gpow_add: "gpow (m + n) a = gf_mul (gpow m a) (gpow n a)"
  by (induction m) (simp_all add: gf_mul_1_left gf_mul_assoc)

lemma gpow_mul: "gpow n (gf_mul a b) = gf_mul (gpow n a) (gpow n b)"
  by (induction n) (simp_all add: gf_mul_1_left gf.assoc gf.left_commute)

lemma gpow_1 [simp]: "gpow n 1 = 1"
  by (induction n) (simp_all add: gf_mul_1_left)

lemma gpow_gpow: "gpow m (gpow n a) = gpow (n * m) a"
  by (induction m) (simp_all add: gpow_add)

lemma gf_inv_loop_power: "gf_inv_loop e a r = gf_mul r (gpow e a)"
proof (induction e a r rule: gf_inv_loop.induct)
  case (1 e a r)
  show ?case
  proof (cases "e = 0")
    case True
    then show ?thesis by (simp add: gf_inv_loop.simps[of 0])
  next
    case False
    have sq: "gpow k (gf_mul a a) = gpow (2 * k) a" for k
      by (simp add: gpow_mul gpow_add[symmetric] mult_2)
    have "gf_mul (if e mod 2 \<noteq> 0 then gf_mul r a else r) (gpow (2 * (e div 2)) a) = gf_mul r (gpow e a)"
    proof (cases "e mod 2 = 0")
      case True
      then have "2 * (e div 2) = e" by presburger
      then show ?thesis using True by simp
    next
      case odd: False
      then have "gpow e a = gpow (Suc (2 * (e div 2))) a" by (intro arg_cong2[where f = gpow]) presburger+
      then show ?thesis using odd by (simp add: gf_mul_assoc)
    qed
    then show ?thesis unfolding gf_inv_loop.simps[of e a r] using False 1[OF False] by (simp add: sq)
  qed
qed

lemma gf_inv_power: "gf_inv a = gpow 254 a"
  unfolding gf_inv_def gf_inv_loop_power by (rule gf_mul_1_left)

text \<open>Squaring is additive; the eightfold square fixes 2, hence every element.\<close>

lemma gf_square_xor: "gf_mul (a XOR b) (a XOR b) = gf_mul a a XOR gf_mul b b"
  by (simp add: gf_mul_xor gf_mul_commute[of b a] xor.assoc)

lemma gf_squares_power: "((\<lambda>x. gf_mul x x) ^^ k) a = gpow (2 ^ k) a"
proof (induction k)
  case 0
  show ?case by (simp add: gf_mul_commute[of a] gf_mul_1_left)
next
  case (Suc k)
  then show ?case by (simp add: gpow_add[symmetric] mult_2)
qed

lemma gf_squares_xor:
  "((\<lambda>x. gf_mul x x) ^^ k) (a XOR b) = ((\<lambda>x. gf_mul x x) ^^ k) a XOR ((\<lambda>x. gf_mul x x) ^^ k) b"
  by (induction k) (simp_all add: gf_square_xor)

lemma gf_mul_2: "gf_mul 2 a = xtime a"
proof -
  have "gf_mul (xtime 1) a = xtime (gf_mul 1 a)" by (simp only: gf_mul_poly gf_poly_xtime)
  moreover have "xtime 1 = 2" by code_simp
  ultimately show ?thesis by (simp add: gf_mul_1_left)
qed

lemma gf_squares_2:
  "gf_mul 2 2 = 4"
  "gf_mul 4 4 = 16"
  "gf_mul 16 16 = 27"
  "gf_mul 27 27 = 94"
  "gf_mul 94 94 = 228"
  "gf_mul 228 228 = 77"
  "gf_mul 77 77 = 250"
  "gf_mul 250 250 = 2"
  by code_simp+

lemma gpow_256: "gpow 256 a = a"
proof -
  let ?F = "(\<lambda>x. gf_mul x x) ^^ 8"
  have F2: "?F 2 = 2" by (simp add: eval_nat_numeral gf_squares_2)
  have e: "2 ^ 8 = (256 :: nat)" by simp
  have F: "?F x = gpow 256 x" for x by (simp only: gf_squares_power e)
  have "?F (xtime x) = xtime (?F x)" for x
    using F2 by (simp only: gf_mul_2[symmetric] F gpow_mul)
  then have "gf_poly 8 (?F 1) a = ?F (gf_poly 8 1 a)"
    using gf_poly_commutes[of ?F 8 1 a] gf_squares_xor by blast
  then have "a = gpow 256 a" by (simp only: F gpow_1 gf_mul_poly[symmetric] gf_mul_1_left)
  then show ?thesis by (rule sym)
qed

lemma gpow_reduce: "gpow (256 * k + j) a = gpow (k + j) a"
  by (simp only: gpow_add gpow_gpow[symmetric] gpow_256)

lemma gf_inv_inv: "gf_inv (gf_inv a) = a"
proof -
  have "gf_inv (gf_inv a) = gpow (256 * 252 + 4) a" by (simp add: gf_inv_power gpow_gpow)
  also have "\<dots> = gpow (256 * 1 + 0) a" unfolding gpow_reduce by (simp add: gpow_256)
  also have "\<dots> = a" unfolding gpow_reduce by (simp add: gf_mul_commute[of a] gf_mul_1_left)
  finally show ?thesis .
qed

section \<open>The S-box is a permutation\<close>

lemma rotate_left_amt: "rotate_left (x :: u8) (1 :: u32) = word_rotl 1 x"
  by (simp add: rotate_left_def)

lemma bit_rotl_8: "k < 8 \<Longrightarrow> m < 8 \<Longrightarrow> bit (word_rotl m x) k \<longleftrightarrow> bit (x :: u8) ((k + (8 - m)) mod 8)"
  by (simp add: bit_word_rotl_iff)

lemma bit_rotl_1: "k < 8 \<Longrightarrow> bit (word_rotl 1 x) k \<longleftrightarrow> bit (x :: u8) ((k + 7) mod 8)"
  by (subst bit_rotl_8) simp_all

lemma sbox_mix_4: "sbox_mix 4 x r = (let a = word_rotl 1 x; b = word_rotl 1 a; c = word_rotl 1 b; d = word_rotl 1 c
    in (((r XOR a) XOR b) XOR c) XOR d)"
proof -
  have "sbox_mix (Suc (Suc (Suc (Suc 0)))) x r = (let a = word_rotl 1 x; b = word_rotl 1 a; c = word_rotl 1 b;
      d = word_rotl 1 c in (((r XOR a) XOR b) XOR c) XOR d)"
    by (simp only: sbox_mix.simps rotate_left_amt Let_def)
  then show ?thesis by (simp only: numeral_eq_Suc pred_numeral_simps BitM.simps)
qed

lemma mod_8_add: "(k + (8 + j)) mod 8 = (k + j) mod (8 :: nat)"
  using mod_add_self2[of "k + j" 8] by (simp add: ac_simps)

lemma sbox_mix_bits:
  assumes "k < 8"
  shows "bit (sbox_mix 4 x x) k \<longleftrightarrow>
     ((((bit x k \<noteq> bit x ((k + 7) mod 8)) \<noteq> bit x ((k + 6) mod 8)) \<noteq> bit x ((k + 5) mod 8)) \<noteq> bit x ((k + 4) mod 8))"
proof -
  have m: "((k + i) mod 8 + j) mod 8 = (k + (i + j)) mod 8" for i j by (simp add: mod_add_left_eq add.assoc)
  have r: "(k + 14) mod 8 = (k + 6) mod 8" "(k + 13) mod 8 = (k + 5) mod 8" "(k + 12) mod 8 = (k + 4) mod 8"
    using mod_8_add[of k 6] mod_8_add[of k 5] mod_8_add[of k 4] by simp_all
  have l: "n mod 8 < (8 :: nat)" for n by simp
  show ?thesis
    unfolding sbox_mix_4 Let_def bit_xor_iff
    by (simp only: bit_rotl_1[OF assms] bit_rotl_1[OF l] m r arith_simps)
qed

definition sbox_unmix :: "u8 \<Rightarrow> u8" where
  "sbox_unmix y = (word_rotl 1 y XOR word_rotl 3 y) XOR word_rotl 6 y"

lemma sbox_unmix_bits:
  assumes "k < 8"
  shows "bit (sbox_unmix y) k \<longleftrightarrow> ((bit y ((k + 7) mod 8) \<noteq> bit y ((k + 5) mod 8)) \<noteq> bit y ((k + 2) mod 8))"
  using bit_rotl_8[OF assms, of 1 y] bit_rotl_8[OF assms, of 3 y] bit_rotl_8[OF assms, of 6 y]
  unfolding sbox_unmix_def bit_xor_iff by simp

lemma sbox_mix_cancel:
  "((((((x7 \<noteq> x6) \<noteq> x5) \<noteq> x4) \<noteq> x3) \<noteq> ((((x5 \<noteq> x4) \<noteq> x3) \<noteq> x2) \<noteq> x1)) \<noteq>
     ((((x2 \<noteq> x1) \<noteq> x0) \<noteq> x7) \<noteq> x6)) = x0"
  by (cases x0; cases x1; cases x2; cases x3; cases x4; cases x5; cases x6; cases x7; simp)

lemma sbox_unmix: "sbox_unmix (sbox_mix 4 x x) = x"
proof (rule word_eqI_bits)
  fix k assume "k < LENGTH(8)"
  then have k: "k < 8" by simp
  have l: "n mod 8 < (8 :: nat)" for n by simp
  have m: "((k + i) mod 8 + j) mod 8 = (k + (i + j)) mod 8" for i j by (simp add: mod_add_left_eq add.assoc)
  have r: "(k + 14) mod 8 = (k + 6) mod 8" "(k + 13) mod 8 = (k + 5) mod 8" "(k + 12) mod 8 = (k + 4) mod 8"
      "(k + 11) mod 8 = (k + 3) mod 8" "(k + 10) mod 8 = (k + 2) mod 8" "(k + 9) mod 8 = (k + 1) mod 8"
      "(k + 8) mod 8 = k"
    using k mod_8_add[of k 6] mod_8_add[of k 5] mod_8_add[of k 4] mod_8_add[of k 3] mod_8_add[of k 2] mod_8_add[of k 1]
    by simp_all
  show "bit (sbox_unmix (sbox_mix 4 x x)) k = bit x k"
    by (simp only: sbox_unmix_bits[OF k] sbox_mix_bits[OF l] m arith_simps r sbox_mix_cancel)
qed

definition sub_byte :: "u8 \<Rightarrow> u8" where
  "sub_byte b = sbox_mix 4 (gf_inv b) (gf_inv b) XOR 0x63"

lemma sub_byte_inj: "sub_byte a = sub_byte b \<longleftrightarrow> a = b"
proof
  assume "sub_byte a = sub_byte b"
  then have "sub_byte a XOR 0x63 = sub_byte b XOR 0x63" by simp
  then have "sbox_mix 4 (gf_inv a) (gf_inv a) = sbox_mix 4 (gf_inv b) (gf_inv b)"
    unfolding sub_byte_def by (simp only: xor.assoc xor_self_eq xor.right_neutral)
  then have "gf_inv a = gf_inv b" by (metis sbox_unmix)
  then show "a = b" by (metis gf_inv_inv)
qed simp

lemma gf_inv_0: "gf_inv 0 = 0"
  by code_simp

lemma unat_of_nat_8: "i < 256 \<Longrightarrow> unat (of_nat i :: u8) = i"
  by (simp add: unsigned_of_nat take_bit_nat_eq_self)

lemma SBOX_nth: "SBOX ! unat b = sub_byte b"
proof -
  have "unat b < 256" using unsigned_less[of b] by simp
  then have "SBOX ! unat b = sbox_entry (unat b)" by (simp add: SBOX_def)
  then show ?thesis
    by (simp add: sbox_entry_def sub_byte_def Let_def gf_inv_0 unat_eq_zero)
qed

lemma INV_SBOX_sub_byte: "INV_SBOX ! unat (sub_byte b) = b"
proof -
  have b: "unat b < 256" using unsigned_less[of b] by simp
  have e: "SBOX ! i = sub_byte (of_nat i)" if "i < 256" for i
    using SBOX_nth[of "of_nat i"] that by (simp add: unat_of_nat_8)
  have "INV_SBOX ! unat (SBOX ! unat b) = of_nat (unat b)"
    unfolding INV_SBOX_def
  proof (rule foldl_updates_nth[OF _ b])
    fix i j :: nat assume i: "i < 256" "j < 256" and "unat (SBOX ! i) = unat (SBOX ! j)"
    then have "(of_nat i :: u8) = of_nat j" by (simp add: e sub_byte_inj word_unat_eq_iff[symmetric])
    then have "unat (of_nat i :: u8) = unat (of_nat j :: u8)" by simp
    then show "i = j" using i by (simp add: unat_of_nat_8)
  next
    show "unat (SBOX ! unat b) < length (replicate 256 (0 :: u8))"
      using unsigned_less[of "SBOX ! unat b"] by simp
  qed
  then show ?thesis by (simp add: SBOX_nth)
qed

lemma SBOX_INV_SBOX: "SBOX ! unat (INV_SBOX ! unat b) = b"
proof -
  have "inj sub_byte" by (rule injI) (simp add: sub_byte_inj)
  then have "surj sub_byte" by (rule finite_UNIV_inj_surj[rotated]) simp
  then obtain a where "b = sub_byte a" by (metis surjD)
  then show ?thesis by (simp add: INV_SBOX_sub_byte SBOX_nth)
qed

section \<open>The inverse instructions invert\<close>

lemma lane_join_8: "i < 16 \<Longrightarrow> lane i (join 16 g :: u128) = (g i :: u8)"
  by (rule lane_join) simp_all

lemma join_lane_8: "join 16 (\<lambda>i. lane i v :: u8) = (v :: u128)"
  by (rule join_lanes) simp

lemma row_permutations:
  assumes "i < 16"
  shows "SHIFT_ROWS ! i < 16 \<and> INV_SHIFT_ROWS ! i < 16 \<and>
    INV_SHIFT_ROWS ! (SHIFT_ROWS ! i) = i \<and> SHIFT_ROWS ! (INV_SHIFT_ROWS ! i) = i"
proof -
  have "list_all (\<lambda>i. SHIFT_ROWS ! i < 16 \<and> INV_SHIFT_ROWS ! i < 16 \<and>
      INV_SHIFT_ROWS ! (SHIFT_ROWS ! i) = i \<and> SHIFT_ROWS ! (INV_SHIFT_ROWS ! i) = i) [0..<16]"
    by (simp add: upt_conv_Cons SHIFT_ROWS_def INV_SHIFT_ROWS_def)
  then show ?thesis using assms by (simp add: list_all_iff)
qed

lemma xor_0_right_word: "x XOR (0 :: u128) = x"
  by simp

text \<open>
  C34. AESD inverts AESE and AESE inverts AESD: the generated S-box is a permutation of the
  bytes, its table inverse is the inverse, and the row shifts cancel.
\<close>

theorem aes_rounds_invert:
  "aesd (aese d n) 0 = d XOR n \<and> aese (aesd d n) 0 = d XOR n"
proof
  have "aesd (aese d n) 0 = join 16 (\<lambda>i. lane i (d XOR n) :: u8)"
    unfolding aesd_def[of "aese d n"] Let_def xor_0_right_word
    by (rule join_cong) (simp add: aese_def Let_def lane_join_8 row_permutations SBOX_nth INV_SBOX_sub_byte)
  then show "aesd (aese d n) 0 = d XOR n" by (simp add: join_lane_8)
next
  have "aese (aesd d n) 0 = join 16 (\<lambda>i. lane i (d XOR n) :: u8)"
    unfolding aese_def[of "aesd d n"] Let_def xor_0_right_word
    by (rule join_cong) (simp add: aesd_def Let_def lane_join_8 row_permutations SBOX_INV_SBOX)
  then show "aese (aesd d n) 0 = d XOR n" by (simp add: join_lane_8)
qed

lemma gf_mul_consts:
  "gf_mul 1 a = a" "gf_mul 2 a = xtime a" "gf_mul 3 a = a XOR xtime a"
  "gf_mul 9 a = a XOR xtime (xtime (xtime a))"
  "gf_mul 11 a = a XOR xtime a XOR xtime (xtime (xtime a))"
  "gf_mul 13 a = a XOR xtime (xtime a) XOR xtime (xtime (xtime a))"
  "gf_mul 14 a = xtime a XOR xtime (xtime a) XOR xtime (xtime (xtime a))"
proof -
  have c: "gf_mul b a = gf_poly (Suc (Suc (Suc (Suc (Suc (Suc (Suc (Suc 0)))))))) a b" for b
    using gf_mul_commute[of b a] by (simp only: gf_mul_poly numeral_eq_Suc pred_numeral_simps BitM.simps)
  show "gf_mul 1 a = a" by (rule gf_mul_1_left)
  show "gf_mul 2 a = xtime a" by (rule gf_mul_2)
  show "gf_mul 3 a = a XOR xtime a" "gf_mul 9 a = a XOR xtime (xtime (xtime a))"
      "gf_mul 11 a = a XOR xtime a XOR xtime (xtime (xtime a))"
      "gf_mul 13 a = a XOR xtime (xtime a) XOR xtime (xtime (xtime a))"
      "gf_mul 14 a = xtime a XOR xtime (xtime a) XOR xtime (xtime (xtime a))"
    by (simp_all add: c bit_0)
qed

definition mix_byte :: "u8 list \<Rightarrow> (nat \<Rightarrow> u8) \<Rightarrow> nat \<Rightarrow> u8" where
  "mix_byte m col r = gf_mul (m ! 0) (col r) XOR gf_mul (m ! 1) (col ((r + 1) mod 4)) XOR
     gf_mul (m ! 2) (col ((r + 2) mod 4)) XOR gf_mul (m ! 3) (col ((r + 3) mod 4))"

lemma mix_columns_lane:
  "c < 4 \<Longrightarrow> r < 4 \<Longrightarrow> lane (4 * c + r) (mix_columns v m) = mix_byte m (\<lambda>k. lane (4 * c + k) v) r"
  by (simp add: mix_columns_def lane_join_8 Let_def mix_byte_def)

lemma mix_byte_cong: "(\<And>k. k < 4 \<Longrightarrow> f k = g k) \<Longrightarrow> r < 4 \<Longrightarrow> mix_byte m f r = mix_byte m g r"
  by (simp add: mix_byte_def)

lemmas mix_ac = numeral_2_eq_2[symmetric] numeral_3_eq_3[symmetric]
  xor.assoc[where 'a = u8] xor.commute[where 'a = u8] xor.left_commute[where 'a = u8]

lemma mix_byte_inverse:
  assumes "r < 4"
  shows "mix_byte [14, 11, 13, 9] (mix_byte [2, 3, 1, 1] col) r = col r"
    "mix_byte [2, 3, 1, 1] (mix_byte [14, 11, 13, 9] col) r = col r"
proof -
  have "r = 0 \<or> r = 1 \<or> r = 2 \<or> r = 3" using assms by auto
  then show "mix_byte [14, 11, 13, 9] (mix_byte [2, 3, 1, 1] col) r = col r"
    by (elim disjE) (simp_all add: mix_byte_def gf_mul_consts xtime_xor mix_ac)
  have "r = 0 \<or> r = 1 \<or> r = 2 \<or> r = 3" using assms by auto
  then show "mix_byte [2, 3, 1, 1] (mix_byte [14, 11, 13, 9] col) r = col r"
    by (elim disjE) (simp_all add: mix_byte_def gf_mul_consts xtime_xor mix_ac)
qed

lemma columns_eqI:
  assumes "\<And>c r. c < 4 \<Longrightarrow> r < 4 \<Longrightarrow> (lane (4 * c + r) v :: u8) = lane (4 * c + r) v'"
  shows "v = (v' :: u128)"
proof (rule lanes_eqI[where 'b = 8 and n = 16])
  fix i :: nat assume "i < 16"
  then have "i div 4 < 4" "i mod 4 < 4" by auto
  from assms[OF this] show "(lane i v :: u8) = lane i v'" by simp
qed simp

text \<open>
  AESIMC and AESMC are inverse to each other on every 128-bit state.
\<close>

theorem mix_columns_invert:
  "aesimc (aesmc n) = n \<and> aesmc (aesimc n) = n"
proof
  show "aesimc (aesmc n) = n"
    by (rule columns_eqI)
      (simp add: aesimc_def aesmc_def mix_columns_lane mix_byte_inverse cong: mix_byte_cong)
  show "aesmc (aesimc n) = n"
    by (rule columns_eqI)
      (simp add: aesimc_def aesmc_def mix_columns_lane mix_byte_inverse cong: mix_byte_cong)
qed

end
