(* ===== verification/Sha.thy ===== *)
theory Sha
  imports Lanes
begin

text \<open>
  The SHA-1, SHA-256 and SHA-512 instructions, the SHA-3 helpers and CRC32 of
  \<open>src/interp/crypto.rs\<close>. The reference definitions (prefix \<open>fips\<close>, \<open>crc_bit\<close>) are the
  rounds and message schedules of FIPS 180-4 and the bit-serial shift register of the CRC.
\<close>

section \<open>Instructions\<close>

text \<open>\<open>w\<close> of the source is \<open>word32\<close>; \<open>set_w\<close> returns the updated vector.\<close>

definition word32 :: "u128 \<Rightarrow> nat \<Rightarrow> u32" where
  "word32 v i = ucast (drop_bit (32 * i) v)"

definition set_w :: "u128 \<Rightarrow> nat \<Rightarrow> u32 \<Rightarrow> u128" where
  "set_w v i x = (let m = push_bit (32 * i) 0xFFFFFFFF in (v AND NOT m) OR push_bit (32 * i) (ucast x))"

definition choose32 :: "u32 \<Rightarrow> u32 \<Rightarrow> u32 \<Rightarrow> u32" where
  "choose32 x y z = ((y XOR z) AND x) XOR z"

definition majority :: "u32 \<Rightarrow> u32 \<Rightarrow> u32 \<Rightarrow> u32" where
  "majority x y z = (x AND y) OR ((x OR y) AND z)"

definition parity32 :: "u32 \<Rightarrow> u32 \<Rightarrow> u32 \<Rightarrow> u32" where
  "parity32 x y z = x XOR y XOR z"

text \<open>One iteration of the loop of \<open>sha1_hash\<close> on \<open>(x, y)\<close>.\<close>

definition sha1_step :: "nat \<Rightarrow> u128 \<Rightarrow> u128 \<times> u32 \<Rightarrow> nat \<Rightarrow> u128 \<times> u32" where
  "sha1_step kind m s e = (case s of (x, y) \<Rightarrow>
     let b = word32 x 1; c = word32 x 2; dd = word32 x 3;
         t = (if kind = 0 then choose32 b c dd else if kind = 1 then parity32 b c dd else majority b c dd);
         y = ((y + rotate_left (word32 x 0) 5) + t) + word32 m e;
         x = set_w x 1 (rotate_left (word32 x 1) 30);
         top = word32 x 3;
         x = push_bit 32 x OR ucast y
     in (x, top))"

definition sha1_hash :: "nat \<Rightarrow> u128 \<Rightarrow> u128 \<Rightarrow> u128 \<Rightarrow> u128" where
  "sha1_hash kind d n m = fst (foldl (sha1_step kind m) (d, word32 n 0) [0..<4])"

definition sha1su0 :: "u128 \<Rightarrow> u128 \<Rightarrow> u128 \<Rightarrow> u128" where
  "sha1su0 d n m = (let r = push_bit 64 (n AND 0xFFFFFFFFFFFFFFFF) OR drop_bit 64 d in r XOR d XOR m)"

definition sha1su1 :: "u128 \<Rightarrow> u128 \<Rightarrow> u128" where
  "sha1su1 d n = (let t = d XOR drop_bit 32 n;
     r = foldl (\<lambda>r i. set_w r i (rotate_left (word32 t i) 1)) 0 [0..<4];
     top = word32 r 3 XOR rotate_left (word32 t 0) 2
   in set_w r 3 top)"

definition sha1h :: "u128 \<Rightarrow> u128" where
  "sha1h n = ucast (rotate_left (word32 n 0) 30)"

definition sigma0 :: "u32 \<Rightarrow> u32" where
  "sigma0 x = rotate_right x 2 XOR rotate_right x 13 XOR rotate_right x 22"

definition sigma1 :: "u32 \<Rightarrow> u32" where
  "sigma1 x = rotate_right x 6 XOR rotate_right x 11 XOR rotate_right x 25"

definition sha256_step :: "u128 \<Rightarrow> u128 \<times> u128 \<Rightarrow> nat \<Rightarrow> u128 \<times> u128" where
  "sha256_step wk s e = (case s of (x, y) \<Rightarrow>
     let chs = choose32 (word32 y 0) (word32 y 1) (word32 y 2);
         maj = majority (word32 x 0) (word32 x 1) (word32 x 2);
         t = ((word32 y 3 + sigma1 (word32 y 0)) + chs) + word32 wk e;
         x3 = t + word32 x 3;
         x = set_w x 3 x3;
         y3 = (t + sigma0 (word32 x 0)) + maj;
         y = set_w y 3 y3;
         xt = word32 x 3;
         yt = word32 y 3
     in (push_bit 32 x OR ucast yt, push_bit 32 y OR ucast xt))"

definition sha256_hash :: "u128 \<Rightarrow> u128 \<Rightarrow> u128 \<Rightarrow> bool \<Rightarrow> u128" where
  "sha256_hash x y wk part1 = (case foldl (sha256_step wk) (x, y) [0..<4] of (x, y) \<Rightarrow> if part1 then x else y)"

definition sha256h :: "u128 \<Rightarrow> u128 \<Rightarrow> u128 \<Rightarrow> u128" where
  "sha256h d n m = sha256_hash d n m True"

definition sha256h2 :: "u128 \<Rightarrow> u128 \<Rightarrow> u128 \<Rightarrow> u128" where
  "sha256h2 d n m = sha256_hash n d m False"

definition sha256su0 :: "u128 \<Rightarrow> u128 \<Rightarrow> u128" where
  "sha256su0 d n = (let t = push_bit 96 (n AND 0xFFFFFFFF) OR drop_bit 32 d in
     foldl (\<lambda>r e. let elt = word32 t e;
                      elt = rotate_right elt 7 XOR rotate_right elt 18 XOR drop_bit 3 elt
                  in set_w r e (elt + word32 d e)) 0 [0..<4])"

definition sha256su1 :: "u128 \<Rightarrow> u128 \<Rightarrow> u128 \<Rightarrow> u128" where
  "sha256su1 d n m = (let t0 = push_bit 96 (m AND 0xFFFFFFFF) OR drop_bit 32 n in
     fst (foldl (\<lambda>(r, t1) e.
       let t1 = (if e = 2 then r AND 0xFFFFFFFFFFFFFFFF else t1);
           elt = word32 t1 (e mod 2);
           elt = rotate_right elt 17 XOR rotate_right elt 19 XOR drop_bit 10 elt
       in (set_w r e ((elt + word32 d e) + word32 t0 e), t1)) (0, drop_bit 64 m) [0..<4]))"

text \<open>\<open>lo\<close>, \<open>hi\<close> and \<open>q\<close> of the source.\<close>

definition lo64 :: "u128 \<Rightarrow> u64" where "lo64 v = ucast v"

definition hi64 :: "u128 \<Rightarrow> u64" where "hi64 v = ucast (drop_bit 64 v)"

definition quad :: "u64 \<Rightarrow> u64 \<Rightarrow> u128" where
  "quad h l = push_bit 64 (ucast h) OR ucast l"

definition sha512h :: "u128 \<Rightarrow> u128 \<Rightarrow> u128 \<Rightarrow> u128" where
  "sha512h d n m = (let x = n; y = m; wv = d;
     s1 = (\<lambda>v. rotate_right v 14 XOR rotate_right v 18 XOR rotate_right v 41);
     th = (hi64 y AND lo64 x) XOR (NOT (hi64 y) AND hi64 x);
     th = (th + s1 (hi64 y)) + hi64 wv;
     tmp = th + lo64 y;
     tl = (tmp AND hi64 y) XOR (NOT tmp AND lo64 x);
     tl = (tl + s1 tmp) + lo64 wv
   in quad th tl)"

definition sha512h2 :: "u128 \<Rightarrow> u128 \<Rightarrow> u128 \<Rightarrow> u128" where
  "sha512h2 d n m = (let x = n; y = m; wv = d;
     s0 = (\<lambda>v. rotate_right v 28 XOR rotate_right v 34 XOR rotate_right v 39);
     th = (lo64 x AND hi64 y) XOR (lo64 x AND lo64 y) XOR (hi64 y AND lo64 y);
     th = (th + s0 (lo64 y)) + hi64 wv;
     tl = (th AND lo64 y) XOR (th AND hi64 y) XOR (hi64 y AND lo64 y);
     tl = (tl + s0 th) + lo64 wv
   in quad th tl)"

definition sha512su0 :: "u128 \<Rightarrow> u128 \<Rightarrow> u128" where
  "sha512su0 d n = (let s0 = (\<lambda>v. rotate_right v 1 XOR rotate_right v 8 XOR drop_bit 7 v);
     l = lo64 d + s0 (hi64 d);
     h = hi64 d + s0 (lo64 n)
   in quad h l)"

definition sha512su1 :: "u128 \<Rightarrow> u128 \<Rightarrow> u128 \<Rightarrow> u128" where
  "sha512su1 d n m = (let s1 = (\<lambda>v. rotate_right v 19 XOR rotate_right v 61 XOR drop_bit 6 v);
     h = (hi64 d + s1 (hi64 n)) + hi64 m;
     l = (lo64 d + s1 (lo64 n)) + lo64 m
   in quad h l)"

definition rax1 :: "u128 \<Rightarrow> u128 \<Rightarrow> u128" where
  "rax1 n m = quad (hi64 n XOR rotate_left (hi64 m) 1) (lo64 n XOR rotate_left (lo64 m) 1)"

definition xar :: "u128 \<Rightarrow> u128 \<Rightarrow> u32 \<Rightarrow> u128" where
  "xar n m imm6 = (let t = n XOR m in quad (rotate_right (hi64 t) imm6) (rotate_right (lo64 t) imm6))"

definition crc_poly :: "bool \<Rightarrow> u32" where
  "crc_poly castagnoli = (if castagnoli then 0x82F63B78 else 0xEDB88320)"

definition crc_shift :: "u32 \<Rightarrow> u32 \<Rightarrow> u32" where
  "crc_shift poly crc = drop_bit 1 crc XOR (poly AND - (crc AND 1))"

definition crc_byte :: "u32 \<Rightarrow> u64 \<Rightarrow> u32 \<Rightarrow> nat \<Rightarrow> u32" where
  "crc_byte poly data crc i = (crc_shift poly ^^ 8) (crc XOR ucast (drop_bit (8 * i) data AND 0xFF))"

definition crc32 :: "u32 \<Rightarrow> u64 \<Rightarrow> nat \<Rightarrow> bool \<Rightarrow> u32" where
  "crc32 acc data bytes castagnoli = foldl (crc_byte (crc_poly castagnoli) data) acc [0..<bytes]"

section \<open>Vectors of four words\<close>

definition quad32 :: "u32 \<Rightarrow> u32 \<Rightarrow> u32 \<Rightarrow> u32 \<Rightarrow> u128" where
  "quad32 a b c d = join 4 (\<lambda>i. [a, b, c, d] ! i)"

lemma word32_lane: "word32 v i = lane i v"
  by (simp add: word32_def lane_def)

lemma lane_quad32: "i < 4 \<Longrightarrow> lane i (quad32 a b c d) = [a, b, c, d] ! i"
  unfolding quad32_def by (rule lane_join) simp_all

lemma word32_quad32 [simp]:
  "word32 (quad32 a b c d) 0 = a" "word32 (quad32 a b c d) 1 = b" "word32 (quad32 a b c d) (Suc 0) = b"
  "word32 (quad32 a b c d) 2 = c" "word32 (quad32 a b c d) 3 = d"
  by (simp_all add: word32_lane lane_quad32)

lemma all_less_4: "(\<forall>i < 4. P i) \<longleftrightarrow> P 0 \<and> P (Suc 0) \<and> P 2 \<and> P (3 :: nat)"
proof -
  have "(\<forall>i < Suc (Suc (Suc (Suc 0))). P i) \<longleftrightarrow> P 0 \<and> P (Suc 0) \<and> P (Suc (Suc 0)) \<and> P (Suc (Suc (Suc 0)))"
    by (auto simp: All_less_Suc)
  then show ?thesis by (simp add: numeral_eq_Suc)
qed

lemma quad32_eqI:
  assumes "lane 0 v = a" "lane (Suc 0) v = b" "lane 2 v = c" "lane 3 v = d"
  shows "v = quad32 a b c d"
proof (rule lanes_eqI[where 'b = 32 and n = 4])
  have l: "\<forall>i < 4. lane i v = (lane i (quad32 a b c d) :: u32)"
    unfolding all_less_4 by (simp only: assms lane_quad32) (simp add: lane_quad32)
  fix i :: nat assume "i < 4"
  with l show "(lane i v :: u32) = lane i (quad32 a b c d)" by blast
qed simp

lemma quad32_words: "v = quad32 (word32 v 0) (word32 v 1) (word32 v 2) (word32 v 3)"
  by (rule quad32_eqI) (simp_all add: word32_lane)

text \<open>Stated on integers: the simplifier reads the bits of a numeral there.\<close>

lemma mask32_bit: "bit (0xFFFFFFFF :: int) k \<longleftrightarrow> k < 32"
  using bit_mask_iff[of 32 k, where 'a = int] by (simp add: mask_eq_exp_minus_1)

lemma mask64_bit: "bit (0xFFFFFFFFFFFFFFFF :: int) k \<longleftrightarrow> k < 64"
  using bit_mask_iff[of 64 k, where 'a = int] by (simp add: mask_eq_exp_minus_1)

lemma lane_set_w: "i < 4 \<Longrightarrow> j < 4 \<Longrightarrow> lane j (set_w v i x) = (if i = j then x else lane j v)"
proof (rule word_eqI_bits)
  fix k assume i: "i < 4" "j < 4" and k: "k < LENGTH(32)"
  then have "32 * j + k < 128" by simp
  moreover have "32 * i \<le> 32 * j + k \<and> 32 * j + k - 32 * i < 32 \<longleftrightarrow> i = j"
    using k by auto
  moreover have "bit x (32 * j + k - 32 * i) \<Longrightarrow> 32 * j + k - 32 * i < 32"
    by (drule bit_imp_le_length) simp
  ultimately show "bit (lane j (set_w v i x) :: u32) k = bit (if i = j then x else lane j v) k"
    using k by (auto simp: set_w_def Let_def bit_lane bit_or_iff bit_and_iff bit_not_iff bit_push_bit_iff
        mask32_bit bit_ucast_iff)
qed

lemma set_w_quad32 [simp]:
  "set_w (quad32 a b c d) 0 x = quad32 x b c d" "set_w (quad32 a b c d) (Suc 0) x = quad32 a x c d"
  "set_w (quad32 a b c d) 1 x = quad32 a x c d"
  "set_w (quad32 a b c d) 2 x = quad32 a b x d" "set_w (quad32 a b c d) 3 x = quad32 a b c x"
  by (rule quad32_eqI; simp add: lane_set_w lane_quad32)+

lemma quad32_0: "0 = quad32 0 0 0 0"
  by (rule quad32_eqI) (simp_all add: lane_def)

lemma bit_quad32: "bit (quad32 a b c d) k \<longleftrightarrow> k < 128 \<and> bit ([a, b, c, d] ! (k div 32)) (k mod 32)"
  unfolding quad32_def by (subst bit_join) simp_all

lemma lane_push_in:
  "lane 0 (push_bit 32 v OR ucast (z :: u32) :: u128) = z"
  "i < 3 \<Longrightarrow> lane (Suc i) (push_bit 32 v OR ucast (z :: u32) :: u128) = (lane i v :: u32)"
proof -
  show "lane 0 (push_bit 32 v OR ucast z :: u128) = z"
    by (rule word_eqI_bits) (auto simp: bit_lane bit_or_iff bit_push_bit_iff bit_ucast_iff)
  assume i: "i < 3"
  have "\<not> bit z (32 + j)" for j using bit_imp_le_length[of z "32 + j"] by auto
  then show "lane (Suc i) (push_bit 32 v OR ucast z :: u128) = (lane i v :: u32)"
    using i by (intro word_eqI_bits) (simp add: bit_lane bit_or_iff bit_push_bit_iff bit_ucast_iff add.assoc)
qed

lemma quad32_push [simp]: "push_bit 32 (quad32 a b c d) OR ucast z = quad32 z a b c"
proof (rule quad32_eqI)
  show "lane 2 (push_bit 32 (quad32 a b c d) OR ucast z) = b"
    using lane_push_in(2)[of 1 "quad32 a b c d" z] by (simp add: lane_quad32 numeral_2_eq_2)
  show "lane 3 (push_bit 32 (quad32 a b c d) OR ucast z) = c"
    using lane_push_in(2)[of 2 "quad32 a b c d" z] by (simp add: lane_quad32 numeral_3_eq_3)
qed (simp_all add: lane_push_in lane_quad32)

section \<open>Rounds of FIPS 180-4\<close>

definition fips_ch :: "'a::len word \<Rightarrow> 'a word \<Rightarrow> 'a word \<Rightarrow> 'a word" where
  "fips_ch x y z = (x AND y) XOR (NOT x AND z)"

definition fips_maj :: "'a::len word \<Rightarrow> 'a word \<Rightarrow> 'a word \<Rightarrow> 'a word" where
  "fips_maj x y z = (x AND y) XOR (x AND z) XOR (y AND z)"

definition fips_parity :: "'a::len word \<Rightarrow> 'a word \<Rightarrow> 'a word \<Rightarrow> 'a word" where
  "fips_parity x y z = x XOR y XOR z"

lemma choose32_fips: "choose32 = fips_ch"
  by (intro ext word_eqI_bits) (auto simp: choose32_def fips_ch_def bit_simps)

lemma majority_fips: "majority = fips_maj"
  by (intro ext word_eqI_bits) (auto simp: majority_def fips_maj_def bit_simps)

lemma upt_4: "[0..<4] = [0, Suc 0, 2, 3]"
  by (simp add: upt_rec)

type_synonym sha256_state = "u32 \<times> u32 \<times> u32 \<times> u32 \<times> u32 \<times> u32 \<times> u32 \<times> u32"

fun fips256_round :: "sha256_state \<Rightarrow> u32 \<Rightarrow> sha256_state" where
  "fips256_round (a, b, c, d, e, f, g, h) kw =
     (let t1 = h + (rotate_right e 6 XOR rotate_right e 11 XOR rotate_right e 25) + fips_ch e f g + kw;
          t2 = (rotate_right a 2 XOR rotate_right a 13 XOR rotate_right a 22) + fips_maj a b c
      in (t1 + t2, a, b, c, d + t1, e, f, g))"

fun pack256 :: "sha256_state \<Rightarrow> u128 \<times> u128" where
  "pack256 (a, b, c, d, e, f, g, h) = (quad32 a b c d, quad32 e f g h)"

lemma sha256_step_fips:
  "sha256_step wk (pack256 s) e = pack256 (fips256_round s (word32 wk e))"
  by (induction s rule: pack256.induct)
    (simp add: sha256_step_def Let_def choose32_fips majority_fips sigma0_def sigma1_def
      add.assoc add.commute add.left_commute)

text \<open>
  C35. SHA256H and SHA256H2 together are four rounds of FIPS 180-4 SHA-256.
\<close>

theorem sha256_four_rounds:
  "pack256 (foldl fips256_round s [k0, k1, k2, k3]) =
     (case pack256 s of (x, y) \<Rightarrow>
        (sha256h x y (quad32 k0 k1 k2 k3), sha256h2 y x (quad32 k0 k1 k2 k3)))"
proof -
  have "foldl (sha256_step (quad32 k0 k1 k2 k3)) (pack256 s) [0..<4] =
      pack256 (foldl fips256_round s [k0, k1, k2, k3])"
    by (simp add: upt_4 sha256_step_fips)
  then show ?thesis
    by (cases "pack256 s") (simp add: sha256h_def sha256h2_def sha256_hash_def split: prod.split)
qed

definition fips256_s0 :: "u32 \<Rightarrow> u32" where
  "fips256_s0 x = rotate_right x 7 XOR rotate_right x 18 XOR drop_bit 3 x"

definition fips256_s1 :: "u32 \<Rightarrow> u32" where
  "fips256_s1 x = rotate_right x 17 XOR rotate_right x 19 XOR drop_bit 10 x"

text \<open>\<open>W\<^sub>t\<close> from \<open>W\<^sub>t\<^sub>-\<^sub>1\<^sub>6\<close>, \<open>W\<^sub>t\<^sub>-\<^sub>1\<^sub>5\<close>, \<open>W\<^sub>t\<^sub>-\<^sub>7\<close> and \<open>W\<^sub>t\<^sub>-\<^sub>2\<close>.\<close>

definition fips256_expand :: "u32 \<Rightarrow> u32 \<Rightarrow> u32 \<Rightarrow> u32 \<Rightarrow> u32" where
  "fips256_expand w16 w15 w7 w2 = fips256_s1 w2 + w7 + fips256_s0 w15 + w16"

lemma word32_ucast: "word32 (ucast x) 0 = x"
  by (rule word_eqI_bits) (simp add: word32_def bit_ucast_iff)

lemma lane_drop: "(lane i (drop_bit (32 * j) (v :: u128)) :: u32) = lane (i + j) v"
  by (rule word_eqI_bits) (simp add: bit_lane bit_drop_bit_eq distrib_left add.assoc add.left_commute)

lemma lane_push: "i < 4 \<Longrightarrow> (lane i (push_bit (32 * j) (v :: u128)) :: u32) = (if j \<le> i then lane (i - j) v else 0)"
proof (rule word_eqI_bits)
  fix k assume i: "i < 4" and k: "k < LENGTH(32)"
  have le: "32 * j \<le> 32 * i + k \<longleftrightarrow> j \<le> i" using k by auto
  have "32 * i + k - 32 * j = 32 * (i - j) + k" if "j \<le> i" using that by (simp add: diff_mult_distrib2)
  then show "bit (lane i (push_bit (32 * j) v) :: u32) k = bit (if j \<le> i then lane (i - j) v else 0 :: u32) k"
    using i k le by (simp add: bit_lane bit_push_bit_iff)
qed

lemma lane_low32: "(lane i (v AND 0xFFFFFFFF :: u128) :: u32) = (if i = 0 then lane 0 v else 0)"
  by (rule word_eqI_bits) (auto simp: bit_lane bit_and_iff mask32_bit dest: bit_imp_le_length)

lemma lane_low64: "(lane i (v AND 0xFFFFFFFFFFFFFFFF :: u128) :: u32) = (if i < 2 then lane i v else 0)"
  by (rule word_eqI_bits) (auto simp: bit_lane bit_and_iff mask64_bit dest: bit_imp_le_length)

lemma lane_logic:
  "(lane i (v OR v') :: u32) = lane i v OR lane i v'" "(lane i (v XOR v') :: u32) = lane i v XOR lane i v'"
  for v v' :: u128
  by (rule word_eqI_bits; auto simp: bit_lane bit_or_iff bit_xor_iff)+

lemma lane_high: "4 \<le> i \<Longrightarrow> (lane i (v :: u128) :: u32) = 0"
  by (rule word_eqI_bits) (auto simp: bit_lane dest: bit_imp_le_length)

lemmas lane_shifts = lane_drop[where j = 1, simplified] lane_drop[where j = 2, simplified]
  lane_push[where j = 2, simplified] lane_push[where j = 3, simplified]
  lane_low32 lane_low64 lane_logic lane_high lane_quad32

lemma word_shifts:
  "push_bit 96 (quad32 e f g h AND 0xFFFFFFFF) OR drop_bit 32 (quad32 a b c d) = quad32 b c d e"
  "push_bit 64 (quad32 e f g h AND 0xFFFFFFFFFFFFFFFF) OR drop_bit 64 (quad32 a b c d) = quad32 c d e f"
  "drop_bit 32 (quad32 a b c d) = quad32 b c d 0"
  "drop_bit 64 (quad32 a b c d) = quad32 c d 0 0"
  "quad32 a b c d AND 0xFFFFFFFFFFFFFFFF = quad32 a b 0 0"
  "quad32 a b c d XOR quad32 e f g h = quad32 (a XOR e) (b XOR f) (c XOR g) (d XOR h)"
  by (rule quad32_eqI; simp add: lane_shifts numeral_2_eq_2[symmetric] numeral_3_eq_3[symmetric]
      del: push_bit_and)+

text \<open>The message schedule: four new words from the last sixteen.\<close>

lemma sha256su0_words:
  "sha256su0 (quad32 w0 w1 w2 w3) (quad32 w4 w5 w6 w7) =
     quad32 (fips256_s0 w1 + w0) (fips256_s0 w2 + w1) (fips256_s0 w3 + w2) (fips256_s0 w4 + w3)"
  unfolding sha256su0_def word_shifts(1)
  by (simp add: upt_4 word_shifts quad32_0 fips256_s0_def Let_def del: push_bit_and)

lemma sha256su1_words:
  "sha256su1 (quad32 a b c d) (quad32 w8 w9 w10 w11) (quad32 w12 w13 w14 w15) =
     (let x = (fips256_s1 w14 + a) + w9; y = (fips256_s1 w15 + b) + w10
      in quad32 x y ((fips256_s1 x + c) + w11) ((fips256_s1 y + d) + w12))"
  unfolding sha256su1_def word_shifts(1)
  by (simp add: upt_4 word_shifts quad32_0 fips256_s1_def Let_def del: push_bit_and)

lemma fips256_expand_order: "(fips256_s1 w2 + (fips256_s0 w15 + w16)) + w7 = fips256_expand w16 w15 w7 w2"
  by (simp add: fips256_expand_def)

text \<open>
  SHA256SU0 followed by SHA256SU1 computes the next four words of the SHA-256 message
  schedule.
\<close>

theorem sha256_schedule:
  "sha256su1 (sha256su0 (quad32 w0 w1 w2 w3) (quad32 w4 w5 w6 w7)) (quad32 w8 w9 w10 w11) (quad32 w12 w13 w14 w15) =
     (let w16 = fips256_expand w0 w1 w9 w14; w17 = fips256_expand w1 w2 w10 w15;
          w18 = fips256_expand w2 w3 w11 w16; w19 = fips256_expand w3 w4 w12 w17
      in quad32 w16 w17 w18 w19)"
  unfolding sha256su0_words sha256su1_words Let_def fips256_expand_order ..

section \<open>SHA-1\<close>

type_synonym sha1_state = "u32 \<times> u32 \<times> u32 \<times> u32 \<times> u32"

fun fips1_round :: "(u32 \<Rightarrow> u32 \<Rightarrow> u32 \<Rightarrow> u32) \<Rightarrow> sha1_state \<Rightarrow> u32 \<Rightarrow> sha1_state" where
  "fips1_round f (a, b, c, d, e) kw = (rotate_left a 5 + f b c d + e + kw, a, rotate_left b 30, c, d)"

definition fips1_f :: "nat \<Rightarrow> u32 \<Rightarrow> u32 \<Rightarrow> u32 \<Rightarrow> u32" where
  "fips1_f kind = (if kind = 0 then fips_ch else if kind = 1 then fips_parity else fips_maj)"

fun pack1 :: "sha1_state \<Rightarrow> u128 \<times> u32" where
  "pack1 (a, b, c, d, e) = (quad32 a b c d, e)"

lemma sha1_step_fips:
  "sha1_step kind m (pack1 s) i = pack1 (fips1_round (fips1_f kind) s (word32 m i))"
  by (induction s rule: pack1.induct)
    (simp add: sha1_step_def Let_def choose32_fips majority_fips fips1_f_def fips_parity_def parity32_def
      add.assoc add.commute add.left_commute)

text \<open>
  SHA1C, SHA1P and SHA1M are four rounds of FIPS 180-4 SHA-1, and SHA1H gives the fifth
  word.
\<close>

theorem sha1_four_rounds:
  "pack1 (foldl (fips1_round (fips1_f kind)) (a, b, c, d, e) [k0, k1, k2, k3]) =
     (sha1_hash kind (quad32 a b c d) (quad32 e x y z) (quad32 k0 k1 k2 k3), word32 (sha1h (quad32 a b c d)) 0)"
proof -
  let ?s = "foldl (fips1_round (fips1_f kind)) (a, b, c, d, e) [k0, k1, k2, k3]"
  have "foldl (sha1_step kind (quad32 k0 k1 k2 k3)) (pack1 (a, b, c, d, e)) [0..<4] = pack1 ?s"
    by (simp add: upt_4 sha1_step_fips del: pack1.simps fips1_round.simps)
  then have "sha1_hash kind (quad32 a b c d) (quad32 e x y z) (quad32 k0 k1 k2 k3) = fst (pack1 ?s)"
    by (simp add: sha1_hash_def)
  moreover have "snd (pack1 ?s) = word32 (sha1h (quad32 a b c d)) 0"
    using word32_ucast[of "rotate_left a 30"] by (simp add: sha1h_def)
  ultimately show ?thesis by (metis prod.collapse)
qed

definition fips1_expand :: "u32 \<Rightarrow> u32 \<Rightarrow> u32 \<Rightarrow> u32 \<Rightarrow> u32" where
  "fips1_expand w16 w14 w8 w3 = rotate_left (w3 XOR w8 XOR w14 XOR w16) 1"

lemma rotate_left_xor: "rotate_left (x XOR y) n = rotate_left x n XOR (rotate_left y n :: 'a::len word)"
  by (rule word_eqI_bits) (simp add: rotate_left_def bit_word_rotl_iff bit_xor_iff)

text \<open>
  SHA1SU0 followed by SHA1SU1 computes the next four words of the SHA-1 message
  schedule.
\<close>

theorem sha1_schedule:
  "sha1su1 (sha1su0 (quad32 w0 w1 w2 w3) (quad32 w4 w5 w6 w7) (quad32 w8 w9 w10 w11)) (quad32 w12 w13 w14 w15) =
     (let w16 = fips1_expand w0 w2 w8 w13; w17 = fips1_expand w1 w3 w9 w14;
          w18 = fips1_expand w2 w4 w10 w15; w19 = fips1_expand w3 w5 w11 w16
      in quad32 w16 w17 w18 w19)"
proof -
  have r2: "rotate_left x 2 = rotate_left (rotate_left x 1) (1 :: u32)" for x :: u32
  proof (rule word_eqI_bits)
    fix k assume "k < LENGTH(32)"
    moreover have m: "(62 + k) mod 32 = (k + 30) mod 32"
      using mod_add_self2[of "k + 30" 32] by (simp add: add.commute)
    ultimately show "bit (rotate_left x 2) k = bit (rotate_left (rotate_left x 1) (1 :: u32)) k"
      using m by (simp add: rotate_left_def bit_word_rotl_iff mod_simps)
  qed
  show ?thesis
    unfolding sha1su0_def sha1su1_def word_shifts(2)
    by (simp add: upt_4 word_shifts quad32_0 fips1_expand_def Let_def r2 rotate_left_xor
        xor.assoc xor.commute xor.left_commute del: push_bit_and)
qed

section \<open>SHA-512\<close>

lemma lo64_quad [simp]: "lo64 (quad h l) = l"
  by (rule word_eqI_bits) (auto simp: lo64_def quad_def bit_simps)

lemma hi64_quad [simp]: "hi64 (quad h l) = h"
  by (rule word_eqI_bits) (auto simp: hi64_def quad_def bit_simps dest: bit_imp_le_length)

type_synonym sha512_state = "u64 \<times> u64 \<times> u64 \<times> u64 \<times> u64 \<times> u64 \<times> u64 \<times> u64"

definition fips512_t1 :: "u64 \<Rightarrow> u64 \<Rightarrow> u64 \<Rightarrow> u64 \<Rightarrow> u64 \<Rightarrow> u64" where
  "fips512_t1 e f g h kw = h + (rotate_right e 14 XOR rotate_right e 18 XOR rotate_right e 41) + fips_ch e f g + kw"

definition fips512_t2 :: "u64 \<Rightarrow> u64 \<Rightarrow> u64 \<Rightarrow> u64" where
  "fips512_t2 a b c = (rotate_right a 28 XOR rotate_right a 34 XOR rotate_right a 39) + fips_maj a b c"

fun fips512_round :: "sha512_state \<Rightarrow> u64 \<Rightarrow> sha512_state" where
  "fips512_round (a, b, c, d, e, f, g, h) kw =
     (fips512_t1 e f g h kw + fips512_t2 a b c, a, b, c, d + fips512_t1 e f g h kw, e, f, g)"

text \<open>
  Two rounds: \<open>SHA512H\<close> yields the two values \<open>T\<^sub>1\<close>, \<open>SHA512H2\<close> the two new words \<open>a\<close>; the two
  new words \<open>e\<close> are vector sums of the first result and \<open>(d, c)\<close>.
\<close>

theorem sha512_two_rounds:
  "foldl fips512_round (a, b, c, d, e, f, g, h) [k0, k1] =
     (let t = sha512h (quad (h + k0) (g + k1)) (quad g f) (quad e d);
          r = sha512h2 t (quad x c) (quad b a)
      in (lo64 r, hi64 r, a, b, c + lo64 t, d + hi64 t, e, f))"
proof -
  have maj: "(c AND b) XOR (c AND a) XOR (b AND a) = fips_maj a b c" for a b c :: u64
    by (rule word_eqI_bits) (auto simp: fips_maj_def bit_simps)
  have maj': "(z AND a) XOR (z AND b) XOR (b AND a) = fips_maj z a b" for a b z :: u64
    by (rule word_eqI_bits) (auto simp: fips_maj_def bit_simps)
  let ?t = "sha512h (quad (h + k0) (g + k1)) (quad g f) (quad e d)"
  have hi: "hi64 ?t = fips512_t1 e f g h k0"
    by (simp add: sha512h_def Let_def fips512_t1_def fips_ch_def add.assoc add.left_commute)
  have lo: "lo64 ?t = fips512_t1 (d + fips512_t1 e f g h k0) e f g k1"
    by (simp add: sha512h_def Let_def fips512_t1_def fips_ch_def add.assoc add.left_commute add.commute)
  have "sha512h2 ?t (quad x c) (quad b a) =
      quad (hi64 ?t + fips512_t2 a b c) (lo64 ?t + fips512_t2 (hi64 ?t + fips512_t2 a b c) a b)"
    by (simp add: sha512h2_def Let_def maj maj' fips512_t2_def add.assoc add.left_commute add.commute)
  then show ?thesis by (simp add: hi lo add.commute)
qed

definition fips512_expand :: "u64 \<Rightarrow> u64 \<Rightarrow> u64 \<Rightarrow> u64 \<Rightarrow> u64" where
  "fips512_expand w16 w15 w7 w2 =
     (rotate_right w2 19 XOR rotate_right w2 61 XOR drop_bit 6 w2) + w7 +
     (rotate_right w15 1 XOR rotate_right w15 8 XOR drop_bit 7 w15) + w16"

text \<open>
  SHA512SU0 followed by SHA512SU1 computes the next two words of the SHA-512 message
  schedule.
\<close>

theorem sha512_schedule:
  "sha512su1 (sha512su0 (quad w1 w0) (quad w3 w2)) (quad w15 w14) (quad w10 w9) =
     quad (fips512_expand w1 w2 w10 w15) (fips512_expand w0 w1 w9 w14)"
  by (simp add: sha512su0_def sha512su1_def fips512_expand_def Let_def add.assoc add.left_commute add.commute)

section \<open>CRC\<close>

text \<open>The shift register fed one bit at a time.\<close>

definition crc_bit :: "u32 \<Rightarrow> u32 \<Rightarrow> bool \<Rightarrow> u32" where
  "crc_bit poly crc b = (if bit crc 0 \<noteq> b then drop_bit 1 crc XOR poly else drop_bit 1 crc)"

lemma crc_shift_if: "crc_shift poly crc = (if bit crc 0 then drop_bit 1 crc XOR poly else drop_bit 1 crc)"
proof -
  have "crc AND 1 = of_bool (bit crc 0)" by (simp add: and_one_eq bit_0 mod2_eq_if)
  then show ?thesis unfolding crc_shift_def by simp
qed

text \<open>Feeding the bits of a byte that is already in the register is the same as shifting it out.\<close>

lemma crc_shift_bits:
  assumes "n \<le> 8"
  shows "(crc_shift poly ^^ n) (crc XOR take_bit n x) = foldl (crc_bit poly) crc (map (bit x) [0..<n])"
  using assms
proof (induction n arbitrary: crc x)
  case (Suc n)
  have t: "drop_bit 1 (take_bit (Suc n) x) = take_bit n (drop_bit 1 x)"
    by (rule word_eqI_bits) (auto simp: bit_simps)
  have "crc_shift poly (crc XOR take_bit (Suc n) x) = crc_bit poly crc (bit x 0) XOR take_bit n (drop_bit 1 x)"
    by (auto simp: crc_shift_if crc_bit_def drop_bit_xor t[simplified] bit_xor_iff bit_take_bit_iff
        xor.assoc xor.commute xor.left_commute)
  then have "(crc_shift poly ^^ Suc n) (crc XOR take_bit (Suc n) x) =
      foldl (crc_bit poly) (crc_bit poly crc (bit x 0)) (map (bit (drop_bit 1 x)) [0..<n])"
    using Suc by (simp add: funpow_swap1)
  moreover have "map (bit x) [0..<Suc n] = bit x 0 # map (bit (drop_bit 1 x)) [0..<n]"
    by (simp add: upt_conv_Cons map_Suc_upt[symmetric] bit_drop_bit_eq comp_def del: upt_Suc)
  ultimately show ?case by (simp del: upt_Suc)
qed simp

lemma upt_add_map: "[0..<m + n] = [0..<m] @ map (\<lambda>k. m + k) [0..<n]"
proof -
  have "map (\<lambda>k. m + k) [0..<n] = [m..<m + n]" using map_add_upt[of m n] by (simp add: add.commute)
  then show ?thesis using upt_add_eq_append[of 0 m n] by simp
qed

text \<open>
  C36. CRC32 and CRC32C are the bit-serial shift register fed with the bits of the data,
  least significant first.
\<close>

theorem crc32_bit_serial:
  "crc32 acc data n castagnoli = foldl (crc_bit (crc_poly castagnoli)) acc (map (bit data) [0..<8 * n])"
proof (induction n)
  case (Suc n)
  let ?p = "crc_poly castagnoli" and ?x = "ucast (drop_bit (8 * n) data) :: u32"
  have ff: "(ucast (drop_bit (8 * n) data AND 0xFF) :: u32) = take_bit 8 ?x"
  proof -
    have "(0xFF :: u64) = mask 8" by (simp add: mask_eq_exp_minus_1)
    then have "drop_bit (8 * n) data AND 0xFF = take_bit 8 (drop_bit (8 * n) data)"
      by (simp only: take_bit_eq_mask)
    then show ?thesis by (intro word_eqI_bits) (auto simp: bit_simps)
  qed
  have "[0..<8 * Suc n] = [0..<8 * n] @ map (\<lambda>k. 8 * n + k) [0..<8]"
    using upt_add_map[of "8 * n" 8] by (simp add: add.commute)
  then have bits: "map (bit data) [0..<8 * Suc n] = map (bit data) [0..<8 * n] @ map (bit ?x) [0..<8]"
    by (simp only: map_append map_map comp_def) (auto simp: bit_simps)
  show ?case
    unfolding bits foldl_append crc_shift_bits[of 8 ?p _ ?x, OF order_refl, symmetric]
    using Suc by (simp add: crc32_def crc_byte_def ff)
qed (simp add: crc32_def)

text \<open>
  The checksum of m + n bytes is the checksum of the last n bytes started from the
  checksum of the first m.
\<close>

theorem crc32_concat:
  "crc32 acc data (m + n) c = crc32 (crc32 acc data m c) (drop_bit (8 * m) data) n c"
proof -
  have "[0..<8 * (m + n)] = [0..<8 * m] @ map (\<lambda>k. 8 * m + k) [0..<8 * n]"
    by (simp add: distrib_left upt_add_map)
  then show ?thesis
    unfolding crc32_bit_serial by (simp add: comp_def bit_drop_bit_eq)
qed

lemma crc_bits_xor:
  "length xs = length ys \<Longrightarrow>
   foldl (crc_bit p) (a XOR b) (map2 (\<noteq>) xs ys) = foldl (crc_bit p) a xs XOR foldl (crc_bit p) b ys"
proof (induction xs ys arbitrary: a b rule: list_induct2)
  case (Cons x xs y ys)
  have "crc_bit p (a XOR b) (x \<noteq> y) = crc_bit p a x XOR crc_bit p b y"
    by (auto simp: crc_bit_def drop_bit_xor bit_xor_iff xor.assoc xor.commute xor.left_commute)
  then show ?case using Cons by simp
qed simp

theorem crc32_linear:
  "crc32 (a XOR b) (x XOR y) n c = crc32 a x n c XOR crc32 b y n c"
proof -
  have "map2 (\<noteq>) (map (bit x) [0..<8 * n]) (map (bit y) [0..<8 * n]) = map (bit (x XOR y)) [0..<8 * n]"
    by (simp add: map2_map_map bit_xor_iff fun_eq_iff)
  then show ?thesis
    using crc_bits_xor[of "map (bit x) [0..<8 * n]" "map (bit y) [0..<8 * n]" "crc_poly c" a b]
    unfolding crc32_bit_serial by simp
qed

end
