(* ===== verification/Atomic.thy ===== *)
theory Atomic
  imports Lanes
begin

text \<open>
  Guest atomics, \<open>src/jit/atomic.rs\<close>: the operations, the value an access stores, the host
  access at each width on a byte memory, and the 128-bit compare-exchange loop as a step
  relation in which other threads write the cell between any two of its iterations.
\<close>

section \<open>Operations and the stored value\<close>

datatype atomic_op = Add | Clr | Eor | SetBits | Smax | Smin | Umax | Umin | Swp | Cas

definition from_u8 :: "u8 \<Rightarrow> atomic_op option" where
  "from_u8 v =
     (if v = 0 then Some Add else if v = 1 then Some Clr else if v = 2 then Some Eor
      else if v = 3 then Some SetBits else if v = 4 then Some Smax else if v = 5 then Some Smin
      else if v = 6 then Some Umax else if v = 7 then Some Umin else if v = 8 then Some Swp
      else if v = 9 then Some Cas else None)"

primrec op_code :: "atomic_op \<Rightarrow> u8" where
  "op_code Add = 0" | "op_code Clr = 1" | "op_code Eor = 2" | "op_code SetBits = 3"
| "op_code Smax = 4" | "op_code Smin = 5" | "op_code Umax = 6" | "op_code Umin = 7"
| "op_code Swp = 8" | "op_code Cas = 9"

definition size_mask :: "nat \<Rightarrow> u128" where
  "size_mask sz = (if sz \<ge> 16 then - 1 else push_bit (sz * 8) 1 - 1)"

definition sext :: "u128 \<Rightarrow> nat \<Rightarrow> u128" where
  "sext v sz = (let shift = 128 - sz * 8 in signed_drop_bit shift (push_bit shift v))"

definition atomic_apply :: "atomic_op \<Rightarrow> nat \<Rightarrow> u128 \<Rightarrow> u128 \<Rightarrow> u128 \<Rightarrow> u128 option" where
  "atomic_apply op sz old operand expected =
     (let m = size_mask sz; old = old AND m; operand = operand AND m; expected = expected AND m;
          new = (case op of
              Add \<Rightarrow> Some (old + operand)
            | Clr \<Rightarrow> Some (old AND NOT operand)
            | Eor \<Rightarrow> Some (old XOR operand)
            | SetBits \<Rightarrow> Some (old OR operand)
            | Smax \<Rightarrow> Some (if sint (sext old sz) \<ge> sint (sext operand sz) then old else operand)
            | Smin \<Rightarrow> Some (if sint (sext old sz) \<le> sint (sext operand sz) then old else operand)
            | Umax \<Rightarrow> Some (max old operand)
            | Umin \<Rightarrow> Some (min old operand)
            | Swp \<Rightarrow> Some operand
            | Cas \<Rightarrow> if old = expected then Some operand else None)
      in map_option (\<lambda>n. n AND m) new)"

section \<open>Host accesses\<close>

type_synonym byte_memory = "u64 \<Rightarrow> u8"

text \<open>The access of the little-endian cell of width \<open>'a\<close> at \<open>p\<close>.\<close>

definition load_le :: "nat \<Rightarrow> byte_memory \<Rightarrow> u64 \<Rightarrow> 'a::len word" where
  "load_le n mem p = join n (\<lambda>i. mem (p + of_nat i))"

definition store_le :: "nat \<Rightarrow> byte_memory \<Rightarrow> u64 \<Rightarrow> 'a::len word \<Rightarrow> byte_memory" where
  "store_le n mem p v = (\<lambda>a. if unat (a - p) < n then lane (unat (a - p)) v else mem a)"

text \<open>The macro \<open>rmw_int\<close>: the old value and the new content of the cell, by the atomic
  operations of \<open>core::sync::atomic\<close>.\<close>

definition rmw_int :: "atomic_op \<Rightarrow> 'a::len word \<Rightarrow> u128 \<Rightarrow> u128 \<Rightarrow> u128 \<times> 'a word" where
  "rmw_int op a operand expected =
     (let v = ucast operand;
          new = (case op of
              Add \<Rightarrow> a + v
            | Clr \<Rightarrow> a AND NOT v
            | Eor \<Rightarrow> a XOR v
            | SetBits \<Rightarrow> a OR v
            | Umax \<Rightarrow> max a v
            | Umin \<Rightarrow> min a v
            | Smax \<Rightarrow> if sint a \<ge> sint v then a else v
            | Smin \<Rightarrow> if sint a \<le> sint v then a else v
            | Swp \<Rightarrow> v
            | Cas \<Rightarrow> if a = ucast expected then v else a)
      in (ucast a, new))"

definition cmpxchg16b :: "u128 \<Rightarrow> u128 \<Rightarrow> u128 \<Rightarrow> (bool \<times> u128) \<times> u128" where
  "cmpxchg16b cell expected new = (if cell = expected then ((True, expected), new) else ((False, cell), cell))"

text \<open>One iteration of the loop of \<open>rmw_128\<close>: \<open>Inl cur\<close> to go on, \<open>Inr old\<close> to return.\<close>

definition rmw_128_iteration ::
    "atomic_op \<Rightarrow> u128 \<Rightarrow> u128 \<Rightarrow> u128 \<Rightarrow> u128 \<Rightarrow> (u128 + u128) \<times> u128" where
  "rmw_128_iteration op operand expected cur cell =
     (let target = (case atomic_apply op 16 cur operand expected of None \<Rightarrow> cur | Some new \<Rightarrow> new)
      in case cmpxchg16b cell cur target of
           ((ok, seen), cell) \<Rightarrow> (if ok then Inr cur else Inl seen, cell))"

partial_function (option) rmw_128 ::
    "atomic_op \<Rightarrow> u128 \<Rightarrow> u128 \<Rightarrow> u128 \<Rightarrow> u128 \<Rightarrow> (u128 \<times> u128) option" where
  "rmw_128 op operand expected cur cell =
     (case rmw_128_iteration op operand expected cur cell of
        (Inr old, cell) \<Rightarrow> Some (old, cell)
      | (Inl seen, cell) \<Rightarrow> rmw_128 op operand expected seen cell)"

definition fallback :: "byte_memory \<Rightarrow> u64 \<Rightarrow> nat \<Rightarrow> atomic_op \<Rightarrow> u128 \<Rightarrow> u128 \<Rightarrow> u128 \<times> byte_memory" where
  "fallback mem p sz op operand expected =
     (let n = min sz 16; old = load_le n mem p
      in (old, case atomic_apply op sz old operand expected of
                 Some new \<Rightarrow> store_le n mem p new
               | None \<Rightarrow> mem))"

definition host_atomic ::
    "bool \<Rightarrow> byte_memory \<Rightarrow> u64 \<Rightarrow> nat \<Rightarrow> atomic_op \<Rightarrow> u128 \<Rightarrow> u128 \<Rightarrow> (u128 \<times> byte_memory) option" where
  "host_atomic cx16 mem p sz op operand expected =
     (let aligned = (p AND (of_nat (max sz 1) - 1) = 0) in
      if aligned \<and> sz = 1 then
        (case rmw_int op (load_le 1 mem p :: u8) operand expected of (old, v) \<Rightarrow> Some (old, store_le 1 mem p v))
      else if aligned \<and> sz = 2 then
        (case rmw_int op (load_le 2 mem p :: u16) operand expected of (old, v) \<Rightarrow> Some (old, store_le 2 mem p v))
      else if aligned \<and> sz = 4 then
        (case rmw_int op (load_le 4 mem p :: u32) operand expected of (old, v) \<Rightarrow> Some (old, store_le 4 mem p v))
      else if aligned \<and> sz = 8 then
        (case rmw_int op (load_le 8 mem p :: u64) operand expected of (old, v) \<Rightarrow> Some (old, store_le 8 mem p v))
      else if aligned \<and> sz = 16 \<and> cx16 then
        map_option (\<lambda>(old, v). (old, store_le 16 mem p v))
          (rmw_128 op operand expected (load_le 16 mem p) (load_le 16 mem p))
      else Some (fallback mem p sz op operand expected))"

section \<open>Cells\<close>

lemma size_mask_bit: "bit (size_mask n) k \<longleftrightarrow> k < 128 \<and> k < n * 8"
proof -
  have "size_mask n = mask (n * 8)" if "\<not> 16 \<le> n" using that by (simp add: size_mask_def mask_eq_exp_minus_1 push_bit_eq_mult)
  then show ?thesis by (cases "16 \<le> n") (auto simp: size_mask_def bit_mask_iff)
qed

lemma ucast_mask:
  "LENGTH('a) = n * 8 \<Longrightarrow> n \<le> 16 \<Longrightarrow> ucast (ucast v :: 'a::len word) = v AND size_mask n"
  by (rule word_eqI_bits) (auto simp: bit_simps size_mask_bit)

lemma mask_ucast:
  "LENGTH('a) = n * 8 \<Longrightarrow> n \<le> 16 \<Longrightarrow> ucast (x :: 'a::len word) AND size_mask n = ucast x"
  by (rule word_eqI_bits) (auto simp: bit_simps size_mask_bit dest: bit_imp_le_length)

lemma sint_sext:
  assumes "LENGTH('a) = n * 8" "n \<le> 16"
  shows "sint (sext (ucast (x :: 'a::len word)) n) = sint x"
proof (rule bit_eqI)
  fix k
  let ?b = "\<lambda>j. bit (push_bit (128 - n * 8) (ucast x :: u128)) j"
  have b: "?b j \<longleftrightarrow> 128 - n * 8 \<le> j \<and> j < 128 \<and> bit x (j - (128 - n * 8))" for j
    by (auto simp: bit_push_bit_iff bit_ucast_iff)
  have n0: "0 < n * 8" using assms(1) by (metis len_gt_0)
  have top: "bit (sext (ucast x) n) 127 \<longleftrightarrow> bit x (n * 8 - 1)"
    using n0 assms by (auto simp: sext_def Let_def bit_signed_drop_bit_iff b)
  have low: "bit (sext (ucast x) n) k \<longleftrightarrow> (if k < n * 8 then bit x k else bit x (n * 8 - 1))" if "k < 128"
    using n0 assms that by (auto simp: sext_def Let_def bit_signed_drop_bit_iff b)
  have out: "\<not> bit x k" if "n * 8 \<le> k" using that assms(1) bit_imp_le_length[of x k] by auto
  show "bit (sint (sext (ucast x) n)) k = bit (sint x) k"
  proof (cases "k < 128")
    case True
    then show ?thesis using low out assms(1) by (auto simp: bit_sint_iff)
  next
    case False
    then have "\<not> bit (sext (ucast x) n) k" using bit_imp_le_length[of "sext (ucast x) n" k] by auto
    then show ?thesis using False top out assms by (auto simp: bit_sint_iff)
  qed
qed

lemma ucast_arith:
  fixes a v :: "'a::len word"
  assumes "LENGTH('a) \<le> 128"
  shows "ucast (ucast a + ucast v :: u128) = a + v" "ucast (ucast a AND NOT (ucast v) :: u128) = a AND NOT v"
    "ucast (ucast a XOR ucast v :: u128) = a XOR v" "ucast (ucast a OR ucast v :: u128) = a OR v"
    "ucast (ucast a :: u128) = a"
    "(ucast a :: u128) \<le> ucast v \<longleftrightarrow> a \<le> v" "(ucast a :: u128) = ucast v \<longleftrightarrow> a = v"
proof -
  show id: "ucast (ucast a :: u128) = a" for a :: "'a word"
    using assms by (intro word_eqI_bits) (simp add: bit_ucast_iff)
  show "ucast (ucast a AND NOT (ucast v) :: u128) = a AND NOT v" "ucast (ucast a XOR ucast v :: u128) = a XOR v"
      "ucast (ucast a OR ucast v :: u128) = a OR v"
    using assms by (intro word_eqI_bits; simp add: bit_simps)+
  have "uint (ucast (ucast a + ucast v :: u128) :: 'a word) = uint (a + v)"
    using assms by (simp add: uint_ucast uint_arith_take uint_ucast_up take_bit_congs min_def take_bit_take_bit)
  then show "ucast (ucast a + ucast v :: u128) = a + v" by (simp add: word_uint_eq_iff)
  show "(ucast a :: u128) \<le> ucast v \<longleftrightarrow> a \<le> v" using assms by (simp add: word_le_def uint_ucast_up)
  show "(ucast a :: u128) = ucast v \<longleftrightarrow> a = v" using id by metis
qed

lemma ucast_and_mask:
  "LENGTH('a) = n * 8 \<Longrightarrow> n \<le> 16 \<Longrightarrow> (ucast (v AND size_mask n :: u128) :: 'a::len word) = ucast v"
  by (rule word_eqI_bits) (auto simp: bit_simps size_mask_bit)

text \<open>The host operations of every width compute the specified value.\<close>

lemma rmw_int_apply:
  fixes a :: "'a::len word"
  assumes "LENGTH('a) = n * 8" "n \<le> 16"
  shows "rmw_int op a operand expected =
    (ucast a, case atomic_apply op n (ucast a) operand expected of None \<Rightarrow> a | Some v \<Rightarrow> ucast v)"
proof -
  have len: "LENGTH('a) \<le> 128" using assms by simp
  have m: "x AND size_mask n = ucast (ucast x :: 'a word)" for x
    using ucast_mask[OF assms, of x] by simp
  show ?thesis
    by (cases op) (simp_all add: rmw_int_def atomic_apply_def Let_def m[of operand] m[of expected] mask_ucast[OF assms]
        ucast_and_mask[OF assms] ucast_arith[OF len] sint_sext[OF assms] max_def min_def
        del: bit.de_Morgan_conj)
qed

lemma load_le_ucast:
  assumes "LENGTH('a) = n * 8" "n \<le> 16"
  shows "(load_le n mem p :: u128) = ucast (load_le n mem p :: 'a::len word)"
proof (rule word_eqI_bits)
  fix k
  have "LENGTH(8) * n \<le> LENGTH('a)" "LENGTH(8) * n \<le> LENGTH(128)" using assms by simp_all
  then show "bit (load_le n mem p :: u128) k = bit (ucast (load_le n mem p :: 'a word) :: u128) k"
    using assms by (auto simp: load_le_def bit_join bit_ucast_iff)
qed

lemma lane_ucast:
  assumes "LENGTH('a) = n * 8" "n \<le> 16" "i < n"
  shows "(lane i (ucast (v :: u128) :: 'a::len word) :: u8) = lane i v"
proof -
  have "8 * i + k < LENGTH('a)" if "k < 8" for k
  proof -
    have "8 * i + 8 \<le> 8 * n" using assms(3) by simp
    then show ?thesis using that assms(1) by simp
  qed
  then show ?thesis by (intro word_eqI_bits) (simp add: bit_lane bit_ucast_iff)
qed

lemma store_le_ucast:
  "LENGTH('a) = n * 8 \<Longrightarrow> n \<le> 16 \<Longrightarrow> store_le n mem p (ucast (v :: u128) :: 'a::len word) = store_le n mem p v"
  unfolding store_le_def by (intro ext) (simp add: lane_ucast)

lemma store_load:
  assumes "LENGTH('a) = n * 8"
  shows "store_le n mem p (load_le n mem p :: 'a::len word) = mem"
proof
  fix a
  have "p + of_nat (unat (a - p)) = a" by simp
  then show "store_le n mem p (load_le n mem p :: 'a word) a = mem a"
    using assms by (simp add: store_le_def load_le_def lane_join)
qed

lemma rmw_int_fallback:
  assumes "LENGTH('a) = n * 8" "n \<le> 16"
  shows "(case rmw_int op (load_le n mem p :: 'a::len word) operand expected of
            (old, v) \<Rightarrow> Some (old, store_le n mem p v)) = Some (fallback mem p n op operand expected)"
  using assms
  by (simp add: rmw_int_apply[OF assms] fallback_def Let_def load_le_ucast[OF assms, symmetric] min_def
      store_le_ucast[OF assms] store_load[OF assms(1)] split: option.split)

lemma rmw_128_alone:
  "rmw_128 op operand expected c c =
     Some (c, case atomic_apply op 16 c operand expected of None \<Rightarrow> c | Some new \<Rightarrow> new)"
  by (subst rmw_128.simps) (simp add: rmw_128_iteration_def cmpxchg16b_def Let_def split: option.split)

text \<open>
  C30. The lock-free path of every width and the locked fallback of host_atomic return the
  same old value and leave the same memory, for every operation, size and alignment.
\<close>

theorem host_atomic_paths_agree:
  "host_atomic cx16 mem p sz op operand expected = Some (fallback mem p sz op operand expected)"
proof -
  have len: "LENGTH(8) = 1 * 8" "LENGTH(16) = 2 * 8" "LENGTH(32) = 4 * 8" "LENGTH(64) = 8 * 8" "LENGTH(128) = 16 * 8"
    by simp_all
  have s16: "store_le 16 mem p (load_le 16 mem p :: u128) = mem" by (rule store_load[OF len(5)])
  have h16: "map_option (\<lambda>(old, v). (old, store_le 16 mem p v)) (rmw_128 op operand expected (load_le 16 mem p) (load_le 16 mem p))
      = Some (fallback mem p 16 op operand expected)"
    by (simp add: rmw_128_alone fallback_def Let_def s16 split: option.split)
  then show ?thesis
    unfolding host_atomic_def Let_def
    by (simp add: h16 rmw_int_fallback[OF len(1)] rmw_int_fallback[OF len(2)] rmw_int_fallback[OF len(3)]
        rmw_int_fallback[OF len(4)] del: One_nat_def)
qed

section \<open>The compare-exchange loop under interference\<close>

text \<open>
  A trace entry tells who made a step and the cell before and after it. A step of another
  thread writes any value; a step of the loop is one of its iterations.
\<close>

datatype agent = Other | Self

type_synonym rmw_state = "(u128 + u128) \<times> u128"

inductive rmw_step :: "atomic_op \<Rightarrow> u128 \<Rightarrow> u128 \<Rightarrow> rmw_state \<Rightarrow> agent \<times> u128 \<times> u128 \<Rightarrow> rmw_state \<Rightarrow> bool"
  for op operand expected where
  other: "rmw_step op operand expected (ph, c) (Other, c, c') (ph, c')"
| self: "rmw_128_iteration op operand expected cur c = (ph, c') \<Longrightarrow>
    rmw_step op operand expected (Inl cur, c) (Self, c, c') (ph, c')"

inductive rmw_trace :: "atomic_op \<Rightarrow> u128 \<Rightarrow> u128 \<Rightarrow> rmw_state \<Rightarrow> (agent \<times> u128 \<times> u128) list \<Rightarrow> rmw_state \<Rightarrow> bool"
  for op operand expected where
  stop: "rmw_trace op operand expected s [] s"
| step: "rmw_step op operand expected s l s' \<Longrightarrow> rmw_trace op operand expected s' ls s'' \<Longrightarrow>
    rmw_trace op operand expected s (l # ls) s''"

inductive_cases rmw_returnedE: "rmw_step op operand expected (Inr old, c) l s"
inductive_cases rmw_loopingE: "rmw_step op operand expected (Inl cur, c) l s"
inductive_simps rmw_trace_Nil: "rmw_trace op operand expected s [] s'"
inductive_simps rmw_trace_Cons: "rmw_trace op operand expected s (l # ls) s'"

definition rmw_effect :: "atomic_op \<Rightarrow> u128 \<Rightarrow> u128 \<Rightarrow> u128 \<Rightarrow> u128" where
  "rmw_effect op operand expected old =
     (case atomic_apply op 16 old operand expected of None \<Rightarrow> old | Some new \<Rightarrow> new)"

lemma rmw_128_iteration_cases:
  "rmw_128_iteration op operand expected cur c =
     (if c = cur then (Inr cur, rmw_effect op operand expected cur) else (Inl c, c))"
  by (simp add: rmw_128_iteration_def cmpxchg16b_def rmw_effect_def Let_def split: option.split)

lemma rmw_returned_trace:
  "rmw_trace op operand expected (Inr old, c) ls s \<Longrightarrow> fst s = Inr old \<and> (\<forall>l \<in> set ls. fst l = Other)"
proof (induction ls arbitrary: c)
  case Nil
  then show ?case by (simp add: rmw_trace_Nil)
next
  case (Cons l ls)
  then obtain s' where "rmw_step op operand expected (Inr old, c) l s'" "rmw_trace op operand expected s' ls s"
    by (auto simp: rmw_trace_Cons)
  then show ?case using Cons.IH by (auto elim!: rmw_returnedE)
qed

text \<open>
  C28. Under arbitrary writes of other threads, a 128-bit atomic that returned old changed
  the cell exactly once, from old to the specified new value (not at all for a failed
  compare-and-swap); its other steps left the cell alone.
\<close>

theorem rmw_128_linearizable:
  assumes "rmw_trace op operand expected (Inl seed, c) tr (Inr old, c')"
  shows "\<exists>tr1 tr2. tr = tr1 @ (Self, old, rmw_effect op operand expected old) # tr2 \<and>
    (\<forall>e \<in> set tr1. fst e = Self \<longrightarrow> fst (snd e) = snd (snd e)) \<and> (\<forall>e \<in> set tr2. fst e = Other)"
  using assms
proof (induction tr arbitrary: seed c)
  case Nil
  then show ?case by (simp add: rmw_trace_Nil)
next
  case (Cons l ls)
  then obtain s' where step: "rmw_step op operand expected (Inl seed, c) l s'"
    and rest: "rmw_trace op operand expected s' ls (Inr old, c')" by (auto simp: rmw_trace_Cons)
  from step consider (other) d where "l = (Other, c, d)" "s' = (Inl seed, d)"
    | (self) "l = (Self, c, snd s')" "s' = rmw_128_iteration op operand expected seed c"
    by (elim rmw_loopingE) auto
  then show ?case
  proof cases
    case (other d)
    with Cons.IH rest obtain tr1 tr2 where
      "ls = tr1 @ (Self, old, rmw_effect op operand expected old) # tr2"
      "\<forall>e \<in> set tr1. fst e = Self \<longrightarrow> fst (snd e) = snd (snd e)" "\<forall>e \<in> set tr2. fst e = Other" by metis
    then show ?thesis using other by - (rule exI[of _ "l # tr1"], rule exI[of _ tr2], simp)
  next
    case self
    show ?thesis
    proof (cases "c = seed")
      case True
      then have s': "s' = (Inr seed, rmw_effect op operand expected seed)" "l = (Self, c, rmw_effect op operand expected seed)"
        using self by (simp_all add: rmw_128_iteration_cases)
      then have "seed = old \<and> (\<forall>l \<in> set ls. fst l = Other)" using rmw_returned_trace rest by fastforce
      then show ?thesis using s' True by - (rule exI[of _ "[]"], rule exI[of _ ls], auto)
    next
      case False
      then have s': "s' = (Inl c, c)" "l = (Self, c, c)" using self by (simp_all add: rmw_128_iteration_cases)
      with Cons.IH rest obtain tr1 tr2 where
        "ls = tr1 @ (Self, old, rmw_effect op operand expected old) # tr2"
        "\<forall>e \<in> set tr1. fst e = Self \<longrightarrow> fst (snd e) = snd (snd e)" "\<forall>e \<in> set tr2. fst e = Other" by metis
      then show ?thesis using s' by - (rule exI[of _ "l # tr1"], rule exI[of _ tr2], simp)
    qed
  qed
qed

inductive_simps rmw_step_Inl: "rmw_step op operand expected (Inl cur, c) l s'"

text \<open>A torn seed, then a write of another thread between two iterations.\<close>

lemma rmw_sample:
  "rmw_trace Add 1 0 (Inl 5, 7) [(Self, 7, 7), (Other, 7, 9), (Self, 9, 9), (Self, 9, 10)] (Inr 9, 10)"
  by (simp add: rmw_trace_Cons rmw_trace_Nil rmw_step_Inl rmw_128_iteration_cases rmw_effect_def
      atomic_apply_def size_mask_def)

theorem rmw_128_linearizable_witness:
  "\<exists>tr1 tr2. [(Self, 7, 7), (Other, 7, 9), (Self, 9, 9), (Self, 9, 10)] =
      tr1 @ (Self, 9 :: u128, rmw_effect Add 1 0 9) # tr2"
  using rmw_128_linearizable[OF rmw_sample] by blast

text \<open>Progress: every iteration beyond the second is paid for by a write of another thread.\<close>

definition steps_of :: "agent \<Rightarrow> (agent \<times> u128 \<times> u128) list \<Rightarrow> nat" where
  "steps_of who tr = length (filter (\<lambda>l. fst l = who) tr)"

lemma rmw_trace_progress:
  "rmw_trace op operand expected (Inl cur, c) tr s \<Longrightarrow>
   steps_of Self tr \<le> steps_of Other tr + (if cur = c then 1 else 2)"
proof (induction tr arbitrary: cur c)
  case (Cons l ls)
  then obtain s' where step: "rmw_step op operand expected (Inl cur, c) l s'"
    and rest: "rmw_trace op operand expected s' ls s" by (auto simp: rmw_trace_Cons)
  from step consider (other) d where "l = (Other, c, d)" "s' = (Inl cur, d)"
    | (self) "l = (Self, c, snd s')" "s' = rmw_128_iteration op operand expected cur c"
    by (elim rmw_loopingE) auto
  then show ?case
  proof cases
    case (other d)
    with Cons.IH[of cur d] rest show ?thesis by (auto simp: steps_of_def split: if_splits)
  next
    case self
    show ?thesis
    proof (cases "c = cur")
      case True
      with self rest have "\<forall>l \<in> set ls. fst l = Other"
        using rmw_returned_trace by (fastforce simp: rmw_128_iteration_cases)
      then have "steps_of Self ls = 0" by (simp add: steps_of_def filter_empty_conv)
      then show ?thesis using self True by (simp add: steps_of_def)
    next
      case False
      with self rest Cons.IH[of c c] show ?thesis by (auto simp: steps_of_def rmw_128_iteration_cases)
    qed
  qed
qed (simp add: steps_of_def)

text \<open>
  C29. The compare-exchange loop is lock-free: it makes at most two iterations more than
  other threads make writes, whatever value it was seeded with.
\<close>

theorem rmw_128_lock_free:
  assumes "rmw_trace op operand expected (Inl seed, c) tr s"
  shows "steps_of Self tr \<le> steps_of Other tr + 2"
  using rmw_trace_progress[OF assms] by (simp split: if_splits)

theorem rmw_128_lock_free_witness:
  "steps_of Self [(Self, 7, 7), (Other, 7, 9), (Self, 9, 9), (Self, 9, 10 :: u128)] \<le>
   steps_of Other [(Self, 7, 7), (Other, 7, 9), (Self, 9, 9), (Self, 9, 10 :: u128)] + 2"
  by (rule rmw_128_lock_free[OF rmw_sample])

section \<open>The stored value\<close>

text \<open>The bit width of an access and the operations read as arithmetic on it.\<close>

theorem atomic_apply_value:
  fixes a v :: "'a::len word"
  assumes "LENGTH('a) = n * 8" "n \<le> 16"
  shows "map_option (\<lambda>x. ucast x :: 'a word) (atomic_apply op n (ucast a) (ucast v) (ucast e)) =
    (case op of
       Add \<Rightarrow> Some (a + v) | Clr \<Rightarrow> Some (a AND NOT v) | Eor \<Rightarrow> Some (a XOR v) | SetBits \<Rightarrow> Some (a OR v)
     | Smax \<Rightarrow> Some (if sint v \<le> sint a then a else v) | Smin \<Rightarrow> Some (if sint a \<le> sint v then a else v)
     | Umax \<Rightarrow> Some (max a v) | Umin \<Rightarrow> Some (min a v) | Swp \<Rightarrow> Some v
     | Cas \<Rightarrow> if a = (e :: 'a word) then Some v else None)"
proof -
  have len: "LENGTH('a) \<le> 128" using assms by simp
  show ?thesis
    by (cases op) (simp_all add: atomic_apply_def Let_def mask_ucast[OF assms] ucast_and_mask[OF assms]
        ucast_arith[OF len] sint_sext[OF assms] max_def min_def del: bit.de_Morgan_conj)
qed

theorem atomic_apply_value_witness:
  "map_option (\<lambda>x. ucast x :: u8) (atomic_apply Smax 1 (ucast (0x80 :: u8)) (ucast (1 :: u8)) (ucast (0 :: u8))) = Some 1"
  using atomic_apply_value[of 1 Smax "0x80 :: u8" 1 0] by simp

section \<open>The callbacks\<close>

text \<open>
  The fields of \<open>CpuContext\<close> the protocol uses and the rest of the state as \<open>guest\<close>. The
  callbacks \<open>mem_read\<close> and \<open>mem_write\<close> belong to the embedder and are parameters.
\<close>

record 'm io_context =
  io_value :: "u64 \<times> u64"
  atomic_expected :: "u64 \<times> u64"
  mem_fault :: u8
  guest :: 'm

definition to128 :: "u64 \<times> u64 \<Rightarrow> u128" where
  "to128 v = ucast (fst v) OR push_bit 64 (ucast (snd v))"

definition of128 :: "u128 \<Rightarrow> u64 \<times> u64" where
  "of128 v = (ucast v, ucast (drop_bit 64 v))"

type_synonym 'm callback = "'m io_context \<Rightarrow> u64 \<Rightarrow> nat \<Rightarrow> 'm io_context"

definition default_mem_atomic :: "'m callback \<Rightarrow> 'm callback \<Rightarrow> 'm io_context \<Rightarrow> u64 \<Rightarrow> nat \<Rightarrow> u8 \<Rightarrow> 'm io_context" where
  "default_mem_atomic mem_read mem_write ctx addr sz op =
     (let operand = io_value ctx; expected = atomic_expected ctx;
          ctx = mem_read ctx addr sz; old = io_value ctx;
          ctx = (if mem_fault ctx = 0 then
                   let op = (case from_u8 op of Some op \<Rightarrow> op | None \<Rightarrow> Cas) in
                   (case atomic_apply op sz (to128 old) (to128 operand) (to128 expected) of
                      Some new \<Rightarrow> mem_write (ctx\<lparr>io_value := of128 new\<rparr>) addr sz
                    | None \<Rightarrow> ctx)
                 else ctx)
      in ctx\<lparr>io_value := of128 (to128 old AND size_mask sz)\<rparr>)"

definition context_host_atomic ::
    "bool \<Rightarrow> byte_memory io_context \<Rightarrow> u64 \<Rightarrow> nat \<Rightarrow> u8 \<Rightarrow> byte_memory io_context option" where
  "context_host_atomic cx16 ctx p sz op =
     (let operand = to128 (io_value ctx); expected = to128 (atomic_expected ctx);
          op = (case from_u8 op of Some op \<Rightarrow> op | None \<Rightarrow> Cas)
      in map_option (\<lambda>(old, mem). ctx\<lparr>io_value := of128 (old AND size_mask sz), guest := mem\<rparr>)
           (host_atomic cx16 (guest ctx) p sz op operand expected))"

lemma to128_of128 [simp]: "to128 (of128 v) = v"
  by (rule word_eqI_bits) (auto simp: to128_def of128_def bit_simps)

lemma from_u8_op_code [simp]: "from_u8 (op_code op) = Some op"
  by (cases op) (simp_all add: from_u8_def)

text \<open>The plain callbacks over a host memory that never faults.\<close>

definition plain_read :: "byte_memory callback" where
  "plain_read ctx p sz = ctx\<lparr>io_value := of128 (load_le (min sz 16) (guest ctx) p)\<rparr>"

definition plain_write :: "byte_memory callback" where
  "plain_write ctx p sz = ctx\<lparr>guest := store_le (min sz 16) (guest ctx) p (to128 (io_value ctx))\<rparr>"

text \<open>
  The default callback, which reads and writes through the memory callbacks, and the
  host helper agree on every context field and on memory.
\<close>

theorem callback_agrees_with_host:
  assumes "mem_fault ctx = 0"
  shows "context_host_atomic cx16 ctx p sz op = Some (default_mem_atomic plain_read plain_write ctx p sz op)"
  using assms
  by (simp add: context_host_atomic_def default_mem_atomic_def host_atomic_paths_agree fallback_def Let_def
      plain_read_def plain_write_def split: option.split)

theorem callback_agrees_with_host_witness:
  "context_host_atomic True \<lparr>io_value = (1, 0), atomic_expected = (0, 0), mem_fault = 0, guest = (\<lambda>a. 0xFF)\<rparr> 0x1000 1 0 =
   Some (default_mem_atomic plain_read plain_write
     \<lparr>io_value = (1, 0), atomic_expected = (0, 0), mem_fault = 0, guest = (\<lambda>a. 0xFF)\<rparr> 0x1000 1 0)"
  by (rule callback_agrees_with_host) simp

text \<open>A faulting read stores nothing, and reports the value the callback left, cut to the size.\<close>

theorem default_mem_atomic_fault:
  assumes "mem_fault (mem_read ctx addr sz) \<noteq> 0"
  shows "default_mem_atomic mem_read mem_write ctx addr sz op =
    (mem_read ctx addr sz)\<lparr>io_value := of128 (to128 (io_value (mem_read ctx addr sz)) AND size_mask sz)\<rparr>"
  using assms by (simp add: default_mem_atomic_def Let_def)

end
