(* ===== verification/Regalloc.thy ===== *)
theory Regalloc
  imports Ir_Block
begin

text \<open>
  The register allocator, \<open>src/backend/clobbers.rs\<close> and \<open>src/backend/regalloc.rs\<close>: the
  registers an operation destroys, live ranges over the live node list, and the linear scan
  with its two register banks and stack slots.
\<close>

section \<open>Clobbers\<close>

type_synonym reg_mask = u16

definition regs :: "nat list \<Rightarrow> reg_mask" where
  "regs rs = foldl (\<lambda>m r. m OR push_bit r 1) 0 rs"

abbreviation (input) "RAX \<equiv> 0 :: nat"
abbreviation (input) "RCX \<equiv> 1 :: nat"
abbreviation (input) "RDX \<equiv> 2 :: nat"
abbreviation (input) "RBX \<equiv> 3 :: nat"
abbreviation (input) "RSI \<equiv> 6 :: nat"
abbreviation (input) "RDI \<equiv> 7 :: nat"

record clobber_set =
  cl_gpr :: reg_mask
  cl_xmm :: reg_mask
  result_pinned_to_gpr :: "nat option"
  result_pinned_to_xmm :: "nat option"

text \<open>What the code reads of its host: the calling convention and two of the CPU features.\<close>

record host =
  windows :: bool
  has_sm4 :: bool
  has_aesni :: bool

definition CALLER_SAVED_GPRS :: reg_mask where
  "CALLER_SAVED_GPRS = regs [RAX, RCX, RDX, RSI, RDI, 8, 9, 10, 11]"

definition CALLER_SAVED_XMMS :: "host \<Rightarrow> reg_mask" where
  "CALLER_SAVED_XMMS h = (if windows h then regs [0, 1, 2, 3, 4, 5] else 0xFFFF)"

definition no_clobbers :: clobber_set where
  "no_clobbers = \<lparr>cl_gpr = 0, cl_xmm = 0, result_pinned_to_gpr = None, result_pinned_to_xmm = None\<rparr>"

definition memory_clobber_ops :: "op list" where
  "memory_clobber_ops =
    [Op_Load8, Op_Load16, Op_Load32, Op_Load64, Op_Load128, Op_Store8, Op_Store16, Op_Store32, Op_Store64,
     Op_Store128, Op_LoadEx8, Op_LoadEx16, Op_LoadEx32, Op_LoadEx64, Op_StoreEx8, Op_StoreEx16,
     Op_StoreEx32, Op_StoreEx64, Op_LoadEx128, Op_StoreEx128, Op_AtomicCas128, Op_AtomicRmw8,
     Op_AtomicRmw16, Op_AtomicRmw32, Op_AtomicRmw64, Op_AtomicCas8, Op_AtomicCas16, Op_AtomicCas32,
     Op_AtomicCas64]"

definition memory_result_ops :: "op list" where
  "memory_result_ops =
    [Op_Load8, Op_Load16, Op_Load32, Op_Load64, Op_LoadEx8, Op_LoadEx16, Op_LoadEx32, Op_LoadEx64,
     Op_StoreEx8, Op_StoreEx16, Op_StoreEx32, Op_StoreEx64, Op_StoreEx128, Op_AtomicRmw8, Op_AtomicRmw16,
     Op_AtomicRmw32, Op_AtomicRmw64, Op_AtomicCas8, Op_AtomicCas16, Op_AtomicCas32, Op_AtomicCas64]"

definition helper_clobber_ops :: "op list" where
  "helper_clobber_ops =
    [Op_Mrs, Op_CallHelper, Op_Fmadd32, Op_Fmadd64, Op_FrsqrtEstimate32, Op_FrsqrtEstimate64,
     Op_FrsqrtStep32, Op_FrsqrtStep64, Op_FrecipEstimate32, Op_FrecipEstimate64, Op_FrecipStep32,
     Op_FrecipStep64, Op_SaturatingNarrow, Op_FabsDiff32, Op_FabsDiff64, Op_FpMinMaxReduce32,
     Op_IntMinMaxReduce32, Op_FpMinMaxNum32, Op_FpMinMaxNum64, Op_FpAbsoluteCompare32,
     Op_FpAbsoluteCompare64, Op_ScalarFpPair32, Op_ScalarFpPair64]"

definition clobbers_for_op :: "host \<Rightarrow> op \<Rightarrow> clobber_set" where
  "clobbers_for_op h p =
    (let c = no_clobbers; rax = Some RAX in
     if p \<in> set [Op_UDiv32, Op_UDiv64, Op_SDiv32, Op_SDiv64] then
       c\<lparr>cl_gpr := regs [RAX, RCX, RDX], result_pinned_to_gpr := rax\<rparr>
     else if p \<in> set [Op_Lsl32, Op_Lsl64, Op_Lsr32, Op_Lsr64, Op_Asr32, Op_Asr64, Op_Ror32, Op_Ror64] then
       c\<lparr>cl_gpr := regs [RAX, RCX], result_pinned_to_gpr := rax\<rparr>
     else if p \<in> set [Op_LogicFlags32, Op_LogicFlags64] then c\<lparr>cl_gpr := regs [RAX, RCX]\<rparr>
     else if p \<in> set [Op_AddsFlags32, Op_AddsFlags64, Op_SubsFlags32, Op_SubsFlags64, Op_Adcs32, Op_Adcs64,
         Op_Sbcs32, Op_Sbcs64] then
       c\<lparr>cl_gpr := regs [RAX, RCX, RDX, RSI, 8, 9, 10, 11], result_pinned_to_gpr := rax\<rparr>
     else if p \<in> set [Op_Adc32, Op_Adc64, Op_Sbc32, Op_Sbc64] then
       c\<lparr>cl_gpr := regs [RAX, RCX, RDX], result_pinned_to_gpr := rax\<rparr>
     else if p \<in> set [Op_Clz32, Op_Clz64, Op_Cls32, Op_Cls64] then
       c\<lparr>cl_gpr := regs [RAX, RCX], result_pinned_to_gpr := rax\<rparr>
     else if p \<in> set [Op_Rbit32, Op_Rbit64] then
       c\<lparr>cl_gpr := regs [RAX, RCX, RDX], cl_xmm := regs [0, 1, 2, 3], result_pinned_to_gpr := rax\<rparr>
     else if p \<in> set [Op_VecBitAffine, Op_VecShlImm8, Op_VecUshrImm8, Op_VecSshrImm8] then
       c\<lparr>cl_gpr := regs [RAX], cl_xmm := regs [0, 1, 2, 3]\<rparr>
     else if p = Op_VecClz16 then c\<lparr>cl_gpr := regs [RAX, RCX], cl_xmm := regs [0, 1]\<rparr>
     else if p = Op_VecClz32 then c\<lparr>cl_gpr := regs [RAX, RCX], cl_xmm := regs [0, 1, 2]\<rparr>
     else if p \<in> set [Op_VecRev16, Op_VecRev32, Op_VecRev64] then
       c\<lparr>cl_gpr := regs [RAX], cl_xmm := regs [0, 1, 2]\<rparr>
     else if p = Op_VecExt then c\<lparr>cl_xmm := regs [0, 1]\<rparr>
     else if p \<in> set [Op_Rev16, Op_Rev32, Op_Rev64] then
       c\<lparr>cl_gpr := regs [RAX, RCX, RDX], result_pinned_to_gpr := rax\<rparr>
     else if p \<in> set [Op_Csel32, Op_Csel64] then
       c\<lparr>cl_gpr := regs [RAX, RCX, RDX, RSI, RDI, 8, 9], result_pinned_to_gpr := rax\<rparr>
     else if p \<in> set memory_clobber_ops then
       c\<lparr>cl_gpr := CALLER_SAVED_GPRS, cl_xmm := CALLER_SAVED_XMMS h,
         result_pinned_to_gpr := (if p \<in> set memory_result_ops then rax else None)\<rparr>
     else if p \<in> set helper_clobber_ops then
       c\<lparr>cl_gpr := CALLER_SAVED_GPRS, cl_xmm := CALLER_SAVED_XMMS h, result_pinned_to_gpr := rax\<rparr>
     else if p = Op_SaturatingBinary then c\<lparr>cl_gpr := CALLER_SAVED_GPRS, cl_xmm := CALLER_SAVED_XMMS h\<rparr>
     else if p \<in> set [Op_Sha256Hash, Op_Sha256Hash2, Op_Sha256Schedule0, Op_Sha256Schedule1] then
       c\<lparr>cl_gpr := CALLER_SAVED_GPRS, cl_xmm := CALLER_SAVED_XMMS h\<rparr>
     else if p \<in> set [Op_Sm4Encrypt, Op_Sm4KeySchedule] then
       (if has_sm4 h then c\<lparr>cl_xmm := regs [0, 1]\<rparr>
        else c\<lparr>cl_gpr := CALLER_SAVED_GPRS, cl_xmm := CALLER_SAVED_XMMS h\<rparr>)
     else if p \<in> set [Op_AesEncrypt, Op_AesDecrypt, Op_AesMixColumns, Op_AesInverseMixColumns] then
       (if has_aesni h then c\<lparr>cl_xmm := regs [0, 1]\<rparr>
        else c\<lparr>cl_gpr := CALLER_SAVED_GPRS, cl_xmm := CALLER_SAVED_XMMS h\<rparr>)
     else c\<lparr>cl_gpr := regs [RAX, RCX, RDX, RSI, RDI, 8], result_pinned_to_gpr := rax\<rparr>)"

section \<open>Live ranges\<close>

datatype loc = Reg nat | Xmm nat | Spill int | ImmLoc u64 | NoLoc

record live_range =
  lr_start :: nat
  lr_count :: nat

definition DEAD :: live_range where "DEAD = \<lparr>lr_start = 0, lr_count = 0\<rparr>"

definition lr_point :: "nat \<Rightarrow> live_range" where
  "lr_point idx = \<lparr>lr_start = idx mod 2 ^ 16, lr_count = 1\<rparr>"

definition is_dead :: "live_range \<Rightarrow> bool" where "is_dead r \<longleftrightarrow> lr_count r = 0"

definition lr_end :: "live_range \<Rightarrow> nat" where "lr_end r = lr_start r + (lr_count r - 1)"

definition extend_to :: "nat \<Rightarrow> live_range \<Rightarrow> live_range" where
  "extend_to new_end r =
     (let span = (new_end - lr_start r) + 1
      in if span > lr_count r then r\<lparr>lr_count := min span (2 ^ 16 - 1)\<rparr> else r)"

text \<open>How the kernel decides that a small number fits 16 bits without counting to \<open>2 ^ 16\<close> in unary.\<close>

lemma fits_u16: "n < 2 ^ 16 \<longleftrightarrow> int n < 65536"
  by simp

lemma lr_point_code [code]:
  "lr_point idx = (if int idx < 65536 then \<lparr>lr_start = idx, lr_count = 1\<rparr>
     else \<lparr>lr_start = idx mod 2 ^ 16, lr_count = 1\<rparr>)"
  unfolding fits_u16[symmetric] by (simp add: lr_point_def)

lemma extend_to_code [code]:
  "extend_to new_end r =
     (let span = (new_end - lr_start r) + 1
      in if span > lr_count r then
           if int span < 65536 then r\<lparr>lr_count := span\<rparr> else r\<lparr>lr_count := 2 ^ 16 - 1\<rparr>
         else r)"
  unfolding fits_u16[symmetric] by (simp add: extend_to_def Let_def min_def)

definition lr_contains :: "nat \<Rightarrow> live_range \<Rightarrow> bool" where
  "lr_contains idx r \<longleftrightarrow> \<not> is_dead r \<and> lr_start r \<le> idx \<and> idx \<le> lr_end r"

definition place :: "(nat list \<times> live_range list) \<times> nat \<Rightarrow> value_ref \<Rightarrow> (nat list \<times> live_range list) \<times> nat" where
  "place s v = (case s of ((pos, rngs), t) \<Rightarrow> ((pos[v := t], rngs[v := lr_point t]), t + 1))"

definition term_refs :: "terminal \<Rightarrow> value_ref list" where
  "term_refs t = (case t of
       ConditionalBranch cond_nzcv _ _ _ \<Rightarrow> [cond_nzcv]
     | CompareBranchZero v _ _ _ _ \<Rightarrow> [v]
     | TestBranchBit v _ _ _ _ \<Rightarrow> [v]
     | IndirectBranch target _ _ \<Rightarrow> [target]
     | _ \<Rightarrow> [])"

definition extend_use :: "nat \<Rightarrow> live_range list \<Rightarrow> value_ref \<Rightarrow> live_range list" where
  "extend_use t rngs v =
     (if vr_is_some v \<and> v < length rngs \<and> \<not> is_dead (rngs ! v) \<and> lr_end (rngs ! v) < t
      then rngs[v := extend_to t (rngs ! v)] else rngs)"

definition compute_live_ranges_with :: "block \<Rightarrow> value_ref list \<Rightarrow> live_range list option" where
  "compute_live_ranges_with b terminal_uses =
     (case iter_live b of None \<Rightarrow> None | Some xs \<Rightarrow>
        let n = length (code b);
            ((pos, rngs), t) = foldl place ((replicate n 0, replicate n DEAD), 0) xs;
            last_live = (case tail_vr b of Some v \<Rightarrow> pos ! v | None \<Rightarrow> 0);
            rngs = foldl (extend_use last_live) rngs (term_refs (terminal b) @ terminal_uses);
            rngs = foldl (\<lambda>rngs v. foldl (extend_use (pos ! v)) rngs (a_args (code b ! v))) rngs xs
        in Some rngs)"

section \<open>Linear scan\<close>

definition ALLOCATABLE_GPRS :: "nat list" where "ALLOCATABLE_GPRS = [3, 12, 13, 14]"

definition SPILL_XMMS :: "nat list" where "SPILL_XMMS = [6, 7, 8, 9, 10, 11, 12, 13, 14, 15]"

definition op_prefers_two_address :: "op \<Rightarrow> bool" where
  "op_prefers_two_address p \<longleftrightarrow> p \<in> set
     [Op_Add32, Op_Add64, Op_Sub32, Op_Sub64, Op_And32, Op_And64, Op_Or32, Op_Or64, Op_Eor32, Op_Eor64,
      Op_Mul32, Op_Mul64]"

definition SAVED_SIZE :: int where "SAVED_SIZE = 40"

definition alloc_spill_slot :: "int \<Rightarrow> int" where
  "alloc_spill_slot cursor = (let aligned = (cursor + 7) AND NOT 7 in aligned + 8)"

definition alloc_spill_slot_16 :: "int \<Rightarrow> int" where
  "alloc_spill_slot_16 cursor = (let aligned = (cursor + 15) AND NOT 15 in aligned + 16)"

text \<open>An active entry is \<open>(end, register, value)\<close>.\<close>

record scan_state =
  locs :: "loc list"
  spill_cursor :: int
  free :: "nat list"
  xmm_free :: reg_mask
  active :: "(nat \<times> nat \<times> nat) list"
  xmm_active :: "(nat \<times> nat \<times> nat) list"

definition interior_mask :: "reg_mask list \<Rightarrow> live_range \<Rightarrow> reg_mask" where
  "interior_mask masks r =
     (if is_dead r then 0
      else if lr_end r > lr_start r + 1 then foldl (\<lambda>m i. m OR masks ! i) 0 [lr_start r + 1..<lr_end r]
      else 0)"

definition take_spill :: "reg_mask \<Rightarrow> scan_state \<Rightarrow> loc \<times> scan_state" where
  "take_spill safe_xmms s =
     (let candidates = xmm_free s AND safe_xmms in
      if candidates \<noteq> 0 then
        let x = trailing_zeros candidates in (Xmm x, s\<lparr>xmm_free := xmm_free s AND NOT (push_bit x 1)\<rparr>)
      else let c = alloc_spill_slot (spill_cursor s) in (Spill c, s\<lparr>spill_cursor := c\<rparr>))"

definition expire :: "nat \<Rightarrow> scan_state \<Rightarrow> scan_state" where
  "expire start s = s\<lparr>
     free := free s @ map (\<lambda>(e, r, i). r) (filter (\<lambda>(e, r, i). e < start) (active s)),
     active := filter (\<lambda>(e, r, i). \<not> e < start) (active s),
     xmm_free := foldl (\<lambda>m (e, r, i). m OR push_bit r 1) (xmm_free s) (filter (\<lambda>(e, r, i). e < start) (xmm_active s)),
     xmm_active := filter (\<lambda>(e, r, i). \<not> e < start) (xmm_active s)\<rparr>"

text \<open>\<open>iter_mut().find(..)\<close> and the assignment through it: the first matching entry is replaced.\<close>

fun replace_entry :: "'r \<Rightarrow> nat \<Rightarrow> nat \<times> 'r \<times> nat \<Rightarrow> (nat \<times> 'r \<times> nat) list \<Rightarrow> (nat \<times> 'r \<times> nat) list" where
  "replace_entry reg src new [] = []"
| "replace_entry reg src new ((e, r, i) # es) =
     (if r = reg \<and> i = src then new # es else (e, r, i) # replace_entry reg src new es)"

definition set_loc :: "nat \<Rightarrow> loc \<Rightarrow> scan_state \<Rightarrow> scan_state" where
  "set_loc v l s = s\<lparr>locs := (locs s)[v := l]\<rparr>"

text \<open>The reuse of the first operand's location by \<open>Identity\<close> and the two-address operations;
  \<open>None\<close> when the scan goes on to a fresh location.\<close>

definition reuse :: "block \<Rightarrow> live_range list \<Rightarrow> nat \<Rightarrow> scan_state \<Rightarrow> scan_state option" where
  "reuse b rngs v s =
     (let p = a_op (code b ! v); src = arg (code b ! v) 0; start = lr_start (rngs ! v); e = lr_end (rngs ! v) in
      if (p = Op_Identity \<or> op_prefers_two_address p) \<and> vr_is_some src \<and> src < length rngs \<and>
         \<not> is_dead (rngs ! src) \<and> lr_end (rngs ! src) = start
      then (case locs s ! src of
              Reg r \<Rightarrow> Some (set_loc v (Reg r) s\<lparr>active := replace_entry r src (e, r, v) (active s)\<rparr>)
            | l \<Rightarrow> if p = Op_Identity then
                     Some (case l of
                         Xmm x \<Rightarrow> set_loc v l s\<lparr>xmm_active := replace_entry x src (e, x, v) (xmm_active s)\<rparr>
                       | _ \<Rightarrow> set_loc v l s)
                   else None)
      else None)"

definition rposition :: "('a \<Rightarrow> bool) \<Rightarrow> 'a list \<Rightarrow> nat option" where
  "rposition P xs = find (\<lambda>i. P (xs ! i)) (rev [0..<length xs])"

definition remove_at :: "nat \<Rightarrow> 'a list \<Rightarrow> 'a list" where
  "remove_at i xs = take i xs @ drop (Suc i) xs"

definition scan_fresh :: "reg_mask list \<Rightarrow> reg_mask list \<Rightarrow> live_range list \<Rightarrow> nat \<Rightarrow> scan_state \<Rightarrow> scan_state" where
  "scan_fresh masks xmasks rngs v s =
     (let range = rngs ! v; e = lr_end range; forbidden = interior_mask masks range in
      case rposition (\<lambda>r. forbidden AND push_bit r 1 = 0) (free s) of
        Some pos \<Rightarrow>
          let r = free s ! pos
          in set_loc v (Reg r) s\<lparr>free := remove_at pos (free s), active := active s @ [(e, r, v)]\<rparr>
      | None \<Rightarrow>
          (case take_spill (NOT (interior_mask xmasks range)) s of
             (Xmm x, s) \<Rightarrow> set_loc v (Xmm x) s\<lparr>xmm_active := xmm_active s @ [(e, x, v)]\<rparr>
           | (l, s) \<Rightarrow> set_loc v l s))"

definition scan_vector :: "reg_mask list \<Rightarrow> live_range list \<Rightarrow> nat \<Rightarrow> scan_state \<Rightarrow> scan_state" where
  "scan_vector xmasks rngs v s =
     (let range = rngs ! v; safe = NOT (interior_mask xmasks range); candidates = xmm_free s AND safe in
      if candidates \<noteq> 0 then
        let x = trailing_zeros candidates
        in set_loc v (Xmm x) s\<lparr>xmm_free := xmm_free s AND NOT (push_bit x 1),
             xmm_active := xmm_active s @ [(lr_end range, x, v)]\<rparr>
      else let c = alloc_spill_slot_16 (spill_cursor s) in set_loc v (Spill c) s\<lparr>spill_cursor := c\<rparr>)"

definition scan_step :: "block \<Rightarrow> reg_mask list \<Rightarrow> reg_mask list \<Rightarrow> live_range list \<Rightarrow> scan_state \<Rightarrow> nat \<Rightarrow> scan_state" where
  "scan_step b masks xmasks rngs s v =
     (let s = expire (lr_start (rngs ! v)) s; a = code b ! v in
      if a_op a = Op_ConstU32 then set_loc v (ImmLoc (a_imm a AND 0xFFFFFFFF)) s
      else if a_op a = Op_ConstU64 then set_loc v (ImmLoc (a_imm a)) s
      else if a_ty a = TyU128 then scan_vector xmasks rngs v s
      else case reuse b rngs v s of
             Some s' \<Rightarrow> s'
           | None \<Rightarrow> scan_fresh masks xmasks rngs v s)"

definition clobber_masks :: "host \<Rightarrow> block \<Rightarrow> value_ref list \<Rightarrow> reg_mask list \<times> reg_mask list" where
  "clobber_masks h b xs =
     (map (\<lambda>v. if is_eliminated (code b ! v) then 0 else cl_gpr (clobbers_for_op h (a_op (code b ! v)))) xs,
      map (\<lambda>v. if is_eliminated (code b ! v) then 0 else cl_xmm (clobbers_for_op h (a_op (code b ! v)))) xs)"

definition intervals :: "block \<Rightarrow> live_range list \<Rightarrow> nat list" where
  "intervals b rngs =
     sort_key (\<lambda>i. lr_start (rngs ! i))
       (filter (\<lambda>i. \<not> is_dead (rngs ! i) \<and> a_ty (code b ! i) \<noteq> TyVoid) [0..<length rngs])"

definition spill_mask :: reg_mask where "spill_mask = regs SPILL_XMMS"

definition scan_init :: "nat \<Rightarrow> nat list \<Rightarrow> scan_state" where
  "scan_init n pool = \<lparr>locs = replicate n NoLoc, spill_cursor = SAVED_SIZE, free = rev pool,
     xmm_free = spill_mask, active = [], xmm_active = []\<rparr>"

record allocation =
  al_locs :: "loc list"
  spill_bytes :: int
  used_xmms :: reg_mask

definition linear_scan :: "host \<Rightarrow> block \<Rightarrow> live_range list \<Rightarrow> nat list \<Rightarrow> allocation option" where
  "linear_scan h b rngs pool =
     (case iter_live b of None \<Rightarrow> None | Some xs \<Rightarrow>
        let (masks, xmasks) = clobber_masks h b xs;
            s = foldl (scan_step b masks xmasks rngs) (scan_init (length rngs) pool) (intervals b rngs)
        in Some \<lparr>al_locs = locs s, spill_bytes = spill_cursor s - SAVED_SIZE,
             used_xmms = spill_mask AND NOT (xmm_free s)\<rparr>)"

section \<open>Banks\<close>

text \<open>
  What the scan keeps of each kind of location, registers, vector registers and stack slots
  alike: \<open>avail\<close> are the free ones, \<open>act\<close> the active entries, \<open>holds i\<close> the one value \<open>i\<close> was
  given, \<open>P\<close> the values scanned and \<open>F\<close> those to come. \<open>H j i\<close> says that \<open>j\<close> may take over
  the location of its operand \<open>i\<close> at the point where \<open>i\<close> ends.
\<close>

abbreviation entry_reg :: "nat \<times> 'r \<times> nat \<Rightarrow> 'r" where "entry_reg x \<equiv> fst (snd x)"

definition bank_ok :: "(nat \<Rightarrow> nat) \<Rightarrow> (nat \<Rightarrow> nat) \<Rightarrow> (nat \<Rightarrow> nat \<Rightarrow> bool) \<Rightarrow> 'r set \<Rightarrow> (nat \<times> 'r \<times> nat) list \<Rightarrow>
    (nat \<Rightarrow> 'r option) \<Rightarrow> nat set \<Rightarrow> nat set \<Rightarrow> bool" where
  "bank_ok st en H avail act holds P F \<longleftrightarrow>
     distinct (map entry_reg act) \<and>
     (\<forall>e r i. (e, r, i) \<in> set act \<longrightarrow> i \<in> P \<and> holds i = Some r \<and> e = en i \<and> r \<notin> avail) \<and>
     (\<forall>i r. holds i = Some r \<longrightarrow> i \<in> P) \<and>
     (\<forall>i r. holds i = Some r \<longrightarrow> (en i, r, i) \<in> set act \<or> (\<forall>j \<in> F. en i < st j)) \<and>
     (\<forall>i \<in> P. \<forall>j \<in> F. st i < st j) \<and>
     (\<forall>i j r. holds i = Some r \<longrightarrow> holds j = Some r \<longrightarrow> i \<noteq> j \<longrightarrow> st i \<le> st j \<longrightarrow>
        en i < st j \<or> en i = st j \<and> H j i)"

lemma bank_okD:
  assumes "bank_ok st en H avail act holds P F"
  shows "distinct (map entry_reg act)"
    and "(e, r, i) \<in> set act \<Longrightarrow> i \<in> P \<and> holds i = Some r \<and> e = en i \<and> r \<notin> avail"
    and "holds i = Some r \<Longrightarrow> i \<in> P"
    and "holds i = Some r \<Longrightarrow> (en i, r, i) \<in> set act \<or> (\<forall>j \<in> F. en i < st j)"
    and "i \<in> P \<Longrightarrow> j \<in> F \<Longrightarrow> st i < st j"
    and "holds i = Some r \<Longrightarrow> holds j = Some r \<Longrightarrow> i \<noteq> j \<Longrightarrow> st i \<le> st j \<Longrightarrow> en i < st j \<or> en i = st j \<and> H j i"
  using assms unfolding bank_ok_def by metis+

lemma bank_mono:
  "bank_ok st en H avail act holds P F \<Longrightarrow> avail' \<subseteq> avail \<Longrightarrow> bank_ok st en H avail' act holds P F"
  unfolding bank_ok_def by blast

lemma distinct_regD:
  "distinct (map entry_reg act) \<Longrightarrow> (e, r, i) \<in> set act \<Longrightarrow> (e', r, i') \<in> set act \<Longrightarrow> e = e' \<and> i = i'"
  by (metis (no_types, lifting) distinct_map fst_conv inj_onD prod.inject snd_conv)

lemma bank_expire:
  assumes ok: "bank_ok st en H avail act holds P F" and t: "\<And>j. j \<in> F \<Longrightarrow> t \<le> st j"
  shows "bank_ok st en H (avail \<union> entry_reg ` set (filter (\<lambda>x. fst x < t) act)) (filter (\<lambda>x. \<not> fst x < t) act) holds P F"
  unfolding bank_ok_def
proof (intro conjI allI impI ballI)
  show "distinct (map entry_reg (filter (\<lambda>x. \<not> fst x < t) act))"
    using bank_okD(1)[OF ok] by (rule distinct_map_filter)
next
  fix e r i assume a: "(e, r, i) \<in> set (filter (\<lambda>x. \<not> fst x < t) act)"
  then have "i \<in> P \<and> holds i = Some r \<and> e = en i \<and> r \<notin> avail" using bank_okD(2)[OF ok, of e r i] by simp
  moreover have "r \<notin> entry_reg ` set (filter (\<lambda>x. fst x < t) act)"
    using a distinct_regD[OF bank_okD(1)[OF ok], of e r i] by fastforce
  ultimately show "i \<in> P" "holds i = Some r" "e = en i" "r \<notin> avail \<union> entry_reg ` set (filter (\<lambda>x. fst x < t) act)"
    by simp_all
next
  fix i r assume h: "holds i = Some r"
  show "(en i, r, i) \<in> set (filter (\<lambda>x. \<not> fst x < t) act) \<or> (\<forall>j \<in> F. en i < st j)"
    using bank_okD(4)[OF ok h] t by (cases "en i < t") fastforce+
qed (use bank_okD(3,5,6)[OF ok] in blast)+

lemma bank_skip:
  assumes ok: "bank_ok st en H avail act holds P (insert j F)" and "j \<notin> F" and "\<And>k. k \<in> F \<Longrightarrow> st j < st k"
  shows "bank_ok st en H avail act holds (insert j P) F"
  unfolding bank_ok_def
proof (intro conjI allI impI ballI)
  fix i k assume "i \<in> insert j P" "k \<in> F"
  then show "st i < st k" using bank_okD(5)[OF ok, of i k] assms(3) by auto
qed (use bank_okD[OF ok] in blast)+

lemma bank_take:
  assumes ok: "bank_ok st en H avail act holds P (insert j F)" and F: "\<And>k. k \<in> F \<Longrightarrow> st j < st k"
    and r: "r \<in> avail"
  shows "bank_ok st en H (avail - {r}) (act @ [(en j, r, j)]) (holds(j \<mapsto> r)) (insert j P) F"
proof -
  have jP: "j \<notin> P" using bank_okD(5)[OF ok, of j j] by blast
  have new: "r \<notin> entry_reg ` set act" using bank_okD(2)[OF ok] r by fastforce
  have old: "en i < st j" if "holds i = Some r" for i using bank_okD(2,4)[OF ok] that r by blast
  show ?thesis unfolding bank_ok_def
  proof (intro conjI allI impI ballI)
    show "distinct (map entry_reg (act @ [(en j, r, j)]))" using bank_okD(1)[OF ok] new by auto
  next
    fix e x i assume "(e, x, i) \<in> set (act @ [(en j, r, j)])"
    then have "(e, x, i) = (en j, r, j) \<or> ((e, x, i) \<in> set act \<and> i \<noteq> j)" using bank_okD(2)[OF ok] jP by fastforce
    then show "i \<in> insert j P" "(holds(j \<mapsto> r)) i = Some x" "e = en i" "x \<notin> avail - {r}"
      using bank_okD(2)[OF ok] by auto
  next
    fix i x assume "(holds(j \<mapsto> r)) i = Some x"
    then show "i \<in> insert j P" and "(en i, x, i) \<in> set (act @ [(en j, r, j)]) \<or> (\<forall>j \<in> F. en i < st j)"
      using bank_okD(3)[OF ok, of i x] bank_okD(4)[OF ok, of i x] by (auto split: if_splits)
  next
    fix i k assume "i \<in> insert j P" "k \<in> F"
    then show "st i < st k" using F bank_okD(5)[OF ok] by auto
  next
    fix i k x assume h: "(holds(j \<mapsto> r)) i = Some x" "(holds(j \<mapsto> r)) k = Some x" "i \<noteq> k" "st i \<le> st k"
    have st: "st i' < st j" if "holds i' = Some x" for i' using bank_okD(3,5)[OF ok] that by blast
    show "en i < st k \<or> en i = st k \<and> H k i"
    proof (cases "i = j \<or> k = j")
      case True
      then show ?thesis using h st[of k] old[of i] by (auto split: if_splits)
    next
      case False
      then show ?thesis using h bank_okD(6)[OF ok, of i x k] by simp
    qed
  qed
qed

lemma replace_entry_set:
  assumes "distinct (map entry_reg act)" "(e0, r, src) \<in> set act"
  shows "set (replace_entry r src (e, r, j) act) = set act - {(e0, r, src)} \<union> {(e, r, j)} \<and>
    map entry_reg (replace_entry r src (e, r, j) act) = map entry_reg act"
  using assms
proof (induction act)
  case (Cons x act)
  obtain e' r' i' where x: "x = (e', r', i')" by (cases x)
  show ?case
  proof (cases "r' = r \<and> i' = src")
    case True
    then have "e' = e0" using distinct_regD[OF Cons.prems(1), of e' r src e0 src] Cons.prems(2) x by simp
    moreover have "(e0, r, src) \<notin> set act" using Cons.prems(1) True x by force
    ultimately show ?thesis using True x by auto
  next
    case False
    then have "(e0, r, src) \<in> set act" using Cons.prems(2) x by auto
    then show ?thesis using Cons.IH Cons.prems(1) False x by auto
  qed
qed simp

lemma replace_entry_absent:
  "(\<And>e. (e, r, src) \<notin> set act) \<Longrightarrow> replace_entry r src new act = act"
  by (induction act rule: replace_entry.induct) auto

lemma bank_reuse:
  assumes ok: "bank_ok st en H avail act holds P (insert j F)" and F: "\<And>k. k \<in> F \<Longrightarrow> st j < st k"
    and src: "holds src = Some r" "en src = st j" "H j src"
  shows "bank_ok st en H avail (replace_entry r src (en j, r, j) act) (holds(j \<mapsto> r)) (insert j P) F"
proof -
  have jP: "j \<notin> P" using bank_okD(5)[OF ok, of j j] by blast
  have a: "(en src, r, src) \<in> set act" using bank_okD(4)[OF ok src(1)] src(2) by auto
  note rep = replace_entry_set[OF bank_okD(1)[OF ok] a, of "en j" j]
  have ra: "r \<notin> avail" using bank_okD(2)[OF ok a] by simp
  have only: "i = src" if "(e, r, i) \<in> set act" for e i
    using distinct_regD[OF bank_okD(1)[OF ok] that a] by simp
  have old: "en i < st j" if "holds i = Some r" "i \<noteq> src" for i using bank_okD(4)[OF ok that(1)] only that(2) by blast
  show ?thesis unfolding bank_ok_def
  proof (intro conjI allI impI ballI)
    show "distinct (map entry_reg (replace_entry r src (en j, r, j) act))" using rep bank_okD(1)[OF ok] by simp
  next
    fix e x i assume "(e, x, i) \<in> set (replace_entry r src (en j, r, j) act)"
    then have "(e, x, i) = (en j, r, j) \<or> ((e, x, i) \<in> set act \<and> i \<noteq> j)" using rep bank_okD(2)[OF ok] jP by fastforce
    then show "i \<in> insert j P" "(holds(j \<mapsto> r)) i = Some x" "e = en i" "x \<notin> avail"
      using bank_okD(2)[OF ok] ra by auto
  next
    fix i x assume h: "(holds(j \<mapsto> r)) i = Some x"
    then show "i \<in> insert j P" using bank_okD(3)[OF ok] by (auto split: if_splits)
    show "(en i, x, i) \<in> set (replace_entry r src (en j, r, j) act) \<or> (\<forall>j \<in> F. en i < st j)"
      using h bank_okD(4)[OF ok] rep src(2) F by (auto split: if_splits)
  next
    fix i k assume "i \<in> insert j P" "k \<in> F"
    then show "st i < st k" using F bank_okD(5)[OF ok] by auto
  next
    fix i k x assume h: "(holds(j \<mapsto> r)) i = Some x" "(holds(j \<mapsto> r)) k = Some x" "i \<noteq> k" "st i \<le> st k"
    have st: "st i' < st j" if "holds i' = Some x" for i' using bank_okD(3,5)[OF ok] that by blast
    show "en i < st k \<or> en i = st k \<and> H k i"
    proof (cases "i = j \<or> k = j")
      case True
      then show ?thesis using h st[of k] old[of i] src by (cases "i = src") (auto split: if_splits)
    next
      case False
      then show ?thesis using h bank_okD(6)[OF ok, of i x k] by simp
    qed
  qed
qed

section \<open>The scan keeps its banks\<close>

definition loc_reg :: "loc \<Rightarrow> nat option" where "loc_reg l = (case l of Reg r \<Rightarrow> Some r | _ \<Rightarrow> None)"
definition loc_xmm :: "loc \<Rightarrow> nat option" where "loc_xmm l = (case l of Xmm r \<Rightarrow> Some r | _ \<Rightarrow> None)"
definition loc_slot :: "loc \<Rightarrow> int option" where "loc_slot l = (case l of Spill c \<Rightarrow> Some c | _ \<Rightarrow> None)"

lemma loc_kinds [simp]:
  "loc_reg (Reg r) = Some r" "loc_reg (Xmm r) = None" "loc_reg (Spill c) = None" "loc_reg (ImmLoc i) = None" "loc_reg NoLoc = None"
  "loc_xmm (Reg r) = None" "loc_xmm (Xmm r) = Some r" "loc_xmm (Spill c) = None" "loc_xmm (ImmLoc i) = None" "loc_xmm NoLoc = None"
  "loc_slot (Reg r) = None" "loc_slot (Xmm r) = None" "loc_slot (Spill c) = Some c" "loc_slot (ImmLoc i) = None" "loc_slot NoLoc = None"
  by (simp_all add: loc_reg_def loc_xmm_def loc_slot_def)

definition holding :: "(loc \<Rightarrow> 'r option) \<Rightarrow> loc list \<Rightarrow> nat \<Rightarrow> 'r option" where
  "holding k ls i = (if i < length ls then k (ls ! i) else None)"

definition takes_over :: "block \<Rightarrow> nat \<Rightarrow> nat \<Rightarrow> bool" where
  "takes_over b j i \<longleftrightarrow> arg (code b ! j) 0 = i \<and>
     (a_op (code b ! j) = Op_Identity \<or> op_prefers_two_address (a_op (code b ! j)))"

abbreviation bank :: "block \<Rightarrow> live_range list \<Rightarrow> 'r set \<Rightarrow> (nat \<times> 'r \<times> nat) list \<Rightarrow> (nat \<Rightarrow> 'r option) \<Rightarrow>
    nat set \<Rightarrow> nat set \<Rightarrow> bool" where
  "bank b rngs \<equiv> bank_ok (\<lambda>i. lr_start (rngs ! i)) (\<lambda>i. lr_end (rngs ! i)) (takes_over b)"

definition scan_inv :: "block \<Rightarrow> live_range list \<Rightarrow> nat set \<Rightarrow> nat set \<Rightarrow> scan_state \<Rightarrow> bool" where
  "scan_inv b rngs P F s \<longleftrightarrow> length (locs s) = length rngs \<and> distinct (free s) \<and>
     bank b rngs (set (free s)) (active s) (holding loc_reg (locs s)) P F \<and>
     bank b rngs {x. bit (xmm_free s) x} (xmm_active s) (holding loc_xmm (locs s)) P F \<and>
     (\<exists>act. bank b rngs {c. spill_cursor s < c} act (holding loc_slot (locs s)) P F)"

lemma case_entry: "(\<lambda>(e, r, i). f e) = (\<lambda>x. f (fst x))" "(\<lambda>(e, r, i). g r) = (\<lambda>x. g (entry_reg x))"
  by auto

lemma bit_set_regs:
  "bit (foldl (\<lambda>m x. m OR push_bit (entry_reg x) 1) (m :: u16) xs) k \<longleftrightarrow>
   bit m k \<or> k < 16 \<and> k \<in> entry_reg ` set xs"
  by (induction xs arbitrary: m) (auto simp: bit_simps)

lemma expire_inv:
  assumes inv: "scan_inv b rngs P F s" and t: "\<And>j. j \<in> F \<Longrightarrow> t \<le> lr_start (rngs ! j)"
  shows "scan_inv b rngs P F (expire t s)"
proof -
  have g: "bank b rngs (set (free s)) (active s) (holding loc_reg (locs s)) P F"
    and x: "bank b rngs {x. bit (xmm_free s) x} (xmm_active s) (holding loc_xmm (locs s)) P F"
    and d: "distinct (free s)" using inv unfolding scan_inv_def by blast+
  have xe: "xmm_active (expire t s) = filter (\<lambda>x. \<not> fst x < t) (xmm_active s)" "locs (expire t s) = locs s"
    by (simp_all add: expire_def case_entry)
  have "distinct (map entry_reg (filter (\<lambda>x. fst x < t) (active s)))"
    using bank_okD(1)[OF g] by (rule distinct_map_filter)
  moreover have "set (free s) \<inter> entry_reg ` set (active s) = {}" using bank_okD(2)[OF g] by fastforce
  ultimately have "distinct (free (expire t s))"
    using d by (auto simp: expire_def case_entry distinct_map)
  moreover have "bank b rngs (set (free (expire t s))) (active (expire t s)) (holding loc_reg (locs (expire t s))) P F"
    using bank_expire[OF g, of t] t by (simp add: expire_def case_entry)
  moreover have "bank b rngs {x. bit (xmm_free (expire t s)) x} (xmm_active (expire t s)) (holding loc_xmm (locs (expire t s))) P F"
    unfolding xe
  proof (rule bank_mono[OF bank_expire[OF x, of t, OF t]])
    have "(\<lambda>m (e, r, i). m OR push_bit r 1) = (\<lambda>(m :: u16) (x :: nat \<times> nat \<times> nat). m OR push_bit (entry_reg x) 1)"
      by (simp only: fun_eq_iff split_paired_all prod.case fst_conv snd_conv) simp
    then show "{x. bit (xmm_free (expire t s)) x} \<subseteq>
        {x. bit (xmm_free s) x} \<union> entry_reg ` set (filter (\<lambda>x. fst x < t) (xmm_active s))"
      by (auto simp: expire_def bit_set_regs[simplified] case_entry simp del: set_filter)
  qed
  ultimately show ?thesis using inv unfolding scan_inv_def by (auto simp: expire_def)
qed

lemma holding_update:
  "v < length ls \<Longrightarrow> holding k (ls[v := l]) = (holding k ls)(v := k l)"
  by (auto simp: holding_def fun_eq_iff)

lemma bank_other:
  assumes ok: "bank_ok st en H avail act (holding k ls) P (insert v F)" and "v < length ls" "k l = None"
  shows "holding k (ls[v := l]) = holding k ls"
proof -
  have "holding k ls v = None"
    using bank_okD(3)[OF ok, of v] bank_okD(5)[OF ok, of v v] by (cases "holding k ls v") auto
  then show ?thesis using assms(2,3) by (auto simp: holding_update fun_eq_iff)
qed

lemma scan_inv_step:
  assumes inv: "scan_inv b rngs P (insert v F) s" and v: "v \<notin> F" "v < length rngs"
    and F: "\<And>k. k \<in> F \<Longrightarrow> lr_start (rngs ! v) < lr_start (rngs ! k)"
    and locs: "locs s' = (locs s)[v := l]" and d: "distinct (free s')"
    and R: "case loc_reg l of None \<Rightarrow> free s' = free s \<and> active s' = active s
      | Some r \<Rightarrow> bank b rngs (set (free s')) (active s') ((holding loc_reg (locs s))(v \<mapsto> r)) (insert v P) F"
    and X: "case loc_xmm l of None \<Rightarrow> xmm_free s' = xmm_free s \<and> xmm_active s' = xmm_active s
      | Some x \<Rightarrow> bank b rngs {x. bit (xmm_free s') x} (xmm_active s') ((holding loc_xmm (locs s))(v \<mapsto> x)) (insert v P) F"
    and S: "case loc_slot l of None \<Rightarrow> spill_cursor s' = spill_cursor s
      | Some c \<Rightarrow> \<exists>act. bank b rngs {c. spill_cursor s' < c} act ((holding loc_slot (locs s))(v \<mapsto> c)) (insert v P) F"
  shows "scan_inv b rngs (insert v P) F s'"
proof -
  from inv obtain act where len: "length (locs s) = length rngs"
    and g: "bank b rngs (set (free s)) (active s) (holding loc_reg (locs s)) P (insert v F)"
    and x: "bank b rngs {x. bit (xmm_free s) x} (xmm_active s) (holding loc_xmm (locs s)) P (insert v F)"
    and c: "bank b rngs {c. spill_cursor s < c} act (holding loc_slot (locs s)) P (insert v F)"
    unfolding scan_inv_def by blast
  have vl: "v < length (locs s)" using v(2) len by simp
  note skip = bank_skip[where j = v and F = F, OF _ v(1)]
  have "bank b rngs (set (free s')) (active s') (holding loc_reg (locs s')) (insert v P) F"
    using R skip[OF g F] bank_other[OF g vl, of l] unfolding locs
    by (cases "loc_reg l") (simp_all add: holding_update[OF vl])
  moreover have "bank b rngs {x. bit (xmm_free s') x} (xmm_active s') (holding loc_xmm (locs s')) (insert v P) F"
    using X skip[OF x F] bank_other[OF x vl, of l] unfolding locs
    by (cases "loc_xmm l") (simp_all add: holding_update[OF vl])
  moreover have "\<exists>act. bank b rngs {c. spill_cursor s' < c} act (holding loc_slot (locs s')) (insert v P) F"
    using S skip[OF c F] bank_other[OF c vl, of l] unfolding locs
    by (cases "loc_slot l") (auto simp: holding_update[OF vl])
  ultimately show ?thesis using d len unfolding scan_inv_def by (simp add: locs)
qed

lemma trailing_zeros_bit: "x \<noteq> 0 \<Longrightarrow> bit x (trailing_zeros x)"
proof -
  assume "x \<noteq> 0"
  then have ex: "\<exists>k. bit x k" by (auto simp: bit_eq_iff)
  define j where "j = (LEAST k. bit x k)"
  have j: "bit x j" "\<And>k. k < j \<Longrightarrow> \<not> bit x k"
    unfolding j_def using ex by (auto intro: LeastI_ex dest: not_less_Least)
  have "tz_upto LENGTH('a) 0 x = j - 0"
    by (rule tz_upto_first) (use j bit_imp_le_length[of x j] in auto)
  then show ?thesis using j by (simp add: trailing_zeros_def)
qed

lemma clear_bit_set: "{k. bit (m AND NOT (push_bit x 1) :: u16) k} = {k. bit m k} - {x}"
  using bit_imp_le_length[of m] by (auto simp: bit_simps)

lemma remove_at_set:
  assumes "distinct xs" "i < length xs"
  shows "set (remove_at i xs) = set xs - {xs ! i} \<and> distinct (remove_at i xs)"
proof -
  obtain a y c where r: "remove_at i xs = a @ c" and xs: "xs = a @ y # c" and y: "y = xs ! i"
    using id_take_nth_drop[OF assms(2)] unfolding remove_at_def by blast
  show ?thesis unfolding y[symmetric] r using assms(1) unfolding xs by auto
qed

lemma rposition_some: "rposition P xs = Some i \<Longrightarrow> i < length xs \<and> P (xs ! i)"
  unfolding rposition_def by (auto simp: find_Some_iff rev_nth)

lemma and_not_mask: "x AND NOT (mask n) = x - x mod 2 ^ n" for x :: int
proof -
  have "x - (x AND mask n) = x AND NOT (x AND mask n)"
    by (rule disjunctive_diff_eq_and_not) (rule bit_eqI, simp add: bit_simps)
  also have "\<dots> = x AND NOT (mask n)" by (rule bit_eqI) (auto simp: bit_simps)
  finally show ?thesis by (simp add: take_bit_eq_mask[symmetric] take_bit_eq_mod)
qed

lemma slot_room: "cursor \<le> alloc_spill_slot cursor - 8" "cursor \<le> alloc_spill_slot_16 cursor - 16"
proof -
  have m: "(7 :: int) = mask 3" "(15 :: int) = mask 4" by (simp_all add: mask_eq_exp_minus_1)
  have "cursor + 7 - (cursor + 7) mod 2 ^ 3 = alloc_spill_slot cursor - 8"
    "cursor + 15 - (cursor + 15) mod 2 ^ 4 = alloc_spill_slot_16 cursor - 16"
    unfolding alloc_spill_slot_def alloc_spill_slot_16_def Let_def
    using and_not_mask[of "cursor + 7" 3] and_not_mask[of "cursor + 15" 4] unfolding m[symmetric] by linarith+
  then show "cursor \<le> alloc_spill_slot cursor - 8" "cursor \<le> alloc_spill_slot_16 cursor - 16"
    using pos_mod_bound[of 8 "cursor + 7"] pos_mod_bound[of 16 "cursor + 15"] by simp_all
qed

lemma slot_grows: "cursor < alloc_spill_slot cursor" "cursor < alloc_spill_slot_16 cursor"
  using slot_room[of cursor] by simp_all

lemma scan_inv_bank:
  assumes "scan_inv b rngs P F s"
  shows "length (locs s) = length rngs" "distinct (free s)"
    "bank b rngs (set (free s)) (active s) (holding loc_reg (locs s)) P F"
    "bank b rngs {x. bit (xmm_free s) x} (xmm_active s) (holding loc_xmm (locs s)) P F"
    "\<exists>act. bank b rngs {c. spill_cursor s < c} act (holding loc_slot (locs s)) P F"
  using assms unfolding scan_inv_def by blast+

lemma set_loc_updates:
  "set_loc v l (s\<lparr>spill_cursor := c\<rparr>) = (set_loc v l s)\<lparr>spill_cursor := c\<rparr>"
  "(set_loc v l (s\<lparr>xmm_free := m\<rparr>))\<lparr>xmm_active := f\<rparr> = (set_loc v l s)\<lparr>xmm_free := m, xmm_active := f\<rparr>"
  "set_loc v l (s\<lparr>xmm_free := m, xmm_active := f\<rparr>) = (set_loc v l s)\<lparr>xmm_free := m, xmm_active := f\<rparr>"
  by (simp_all add: set_loc_def)

lemma place_slot:
  assumes inv: "scan_inv b rngs P (insert v F) s" and v: "v \<notin> F" "v < length rngs"
    and F: "\<And>k. k \<in> F \<Longrightarrow> lr_start (rngs ! v) < lr_start (rngs ! k)"
    and c: "spill_cursor s < c"
  shows "scan_inv b rngs (insert v P) F (set_loc v (Spill c) s\<lparr>spill_cursor := c\<rparr>)"
proof (rule scan_inv_step[where l = "Spill c", OF inv v F])
  obtain act where act: "bank b rngs {c. spill_cursor s < c} act (holding loc_slot (locs s)) P (insert v F)"
    using scan_inv_bank(5)[OF inv] by blast
  have "bank b rngs {c'. c < c'} (act @ [(lr_end (rngs ! v), c, v)]) ((holding loc_slot (locs s))(v \<mapsto> c)) (insert v P) F"
    by (rule bank_mono[OF bank_take[OF act F]]) (use c in auto)
  then show "case loc_slot (Spill c) of None \<Rightarrow> spill_cursor (set_loc v (Spill c) s\<lparr>spill_cursor := c\<rparr>) = spill_cursor s
      | Some x \<Rightarrow> \<exists>act. bank b rngs {c'. spill_cursor (set_loc v (Spill c) s\<lparr>spill_cursor := c\<rparr>) < c'} act
          ((holding loc_slot (locs s))(v \<mapsto> x)) (insert v P) F"
    by auto
qed (use scan_inv_bank(2)[OF inv] in \<open>simp_all add: set_loc_def\<close>)

lemma place_xmm:
  assumes inv: "scan_inv b rngs P (insert v F) s" and v: "v \<notin> F" "v < length rngs"
    and F: "\<And>k. k \<in> F \<Longrightarrow> lr_start (rngs ! v) < lr_start (rngs ! k)"
    and x: "bit (xmm_free s) x"
  shows "scan_inv b rngs (insert v P) F (set_loc v (Xmm x) s\<lparr>xmm_free := xmm_free s AND NOT (push_bit x 1),
    xmm_active := xmm_active s @ [(lr_end (rngs ! v), x, v)]\<rparr>)" (is "scan_inv _ _ _ _ ?s'")
proof (rule scan_inv_step[where l = "Xmm x", OF inv v F])
  have "bank b rngs {k. bit (xmm_free s AND NOT (push_bit x 1)) k} (xmm_active s @ [(lr_end (rngs ! v), x, v)])
      ((holding loc_xmm (locs s))(v \<mapsto> x)) (insert v P) F"
    unfolding clear_bit_set by (rule bank_take[OF scan_inv_bank(4)[OF inv] F]) (use x in simp_all)
  then show "case loc_xmm (Xmm x) of None \<Rightarrow> xmm_free ?s' = xmm_free s \<and> xmm_active ?s' = xmm_active s
      | Some x \<Rightarrow> bank b rngs {x. bit (xmm_free ?s') x} (xmm_active ?s') ((holding loc_xmm (locs s))(v \<mapsto> x)) (insert v P) F"
    by (simp add: set_loc_def)
qed (use scan_inv_bank(2)[OF inv] in \<open>simp_all add: set_loc_def\<close>)

lemma place_reg:
  assumes inv: "scan_inv b rngs P (insert v F) s" and v: "v \<notin> F" "v < length rngs"
    and F: "\<And>k. k \<in> F \<Longrightarrow> lr_start (rngs ! v) < lr_start (rngs ! k)"
    and pos: "pos < length (free s)"
  shows "scan_inv b rngs (insert v P) F (set_loc v (Reg (free s ! pos)) s\<lparr>free := remove_at pos (free s),
    active := active s @ [(lr_end (rngs ! v), free s ! pos, v)]\<rparr>)" (is "scan_inv _ _ _ _ ?s'")
proof (rule scan_inv_step[where l = "Reg (free s ! pos)", OF inv v F])
  note rem = remove_at_set[OF scan_inv_bank(2)[OF inv] pos]
  have "bank b rngs (set (free s) - {free s ! pos}) (active s @ [(lr_end (rngs ! v), free s ! pos, v)])
      ((holding loc_reg (locs s))(v \<mapsto> free s ! pos)) (insert v P) F"
    by (rule bank_take[OF scan_inv_bank(3)[OF inv] F]) (use pos in simp_all)
  then show "case loc_reg (Reg (free s ! pos)) of None \<Rightarrow> free ?s' = free s \<and> active ?s' = active s
      | Some r \<Rightarrow> bank b rngs (set (free ?s')) (active ?s') ((holding loc_reg (locs s))(v \<mapsto> r)) (insert v P) F"
    using rem by (simp add: set_loc_def)
  show "distinct (free ?s')" using rem by (simp add: set_loc_def)
qed (simp_all add: set_loc_def)

lemma place_const:
  assumes inv: "scan_inv b rngs P (insert v F) s" and v: "v \<notin> F" "v < length rngs"
    and F: "\<And>k. k \<in> F \<Longrightarrow> lr_start (rngs ! v) < lr_start (rngs ! k)"
    and "loc_reg l = None" "loc_xmm l = None" "loc_slot l = None"
  shows "scan_inv b rngs (insert v P) F (set_loc v l s)"
  by (rule scan_inv_step[where l = "l", OF inv v F]) (use scan_inv_bank(2)[OF inv] assms(5-) in \<open>simp_all add: set_loc_def\<close>)

lemma reuse_inv:
  assumes inv: "scan_inv b rngs P (insert v F) s" and v: "v \<notin> F" "v < length rngs"
    and F: "\<And>k. k \<in> F \<Longrightarrow> lr_start (rngs ! v) < lr_start (rngs ! k)"
    and r: "reuse b rngs v s = Some s'"
  shows "scan_inv b rngs (insert v P) F s'"
proof -
  define src where "src = arg (code b ! v) 0"
  have src: "src < length (locs s)" "lr_end (rngs ! src) = lr_start (rngs ! v)" "takes_over b v src"
    using r scan_inv_bank(1)[OF inv] by (auto simp: reuse_def Let_def src_def takes_over_def split: if_splits)
  show ?thesis
  proof (cases "locs s ! src")
    case (Reg x)
    then have h: "holding loc_reg (locs s) src = Some x" using src(1) by (simp add: holding_def)
    have s': "s' = set_loc v (Reg x) s\<lparr>active := replace_entry x src (lr_end (rngs ! v), x, v) (active s)\<rparr>"
      using r Reg by (auto simp: reuse_def Let_def src_def split: if_splits)
    show ?thesis
      by (rule scan_inv_step[where l = "Reg x", OF inv v F])
        (use scan_inv_bank(2)[OF inv] bank_reuse[OF scan_inv_bank(3)[OF inv] F h src(2,3)]
          in \<open>simp_all add: s' set_loc_def\<close>)
  next
    case (Xmm x)
    then have h: "holding loc_xmm (locs s) src = Some x" using src(1) by (simp add: holding_def)
    have s': "s' = set_loc v (Xmm x) s\<lparr>xmm_active := replace_entry x src (lr_end (rngs ! v), x, v) (xmm_active s)\<rparr>"
      using r Xmm by (auto simp: reuse_def Let_def src_def split: if_splits)
    show ?thesis
      by (rule scan_inv_step[where l = "Xmm x", OF inv v F])
        (use scan_inv_bank(2)[OF inv] bank_reuse[OF scan_inv_bank(4)[OF inv] F h src(2,3)]
          in \<open>simp_all add: s' set_loc_def\<close>)
  next
    case (Spill c)
    then have h: "holding loc_slot (locs s) src = Some c" using src(1) by (simp add: holding_def)
    have s': "s' = set_loc v (Spill c) s"
      using r Spill by (auto simp: reuse_def Let_def src_def split: if_splits)
    obtain act where "bank b rngs {c. spill_cursor s < c} act (holding loc_slot (locs s)) P (insert v F)"
      using scan_inv_bank(5)[OF inv] by blast
    from bank_reuse[OF this F h src(2,3)] show ?thesis
      by (intro scan_inv_step[where l = "Spill c", OF inv v F]) (use scan_inv_bank(2)[OF inv] in \<open>auto simp: s' set_loc_def\<close>)
  next
    case (ImmLoc c)
    then have s': "s' = set_loc v (ImmLoc c) s"
      using r by (auto simp: reuse_def Let_def src_def split: if_splits)
    show ?thesis unfolding s' by (rule place_const[OF inv v F]) simp_all
  next
    case NoLoc
    then have s': "s' = set_loc v NoLoc s"
      using r by (auto simp: reuse_def Let_def src_def split: if_splits)
    show ?thesis unfolding s' by (rule place_const[OF inv v F]) simp_all
  qed
qed

lemma scan_step_inv:
  assumes inv: "scan_inv b rngs P (insert v F) s" and v: "v \<notin> F" "v < length rngs"
    and F: "\<And>k. k \<in> F \<Longrightarrow> lr_start (rngs ! v) < lr_start (rngs ! k)"
  shows "scan_inv b rngs (insert v P) F (scan_step b masks xmasks rngs s v)"
proof -
  let ?s = "expire (lr_start (rngs ! v)) s"
  have inv': "scan_inv b rngs P (insert v F) ?s" by (rule expire_inv[OF inv]) (use F in \<open>auto simp: less_imp_le\<close>)
  let ?c = "xmm_free ?s AND NOT (interior_mask xmasks (rngs ! v))"
  have taken: "bit (xmm_free ?s) (trailing_zeros ?c)" if "?c \<noteq> 0"
    using trailing_zeros_bit[OF that] by (simp add: bit_and_iff)
  have vec: "scan_inv b rngs (insert v P) F (scan_vector xmasks rngs v ?s)"
    using place_slot[OF inv' v F slot_grows(2)] place_xmm[OF inv' v F taken]
    by (simp add: scan_vector_def Let_def set_loc_def)
  have fresh: "scan_inv b rngs (insert v P) F (scan_fresh masks xmasks rngs v ?s)"
  proof (cases "rposition (\<lambda>r. interior_mask masks (rngs ! v) AND push_bit r 1 = 0) (free ?s)")
    case None
    show ?thesis
    proof (cases "?c = 0")
      case True
      then show ?thesis using place_slot[OF inv' v F slot_grows(1)] None
        by (simp add: scan_fresh_def Let_def take_spill_def set_loc_updates)
    next
      case False
      from place_xmm[OF inv' v F taken[OF False]] False None show ?thesis
        by (simp add: scan_fresh_def Let_def take_spill_def set_loc_updates)
    qed
  next
    case (Some pos)
    then have "pos < length (free ?s)" using rposition_some by blast
    from place_reg[OF inv' v F this] Some show ?thesis by (simp add: scan_fresh_def Let_def)
  qed
  show ?thesis
    using place_const[OF inv' v F] vec fresh reuse_inv[OF inv' v F]
    by (auto simp: scan_step_def Let_def split: option.split)
qed

section \<open>The allocation\<close>

lemma scan_fold_inv:
  assumes "sorted_wrt (\<lambda>i j. lr_start (rngs ! i) < lr_start (rngs ! j)) vs" "\<And>v. v \<in> set vs \<Longrightarrow> v < length rngs"
    "scan_inv b rngs P (set vs) s"
  shows "scan_inv b rngs (P \<union> set vs) {} (foldl (scan_step b masks xmasks rngs) s vs)"
  using assms
proof (induction vs arbitrary: P s)
  case (Cons v vs)
  have "scan_inv b rngs (insert v P) (set vs) (scan_step b masks xmasks rngs s v)"
    by (rule scan_step_inv) (use Cons.prems in auto)
  from Cons.IH[OF _ _ this] Cons.prems show ?case by simp
qed simp

lemma scan_init_inv:
  assumes "distinct pool"
  shows "scan_inv b rngs {} F (scan_init (length rngs) pool)"
proof -
  have h: "holding k (replicate n NoLoc) = (\<lambda>i. None)" if "k NoLoc = None" for k :: "loc \<Rightarrow> 'r option" and n
    using that by (auto simp: holding_def fun_eq_iff)
  show ?thesis using assms
    unfolding scan_inv_def scan_init_def by (auto simp: h bank_ok_def intro: exI[of _ "[]"])
qed

lemma sorted_starts:
  fixes f :: "'a \<Rightarrow> nat"
  assumes "distinct (map f vs)"
  shows "sorted_wrt (\<lambda>i j. f i < f j) (sort_key f vs)"
proof -
  have "distinct (map f (sort_key f vs))" using assms by (simp add: distinct_map)
  then have "sorted_wrt (<) (map f (sort_key f vs))" by (simp add: strict_sorted_iff)
  then show ?thesis by (simp add: sorted_wrt_map)
qed

definition stored :: "loc \<Rightarrow> bool" where
  "stored l \<longleftrightarrow> (case l of Reg r \<Rightarrow> True | Xmm r \<Rightarrow> True | Spill c \<Rightarrow> True | _ \<Rightarrow> False)"

lemma linear_scan_disjoint:
  assumes al: "linear_scan h b rngs pool = Some al" and pool: "distinct pool"
    and starts: "distinct (map (\<lambda>i. lr_start (rngs ! i)) (filter (\<lambda>i. \<not> is_dead (rngs ! i)) [0..<length rngs]))"
    and ij: "i \<noteq> j" "i < length rngs" "j < length rngs" "lr_start (rngs ! i) \<le> lr_start (rngs ! j)"
    and same: "al_locs al ! i = al_locs al ! j" "stored (al_locs al ! i)"
  shows "lr_end (rngs ! i) < lr_start (rngs ! j) \<or> lr_end (rngs ! i) = lr_start (rngs ! j) \<and> takes_over b j i"
proof -
  let ?st = "\<lambda>i. lr_start (rngs ! i)"
  obtain xs masks xmasks where "al_locs al = locs (foldl (scan_step b masks xmasks rngs) (scan_init (length rngs) pool) (intervals b rngs))"
    using al by (auto simp: linear_scan_def Let_def split: option.splits prod.splits)
  moreover define s where "s = foldl (scan_step b masks xmasks rngs) (scan_init (length rngs) pool) (intervals b rngs)"
  ultimately have locs: "al_locs al = locs s" by simp
  have "distinct (map ?st (filter (\<lambda>i. a_ty (code b ! i) \<noteq> TyVoid) (filter (\<lambda>i. \<not> is_dead (rngs ! i)) [0..<length rngs])))"
    using starts by (rule distinct_map_filter)
  then have "sorted_wrt (\<lambda>i j. ?st i < ?st j) (intervals b rngs)"
    unfolding intervals_def by (intro sorted_starts) (simp add: conj_commute)
  from scan_fold_inv[OF this _ scan_init_inv[OF pool], of b masks xmasks]
  have inv: "scan_inv b rngs (set (intervals b rngs)) {} s" by (simp add: s_def intervals_def)
  have len: "i < length (locs s)" "j < length (locs s)" using ij scan_inv_bank(1)[OF inv] by simp_all
  obtain act where slot: "bank b rngs {c. spill_cursor s < c} act (holding loc_slot (locs s)) (set (intervals b rngs)) {}"
    using scan_inv_bank(5)[OF inv] by blast
  consider r where "locs s ! i = Reg r" | x where "locs s ! i = Xmm x" | c where "locs s ! i = Spill c"
    using same(2) by (cases "locs s ! i") (simp_all add: locs stored_def)
  then show ?thesis
  proof cases
    case (1 r)
    moreover from this have "locs s ! j = Reg r" using same(1) by (simp add: locs)
    ultimately show ?thesis using bank_okD(6)[OF scan_inv_bank(3)[OF inv], of i r j] ij len
      by (simp add: holding_def)
  next
    case (2 x)
    moreover from this have "locs s ! j = Xmm x" using same(1) by (simp add: locs)
    ultimately show ?thesis using bank_okD(6)[OF scan_inv_bank(4)[OF inv], of i x j] ij len
      by (simp add: holding_def)
  next
    case (3 c)
    moreover from this have "locs s ! j = Spill c" using same(1) by (simp add: locs)
    ultimately show ?thesis using bank_okD(6)[OF slot, of i c j] ij len
      by (simp add: holding_def)
  qed
qed

section \<open>The live ranges\<close>

lemma place_fold:
  "foldl place ((pos, rngs), t) xs =
     ((foldl (\<lambda>p k. p[xs ! k := t + k]) pos [0..<length xs],
       foldl (\<lambda>p k. p[xs ! k := lr_point (t + k)]) rngs [0..<length xs]), t + length xs)"
proof (induction xs rule: rev_induct)
  case (snoc x xs)
  have "foldl (\<lambda>p k. p[(xs @ [x]) ! k := t + k]) pos [0..<length xs] = foldl (\<lambda>p k. p[xs ! k := t + k]) pos [0..<length xs]"
    "foldl (\<lambda>p k. p[(xs @ [x]) ! k := lr_point (t + k)]) rngs [0..<length xs] =
      foldl (\<lambda>p k. p[xs ! k := lr_point (t + k)]) rngs [0..<length xs]"
    by (rule foldl_cong; auto simp: nth_append)+
  then show ?case using snoc by (simp add: place_def)
qed simp

text \<open>What later steps keep of a range: its start and its life; its end only grows.\<close>

definition grows :: "live_range list \<Rightarrow> live_range list \<Rightarrow> bool" where
  "grows rs rs' \<longleftrightarrow> length rs' = length rs \<and> (\<forall>v < length rs. lr_count (rs ! v) < 2 ^ 16 \<longrightarrow>
     lr_start (rs' ! v) = lr_start (rs ! v) \<and> lr_count (rs ! v) \<le> lr_count (rs' ! v) \<and>
     lr_count (rs' ! v) < 2 ^ 16 \<and> is_dead (rs' ! v) = is_dead (rs ! v))"

lemma growsD:
  assumes "grows rs rs'" "v < length rs" "lr_count (rs ! v) < 2 ^ 16"
  shows "v < length rs'" "lr_start (rs' ! v) = lr_start (rs ! v)" "lr_count (rs' ! v) < 2 ^ 16"
    "is_dead (rs' ! v) = is_dead (rs ! v)" "lr_end (rs ! v) \<le> lr_end (rs' ! v)"
  using assms unfolding grows_def lr_end_def by (simp_all add: diff_le_mono)

lemma grows_refl: "grows rs rs"
  unfolding grows_def by blast

lemma growsI:
  assumes "length rs' = length rs"
    and "\<And>v. v < length rs \<Longrightarrow> lr_count (rs ! v) < 2 ^ 16 \<Longrightarrow>
      lr_start (rs' ! v) = lr_start (rs ! v) \<and> lr_count (rs ! v) \<le> lr_count (rs' ! v) \<and>
      lr_count (rs' ! v) < 2 ^ 16 \<and> is_dead (rs' ! v) = is_dead (rs ! v)"
  shows "grows rs rs'"
  using assms unfolding grows_def by blast

lemma grows_at:
  assumes "grows rs rs'" "v < length rs" "lr_count (rs ! v) < 2 ^ 16"
  shows "lr_start (rs' ! v) = lr_start (rs ! v)" "lr_count (rs ! v) \<le> lr_count (rs' ! v)"
    "lr_count (rs' ! v) < 2 ^ 16" "is_dead (rs' ! v) = is_dead (rs ! v)"
  using assms unfolding grows_def by blast+

lemma grows_trans:
  assumes "grows rs rs'" "grows rs' rs''"
  shows "grows rs rs''"
proof (rule growsI)
  have l: "length rs' = length rs" using assms(1) by (simp add: grows_def)
  then show "length rs'' = length rs" using assms(2) by (simp add: grows_def)
  fix v assume v: "v < length rs" "lr_count (rs ! v) < 2 ^ 16"
  note a = grows_at[OF assms(1) v]
  note b = grows_at[OF assms(2) v(1)[folded l] a(3)]
  show "lr_start (rs'' ! v) = lr_start (rs ! v) \<and> lr_count (rs ! v) \<le> lr_count (rs'' ! v) \<and>
      lr_count (rs'' ! v) < 2 ^ 16 \<and> is_dead (rs'' ! v) = is_dead (rs ! v)"
    using a b by linarith
qed

lemma extend_to_grows:
  assumes "0 < lr_count r" "lr_count r < 2 ^ 16"
  shows "lr_start (extend_to t r) = lr_start r" "lr_count r \<le> lr_count (extend_to t r)"
    "lr_count (extend_to t r) < 2 ^ 16"
  using assms unfolding extend_to_def Let_def by (simp_all add: min_def)

lemma extend_use_grows: "grows rs (extend_use t rs v)"
proof (cases "v < length rs \<and> \<not> is_dead (rs ! v) \<and> vr_is_some v \<and> lr_end (rs ! v) < t")
  case True
  then have e: "extend_use t rs v = rs[v := extend_to t (rs ! v)]" by (simp add: extend_use_def)
  show ?thesis unfolding grows_def
  proof (intro conjI allI impI)
    fix w assume w: "w < length rs" "lr_count (rs ! w) < 2 ^ 16"
    have "lr_start (extend_use t rs v ! w) = lr_start (rs ! w) \<and> lr_count (rs ! w) \<le> lr_count (extend_use t rs v ! w) \<and>
        lr_count (extend_use t rs v ! w) < 2 ^ 16 \<and> is_dead (extend_use t rs v ! w) = is_dead (rs ! w)"
    proof (cases "w = v")
      case eq: True
      then have "0 < lr_count (rs ! v)" using True by (simp add: is_dead_def)
      note g = extend_to_grows[OF this w(2)[unfolded eq], of t]
      then show ?thesis using True w eq g(2) unfolding e by (simp add: is_dead_def)
    qed (use w in \<open>simp add: e\<close>)
    then show "lr_start (extend_use t rs v ! w) = lr_start (rs ! w)" "lr_count (rs ! w) \<le> lr_count (extend_use t rs v ! w)"
      "lr_count (extend_use t rs v ! w) < 2 ^ 16" "is_dead (extend_use t rs v ! w) = is_dead (rs ! w)" by blast+
  qed (simp add: e)
next
  case False
  then show ?thesis by (auto simp: extend_use_def grows_refl)
qed

lemma foldl_grows: "(\<And>rs v. grows rs (f rs v)) \<Longrightarrow> grows rs (foldl f rs vs)"
proof (induction vs arbitrary: rs)
  case (Cons v vs)
  then show ?case using grows_trans[of rs "f rs v"] by simp
qed (simp add: grows_refl)

lemma extend_use_end:
  assumes "v < length rs" "v \<noteq> 0" "\<not> is_dead (rs ! v)" "t < 2 ^ 16 - 1"
  shows "t \<le> lr_end (extend_use t rs v ! v)"
  using assms by (auto simp: extend_use_def extend_to_def lr_end_def Let_def vr_is_some_def is_dead_def)

lemma foldl_extend_end:
  assumes "v \<in> set vs" "v < length rs" "v \<noteq> 0" "\<not> is_dead (rs ! v)" "lr_count (rs ! v) < 2 ^ 16" "t < 2 ^ 16 - 1"
  shows "t \<le> lr_end (foldl (extend_use t) rs vs ! v)"
proof -
  obtain ys zs where vs: "vs = ys @ v # zs" using assms(1) by (meson split_list)
  let ?r = "foldl (extend_use t) rs ys"
  have g: "grows rs ?r" by (rule foldl_grows) (rule extend_use_grows)
  note r = growsD[OF g assms(2,5)]
  have "t \<le> lr_end (extend_use t ?r v ! v)"
    by (rule extend_use_end) (use r assms in simp_all)
  also have "\<dots> \<le> lr_end (foldl (extend_use t) (extend_use t ?r v) zs ! v)"
    by (rule growsD(5)[OF foldl_grows[OF extend_use_grows]])
      (use growsD(1,3)[OF extend_use_grows r(1,3)] in simp_all)
  finally show ?thesis by (simp add: vs)
qed

lemma live_ranges_cover:
  assumes inv: "block_inv b xs" and size: "length (code b) \<le> MAX_NODES"
    and rngs: "compute_live_ranges_with b tus = Some rngs"
  shows "length rngs = length (code b)"
    and "p < length xs \<Longrightarrow> lr_start (rngs ! (xs ! p)) = p \<and> \<not> is_dead (rngs ! (xs ! p))"
    and "v \<notin> set xs \<Longrightarrow> v < length rngs \<Longrightarrow> is_dead (rngs ! v)"
    and "t < length xs \<Longrightarrow> p < length xs \<Longrightarrow> xs ! p \<in> set (a_args (code b ! (xs ! t))) \<Longrightarrow> t \<le> lr_end (rngs ! (xs ! p))"
    and "p < length xs \<Longrightarrow> xs ! p \<in> set (term_refs (terminal b) @ tus) \<Longrightarrow> length xs - 1 \<le> lr_end (rngs ! (xs ! p))"
proof -
  let ?n = "length (code b)" and ?m = "length xs"
  have m: "?m \<le> 2 ^ 16 - 1" using block_inv_length[OF inv] size by (simp add: MAX_NODES_def)
  have xn: "xs ! p < ?n" "xs ! p \<noteq> 0" if "p < ?m" for p
    using block_invD(2,3)[OF inv] nth_mem[OF that] by (blast, metis)
  have inj: "\<And>i j. i < ?m \<Longrightarrow> j < ?m \<Longrightarrow> xs ! i = xs ! j \<Longrightarrow> i = j"
    using block_invD(1)[OF inv] by (simp add: nth_eq_iff_index_eq)
  define pos where "pos = foldl (\<lambda>p k. p[xs ! k := k]) (replicate ?n 0) [0..<?m]"
  define r0 where "r0 = foldl (\<lambda>p k. p[xs ! k := lr_point k]) (replicate ?n DEAD) [0..<?m]"
  define last_live where "last_live = (case tail_vr b of Some v \<Rightarrow> pos ! v | None \<Rightarrow> 0)"
  define r1 where "r1 = foldl (extend_use last_live) r0 (term_refs (terminal b) @ tus)"
  have pf: "foldl place ((replicate ?n 0, replicate ?n DEAD), 0) xs = ((pos, r0), ?m)"
    by (simp add: place_fold pos_def r0_def)
  have rn: "rngs = foldl (\<lambda>rs v. foldl (extend_use (pos ! v)) rs (a_args (code b ! v))) r1 xs"
    using rngs unfolding compute_live_ranges_with_def iter_live_inv(1)[OF inv] option.case Let_def pf prod.case
      last_live_def[symmetric] r1_def[symmetric] by (simp only: option.inject)
  have posx: "pos ! (xs ! p) = p" if "p < ?m" for p
    unfolding pos_def by (rule foldl_updates_nth) (use that inj xn in auto)
  have r0x: "r0 ! (xs ! p) = lr_point p" if "p < ?m" for p
    unfolding r0_def by (rule foldl_updates_nth) (use that inj xn in auto)
  have r0d: "r0 ! v = DEAD" if "v \<notin> set xs" "v < ?n" for v
  proof -
    have "xs ! k \<noteq> v" if "k < ?m" for k using \<open>v \<notin> set xs\<close> nth_mem[OF that] by metis
    then have "r0 ! v = replicate ?n DEAD ! v" unfolding r0_def by (rule foldl_updates_other)
    then show ?thesis using \<open>v < ?n\<close> by simp
  qed
  have l0: "length r0 = ?n" by (simp add: r0_def)
  have step: "grows rs (foldl (extend_use (pos ! v)) rs (a_args (code b ! v)))" for rs v
    by (rule foldl_grows) (rule extend_use_grows)
  have g1: "grows r0 r1" unfolding r1_def by (rule foldl_grows) (rule extend_use_grows)
  have g2: "grows r1 rngs" unfolding rn by (rule foldl_grows) (rule step)
  note g = grows_trans[OF g1 g2]
  have c0: "lr_count (r0 ! v) < 2 ^ 16" if "v < ?n" for v
    using that r0d[of v] r0x by (cases "v \<in> set xs") (auto simp: in_set_conv_nth lr_point_def DEAD_def)
  show len: "length rngs = ?n" using g l0 by (simp add: grows_def)
  show "p < ?m \<Longrightarrow> lr_start (rngs ! (xs ! p)) = p \<and> \<not> is_dead (rngs ! (xs ! p))" for p
    using growsD(2,4)[OF g, of "xs ! p"] c0 r0x[of p] xn[of p] l0 m by (simp add: lr_point_def is_dead_def)
  show "v \<notin> set xs \<Longrightarrow> v < length rngs \<Longrightarrow> is_dead (rngs ! v)"
    using growsD(4)[OF g, of v] c0 r0d[of v] l0 len by (simp add: DEAD_def is_dead_def)
  have live1: "xs ! p < length r1" "\<not> is_dead (r1 ! (xs ! p))" "lr_count (r1 ! (xs ! p)) < 2 ^ 16" if "p < ?m" for p
    using growsD[OF g1, of "xs ! p"] c0[of "xs ! p"] r0x[OF that] xn[OF that] l0 by (simp_all add: lr_point_def is_dead_def)
  show "t \<le> lr_end (rngs ! (xs ! p))" if t: "t < ?m" and p: "p < ?m" and u: "xs ! p \<in> set (a_args (code b ! (xs ! t)))"
  proof -
    obtain ys zs where xs: "xs = ys @ xs ! t # zs" by (metis id_take_nth_drop t)
    let ?f = "\<lambda>rs v. foldl (extend_use (pos ! v)) rs (a_args (code b ! v))"
    let ?r = "foldl ?f r1 ys"
    have gr: "grows r1 ?r" by (rule foldl_grows) (rule step)
    note r = growsD[OF gr live1(1,3)[OF p]]
    have "t \<le> lr_end (?f ?r (xs ! t) ! (xs ! p))"
      unfolding posx[OF t] by (rule foldl_extend_end[OF u]) (use r live1[OF p] xn[OF p] t m in simp_all)
    also have "\<dots> \<le> lr_end (foldl ?f (?f ?r (xs ! t)) zs ! (xs ! p))"
      by (rule growsD(5)[OF foldl_grows[OF step]]) (use growsD(1,3)[OF step r(1,3)] in simp_all)
    also have "foldl ?f (?f ?r (xs ! t)) zs = foldl ?f r1 (ys @ xs ! t # zs)" by simp
    also have "\<dots> = rngs" unfolding rn using xs by simp
    finally show ?thesis .
  qed
  show "?m - 1 \<le> lr_end (rngs ! (xs ! p))" if p: "p < ?m" and u: "xs ! p \<in> set (term_refs (terminal b) @ tus)"
  proof -
    have "xs \<noteq> []" using p by auto
    then have "tail b = xs ! (?m - 1)" using block_invD(5)[OF inv] by (simp add: last_conv_nth last_link_nonempty)
    then have "tail_vr b = Some (xs ! (?m - 1))"
      using xn[of "?m - 1"] p by (simp add: tail_vr_def link_vr_def LINK_NONE_def)
    then have l: "last_live = ?m - 1" using posx[of "?m - 1"] p by (simp add: last_live_def)
    have "?m - 1 \<le> lr_end (r1 ! (xs ! p))"
      unfolding r1_def l
      by (rule foldl_extend_end[OF u]) (use r0x[OF p] xn[OF p] l0 p m in \<open>simp_all add: lr_point_def is_dead_def\<close>)
    also have "\<dots> \<le> lr_end (rngs ! (xs ! p))" by (rule growsD(5)[OF g2 live1(1,3)[OF p]])
    finally show ?thesis .
  qed
qed

section \<open>Where values are placed\<close>

text \<open>A slot \<open>c\<close> holds the bytes from \<open>rbp - c\<close> up: 16 of a vector, 8 of any other value.\<close>

definition slot_width :: "block \<Rightarrow> nat \<Rightarrow> int" where
  "slot_width b i = (if a_ty (code b ! i) = TyU128 then 16 else 8)"

definition good_loc :: "block \<Rightarrow> reg_mask list \<Rightarrow> live_range list \<Rightarrow> nat set \<Rightarrow> int \<Rightarrow> nat \<Rightarrow> loc \<Rightarrow> bool" where
  "good_loc b xmasks rngs pool cursor i l = (case l of
       Reg r \<Rightarrow> r \<in> pool
     | Xmm x \<Rightarrow> a_op (code b ! i) \<noteq> Op_Identity \<longrightarrow> \<not> bit (interior_mask xmasks (rngs ! i)) x
     | Spill c \<Rightarrow> SAVED_SIZE \<le> c - slot_width b i \<and> c \<le> cursor
     | _ \<Rightarrow> True)"

definition apart :: "block \<Rightarrow> loc \<Rightarrow> nat \<Rightarrow> loc \<Rightarrow> bool" where
  "apart b l j l' \<longleftrightarrow> (\<forall>c d. l = Spill c \<longrightarrow> l' = Spill d \<longrightarrow> c < d \<longrightarrow> c \<le> d - slot_width b j)"

definition placed :: "block \<Rightarrow> reg_mask list \<Rightarrow> live_range list \<Rightarrow> nat set \<Rightarrow> scan_state \<Rightarrow> bool" where
  "placed b xmasks rngs pool s \<longleftrightarrow>
     SAVED_SIZE \<le> spill_cursor s \<and> set (free s) \<subseteq> pool \<and> entry_reg ` set (active s) \<subseteq> pool \<and>
     (\<forall>i < length (locs s). good_loc b xmasks rngs pool (spill_cursor s) i (locs s ! i)) \<and>
     (\<forall>i < length (locs s). \<forall>j < length (locs s). apart b (locs s ! i) j (locs s ! j))"

lemma placedD:
  assumes "placed b xmasks rngs pool s"
  shows "SAVED_SIZE \<le> spill_cursor s" "set (free s) \<subseteq> pool" "entry_reg ` set (active s) \<subseteq> pool"
    "i < length (locs s) \<Longrightarrow> good_loc b xmasks rngs pool (spill_cursor s) i (locs s ! i)"
    "i < length (locs s) \<Longrightarrow> j < length (locs s) \<Longrightarrow> apart b (locs s ! i) j (locs s ! j)"
  using assms unfolding placed_def by blast+

lemma good_loc_mono: "good_loc b xmasks rngs pool c i l \<Longrightarrow> c \<le> c' \<Longrightarrow> good_loc b xmasks rngs pool c' i l"
  by (auto simp: good_loc_def split: loc.splits)

lemma placed_step:
  assumes ok: "placed b xmasks rngs pool s" and l: "locs s' = (locs s)[v := l]" and c: "spill_cursor s \<le> spill_cursor s'"
    and f: "set (free s') \<subseteq> pool" "entry_reg ` set (active s') \<subseteq> pool"
    and g: "good_loc b xmasks rngs pool (spill_cursor s') v l"
    and a: "\<And>j. j < length (locs s) \<Longrightarrow> apart b (locs s ! j) v l \<and> apart b l j (locs s ! j)"
  shows "placed b xmasks rngs pool s'"
  unfolding placed_def
proof (intro conjI allI impI)
  show "SAVED_SIZE \<le> spill_cursor s'" using placedD(1)[OF ok] c by simp
  fix i assume i: "i < length (locs s')"
  then have i': "i < length (locs s)" by (simp add: l)
  show "good_loc b xmasks rngs pool (spill_cursor s') i (locs s' ! i)"
    using good_loc_mono[OF placedD(4)[OF ok i'] c] g i' by (cases "i = v") (simp_all add: l)
  fix j assume "j < length (locs s')"
  then have j': "j < length (locs s)" by (simp add: l)
  have "apart b l v l" by (simp add: apart_def)
  then show "apart b (locs s' ! i) j (locs s' ! j)"
    using a[OF i'] a[OF j'] placedD(5)[OF ok i' j'] i' j' unfolding l
    by (cases "i = v"; cases "j = v") simp_all
qed (use f in blast)+

lemma apart_other: "loc_slot l = None \<Longrightarrow> apart b l j l'" "loc_slot l = None \<Longrightarrow> apart b l' j l"
  by (auto simp: apart_def)

lemma replace_entry_regs: "entry_reg ` set (replace_entry r i (e, r, v) xs) \<subseteq> insert r (entry_reg ` set xs)"
proof (induction xs)
  case (Cons x xs)
  obtain e' r' i' where "x = (e', r', i')" by (cases x)
  then show ?case using Cons by (simp add: subset_insertI2 image_subset_iff) blast
qed simp

lemma placed_set:
  assumes ok: "placed b xmasks rngs pool s" and "loc_slot l = None"
    and "good_loc b xmasks rngs pool (spill_cursor s) v l"
  shows "placed b xmasks rngs pool (set_loc v l s)"
  by (rule placed_step[where l = l and v = v, OF ok])
    (use assms placedD(2,3)[OF ok] in \<open>auto simp: set_loc_def apart_other\<close>)

lemma placed_expire: "placed b xmasks rngs pool s \<Longrightarrow> placed b xmasks rngs pool (expire t s)"
  unfolding placed_def by (auto simp: expire_def case_entry)

lemma placed_slot:
  assumes ok: "placed b xmasks rngs pool s"
    and c: "spill_cursor s \<le> c - slot_width b v"
  shows "placed b xmasks rngs pool (set_loc v (Spill c) s\<lparr>spill_cursor := c\<rparr>)"
proof (rule placed_step[where l = "Spill c" and v = v, OF ok])
  have w: "0 < slot_width b v" by (simp add: slot_width_def)
  show "good_loc b xmasks rngs pool (spill_cursor (set_loc v (Spill c) s\<lparr>spill_cursor := c\<rparr>)) v (Spill c)"
    using placedD(1)[OF ok] c by (simp add: good_loc_def)
  show "spill_cursor s \<le> spill_cursor (set_loc v (Spill c) s\<lparr>spill_cursor := c\<rparr>)" using c w by simp
  fix j assume j: "j < length (locs s)"
  show "apart b (locs s ! j) v (Spill c) \<and> apart b (Spill c) j (locs s ! j)"
    using placedD(4)[OF ok j] c w by (auto simp: apart_def good_loc_def)
qed (use placedD(2,3)[OF ok] in \<open>auto simp: set_loc_def\<close>)

lemma placed_vector:
  assumes ok: "placed b xmasks rngs pool s" and ty: "a_ty (code b ! v) = TyU128"
  shows "placed b xmasks rngs pool (scan_vector xmasks rngs v s)"
proof (cases "xmm_free s AND NOT (interior_mask xmasks (rngs ! v)) = 0")
  case True
  have "spill_cursor s \<le> alloc_spill_slot_16 (spill_cursor s) - slot_width b v"
    using slot_room(2) ty by (simp add: slot_width_def)
  from placed_slot[OF ok this] show ?thesis using True by (simp add: scan_vector_def Let_def set_loc_def)
next
  case False
  let ?x = "trailing_zeros (xmm_free s AND NOT (interior_mask xmasks (rngs ! v)))"
  have "\<not> bit (interior_mask xmasks (rngs ! v)) ?x"
    using trailing_zeros_bit[OF False] by (simp add: bit_simps)
  then have "placed b xmasks rngs pool (set_loc v (Xmm ?x) s)"
    by (intro placed_set[OF ok]) (simp_all add: good_loc_def)
  then show ?thesis using False unfolding placed_def by (simp add: scan_vector_def Let_def set_loc_def)
qed

lemma placed_fresh:
  assumes ok: "placed b xmasks rngs pool s" and ty: "a_ty (code b ! v) \<noteq> TyU128"
  shows "placed b xmasks rngs pool (scan_fresh masks xmasks rngs v s)"
proof (cases "rposition (\<lambda>r. interior_mask masks (rngs ! v) AND push_bit r 1 = 0) (free s)")
  case (Some pos)
  then have r: "free s ! pos \<in> pool" using rposition_some placedD(2)[OF ok] by fastforce
  have "set (remove_at pos (free s)) \<subseteq> pool"
    using placedD(2)[OF ok] unfolding remove_at_def by (auto dest: in_set_takeD in_set_dropD)
  moreover have "placed b xmasks rngs pool (set_loc v (Reg (free s ! pos)) s)"
    by (rule placed_set[OF ok]) (use r in \<open>simp_all add: good_loc_def\<close>)
  ultimately show ?thesis using Some r unfolding placed_def by (simp add: scan_fresh_def Let_def set_loc_def)
next
  case None
  show ?thesis
  proof (cases "xmm_free s AND NOT (interior_mask xmasks (rngs ! v)) = 0")
    case True
    have "spill_cursor s \<le> alloc_spill_slot (spill_cursor s) - slot_width b v"
      using slot_room(1) ty by (simp add: slot_width_def)
    from placed_slot[OF ok this] show ?thesis
      using True None by (simp add: scan_fresh_def Let_def take_spill_def set_loc_updates)
  next
    case False
    let ?x = "trailing_zeros (xmm_free s AND NOT (interior_mask xmasks (rngs ! v)))"
    have "\<not> bit (interior_mask xmasks (rngs ! v)) ?x"
      using trailing_zeros_bit[OF False] by (simp add: bit_simps)
    then have "placed b xmasks rngs pool (set_loc v (Xmm ?x) s)"
      by (intro placed_set[OF ok]) (simp_all add: good_loc_def)
    then show ?thesis using False None
      unfolding placed_def by (simp add: scan_fresh_def Let_def take_spill_def set_loc_def)
  qed
qed

lemma placed_reuse:
  assumes ok: "placed b xmasks rngs pool s" and len: "length (locs s) = length rngs"
    and ty: "a_ty (code b ! v) \<noteq> TyU128" and r: "reuse b rngs v s = Some s'"
  shows "placed b xmasks rngs pool s'"
proof -
  define src where "src = arg (code b ! v) 0"
  have src: "src < length (locs s)" using r len by (auto simp: reuse_def Let_def src_def split: if_splits)
  note g = placedD(4)[OF ok src]
  show ?thesis
  proof (cases "locs s ! src")
    case (Reg x)
    have "placed b xmasks rngs pool (set_loc v (Reg x) s)"
      by (rule placed_set[OF ok]) (use g Reg in \<open>simp_all add: good_loc_def\<close>)
    moreover have "x \<in> pool" using g Reg by (simp add: good_loc_def)
    moreover have "s' = set_loc v (Reg x) s\<lparr>active := replace_entry x src (lr_end (rngs ! v), x, v) (active s)\<rparr>"
      using r Reg by (auto simp: reuse_def Let_def src_def split: if_splits)
    ultimately show ?thesis using replace_entry_regs[of x src "lr_end (rngs ! v)" v "active s"]
      unfolding placed_def by (auto simp: set_loc_def)
  next
    case (Xmm x)
    have op: "a_op (code b ! v) = Op_Identity" using r Xmm by (auto simp: reuse_def Let_def src_def split: if_splits)
    have "placed b xmasks rngs pool (set_loc v (Xmm x) s)"
      by (rule placed_set[OF ok]) (simp_all add: good_loc_def op)
    moreover have "s' = set_loc v (Xmm x) s\<lparr>xmm_active := replace_entry x src (lr_end (rngs ! v), x, v) (xmm_active s)\<rparr>"
      using r Xmm by (auto simp: reuse_def Let_def src_def split: if_splits)
    ultimately show ?thesis unfolding placed_def by (auto simp: set_loc_def)
  next
    case (Spill c)
    have s': "s' = set_loc v (Spill c) s" using r Spill by (auto simp: reuse_def Let_def src_def split: if_splits)
    have w: "slot_width b v \<le> slot_width b src" using ty by (simp add: slot_width_def)
    show ?thesis
    proof (rule placed_step[where l = "Spill c" and v = v, OF ok])
      show "good_loc b xmasks rngs pool (spill_cursor s') v (Spill c)"
        using g Spill w by (simp add: good_loc_def s' set_loc_def)
      show "apart b (locs s ! j) v (Spill c) \<and> apart b (Spill c) j (locs s ! j)" if "j < length (locs s)" for j
        using placedD(5)[OF ok that src] placedD(5)[OF ok src that] w unfolding Spill by (auto simp: apart_def)
    qed (use placedD(2,3)[OF ok] in \<open>auto simp: s' set_loc_def\<close>)
  next
    case (ImmLoc c)
    then have "s' = set_loc v (ImmLoc c) s" using r by (auto simp: reuse_def Let_def src_def split: if_splits)
    then show ?thesis using placed_set[OF ok, of "ImmLoc c" v] by (simp add: good_loc_def)
  next
    case NoLoc
    then have "s' = set_loc v NoLoc s" using r by (auto simp: reuse_def Let_def src_def split: if_splits)
    then show ?thesis using placed_set[OF ok, of NoLoc v] by (simp add: good_loc_def)
  qed
qed

lemma scan_step_placed:
  assumes ok: "placed b xmasks rngs pool s" and len: "length (locs s) = length rngs"
  shows "placed b xmasks rngs pool (scan_step b masks xmasks rngs s v)"
proof -
  let ?s = "expire (lr_start (rngs ! v)) s"
  have ok': "placed b xmasks rngs pool ?s" by (rule placed_expire[OF ok])
  have len': "length (locs ?s) = length rngs" using len by (simp add: expire_def)
  show ?thesis
    using placed_set[OF ok', of "ImmLoc i" v for i] placed_vector[OF ok', of v] placed_fresh[OF ok', of v]
      placed_reuse[OF ok' len', of v]
    by (auto simp: scan_step_def Let_def good_loc_def split: option.split)
qed

lemma scan_step_length: "length (locs (scan_step b masks xmasks rngs s v)) = length (locs s)"
proof -
  have "length (locs (scan_vector xmasks rngs v s)) = length (locs s)" for s
    by (simp add: scan_vector_def Let_def set_loc_def)
  moreover have "length (locs (scan_fresh masks xmasks rngs v s)) = length (locs s)" for s
    by (simp add: scan_fresh_def Let_def set_loc_def take_spill_def split: option.split)
  moreover have "reuse b rngs v s = Some s' \<Longrightarrow> length (locs s') = length (locs s)" for s s'
    by (auto simp: reuse_def Let_def set_loc_def split: if_splits loc.splits)
  moreover have "length (locs (expire t s)) = length (locs s)" for t s by (simp add: expire_def)
  ultimately show ?thesis
    by (simp add: scan_step_def Let_def set_loc_def split: option.split)
qed

lemma scan_fold_placed:
  assumes "placed b xmasks rngs pool s" "length (locs s) = length rngs"
  shows "placed b xmasks rngs pool (foldl (scan_step b masks xmasks rngs) s vs)"
  using assms by (induction vs arbitrary: s) (simp_all add: scan_step_placed scan_step_length)

lemma scan_init_placed: "placed b xmasks rngs (set pool) (scan_init n pool)"
  unfolding placed_def by (auto simp: scan_init_def good_loc_def apart_def)

lemma linear_scan_placed:
  assumes "iter_live b = Some xs" "linear_scan h b rngs pool = Some al"
  obtains s where "al_locs al = locs s" "spill_bytes al = spill_cursor s - SAVED_SIZE" "length (locs s) = length rngs"
    "placed b (snd (clobber_masks h b xs)) rngs (set pool) s"
proof -
  obtain masks xmasks where c: "clobber_masks h b xs = (masks, xmasks)" by fastforce
  define s where "s = foldl (scan_step b masks xmasks rngs) (scan_init (length rngs) pool) (intervals b rngs)"
  have len: "length (locs (foldl (scan_step b masks xmasks rngs) s' vs)) = length (locs s')" for s' vs
    by (induction vs arbitrary: s') (simp_all add: scan_step_length)
  show ?thesis
  proof (rule that)
    show "al_locs al = locs s" "spill_bytes al = spill_cursor s - SAVED_SIZE"
      using assms(2) by (auto simp: linear_scan_def assms(1) c s_def Let_def)
    show "length (locs s) = length rngs" by (simp add: s_def len) (simp add: scan_init_def)
    show "placed b (snd (clobber_masks h b xs)) rngs (set pool) s"
      unfolding c snd_conv s_def by (rule scan_fold_placed[OF scan_init_placed]) (simp add: scan_init_def)
  qed
qed

lemma interior_mask_bit:
  "bit (interior_mask masks r) x \<longleftrightarrow> (\<exists>t. lr_start r < t \<and> t < lr_end r \<and> \<not> is_dead r \<and> bit (masks ! t) x)"
proof -
  have "bit (foldl (\<lambda>m i. m OR masks ! i) m ts) x \<longleftrightarrow> bit m x \<or> (\<exists>t \<in> set ts. bit (masks ! t) x)" for m :: u16 and ts
    by (induction ts arbitrary: m) (auto simp: bit_or_iff)
  then show ?thesis by (auto simp: interior_mask_def Suc_le_eq)
qed

definition allocatable_mask :: reg_mask where "allocatable_mask = regs ALLOCATABLE_GPRS"

lemma if_branches: "P a \<Longrightarrow> P b \<Longrightarrow> P (if c then a else b)"
  by simp

lemma allocatable_not_clobbered: "cl_gpr (clobbers_for_op h p) AND allocatable_mask = 0"
  unfolding clobbers_for_op_def Let_def
  by (intro if_branches[where P = "\<lambda>c. cl_gpr c AND allocatable_mask = 0"])
    (simp_all add: no_clobbers_def CALLER_SAVED_GPRS_def allocatable_mask_def ALLOCATABLE_GPRS_def regs_def)

lemma allocatable_bit: "r \<in> set ALLOCATABLE_GPRS \<Longrightarrow> bit allocatable_mask r"
  by (auto simp: ALLOCATABLE_GPRS_def allocatable_mask_def regs_def bit_simps)

lemma clobber_masks_nth:
  "t < length xs \<Longrightarrow> snd (clobber_masks h b xs) ! t =
     (if is_eliminated (code b ! (xs ! t)) then 0 else cl_xmm (clobbers_for_op h (a_op (code b ! (xs ! t)))))"
  by (simp add: clobber_masks_def)

lemma live_starts_distinct:
  assumes inv: "block_inv b xs" and size: "length (code b) \<le> MAX_NODES"
    and rngs: "compute_live_ranges_with b tus = Some rngs"
  shows "distinct (map (\<lambda>i. lr_start (rngs ! i)) (filter (\<lambda>i. \<not> is_dead (rngs ! i)) [0..<length rngs]))"
proof -
  have "inj_on (\<lambda>i. lr_start (rngs ! i)) {i. i < length rngs \<and> \<not> is_dead (rngs ! i)}"
  proof (rule inj_onI)
    fix i j assume ij: "i \<in> {i. i < length rngs \<and> \<not> is_dead (rngs ! i)}" "j \<in> {i. i < length rngs \<and> \<not> is_dead (rngs ! i)}"
      "lr_start (rngs ! i) = lr_start (rngs ! j)"
    then have "i \<in> set xs" "j \<in> set xs" using live_ranges_cover(3)[OF inv size rngs] by blast+
    then obtain p q where "p < length xs" "xs ! p = i" "q < length xs" "xs ! q = j" by (auto simp: in_set_conv_nth)
    then show "i = j" using live_ranges_cover(2)[OF inv size rngs, of p] live_ranges_cover(2)[OF inv size rngs, of q] ij(3) by simp
  qed
  then show ?thesis by (simp add: distinct_map inj_on_def)
qed

section \<open>The properties\<close>

text \<open>
  C31. As long as a value is used, no later value is placed in its register or slot: if two live
  values share a location, every use of the earlier one comes before the later one is computed,
  or is its first operand, which it takes over.
\<close>

theorem allocation_preserves_operands:
  assumes inv: "block_inv b xs" and size: "length (code b) \<le> MAX_NODES"
    and rngs: "compute_live_ranges_with b tus = Some rngs"
    and al: "linear_scan h b rngs pool = Some al" and pool: "distinct pool"
    and pq: "p < q" "q < length xs"
    and same: "al_locs al ! (xs ! p) = al_locs al ! (xs ! q)" "stored (al_locs al ! (xs ! p))"
    and used: "t < length xs \<and> xs ! p \<in> set (a_args (code b ! (xs ! t))) \<or>
      t = length xs - 1 \<and> xs ! p \<in> set (term_refs (terminal b) @ tus)"
  shows "t < q \<or> t = q \<and> takes_over b (xs ! q) (xs ! p)"
proof -
  have p: "p < length xs" using pq by simp
  note c = live_ranges_cover[OF inv size rngs]
  have i: "xs ! p \<noteq> xs ! q" "xs ! p < length rngs" "xs ! q < length rngs"
    using block_invD(1,2)[OF inv] nth_mem[OF p] nth_mem[OF pq(2)] pq p c(1) by (simp_all add: nth_eq_iff_index_eq)
  have le: "lr_start (rngs ! (xs ! p)) \<le> lr_start (rngs ! (xs ! q))" using c(2)[OF p] c(2)[OF pq(2)] pq by simp
  have "t \<le> lr_end (rngs ! (xs ! p))" using used c(4)[of t p] c(5)[OF p] p by blast
  moreover have "lr_end (rngs ! (xs ! p)) < q \<or> lr_end (rngs ! (xs ! p)) = q \<and> takes_over b (xs ! q) (xs ! p)"
    using linear_scan_disjoint[OF al pool live_starts_distinct[OF inv size rngs] i le same] c(2)[OF pq(2)] by simp
  ultimately show ?thesis by linarith
qed


text \<open>
  C33. The stack slots of two values are the same or do not overlap, and every slot lies in the
  frame between the saved registers and the end of the spill area.
\<close>

theorem spill_slots_disjoint:
  assumes inv: "block_inv b xs" and al: "linear_scan h b rngs pool = Some al"
    and i: "i < length rngs" "al_locs al ! i = Spill c" and j: "j < length rngs" "al_locs al ! j = Spill d"
  shows "SAVED_SIZE \<le> c - slot_width b i \<and> c \<le> SAVED_SIZE + spill_bytes al \<and>
    (c = d \<or> {c - slot_width b i..<c} \<inter> {d - slot_width b j..<d} = {})"
proof -
  obtain s where s: "al_locs al = locs s" "spill_bytes al = spill_cursor s - SAVED_SIZE" "length (locs s) = length rngs"
    "placed b (snd (clobber_masks h b xs)) rngs (set pool) s"
    using linear_scan_placed[OF iter_live_inv(1)[OF inv] al] by metis
  have "good_loc b (snd (clobber_masks h b xs)) rngs (set pool) (spill_cursor s) i (Spill c)"
    "apart b (Spill c) j (Spill d)" "apart b (Spill d) i (Spill c)"
    using placedD(4,5)[OF s(4)] i j unfolding s(1) s(3)[symmetric] by metis+
  then show ?thesis unfolding s(2) by (auto simp: good_loc_def apart_def)
qed

section \<open>Examples\<close>

definition linux :: host where "linux = \<lparr>windows = False, has_sm4 = False, has_aesni = True\<rparr>"

definition alloc_block :: block where
  "alloc_block = snd (the (push_list push
     [armlet_new Op_GetX TyU64, armlet_new Op_GetX TyU64,
      with_args [1, 2] (armlet_new Op_Add64 TyU64),
      with_args [2] (armlet_new Op_SetX TyVoid),
      with_args [3] (armlet_new Op_SetX TyVoid)] (block_new 0)))"

definition alloc_ranges :: "live_range list" where
  "alloc_ranges = the (compute_live_ranges_with alloc_block [])"

definition alloc_result :: allocation where
  "alloc_result = the (linear_scan linux alloc_block alloc_ranges ALLOCATABLE_GPRS)"

lemma alloc_block_ok:
  "block_inv alloc_block [1, 2, 3, 4, 5]" "length (code alloc_block) = 6"
  "compute_live_ranges_with alloc_block [] = Some alloc_ranges"
  "linear_scan linux alloc_block alloc_ranges ALLOCATABLE_GPRS = Some alloc_result"
  "distinct ALLOCATABLE_GPRS" "a_args (code alloc_block ! 3) = [1, 2, 0, 0]"
  "map lr_start alloc_ranges = [0, 0, 1, 2, 3, 4]" "map lr_count alloc_ranges = [0, 3, 3, 3, 1, 1]"
  "al_locs alloc_result = [NoLoc, Reg 3, Reg 12, Reg 3, NoLoc, NoLoc]"
  by code_simp+

theorem allocation_preserves_operands_witness:
  "\<exists>rngs al. compute_live_ranges_with alloc_block [] = Some rngs \<and>
     linear_scan linux alloc_block rngs ALLOCATABLE_GPRS = Some al \<and>
     al_locs al ! 1 = al_locs al ! 3 \<and> takes_over alloc_block 3 1"
proof -
  have "(2 :: nat) < 2 \<or> (2 :: nat) = 2 \<and> takes_over alloc_block ([1, 2, 3, 4, 5] ! 2) ([1, 2, 3, 4, 5] ! 0)"
    by (rule allocation_preserves_operands[OF alloc_block_ok(1) _ alloc_block_ok(3,4,5)])
      (simp_all add: alloc_block_ok MAX_NODES_def stored_def)
  then show ?thesis using alloc_block_ok by simp
qed

text \<open>Two values live across a helper call, with no register to hold them: both go to the stack.\<close>

definition spill_block :: block where
  "spill_block = snd (the (push_list push
     [armlet_new Op_GetX TyU64, armlet_new Op_GetX TyU64, armlet_new Op_CallHelper TyVoid,
      with_args [1, 2] (armlet_new Op_SetX TyVoid)] (block_new 0)))"

definition spill_ranges :: "live_range list" where
  "spill_ranges = the (compute_live_ranges_with spill_block [])"

definition spill_result :: allocation where
  "spill_result = the (linear_scan linux spill_block spill_ranges [])"

lemma spill_block_ok:
  "block_inv spill_block [1, 2, 3, 4]" "length (code spill_block) = 5" "length spill_ranges = 5"
  "linear_scan linux spill_block spill_ranges [] = Some spill_result"
  "al_locs spill_result = [NoLoc, Spill 48, Spill 56, NoLoc, NoLoc]"
  by code_simp+

theorem spill_slots_disjoint_witness:
  "al_locs spill_result ! 1 = Spill 48 \<and> al_locs spill_result ! 2 = Spill 56 \<and>
     SAVED_SIZE \<le> 48 - slot_width spill_block 1 \<and>
     {48 - slot_width spill_block 1..<48} \<inter> {56 - slot_width spill_block 2..<56} = {}"
  using spill_slots_disjoint[OF spill_block_ok(1,4), of 1 48 2 56] by (simp add: spill_block_ok)

text \<open>
  A value in a vector register, an \<open>Identity\<close> of it that takes the register over, and a load,
  whose callback may destroy the register while the \<open>Identity\<close> is live.
\<close>

definition identity_block :: block where
  "identity_block = snd (the (push_list push
     [armlet_new Op_GetX TyU64, armlet_new Op_GetX TyU64, with_args [2] (armlet_new Op_Identity TyU64),
      with_args [1] (armlet_new Op_Load64 TyU64),
      with_args [1] (armlet_new Op_SetX TyVoid)] (block_new 0)))"

definition identity_ranges :: "live_range list" where
  "identity_ranges = the (compute_live_ranges_with identity_block [3])"

definition identity_result :: allocation where
  "identity_result = the (linear_scan linux identity_block identity_ranges [3])"

lemma identity_block_ok:
  "block_inv identity_block [1, 2, 3, 4, 5]" "length (code identity_block) = 6"
  "compute_live_ranges_with identity_block [3] = Some identity_ranges"
  "linear_scan linux identity_block identity_ranges [3] = Some identity_result"
  "lr_start (identity_ranges ! 3) < lr_start (identity_ranges ! 4)"
  "lr_start (identity_ranges ! 4) < lr_end (identity_ranges ! 3)"
  "al_locs identity_result = [NoLoc, Reg 3, Xmm 6, Xmm 6, Xmm 7, NoLoc]"
  "bit (cl_xmm (clobbers_for_op linux (a_op (code identity_block ! 4)))) 6"
  "\<not> is_eliminated (code identity_block ! 2)" "\<not> is_eliminated (code identity_block ! 4)"
  by code_simp+



end
