(* ===== verification/Emitter.thy ===== *)
theory Emitter
  imports Arch Ir_Block "HOL-Library.Monad_Syntax"
begin

text \<open>
  The instruction emitter, \<open>src/ir/emitter.rs\<close>: the builder functions the translators call,
  each pushing nodes on the block. A method on \<open>&mut self\<close> is a function that returns its
  result and the emitter after it; \<open>None\<close> is a panic (\<open>unreachable!\<close> or a link out of
  bounds). Register numbers are \<open>nat\<close>, a five-bit field of the instruction.
\<close>

section \<open>The emitter\<close>

record emitter =
  em_block :: block
  current_pc :: u64

type_synonym 'a emits = "emitter \<Rightarrow> ('a \<times> emitter) option"

definition em_push :: "armlet \<Rightarrow> value_ref emits" where
  "em_push a em = do {
     (v, b) \<leftarrow> push (a\<lparr>a_pc := current_pc em\<rparr>) (em_block em);
     Some (v, em\<lparr>em_block := b\<rparr>)
   }"

definition em_do :: "armlet \<Rightarrow> unit emits" where
  "em_do a em = map_option (\<lambda>(v, em). ((), em)) (em_push a em)"

text \<open>A node with operands and an immediate, the shape of most of the builders.\<close>

definition mk :: "op \<Rightarrow> ty \<Rightarrow> value_ref list \<Rightarrow> u64 \<Rightarrow> armlet" where
  "mk p t vs imm = with_imm imm (with_args vs (armlet_new p t))"

section \<open>Constants and registers\<close>

definition const_u32 :: "u32 \<Rightarrow> value_ref emits" where
  "const_u32 v = em_push (mk Op_ConstU32 TyU32 [] (ucast v))"

definition const_u64 :: "u64 \<Rightarrow> value_ref emits" where
  "const_u64 v = em_push (mk Op_ConstU64 TyU64 [] v)"

definition get_x :: "nat \<Rightarrow> value_ref emits" where
  "get_x reg = (if reg = ZR_ENCODING then const_u64 0 else em_push (mk Op_GetX TyU64 [] (of_nat reg)))"

definition get_w :: "nat \<Rightarrow> value_ref emits" where
  "get_w reg = (if reg = ZR_ENCODING then const_u32 0 else em_push (mk Op_GetW TyU32 [] (of_nat reg)))"

definition get_gpr :: "nat \<Rightarrow> reg_size \<Rightarrow> value_ref emits" where
  "get_gpr reg sz = (case sz of W \<Rightarrow> get_w reg | X \<Rightarrow> get_x reg)"

definition set_x :: "nat \<Rightarrow> value_ref \<Rightarrow> unit emits" where
  "set_x reg v = (if reg = ZR_ENCODING then (\<lambda>em. Some ((), em))
     else em_do (mk Op_SetX TyVoid [v] (of_nat reg)))"

definition em_set_w :: "nat \<Rightarrow> value_ref \<Rightarrow> unit emits" where
  "em_set_w reg v = (if reg = ZR_ENCODING then (\<lambda>em. Some ((), em))
     else em_do (with_flags W_SIZED (mk Op_SetW TyVoid [v] (of_nat reg))))"

definition set_gpr :: "nat \<Rightarrow> value_ref \<Rightarrow> reg_size \<Rightarrow> unit emits" where
  "set_gpr reg v sz = (case sz of W \<Rightarrow> em_set_w reg v | X \<Rightarrow> set_x reg v)"

definition get_sp :: "value_ref emits" where
  "get_sp = em_push (armlet_new Op_GetSp TyU64)"

definition get_x_or_sp :: "nat \<Rightarrow> bool \<Rightarrow> value_ref emits" where
  "get_x_or_sp reg sp_form = (if reg = ZR_ENCODING then (if sp_form then get_sp else const_u64 0) else get_x reg)"

definition set_sp :: "value_ref \<Rightarrow> unit emits" where
  "set_sp v = em_do (mk Op_SetSp TyVoid [v] 0)"

definition set_x_or_sp :: "nat \<Rightarrow> value_ref \<Rightarrow> bool \<Rightarrow> unit emits" where
  "set_x_or_sp reg v sp_form =
     (if reg = ZR_ENCODING then (if sp_form then set_sp v else (\<lambda>em. Some ((), em))) else set_x reg v)"

definition set_gpr_or_sp :: "nat \<Rightarrow> value_ref \<Rightarrow> reg_size \<Rightarrow> bool \<Rightarrow> unit emits" where
  "set_gpr_or_sp reg v sz sp_form =
     (if reg = ZR_ENCODING then (if sp_form then set_sp v else (\<lambda>em. Some ((), em))) else set_gpr reg v sz)"

definition get_v_s :: "nat \<Rightarrow> value_ref emits" where
  "get_v_s reg = em_push (mk Op_GetV TyU32 [] (of_nat reg))"

definition get_v_d :: "nat \<Rightarrow> value_ref emits" where
  "get_v_d reg = em_push (mk Op_GetV TyU64 [] (of_nat reg))"

definition set_v_s :: "nat \<Rightarrow> value_ref \<Rightarrow> unit emits" where
  "set_v_s reg v = em_do (with_flags W_SIZED (mk Op_SetV TyVoid [v] (of_nat reg)))"

definition set_v_d :: "nat \<Rightarrow> value_ref \<Rightarrow> unit emits" where
  "set_v_d reg v = em_do (mk Op_SetV TyVoid [v] (of_nat reg))"

definition get_v_q :: "nat \<Rightarrow> value_ref emits" where
  "get_v_q reg = em_push (mk Op_GetV TyU128 [] (of_nat reg))"

definition set_v_q :: "nat \<Rightarrow> value_ref \<Rightarrow> unit emits" where
  "set_v_q reg v = em_do (mk Op_SetV TyVoid [v] (of_nat reg))"

definition get_nzcv :: "value_ref emits" where
  "get_nzcv = em_push (armlet_new Op_GetNzcv TyNzcv)"

definition set_nzcv :: "value_ref \<Rightarrow> unit emits" where
  "set_nzcv v = em_do (mk Op_SetNzcv TyVoid [v] 0)"

section \<open>Integer operations\<close>

text \<open>The \<open>match size\<close> of the two-width builders.\<close>

definition sized :: "reg_size \<Rightarrow> op \<Rightarrow> op \<Rightarrow> op" where
  "sized sz p32 p64 = (case sz of W \<Rightarrow> p32 | X \<Rightarrow> p64)"

definition size_ty :: "reg_size \<Rightarrow> ty" where
  "size_ty sz = (case sz of W \<Rightarrow> TyU32 | X \<Rightarrow> TyU64)"

definition em_add :: "value_ref \<Rightarrow> value_ref \<Rightarrow> reg_size \<Rightarrow> value_ref emits" where
  "em_add a b sz = em_push (mk (sized sz Op_Add32 Op_Add64) (size_ty sz) [a, b] 0)"

definition em_sub :: "value_ref \<Rightarrow> value_ref \<Rightarrow> reg_size \<Rightarrow> value_ref emits" where
  "em_sub a b sz = em_push (mk (sized sz Op_Sub32 Op_Sub64) (size_ty sz) [a, b] 0)"

definition em_and :: "value_ref \<Rightarrow> value_ref \<Rightarrow> reg_size \<Rightarrow> value_ref emits" where
  "em_and a b sz = em_push (mk (sized sz Op_And32 Op_And64) (size_ty sz) [a, b] 0)"

definition em_or :: "value_ref \<Rightarrow> value_ref \<Rightarrow> reg_size \<Rightarrow> value_ref emits" where
  "em_or a b sz = em_push (mk (sized sz Op_Or32 Op_Or64) (size_ty sz) [a, b] 0)"

definition em_eor :: "value_ref \<Rightarrow> value_ref \<Rightarrow> reg_size \<Rightarrow> value_ref emits" where
  "em_eor a b sz = em_push (mk (sized sz Op_Eor32 Op_Eor64) (size_ty sz) [a, b] 0)"

definition em_lsl :: "value_ref \<Rightarrow> value_ref \<Rightarrow> reg_size \<Rightarrow> value_ref emits" where
  "em_lsl a b sz = em_push (mk (sized sz Op_Lsl32 Op_Lsl64) (size_ty sz) [a, b] 0)"

definition em_lsr :: "value_ref \<Rightarrow> value_ref \<Rightarrow> reg_size \<Rightarrow> value_ref emits" where
  "em_lsr a b sz = em_push (mk (sized sz Op_Lsr32 Op_Lsr64) (size_ty sz) [a, b] 0)"

definition em_asr :: "value_ref \<Rightarrow> value_ref \<Rightarrow> reg_size \<Rightarrow> value_ref emits" where
  "em_asr a b sz = em_push (mk (sized sz Op_Asr32 Op_Asr64) (size_ty sz) [a, b] 0)"

definition em_ror :: "value_ref \<Rightarrow> value_ref \<Rightarrow> reg_size \<Rightarrow> value_ref emits" where
  "em_ror a b sz = em_push (mk (sized sz Op_Ror32 Op_Ror64) (size_ty sz) [a, b] 0)"

definition em_adds :: "value_ref \<Rightarrow> value_ref \<Rightarrow> reg_size \<Rightarrow> value_ref emits" where
  "em_adds a b sz = em_push (with_flags NZCV_LIVE (mk (sized sz Op_AddsFlags32 Op_AddsFlags64) (size_ty sz) [a, b] 0))"

definition em_subs :: "value_ref \<Rightarrow> value_ref \<Rightarrow> reg_size \<Rightarrow> value_ref emits" where
  "em_subs a b sz = em_push (with_flags NZCV_LIVE (mk (sized sz Op_SubsFlags32 Op_SubsFlags64) (size_ty sz) [a, b] 0))"

definition logic_flags :: "value_ref \<Rightarrow> reg_size \<Rightarrow> unit emits" where
  "logic_flags v sz = em_do (with_flags NZCV_LIVE (mk (sized sz Op_LogicFlags32 Op_LogicFlags64) TyVoid [v] 0))"

section \<open>Memory, helper calls and branches\<close>

definition em_load :: "value_ref \<Rightarrow> nat \<Rightarrow> value_ref emits" where
  "em_load addr bytes =
     (if bytes = 1 then em_push (mk Op_Load8 TyU8 [addr] 0)
      else if bytes = 2 then em_push (mk Op_Load16 TyU16 [addr] 0)
      else if bytes = 4 then em_push (mk Op_Load32 TyU32 [addr] 0)
      else if bytes = 8 then em_push (mk Op_Load64 TyU64 [addr] 0)
      else if bytes = 16 then em_push (mk Op_Load128 TyU128 [addr] 0)
      else (\<lambda>em. None))"

definition em_store :: "value_ref \<Rightarrow> value_ref \<Rightarrow> nat \<Rightarrow> unit emits" where
  "em_store addr v bytes =
     (if bytes = 1 then em_do (mk Op_Store8 TyVoid [addr, v] 0)
      else if bytes = 2 then em_do (mk Op_Store16 TyVoid [addr, v] 0)
      else if bytes = 4 then em_do (mk Op_Store32 TyVoid [addr, v] 0)
      else if bytes = 8 then em_do (mk Op_Store64 TyVoid [addr, v] 0)
      else if bytes = 16 then em_do (mk Op_Store128 TyVoid [addr, v] 0)
      else (\<lambda>em. None))"

definition load_elements :: "value_ref \<Rightarrow> nat \<Rightarrow> nat \<Rightarrow> value_ref emits" where
  "load_elements addr bytes elem_bytes =
     (let elem = (if elem_bytes < bytes then elem_bytes else 0) in
      if bytes = 8 then em_push (mk Op_Load64 TyU64 [addr] (of_nat elem))
      else if bytes = 16 then em_push (mk Op_Load128 TyU128 [addr] (of_nat elem))
      else em_load addr bytes)"

definition store_elements :: "value_ref \<Rightarrow> value_ref \<Rightarrow> nat \<Rightarrow> nat \<Rightarrow> unit emits" where
  "store_elements addr v bytes elem_bytes =
     (let elem = (if elem_bytes < bytes then elem_bytes else 0) in
      if bytes = 8 then em_do (mk Op_Store64 TyVoid [addr, v] (of_nat elem))
      else if bytes = 16 then em_do (mk Op_Store128 TyVoid [addr, v] (of_nat elem))
      else em_store addr v bytes)"

definition call_helper :: "u32 \<Rightarrow> u32 \<Rightarrow> value_ref list \<Rightarrow> ty \<Rightarrow> value_ref emits" where
  "call_helper helper insn args t =
     em_push (mk Op_CallHelper t args (push_bit 32 (ucast insn) OR ucast helper))"

definition set_terminal :: "terminal \<Rightarrow> emitter \<Rightarrow> emitter" where
  "set_terminal t em = em\<lparr>em_block := (em_block em)\<lparr>terminal := t\<rparr>\<rparr>"

text \<open>The return address of a linking branch goes to register 30.\<close>

definition em_link :: "bool \<Rightarrow> unit emits" where
  "em_link link em =
     (if link then do { (ret_addr, em) \<leftarrow> const_u64 (current_pc em + 4) em; set_x 30 ret_addr em }
      else Some ((), em))"

definition em_branch :: "u64 \<Rightarrow> bool \<Rightarrow> unit emits" where
  "em_branch target_pc link em = do {
     (_, em) \<leftarrow> em_link link em;
     (_, em) \<leftarrow> em_do (mk (if link then Op_BranchLink else Op_Branch) TyVoid [] target_pc) em;
     Some ((), set_terminal (DirectBranch target_pc link) em)
   }"

definition em_branch_cond :: "cond \<Rightarrow> u64 \<Rightarrow> unit emits" where
  "em_branch_cond cond target_pc em = do {
     (nzcv, em) \<leftarrow> get_nzcv em;
     (_, em) \<leftarrow> em_do (mk Op_BranchCond TyVoid [nzcv] (push_bit 8 target_pc OR ucast (cond_code cond))) em;
     Some ((), set_terminal (ConditionalBranch nzcv (cond_code cond) target_pc (current_pc em + 4)) em)
   }"

definition branch_indirect :: "value_ref \<Rightarrow> bool \<Rightarrow> bool \<Rightarrow> unit emits" where
  "branch_indirect target link is_ret em = do {
     (_, em) \<leftarrow> em_link link em;
     (_, em) \<leftarrow> em_do (mk (if is_ret then Op_Ret else if link then Op_BranchIndirectLink else Op_BranchIndirect)
        TyVoid [target] 0) em;
     Some ((), set_terminal (IndirectBranch target link is_ret) em)
   }"

section \<open>Vector operations\<close>

text \<open>
  \<open>vec_lanes\<close> is the \<open>match lane_log2\<close> of the lane-wise builders; any other size is
  \<open>unreachable!\<close>.
\<close>

definition q_imm :: "bool \<Rightarrow> u64" where "q_imm q = of_bool q"

definition vec_lanes :: "op list \<Rightarrow> nat \<Rightarrow> value_ref list \<Rightarrow> u64 \<Rightarrow> value_ref emits" where
  "vec_lanes ops lane_log2 vs imm =
     (if lane_log2 < length ops then em_push (mk (ops ! lane_log2) TyU128 vs imm) else (\<lambda>em. None))"

definition vec_build_q :: "value_ref \<Rightarrow> value_ref \<Rightarrow> value_ref emits" where
  "vec_build_q lo hi = em_push (mk Op_VecBuildQ TyU128 [lo, hi] 0)"

definition vec_extract_lo64 :: "value_ref \<Rightarrow> value_ref emits" where
  "vec_extract_lo64 q = em_push (mk Op_VecExtractLo64 TyU64 [q] 0)"

definition vec_extract_hi64 :: "value_ref \<Rightarrow> value_ref emits" where
  "vec_extract_hi64 q = em_push (mk Op_VecExtractHi64 TyU64 [q] 0)"

definition vec_extract_u8 :: "value_ref \<Rightarrow> nat \<Rightarrow> value_ref emits" where
  "vec_extract_u8 q lane = em_push (mk Op_VecExtract8 TyU32 [q] (of_nat lane))"

definition vec_extract_u16 :: "value_ref \<Rightarrow> nat \<Rightarrow> value_ref emits" where
  "vec_extract_u16 q lane = em_push (mk Op_VecExtract16 TyU32 [q] (of_nat lane))"

definition vec_extract_u32 :: "value_ref \<Rightarrow> nat \<Rightarrow> value_ref emits" where
  "vec_extract_u32 q lane = em_push (mk Op_VecExtract32 TyU32 [q] (of_nat lane))"

definition vec_add :: "value_ref \<Rightarrow> value_ref \<Rightarrow> nat \<Rightarrow> bool \<Rightarrow> value_ref emits" where
  "vec_add vn vm lane_log2 q =
     vec_lanes [Op_VecAdd8, Op_VecAdd16, Op_VecAdd32, Op_VecAdd64] lane_log2 [vn, vm] (q_imm q)"

definition vec_sub :: "value_ref \<Rightarrow> value_ref \<Rightarrow> nat \<Rightarrow> bool \<Rightarrow> value_ref emits" where
  "vec_sub vn vm lane_log2 q =
     vec_lanes [Op_VecSub8, Op_VecSub16, Op_VecSub32, Op_VecSub64] lane_log2 [vn, vm] (q_imm q)"

definition vec_mul :: "value_ref \<Rightarrow> value_ref \<Rightarrow> nat \<Rightarrow> bool \<Rightarrow> value_ref emits" where
  "vec_mul vn vm lane_log2 q =
     vec_lanes [Op_VecMul8, Op_VecMul16, Op_VecMul32, Op_VecMul64] lane_log2 [vn, vm] (q_imm q)"

definition vec_cmeq :: "value_ref \<Rightarrow> value_ref \<Rightarrow> nat \<Rightarrow> bool \<Rightarrow> value_ref emits" where
  "vec_cmeq vn vm lane_log2 q =
     vec_lanes [Op_VecCmEq8, Op_VecCmEq16, Op_VecCmEq32, Op_VecCmEq64] lane_log2 [vn, vm] (q_imm q)"

definition vec_cmgt :: "value_ref \<Rightarrow> value_ref \<Rightarrow> nat \<Rightarrow> bool \<Rightarrow> value_ref emits" where
  "vec_cmgt vn vm lane_log2 q =
     vec_lanes [Op_VecCmGt8, Op_VecCmGt16, Op_VecCmGt32, Op_VecCmGt64] lane_log2 [vn, vm] (q_imm q)"

definition vec_cmge :: "value_ref \<Rightarrow> value_ref \<Rightarrow> nat \<Rightarrow> bool \<Rightarrow> value_ref emits" where
  "vec_cmge vn vm lane_log2 q =
     vec_lanes [Op_VecCmGe8, Op_VecCmGe16, Op_VecCmGe32, Op_VecCmGe64] lane_log2 [vn, vm] (q_imm q)"

definition vec_cmhi :: "value_ref \<Rightarrow> value_ref \<Rightarrow> nat \<Rightarrow> bool \<Rightarrow> value_ref emits" where
  "vec_cmhi vn vm lane_log2 q =
     vec_lanes [Op_VecCmHi8, Op_VecCmHi16, Op_VecCmHi32, Op_VecCmHi64] lane_log2 [vn, vm] (q_imm q)"

definition vec_cmhs :: "value_ref \<Rightarrow> value_ref \<Rightarrow> nat \<Rightarrow> bool \<Rightarrow> value_ref emits" where
  "vec_cmhs vn vm lane_log2 q =
     vec_lanes [Op_VecCmHs8, Op_VecCmHs16, Op_VecCmHs32, Op_VecCmHs64] lane_log2 [vn, vm] (q_imm q)"

definition vec_smin :: "value_ref \<Rightarrow> value_ref \<Rightarrow> nat \<Rightarrow> bool \<Rightarrow> value_ref emits" where
  "vec_smin vn vm lane_log2 q =
     vec_lanes [Op_VecSmin8, Op_VecSmin16, Op_VecSmin32, Op_VecSmin64] lane_log2 [vn, vm] (q_imm q)"

definition vec_smax :: "value_ref \<Rightarrow> value_ref \<Rightarrow> nat \<Rightarrow> bool \<Rightarrow> value_ref emits" where
  "vec_smax vn vm lane_log2 q =
     vec_lanes [Op_VecSmax8, Op_VecSmax16, Op_VecSmax32, Op_VecSmax64] lane_log2 [vn, vm] (q_imm q)"

definition vec_umin :: "value_ref \<Rightarrow> value_ref \<Rightarrow> nat \<Rightarrow> bool \<Rightarrow> value_ref emits" where
  "vec_umin vn vm lane_log2 q =
     vec_lanes [Op_VecUmin8, Op_VecUmin16, Op_VecUmin32, Op_VecUmin64] lane_log2 [vn, vm] (q_imm q)"

definition vec_umax :: "value_ref \<Rightarrow> value_ref \<Rightarrow> nat \<Rightarrow> bool \<Rightarrow> value_ref emits" where
  "vec_umax vn vm lane_log2 q =
     vec_lanes [Op_VecUmax8, Op_VecUmax16, Op_VecUmax32, Op_VecUmax64] lane_log2 [vn, vm] (q_imm q)"

definition vec_zip1 :: "value_ref \<Rightarrow> value_ref \<Rightarrow> nat \<Rightarrow> bool \<Rightarrow> value_ref emits" where
  "vec_zip1 vn vm lane_log2 q =
     vec_lanes [Op_VecZip1_8, Op_VecZip1_16, Op_VecZip1_32, Op_VecZip1_64] lane_log2 [vn, vm] (q_imm q)"

definition vec_zip2 :: "value_ref \<Rightarrow> value_ref \<Rightarrow> nat \<Rightarrow> bool \<Rightarrow> value_ref emits" where
  "vec_zip2 vn vm lane_log2 q =
     vec_lanes [Op_VecZip2_8, Op_VecZip2_16, Op_VecZip2_32, Op_VecZip2_64] lane_log2 [vn, vm] (q_imm q)"

definition vec_neg :: "value_ref \<Rightarrow> nat \<Rightarrow> bool \<Rightarrow> value_ref emits" where
  "vec_neg vn lane_log2 q =
     vec_lanes [Op_VecNeg8, Op_VecNeg16, Op_VecNeg32, Op_VecNeg64] lane_log2 [vn] (q_imm q)"

definition vec_abs :: "value_ref \<Rightarrow> nat \<Rightarrow> bool \<Rightarrow> value_ref emits" where
  "vec_abs vn lane_log2 q =
     vec_lanes [Op_VecAbs8, Op_VecAbs16, Op_VecAbs32, Op_VecAbs64] lane_log2 [vn] (q_imm q)"

definition vec_dup_gpr :: "value_ref \<Rightarrow> nat \<Rightarrow> bool \<Rightarrow> value_ref emits" where
  "vec_dup_gpr gpr_val lane_log2 q =
     vec_lanes [Op_VecDupGpr8, Op_VecDupGpr16, Op_VecDupGpr32, Op_VecDupGpr64] lane_log2 [gpr_val] (q_imm q)"

definition vec_shl_imm :: "value_ref \<Rightarrow> nat \<Rightarrow> nat \<Rightarrow> bool \<Rightarrow> value_ref emits" where
  "vec_shl_imm vn lane_log2 shift q =
     vec_lanes [Op_VecShlImm8, Op_VecShlImm16, Op_VecShlImm32, Op_VecShlImm64] lane_log2 [vn]
       (q_imm q OR push_bit 1 (of_nat shift))"

definition vec_ushr_imm :: "value_ref \<Rightarrow> nat \<Rightarrow> nat \<Rightarrow> bool \<Rightarrow> value_ref emits" where
  "vec_ushr_imm vn lane_log2 shift q =
     vec_lanes [Op_VecUshrImm8, Op_VecUshrImm16, Op_VecUshrImm32, Op_VecUshrImm64] lane_log2 [vn]
       (q_imm q OR push_bit 1 (of_nat shift))"

definition vec_sshr_imm :: "value_ref \<Rightarrow> nat \<Rightarrow> nat \<Rightarrow> bool \<Rightarrow> value_ref emits" where
  "vec_sshr_imm vn lane_log2 shift q =
     vec_lanes [Op_VecSshrImm8, Op_VecSshrImm16, Op_VecSshrImm32, Op_VecSshrImm64] lane_log2 [vn]
       (q_imm q OR push_bit 1 (of_nat shift))"

definition vec_variable_shift :: "value_ref \<Rightarrow> value_ref \<Rightarrow> nat \<Rightarrow> bool \<Rightarrow> bool \<Rightarrow> value_ref emits" where
  "vec_variable_shift vn vm lane_log2 q is_signed =
     vec_lanes (if is_signed then [Op_VecSshl8, Op_VecSshl16, Op_VecSshl32, Op_VecSshl64]
                else [Op_VecUshl8, Op_VecUshl16, Op_VecUshl32, Op_VecUshl64]) lane_log2 [vn, vm] (q_imm q)"

definition vec_ins_gpr :: "value_ref \<Rightarrow> value_ref \<Rightarrow> nat \<Rightarrow> nat \<Rightarrow> bool \<Rightarrow> value_ref emits" where
  "vec_ins_gpr vd_prev gpr_val lane_log2 lane q =
     vec_lanes [Op_VecInsGpr8, Op_VecInsGpr16, Op_VecInsGpr32, Op_VecInsGpr64] lane_log2 [vd_prev, gpr_val]
       (q_imm q OR push_bit 1 (of_nat lane))"

definition vec_and :: "value_ref \<Rightarrow> value_ref \<Rightarrow> bool \<Rightarrow> value_ref emits" where
  "vec_and vn vm q = em_push (mk Op_VecAnd TyU128 [vn, vm] (q_imm q))"

definition vec_orr :: "value_ref \<Rightarrow> value_ref \<Rightarrow> bool \<Rightarrow> value_ref emits" where
  "vec_orr vn vm q = em_push (mk Op_VecOrr TyU128 [vn, vm] (q_imm q))"

definition vec_eor :: "value_ref \<Rightarrow> value_ref \<Rightarrow> bool \<Rightarrow> value_ref emits" where
  "vec_eor vn vm q = em_push (mk Op_VecEor TyU128 [vn, vm] (q_imm q))"

definition vec_bic :: "value_ref \<Rightarrow> value_ref \<Rightarrow> bool \<Rightarrow> value_ref emits" where
  "vec_bic vn vm q = em_push (mk Op_VecBic TyU128 [vn, vm] (q_imm q))"

definition vec_orn :: "value_ref \<Rightarrow> value_ref \<Rightarrow> bool \<Rightarrow> value_ref emits" where
  "vec_orn vn vm q = em_push (mk Op_VecOrn TyU128 [vn, vm] (q_imm q))"

definition vec_not :: "value_ref \<Rightarrow> bool \<Rightarrow> value_ref emits" where
  "vec_not vn q = em_push (mk Op_VecNot TyU128 [vn] (q_imm q))"

definition vec_clz16 :: "value_ref \<Rightarrow> bool \<Rightarrow> value_ref emits" where
  "vec_clz16 vn q = em_push (mk Op_VecClz16 TyU128 [vn] (q_imm q))"

definition vec_clz32 :: "value_ref \<Rightarrow> bool \<Rightarrow> value_ref emits" where
  "vec_clz32 vn q = em_push (mk Op_VecClz32 TyU128 [vn] (q_imm q))"

definition vec_bit :: "value_ref \<Rightarrow> value_ref \<Rightarrow> value_ref \<Rightarrow> bool \<Rightarrow> value_ref emits" where
  "vec_bit vd_prev vn vm q = em_push (mk Op_VecBit TyU128 [vd_prev, vn, vm] (q_imm q))"

definition vec_bif :: "value_ref \<Rightarrow> value_ref \<Rightarrow> value_ref \<Rightarrow> bool \<Rightarrow> value_ref emits" where
  "vec_bif vd_prev vn vm q = em_push (mk Op_VecBif TyU128 [vd_prev, vn, vm] (q_imm q))"

definition vec_bsl :: "value_ref \<Rightarrow> value_ref \<Rightarrow> value_ref \<Rightarrow> bool \<Rightarrow> value_ref emits" where
  "vec_bsl vd_prev vn vm q = em_push (mk Op_VecBsl TyU128 [vd_prev, vn, vm] (q_imm q))"

definition vec_tbl :: "value_ref \<Rightarrow> value_ref \<Rightarrow> bool \<Rightarrow> value_ref emits" where
  "vec_tbl table indices q = em_push (mk Op_VecTbl TyU128 [table, indices] (q_imm q))"

definition vec_tbl2 :: "value_ref \<Rightarrow> value_ref \<Rightarrow> value_ref \<Rightarrow> bool \<Rightarrow> value_ref emits" where
  "vec_tbl2 table0 table1 indices q = em_push (mk Op_VecTbl2 TyU128 [table0, table1, indices] (q_imm q))"

definition vec_tbl3 :: "value_ref \<Rightarrow> value_ref \<Rightarrow> value_ref \<Rightarrow> value_ref \<Rightarrow> bool \<Rightarrow> value_ref emits" where
  "vec_tbl3 table0 table1 table2 indices q = em_push (mk Op_VecTbl3 TyU128 [table0, table1, table2, indices] (q_imm q))"

definition vec_bit_affine :: "value_ref \<Rightarrow> u64 \<Rightarrow> u8 \<Rightarrow> bool \<Rightarrow> value_ref emits" where
  "vec_bit_affine v matrix addend q em = do {
     (m, em) \<leftarrow> const_u64 matrix em;
     em_push (mk Op_VecBitAffine TyU128 [v, m] (push_bit 8 (ucast addend) OR q_imm q)) em
   }"

definition sm4_rounds :: "value_ref \<Rightarrow> value_ref \<Rightarrow> bool \<Rightarrow> value_ref emits" where
  "sm4_rounds st keys key_schedule =
     em_push (mk (if key_schedule then Op_Sm4KeySchedule else Op_Sm4Encrypt) TyU128 [st, keys] 0)"

definition vec_ext :: "value_ref \<Rightarrow> value_ref \<Rightarrow> nat \<Rightarrow> bool \<Rightarrow> value_ref emits" where
  "vec_ext vn vm byte_off q = em_push (mk Op_VecExt TyU128 [vn, vm] (q_imm q OR push_bit 1 (of_nat byte_off)))"

definition vec_addv32 :: "value_ref \<Rightarrow> value_ref emits" where
  "vec_addv32 vn = em_push (mk Op_VecAddv32 TyU32 [vn] 0)"

definition vec_fbin :: "op \<Rightarrow> op \<Rightarrow> bool \<Rightarrow> value_ref \<Rightarrow> value_ref \<Rightarrow> bool \<Rightarrow> value_ref emits" where
  "vec_fbin op_s op_d double vn vm q = em_push (mk (if double then op_d else op_s) TyU128 [vn, vm] (q_imm q))"

definition vec_fadd :: "value_ref \<Rightarrow> value_ref \<Rightarrow> bool \<Rightarrow> bool \<Rightarrow> value_ref emits" where
  "vec_fadd vn vm double q = vec_fbin Op_VecFAdd_S Op_VecFAdd_D double vn vm q"

definition vec_fsub :: "value_ref \<Rightarrow> value_ref \<Rightarrow> bool \<Rightarrow> bool \<Rightarrow> value_ref emits" where
  "vec_fsub vn vm double q = vec_fbin Op_VecFSub_S Op_VecFSub_D double vn vm q"

definition vec_fmul :: "value_ref \<Rightarrow> value_ref \<Rightarrow> bool \<Rightarrow> bool \<Rightarrow> value_ref emits" where
  "vec_fmul vn vm double q = vec_fbin Op_VecFMul_S Op_VecFMul_D double vn vm q"

definition vec_fdiv :: "value_ref \<Rightarrow> value_ref \<Rightarrow> bool \<Rightarrow> bool \<Rightarrow> value_ref emits" where
  "vec_fdiv vn vm double q = vec_fbin Op_VecFDiv_S Op_VecFDiv_D double vn vm q"

definition vec_fmax :: "value_ref \<Rightarrow> value_ref \<Rightarrow> bool \<Rightarrow> bool \<Rightarrow> value_ref emits" where
  "vec_fmax vn vm double q = vec_fbin Op_VecFMax_S Op_VecFMax_D double vn vm q"

definition vec_fmin :: "value_ref \<Rightarrow> value_ref \<Rightarrow> bool \<Rightarrow> bool \<Rightarrow> value_ref emits" where
  "vec_fmin vn vm double q = vec_fbin Op_VecFMin_S Op_VecFMin_D double vn vm q"

definition vec_fcmeq :: "value_ref \<Rightarrow> value_ref \<Rightarrow> bool \<Rightarrow> bool \<Rightarrow> value_ref emits" where
  "vec_fcmeq vn vm double q = vec_fbin Op_VecFCmEq_S Op_VecFCmEq_D double vn vm q"

definition vec_fcmgt :: "value_ref \<Rightarrow> value_ref \<Rightarrow> bool \<Rightarrow> bool \<Rightarrow> value_ref emits" where
  "vec_fcmgt vn vm double q = vec_fbin Op_VecFCmGt_S Op_VecFCmGt_D double vn vm q"

definition vec_fcmge :: "value_ref \<Rightarrow> value_ref \<Rightarrow> bool \<Rightarrow> bool \<Rightarrow> value_ref emits" where
  "vec_fcmge vn vm double q = vec_fbin Op_VecFCmGe_S Op_VecFCmGe_D double vn vm q"

definition vec_fmla :: "value_ref \<Rightarrow> value_ref \<Rightarrow> value_ref \<Rightarrow> bool \<Rightarrow> bool \<Rightarrow> value_ref emits" where
  "vec_fmla vd_prev vn vm double q =
     em_push (mk (if double then Op_VecFmla_D else Op_VecFmla_S) TyU128 [vd_prev, vn, vm] (q_imm q))"

definition vec_fmls :: "value_ref \<Rightarrow> value_ref \<Rightarrow> value_ref \<Rightarrow> bool \<Rightarrow> bool \<Rightarrow> value_ref emits" where
  "vec_fmls vd_prev vn vm double q =
     em_push (mk (if double then Op_VecFmls_D else Op_VecFmls_S) TyU128 [vd_prev, vn, vm] (q_imm q))"

definition vec_frint :: "op \<Rightarrow> op \<Rightarrow> bool \<Rightarrow> value_ref \<Rightarrow> bool \<Rightarrow> value_ref emits" where
  "vec_frint op_s op_d double vn q = em_push (mk (if double then op_d else op_s) TyU128 [vn] (q_imm q))"

definition vec_frintn :: "value_ref \<Rightarrow> bool \<Rightarrow> bool \<Rightarrow> value_ref emits" where
  "vec_frintn vn double q = vec_frint Op_VecFRintN_S Op_VecFRintN_D double vn q"

definition vec_frintm :: "value_ref \<Rightarrow> bool \<Rightarrow> bool \<Rightarrow> value_ref emits" where
  "vec_frintm vn double q = vec_frint Op_VecFRintM_S Op_VecFRintM_D double vn q"

definition vec_frintp :: "value_ref \<Rightarrow> bool \<Rightarrow> bool \<Rightarrow> value_ref emits" where
  "vec_frintp vn double q = vec_frint Op_VecFRintP_S Op_VecFRintP_D double vn q"

definition vec_frintz :: "value_ref \<Rightarrow> bool \<Rightarrow> bool \<Rightarrow> value_ref emits" where
  "vec_frintz vn double q = vec_frint Op_VecFRintZ_S Op_VecFRintZ_D double vn q"

definition vec_frinta :: "value_ref \<Rightarrow> bool \<Rightarrow> bool \<Rightarrow> value_ref emits" where
  "vec_frinta vn double q = vec_frint Op_VecFRintA_S Op_VecFRintA_D double vn q"

definition vec_frintx :: "value_ref \<Rightarrow> bool \<Rightarrow> bool \<Rightarrow> value_ref emits" where
  "vec_frintx vn double q = vec_frint Op_VecFRintX_S Op_VecFRintX_D double vn q"

definition vec_funop :: "op \<Rightarrow> op \<Rightarrow> bool \<Rightarrow> value_ref \<Rightarrow> bool \<Rightarrow> value_ref emits" where
  "vec_funop op_s op_d double vn q = em_push (mk (if double then op_d else op_s) TyU128 [vn] (q_imm q))"

definition vec_fneg :: "value_ref \<Rightarrow> bool \<Rightarrow> bool \<Rightarrow> value_ref emits" where
  "vec_fneg vn double q = vec_funop Op_VecFNeg_S Op_VecFNeg_D double vn q"

definition vec_fabs :: "value_ref \<Rightarrow> bool \<Rightarrow> bool \<Rightarrow> value_ref emits" where
  "vec_fabs vn double q = vec_funop Op_VecFAbs_S Op_VecFAbs_D double vn q"

definition vec_fsqrt :: "value_ref \<Rightarrow> bool \<Rightarrow> bool \<Rightarrow> value_ref emits" where
  "vec_fsqrt vn double q = vec_funop Op_VecFSqrt_S Op_VecFSqrt_D double vn q"

definition long_imm :: "nat \<Rightarrow> bool \<Rightarrow> u64" where
  "long_imm src_lane_log2 high_half = push_bit 1 (of_bool high_half) OR push_bit 2 (of_nat src_lane_log2)"

definition vec_saddl :: "value_ref \<Rightarrow> value_ref \<Rightarrow> nat \<Rightarrow> bool \<Rightarrow> value_ref emits" where
  "vec_saddl vn vm src_lane_log2 high_half =
     em_push (mk Op_VecSaddl TyU128 [vn, vm] (long_imm src_lane_log2 high_half))"

definition vec_uaddl :: "value_ref \<Rightarrow> value_ref \<Rightarrow> nat \<Rightarrow> bool \<Rightarrow> value_ref emits" where
  "vec_uaddl vn vm src_lane_log2 high_half =
     em_push (mk Op_VecUaddl TyU128 [vn, vm] (long_imm src_lane_log2 high_half))"

definition vec_ssubl :: "value_ref \<Rightarrow> value_ref \<Rightarrow> nat \<Rightarrow> bool \<Rightarrow> value_ref emits" where
  "vec_ssubl vn vm src_lane_log2 high_half =
     em_push (mk Op_VecSsubl TyU128 [vn, vm] (long_imm src_lane_log2 high_half))"

definition vec_usubl :: "value_ref \<Rightarrow> value_ref \<Rightarrow> nat \<Rightarrow> bool \<Rightarrow> value_ref emits" where
  "vec_usubl vn vm src_lane_log2 high_half =
     em_push (mk Op_VecUsubl TyU128 [vn, vm] (long_imm src_lane_log2 high_half))"

definition vec_smull :: "value_ref \<Rightarrow> value_ref \<Rightarrow> nat \<Rightarrow> bool \<Rightarrow> value_ref emits" where
  "vec_smull vn vm src_lane_log2 high_half =
     em_push (mk Op_VecSmull TyU128 [vn, vm] (long_imm src_lane_log2 high_half))"

definition vec_umull :: "value_ref \<Rightarrow> value_ref \<Rightarrow> nat \<Rightarrow> bool \<Rightarrow> value_ref emits" where
  "vec_umull vn vm src_lane_log2 high_half =
     em_push (mk Op_VecUmull TyU128 [vn, vm] (long_imm src_lane_log2 high_half))"

definition vec_xtn :: "value_ref \<Rightarrow> nat \<Rightarrow> value_ref emits" where
  "vec_xtn vn src_lane_log2 = em_push (mk Op_VecXtn TyU128 [vn] (push_bit 2 (of_nat src_lane_log2)))"

definition vec_xtn2 :: "value_ref \<Rightarrow> value_ref \<Rightarrow> nat \<Rightarrow> value_ref emits" where
  "vec_xtn2 vd_prev vn src_lane_log2 =
     em_push (mk Op_VecXtn2 TyU128 [vd_prev, vn] (push_bit 2 (of_nat src_lane_log2)))"

definition vec_rev :: "value_ref \<Rightarrow> nat \<Rightarrow> nat \<Rightarrow> bool \<Rightarrow> value_ref emits" where
  "vec_rev vn src_lane_log2 container_log2 q =
     (let imm = q_imm q OR push_bit 2 (of_nat src_lane_log2) in
      if container_log2 = 1 then em_push (mk Op_VecRev16 TyU128 [vn] imm)
      else if container_log2 = 2 then em_push (mk Op_VecRev32 TyU128 [vn] imm)
      else if container_log2 = 3 then em_push (mk Op_VecRev64 TyU128 [vn] imm)
      else (\<lambda>em. None))"

definition vec_perm :: "op \<Rightarrow> value_ref \<Rightarrow> value_ref \<Rightarrow> nat \<Rightarrow> bool \<Rightarrow> value_ref emits" where
  "vec_perm p vn vm lane_log2 q = em_push (mk p TyU128 [vn, vm] (q_imm q OR push_bit 2 (of_nat lane_log2)))"

definition vec_uzp1 :: "value_ref \<Rightarrow> value_ref \<Rightarrow> nat \<Rightarrow> bool \<Rightarrow> value_ref emits" where
  "vec_uzp1 vn vm lane_log2 q = vec_perm Op_VecUzp1 vn vm lane_log2 q"

definition vec_uzp2 :: "value_ref \<Rightarrow> value_ref \<Rightarrow> nat \<Rightarrow> bool \<Rightarrow> value_ref emits" where
  "vec_uzp2 vn vm lane_log2 q = vec_perm Op_VecUzp2 vn vm lane_log2 q"

definition vec_trn1 :: "value_ref \<Rightarrow> value_ref \<Rightarrow> nat \<Rightarrow> bool \<Rightarrow> value_ref emits" where
  "vec_trn1 vn vm lane_log2 q = vec_perm Op_VecTrn1 vn vm lane_log2 q"

definition vec_trn2 :: "value_ref \<Rightarrow> value_ref \<Rightarrow> nat \<Rightarrow> bool \<Rightarrow> value_ref emits" where
  "vec_trn2 vn vm lane_log2 q = vec_perm Op_VecTrn2 vn vm lane_log2 q"

definition const_u128 :: "u64 \<Rightarrow> u64 \<Rightarrow> value_ref emits" where
  "const_u128 lo hi em = do {
     (l, em) \<leftarrow> const_u64 lo em;
     (h, em) \<leftarrow> const_u64 hi em;
     vec_build_q l h em
   }"

definition vec_cnt :: "value_ref \<Rightarrow> bool \<Rightarrow> value_ref emits" where
  "vec_cnt vn q em = do {
     (c55, em) \<leftarrow> const_u32 0x55 em;
     (c33, em) \<leftarrow> const_u32 0x33 em;
     (c0f, em) \<leftarrow> const_u32 0x0F em;
     (mask55, em) \<leftarrow> vec_dup_gpr c55 0 q em;
     (mask33, em) \<leftarrow> vec_dup_gpr c33 0 q em;
     (mask0f, em) \<leftarrow> vec_dup_gpr c0f 0 q em;
     (shifted1, em) \<leftarrow> vec_ushr_imm vn 0 1 q em;
     (subtrahend, em) \<leftarrow> vec_and shifted1 mask55 q em;
     (step1, em) \<leftarrow> vec_sub vn subtrahend 0 q em;
     (lo, em) \<leftarrow> vec_and step1 mask33 q em;
     (shifted2, em) \<leftarrow> vec_ushr_imm step1 0 2 q em;
     (hi, em) \<leftarrow> vec_and shifted2 mask33 q em;
     (step2, em) \<leftarrow> vec_add lo hi 0 q em;
     (shifted4, em) \<leftarrow> vec_ushr_imm step2 0 4 q em;
     (step3, em) \<leftarrow> vec_add step2 shifted4 0 q em;
     vec_and step3 mask0f q em
   }"

section \<open>What pushing does\<close>

text \<open>
  \<open>em_wf em\<close> says that the block is a well-formed list; \<open>next_ref em\<close> is the reference the next
  node will get and \<open>app em a\<close> the emitter after pushing \<open>a\<close>.
\<close>

definition em_wf :: "emitter \<Rightarrow> bool" where
  "em_wf em \<longleftrightarrow> (\<exists>xs. block_inv (em_block em) xs)"

definition next_ref :: "emitter \<Rightarrow> value_ref" where
  "next_ref em = length (code (em_block em))"

definition app :: "emitter \<Rightarrow> armlet \<Rightarrow> emitter" where
  "app em a = snd (the (em_push a em))"

named_theorems emits \<open>how the builders extend the emitter\<close>

lemma block_inv_terminal [simp]: "block_inv (b\<lparr>terminal := t\<rparr>) xs = block_inv b xs"
  by (simp add: block_inv_def)

lemma em_push_wf:
  assumes "block_inv (em_block em) xs"
  shows "em_push a em = Some (next_ref em, app em a)" "block_inv (em_block (app em a)) (xs @ [next_ref em])"
    "length (code (em_block (app em a))) = Suc (next_ref em)"
    "payload (code (em_block (app em a)) ! next_ref em) = payload (a\<lparr>a_pc := current_pc em\<rparr>)"
    "i \<in> set xs \<Longrightarrow> payload (code (em_block (app em a)) ! i) = payload (code (em_block em) ! i)"
    "current_pc (app em a) = current_pc em"
    "terminal (em_block (app em a)) = terminal (em_block em)"
    "cycles (em_block (app em a)) = cycles (em_block em)" "ranges (em_block (app em a)) = ranges (em_block em)"
proof -
  let ?a = "a\<lparr>a_pc := current_pc em\<rparr>"
  obtain n b where p: "push ?a (em_block em) = Some (n, b)" "block_inv b (xs @ [n])" "payload (code b ! n) = payload ?a"
    "\<forall>i\<in>set xs. payload (code b ! i) = payload (code (em_block em) ! i)"
    using blk.psh_law[OF assms] by blast
  have n: "n = next_ref em" and b: "length (code b) = Suc (next_ref em)" "terminal b = terminal (em_block em)"
    "cycles b = cycles (em_block em)" "ranges b = ranges (em_block em)"
    using p(1) by (auto simp: push_def next_ref_def upd_node_def Let_def split: if_splits bind_splits)
  have e: "em_push a em = Some (n, em\<lparr>em_block := b\<rparr>)" using p(1) by (simp add: em_push_def)
  then have app: "app em a = em\<lparr>em_block := b\<rparr>" by (simp add: app_def)
  show "em_push a em = Some (next_ref em, app em a)" using e n app by simp
  show "block_inv (em_block (app em a)) (xs @ [next_ref em])" "length (code (em_block (app em a))) = Suc (next_ref em)"
    "payload (code (em_block (app em a)) ! next_ref em) = payload ?a" "current_pc (app em a) = current_pc em"
    "terminal (em_block (app em a)) = terminal (em_block em)"
    "cycles (em_block (app em a)) = cycles (em_block em)" "ranges (em_block (app em a)) = ranges (em_block em)"
    using p b n app by simp_all
  show "i \<in> set xs \<Longrightarrow> payload (code (em_block (app em a)) ! i) = payload (code (em_block em) ! i)"
    using p(4) app by simp
qed

lemma em_push_emits [emits]:
  assumes "em_wf em"
  shows "em_push a em = Some (next_ref em, app em a)" "em_do a em = Some ((), app em a)"
    "em_wf (app em a)" "next_ref (app em a) = Suc (next_ref em)" "current_pc (app em a) = current_pc em"
    "terminal (em_block (app em a)) = terminal (em_block em)" "0 < next_ref em"
    "cycles (em_block (app em a)) = cycles (em_block em)" "ranges (em_block (app em a)) = ranges (em_block em)"
proof -
  obtain xs where xs: "block_inv (em_block em) xs" using assms em_wf_def by blast
  note p = em_push_wf[OF xs]
  show "em_push a em = Some (next_ref em, app em a)" "em_do a em = Some ((), app em a)"
    "current_pc (app em a) = current_pc em" "terminal (em_block (app em a)) = terminal (em_block em)"
    "cycles (em_block (app em a)) = cycles (em_block em)" "ranges (em_block (app em a)) = ranges (em_block em)"
    using p by (simp_all add: em_do_def)
  show "em_wf (app em a)" using p(2) em_wf_def by blast
  show "next_ref (app em a) = Suc (next_ref em)" using p(3) by (simp add: next_ref_def)
  show "0 < next_ref em" using xs by (simp add: next_ref_def block_inv_def)
qed

lemma set_terminal_emits [emits]:
  "em_wf (set_terminal t em) = em_wf em" "next_ref (set_terminal t em) = next_ref em"
  "current_pc (set_terminal t em) = current_pc em" "terminal (em_block (set_terminal t em)) = t"
  by (simp_all add: set_terminal_def em_wf_def next_ref_def)

lemmas int_builders [emits] =
  const_u32_def const_u64_def
  em_add_def em_sub_def em_and_def em_or_def em_eor_def em_lsl_def em_lsr_def em_asr_def em_ror_def
  em_adds_def em_subs_def logic_flags_def em_load_def em_store_def em_link_def em_branch_def em_branch_cond_def
  branch_indirect_def

end
