(* ===== verification/Ir_Sem.thy ===== *)
theory Ir_Sem
  imports Emitter Opt_Pass Lanes Atomic Sha "HOL-Library.Signed_Division"
begin

text \<open>
  The meaning of a block: what the code emitted for a node (\<open>src/backend/isel.rs\<close>) does to the
  guest context and which value it leaves in the location of the node. Values are 128 bits; a
  narrower value is kept zero-extended and read back at the width of the reader. Memory is flat
  and does not fault.
\<close>

section \<open>Values and the guest state\<close>

type_synonym ir_value = u128

definition of64 :: "u64 \<Rightarrow> ir_value" where "of64 x = ucast x"
definition of32 :: "u32 \<Rightarrow> ir_value" where "of32 x = ucast x"
definition low64 :: "ir_value \<Rightarrow> u64" where "low64 v = ucast v"
definition low32 :: "ir_value \<Rightarrow> u32" where "low32 v = ucast v"

lemma lo_of [simp]:
  "low64 (of64 x) = x" "low32 (of32 y) = y" "low64 (of32 y) = ucast y" "low32 (of64 x) = ucast x"
  unfolding of64_def of32_def low64_def low32_def
  by (rule bit_word_eqI; auto simp: bit_simps dest: bit_imp_le_length)+

record guest =
  g_x :: "nat \<Rightarrow> u64"
  g_sp :: u64
  g_nzcv :: nzcv
  g_v :: "nat \<Rightarrow> u128"
  g_mem :: byte_memory

section \<open>Flags\<close>

definition pack_nzcv :: "bool \<Rightarrow> bool \<Rightarrow> bool \<Rightarrow> bool \<Rightarrow> nzcv" where
  "pack_nzcv n z c v =
     push_bit 3 (of_bool n) OR push_bit 2 (of_bool z) OR push_bit 1 (of_bool c) OR of_bool v"

text \<open>The sign, zero, carry and overflow flags of the host's \<open>adc\<close> and \<open>sbb\<close>; the emitted code
  inverts the carry of a subtraction.\<close>

definition adc_flags :: "'a::len word \<Rightarrow> 'a word \<Rightarrow> bool \<Rightarrow> nzcv" where
  "adc_flags x y c =
     (let r = x + y + of_bool c in
      pack_nzcv (bit r (LENGTH('a) - 1)) (r = 0) (2 ^ LENGTH('a) \<le> uint x + uint y + of_bool c)
        (sint x + sint y + of_bool c \<noteq> sint r))"

definition sbb_flags :: "'a::len word \<Rightarrow> 'a word \<Rightarrow> bool \<Rightarrow> nzcv" where
  "sbb_flags x y c =
     (let r = x - y - of_bool (\<not> c) in
      pack_nzcv (bit r (LENGTH('a) - 1)) (r = 0) (\<not> uint x < uint y + of_bool (\<not> c))
        (sint x - sint y - of_bool (\<not> c) \<noteq> sint r))"

definition logic_nzcv :: "'a::len word \<Rightarrow> nzcv" where
  "logic_nzcv r = pack_nzcv (bit r (LENGTH('a) - 1)) (r = 0) False False"

section \<open>Operations at their width\<close>

definition rev_bits :: "'a::len word \<Rightarrow> 'a word" where
  "rev_bits x = word_reverse x"

text \<open>Bytes reversed inside every group of \<open>n\<close> bytes.\<close>

definition rev_bytes :: "nat \<Rightarrow> 'a::len word \<Rightarrow> 'a word" where
  "rev_bytes n x = join (LENGTH('a) div 8) (\<lambda>i. lane (i - i mod n + (n - 1 - i mod n)) x :: u8)"

definition udiv :: "'a::len word \<Rightarrow> 'a word \<Rightarrow> 'a word" where
  "udiv x y = (if y = 0 then 0 else x div y)"

definition sdiv_host :: "'a::len word \<Rightarrow> 'a word \<Rightarrow> 'a word" where
  "sdiv_host x y =
     (if y = 0 then 0 else if y = -1 \<and> x = push_bit (LENGTH('a) - 1) 1 then x
      else word_of_int (sint x sdiv sint y))"

definition cls :: "'a::len word \<Rightarrow> 'a word" where
  "cls x = of_nat (leading_zeros (x XOR signed_drop_bit 1 x)) - 1"

definition ops32 :: "(op \<times> (u32 \<Rightarrow> u32 \<Rightarrow> u32)) list" where
  "ops32 =
     [(Op_Add32, (+)), (Op_Sub32, (-)), (Op_And32, (AND)), (Op_Or32, (OR)), (Op_Eor32, (XOR)), (Op_Mul32, (*)),
      (Op_Lsl32, wrapping_shl), (Op_Lsr32, wrapping_shr), (Op_Asr32, wrapping_sar), (Op_Ror32, rotate_right),
      (Op_UDiv32, udiv), (Op_SDiv32, sdiv_host),
      (Op_Not32, \<lambda>x y. NOT x), (Op_Neg32, \<lambda>x y. - x),
      (Op_Clz32, \<lambda>x y. of_nat (leading_zeros x)), (Op_Cls32, \<lambda>x y. cls x), (Op_Rbit32, \<lambda>x y. rev_bits x),
      (Op_AddsFlags32, (+)), (Op_SubsFlags32, (-))]"

definition ops64 :: "(op \<times> (u64 \<Rightarrow> u64 \<Rightarrow> u64)) list" where
  "ops64 =
     [(Op_Add64, (+)), (Op_Sub64, (-)), (Op_And64, (AND)), (Op_Or64, (OR)), (Op_Eor64, (XOR)), (Op_Mul64, (*)),
      (Op_Lsl64, \<lambda>x y. wrapping_shl x (ucast y)), (Op_Lsr64, \<lambda>x y. wrapping_shr x (ucast y)),
      (Op_Asr64, \<lambda>x y. wrapping_sar x (ucast y)), (Op_Ror64, \<lambda>x y. rotate_right x (ucast y)),
      (Op_UDiv64, udiv), (Op_SDiv64, sdiv_host),
      (Op_UMulH64, \<lambda>x y. ucast (drop_bit 64 (ucast x * ucast y :: u128))),
      (Op_SMulH64, \<lambda>x y. ucast (drop_bit 64 (scast x * scast y :: u128))),
      (Op_Not64, \<lambda>x y. NOT x), (Op_Neg64, \<lambda>x y. - x),
      (Op_Clz64, \<lambda>x y. of_nat (leading_zeros x)), (Op_Cls64, \<lambda>x y. cls x), (Op_Rbit64, \<lambda>x y. rev_bits x),
      (Op_Rev32, \<lambda>x y. rev_bytes 4 x), (Op_AddsFlags64, (+)), (Op_SubsFlags64, (-))]"

text \<open>The operations whose operand width is the type of the node.\<close>

definition ops_typed :: "(op \<times> nat) list" where
  "ops_typed = [(Op_Rev16, 2), (Op_Rev64, 8)]"

definition ops_carry32 :: "(op \<times> (u32 \<Rightarrow> u32 \<Rightarrow> bool \<Rightarrow> u32)) list" where
  "ops_carry32 =
     [(Op_Adc32, \<lambda>x y c. x + y + of_bool c), (Op_Adcs32, \<lambda>x y c. x + y + of_bool c),
      (Op_Sbc32, \<lambda>x y c. x - y - of_bool (\<not> c)), (Op_Sbcs32, \<lambda>x y c. x - y - of_bool (\<not> c))]"

definition ops_carry64 :: "(op \<times> (u64 \<Rightarrow> u64 \<Rightarrow> bool \<Rightarrow> u64)) list" where
  "ops_carry64 =
     [(Op_Adc64, \<lambda>x y c. x + y + of_bool c), (Op_Adcs64, \<lambda>x y c. x + y + of_bool c),
      (Op_Sbc64, \<lambda>x y c. x - y - of_bool (\<not> c)), (Op_Sbcs64, \<lambda>x y c. x - y - of_bool (\<not> c))]"

definition ops_crc :: "(op \<times> nat \<times> bool) list" where
  "ops_crc =
     [(Op_Crc32Ieee8, 1, False), (Op_Crc32Ieee16, 2, False), (Op_Crc32Ieee32, 4, False), (Op_Crc32Ieee64, 8, False),
      (Op_Crc32Castagnoli8, 1, True), (Op_Crc32Castagnoli16, 2, True), (Op_Crc32Castagnoli32, 4, True),
      (Op_Crc32Castagnoli64, 8, True)]"

text \<open>Clears the upper half of a vector result unless \<open>q\<close>, bit 0 of the immediate, is set.\<close>

definition q_form :: "u64 \<Rightarrow> u128 \<Rightarrow> u128" where
  "q_form imm v = (if bit imm 0 then v else of64 (low64 v))"

definition bytewise :: "(u8 \<Rightarrow> u8 \<Rightarrow> u8) \<Rightarrow> u128 \<Rightarrow> u128 \<Rightarrow> u128" where
  "bytewise f x y = join 16 (\<lambda>i. f (lane i x) (lane i y))"

definition ops_vec :: "(op \<times> (u64 \<Rightarrow> u128 \<Rightarrow> u128 \<Rightarrow> u128)) list" where
  "ops_vec =
     [(Op_VecAnd, \<lambda>imm. (AND)), (Op_VecOrr, \<lambda>imm. (OR)), (Op_VecEor, \<lambda>imm. (XOR)),
      (Op_VecBic, \<lambda>imm x y. x AND NOT y), (Op_VecOrn, \<lambda>imm x y. x OR NOT y), (Op_VecNot, \<lambda>imm x y. NOT x),
      (Op_VecAdd8, \<lambda>imm. bytewise (+)), (Op_VecSub8, \<lambda>imm. bytewise (-)), (Op_VecMul8, \<lambda>imm. bytewise (*)),
      (Op_VecUshrImm8, \<lambda>imm x y. bytewise (\<lambda>u v. drop_bit (unat (drop_bit 1 imm)) u) x y),
      (Op_VecDupGpr8, \<lambda>imm x y. join 16 (\<lambda>i. ucast x :: u8))]"

section \<open>What a node computes and does\<close>

definition typed_val :: "ty \<Rightarrow> nat \<Rightarrow> ir_value \<Rightarrow> ir_value" where
  "typed_val t n v = (if t = TyU64 then of64 (rev_bytes n (low64 v)) else of32 (rev_bytes (min n 4) (low32 v)))"

text \<open>The atomic operations: width in bytes; the immediate of a read-modify-write selects the operation. The old
  value is the result. One thread is modelled; \<open>Atomic\<close> relates the host's instructions to \<open>fallback\<close>.\<close>

definition ops_rmw :: "(op \<times> nat) list" where
  "ops_rmw = [(Op_AtomicRmw8, 1), (Op_AtomicRmw16, 2), (Op_AtomicRmw32, 4), (Op_AtomicRmw64, 8)]"

definition ops_cas :: "(op \<times> nat) list" where
  "ops_cas = [(Op_AtomicCas8, 1), (Op_AtomicCas16, 2), (Op_AtomicCas32, 4), (Op_AtomicCas64, 8), (Op_AtomicCas128, 16)]"

definition atomic_of :: "armlet \<Rightarrow> ir_value list \<Rightarrow> byte_memory \<Rightarrow> (ir_value \<times> byte_memory) option" where
  "atomic_of a vs m =
     (case map_of ops_rmw (a_op a) of
        Some n \<Rightarrow> map_option (\<lambda>f. fallback m (low64 (vs ! 0)) n f (vs ! 1) 0) (from_u8 (ucast (a_imm a)))
      | None \<Rightarrow> map_option (\<lambda>n. fallback m (low64 (vs ! 0)) n Cas (vs ! 2) (vs ! 1)) (map_of ops_cas (a_op a)))"

definition other_val :: "armlet \<Rightarrow> ir_value list \<Rightarrow> guest \<Rightarrow> ir_value" where
  "other_val a vs s =
     (let p = a_op a; r = unat (a_imm a) in
      if p = Op_ConstU32 then of32 (ucast (a_imm a))
      else if p = Op_ConstU64 then of64 (a_imm a)
      else if p = Op_GetX then of64 (g_x s r)
      else if p = Op_GetW then of32 (ucast (g_x s r))
      else if p = Op_GetSp then of64 (g_sp s)
      else if p = Op_GetNzcv then of32 (ucast (g_nzcv s))
      else if p = Op_Identity then (if ty_bits (a_ty a) \<le> 32 then of32 (low32 (vs ! 0)) else of64 (low64 (vs ! 0)))
      else if p = Op_Csel32 then
        of32 (if nzcv_check (ucast (low32 (vs ! 2))) (cond_from_bits (ucast (a_imm a))) then low32 (vs ! 0) else low32 (vs ! 1))
      else if p = Op_Csel64 then
        of64 (if nzcv_check (ucast (low32 (vs ! 2))) (cond_from_bits (ucast (a_imm a))) then low64 (vs ! 0) else low64 (vs ! 1))
      else if p = Op_GetV then
        (if a_ty a = TyU32 then of32 (low32 (g_v s r)) else if a_ty a = TyU64 then of64 (low64 (g_v s r)) else g_v s r)
      else if p = Op_Load8 then ucast (load_le 1 (g_mem s) (low64 (vs ! 0)) :: u8)
      else if p = Op_Load16 then ucast (load_le 2 (g_mem s) (low64 (vs ! 0)) :: u16)
      else if p = Op_Load32 then of32 (load_le 4 (g_mem s) (low64 (vs ! 0)))
      else if p = Op_Load64 then of64 (load_le 8 (g_mem s) (low64 (vs ! 0)))
      else if p = Op_Load128 then load_le 16 (g_mem s) (low64 (vs ! 0))
      else if p = Op_VecBuildQ then of64 (low64 (vs ! 0)) OR push_bit 64 (of64 (low64 (vs ! 1)))
      else if p = Op_VecExtractLo64 then of64 (low64 (vs ! 0))
      else if p = Op_VecExtractHi64 then drop_bit 64 (vs ! 0)
      else case atomic_of a vs (g_mem s) of Some (old, m) \<Rightarrow> old | None \<Rightarrow> 0)"

definition ir_val :: "armlet \<Rightarrow> ir_value list \<Rightarrow> guest \<Rightarrow> ir_value" where
  "ir_val a vs s =
     (case map_of ops32 (a_op a) of Some f \<Rightarrow> of32 (f (low32 (vs ! 0)) (low32 (vs ! 1))) | None \<Rightarrow>
      (case map_of ops64 (a_op a) of Some f \<Rightarrow> of64 (f (low64 (vs ! 0)) (low64 (vs ! 1))) | None \<Rightarrow>
      (case map_of ops_carry32 (a_op a) of Some f \<Rightarrow> of32 (f (low32 (vs ! 0)) (low32 (vs ! 1)) (bit (vs ! 2) 1)) | None \<Rightarrow>
      (case map_of ops_carry64 (a_op a) of Some f \<Rightarrow> of64 (f (low64 (vs ! 0)) (low64 (vs ! 1)) (bit (vs ! 2) 1)) | None \<Rightarrow>
      (case map_of ops_vec (a_op a) of Some f \<Rightarrow> q_form (a_imm a) (f (a_imm a) (vs ! 0) (vs ! 1)) | None \<Rightarrow>
      (case map_of ops_typed (a_op a) of Some n \<Rightarrow> typed_val (a_ty a) n (vs ! 0) | None \<Rightarrow>
      (case map_of ops_crc (a_op a) of
         Some (n, castagnoli) \<Rightarrow> of32 (crc32 (low32 (vs ! 0)) (low64 (vs ! 1)) n castagnoli)
       | None \<Rightarrow> other_val a vs s)))))))"

definition flags_of :: "op \<Rightarrow> ir_value list \<Rightarrow> nzcv option" where
  "flags_of p vs =
     (let x32 = low32 (vs ! 0); y32 = low32 (vs ! 1); x64 = low64 (vs ! 0); y64 = low64 (vs ! 1); c = bit (vs ! 2) 1 in
      map_of [(Op_AddsFlags32, adc_flags x32 y32 False), (Op_AddsFlags64, adc_flags x64 y64 False),
        (Op_SubsFlags32, sbb_flags x32 y32 True), (Op_SubsFlags64, sbb_flags x64 y64 True),
        (Op_Adcs32, adc_flags x32 y32 c), (Op_Adcs64, adc_flags x64 y64 c),
        (Op_Sbcs32, sbb_flags x32 y32 c), (Op_Sbcs64, sbb_flags x64 y64 c),
        (Op_LogicFlags32, logic_nzcv x32), (Op_LogicFlags64, logic_nzcv x64)] p)"

definition ir_eff :: "armlet \<Rightarrow> ir_value list \<Rightarrow> guest \<Rightarrow> guest" where
  "ir_eff a vs s =
     (let p = a_op a; r = unat (a_imm a) in
      case flags_of p vs of Some f \<Rightarrow> s\<lparr>g_nzcv := f\<rparr> | None \<Rightarrow>
      (if p = Op_SetX then s\<lparr>g_x := (g_x s)(r := low64 (vs ! 0))\<rparr>
       else if p = Op_SetW then s\<lparr>g_x := (g_x s)(r := ucast (low32 (vs ! 0)))\<rparr>
       else if p = Op_SetSp then s\<lparr>g_sp := low64 (vs ! 0)\<rparr>
       else if p = Op_SetNzcv then s\<lparr>g_nzcv := ucast (low32 (vs ! 0))\<rparr>
       else if p = Op_SetV then s\<lparr>g_v := (g_v s)(r := vs ! 0)\<rparr>
       else if p = Op_Store8 then s\<lparr>g_mem := store_le 1 (g_mem s) (low64 (vs ! 0)) (ucast (vs ! 1) :: u8)\<rparr>
       else if p = Op_Store16 then s\<lparr>g_mem := store_le 2 (g_mem s) (low64 (vs ! 0)) (ucast (vs ! 1) :: u16)\<rparr>
       else if p = Op_Store32 then s\<lparr>g_mem := store_le 4 (g_mem s) (low64 (vs ! 0)) (low32 (vs ! 1))\<rparr>
       else if p = Op_Store64 then s\<lparr>g_mem := store_le 8 (g_mem s) (low64 (vs ! 0)) (low64 (vs ! 1))\<rparr>
       else if p = Op_Store128 then s\<lparr>g_mem := store_le 16 (g_mem s) (low64 (vs ! 0)) (vs ! 1)\<rparr>
       else case atomic_of a vs (g_mem s) of Some (old, m) \<Rightarrow> s\<lparr>g_mem := m\<rparr> | None \<Rightarrow> s))"

section \<open>Running an emitter's block\<close>

type_synonym run_state = "(value_ref \<Rightarrow> ir_value) \<times> guest"

definition runs :: "guest \<Rightarrow> emitter \<Rightarrow> run_state" where
  "runs s0 em = run_nodes ir_val ir_eff (em_block em) (the (iter_live (em_block em))) (\<lambda>_. 0) s0"

definition exec_node :: "armlet \<Rightarrow> value_ref \<Rightarrow> run_state \<Rightarrow> run_state" where
  "exec_node a i st = (case st of (env, s) \<Rightarrow>
     let vs = map env (a_args a) in
     (env(i := ir_val a vs s), if has_side_effects (a_op a) then ir_eff a vs s else s))"

lemma payload_fields [simp]:
  "a_op (payload a) = a_op a" "a_ty (payload a) = a_ty a" "a_imm (payload a) = a_imm a" "a_args (payload a) = a_args a"
  by (simp_all add: payload_def)

lemma sem_fields:
  assumes "a_op a' = a_op a" "a_ty a' = a_ty a" "a_imm a' = a_imm a" "a_args a' = a_args a"
  shows "exec_node a' i st = exec_node a i st"
  unfolding exec_node_def ir_val_def ir_eff_def other_val_def atomic_of_def by (simp only: assms)

lemma run_nodes_cong:
  assumes "\<And>i. i \<in> set xs \<Longrightarrow> payload (code b' ! i) = payload (code b ! i)"
  shows "run_nodes val eff b' xs env s = run_nodes val eff b xs env s"
  using assms by (induction xs arbitrary: env s) (simp_all add: Let_def)

lemma run_nodes_append:
  "run_nodes val eff b (xs @ ys) env s =
   (case run_nodes val eff b xs env s of (env, s) \<Rightarrow> run_nodes val eff b ys env s)"
  by (induction xs arbitrary: env s) (simp_all add: Let_def split: prod.split)

lemma runs_app [emits]:
  assumes "em_wf em"
  shows "runs s0 (app em a) = exec_node a (next_ref em) (runs s0 em)"
proof -
  obtain xs where xs: "block_inv (em_block em) xs" using assms em_wf_def by blast
  note p = em_push_wf[OF xs]
  let ?b = "em_block (app em a)"
  have "runs s0 (app em a) = run_nodes ir_val ir_eff ?b (xs @ [next_ref em]) (\<lambda>_. 0) s0"
    unfolding runs_def iter_live_inv(1)[OF p(2)] by simp
  also have "\<dots> = (case run_nodes ir_val ir_eff (em_block em) xs (\<lambda>_. 0) s0 of (env, s) \<Rightarrow>
      run_nodes ir_val ir_eff ?b [next_ref em] env s)"
    unfolding run_nodes_append using run_nodes_cong[of xs ?b "em_block em"] p(5) by metis
  also have "run_nodes ir_val ir_eff (em_block em) xs (\<lambda>_. 0) s0 = runs s0 em"
    unfolding runs_def iter_live_inv(1)[OF xs] by simp
  also have "(case runs s0 em of (env, s) \<Rightarrow> run_nodes ir_val ir_eff ?b [next_ref em] env s) =
      exec_node (payload (a\<lparr>a_pc := current_pc em\<rparr>)) (next_ref em) (runs s0 em)"
    by (simp add: exec_node_def p(4) Let_def split: prod.split)
  also have "\<dots> = exec_node a (next_ref em) (runs s0 em)" by (rule sem_fields) simp_all
  finally show ?thesis .
qed

lemma iter_from_terminal: "iter_from n next_of v (b\<lparr>terminal := t\<rparr>) = iter_from n next_of v b"
proof (induction n arbitrary: v)
  case 0
  then show ?case by (cases v) simp_all
next
  case (Suc n)
  have "next_of x (b\<lparr>terminal := t\<rparr>) = next_of x b" for x by (simp add: next_of_def node_def)
  then show ?case using Suc by (cases v) simp_all
qed

lemma runs_set_terminal [emits]: "runs s0 (set_terminal t em) = runs s0 em"
proof -
  have "run_nodes v e (em_block em\<lparr>terminal := t\<rparr>) xs env s = run_nodes v e (em_block em) xs env s" for v e xs env s
    by (rule run_nodes_cong) simp
  moreover have "iter_live (em_block em\<lparr>terminal := t\<rparr>) = iter_live (em_block em)"
    unfolding iter_live_def head_vr_def by (simp add: iter_from_terminal)
  ultimately show ?thesis by (simp add: runs_def set_terminal_def)
qed

section \<open>The nodes the translators emit\<close>

lemma exec_node_with_flags [emits]: "exec_node (with_flags f a) i st = exec_node a i st"
  by (rule sem_fields) (simp_all add: with_flags_def)

lemma exec_mk:
  "exec_node (mk p t vs imm) i (env, s) =
    (let xs = map env (take 4 vs @ drop (length vs) no_args)
     in (env(i := ir_val (mk p t vs imm) xs s), if has_side_effects p then ir_eff (mk p t vs imm) xs s else s))"
  unfolding exec_node_def mk_def with_imm_def with_args_def armlet_new_def by simp

lemma mk_new: "armlet_new p t = mk p t [] 0"
  by (simp add: mk_def with_imm_def with_args_def armlet_new_def)

lemma mk_fields [simp]:
  "a_op (mk p t vs imm) = p" "a_ty (mk p t vs imm) = t" "a_imm (mk p t vs imm) = imm"
  by (simp_all add: mk_def with_imm_def with_args_def armlet_new_def)

lemmas sem_defs = ir_val_def ir_eff_def other_val_def flags_of_def ops32_def ops64_def ops_carry32_def
  ops_carry64_def ops_vec_def ops_typed_def ops_crc_def typed_val_def atomic_of_def ops_rmw_def ops_cas_def

lemma exec_vals0 [emits]:
  "exec_node (mk Op_Add32 t [a, b] imm) i (env, s) = (env(i := of32 (low32 (env a) + low32 (env b))), s)"
  "exec_node (mk Op_Sub32 t [a, b] imm) i (env, s) = (env(i := of32 (low32 (env a) - low32 (env b))), s)"
  "exec_node (mk Op_And32 t [a, b] imm) i (env, s) = (env(i := of32 (low32 (env a) AND low32 (env b))), s)"
  "exec_node (mk Op_Or32 t [a, b] imm) i (env, s) = (env(i := of32 (low32 (env a) OR low32 (env b))), s)"
  "exec_node (mk Op_Eor32 t [a, b] imm) i (env, s) = (env(i := of32 (low32 (env a) XOR low32 (env b))), s)"
  "exec_node (mk Op_Mul32 t [a, b] imm) i (env, s) = (env(i := of32 (low32 (env a) * low32 (env b))), s)"
  "exec_node (mk Op_Lsl32 t [a, b] imm) i (env, s) = (env(i := of32 (wrapping_shl (low32 (env a)) (low32 (env b)))), s)"
  "exec_node (mk Op_Lsr32 t [a, b] imm) i (env, s) = (env(i := of32 (wrapping_shr (low32 (env a)) (low32 (env b)))), s)"
  "exec_node (mk Op_Asr32 t [a, b] imm) i (env, s) = (env(i := of32 (wrapping_sar (low32 (env a)) (low32 (env b)))), s)"
  "exec_node (mk Op_Ror32 t [a, b] imm) i (env, s) = (env(i := of32 (rotate_right (low32 (env a)) (low32 (env b)))), s)"
  "exec_node (mk Op_UDiv32 t [a, b] imm) i (env, s) = (env(i := of32 (udiv (low32 (env a)) (low32 (env b)))), s)"
  "exec_node (mk Op_SDiv32 t [a, b] imm) i (env, s) = (env(i := of32 (sdiv_host (low32 (env a)) (low32 (env b)))), s)"
  "exec_node (mk Op_Clz32 t [a] imm) i (env, s) = (env(i := of32 (of_nat (leading_zeros (low32 (env a))))), s)"
  "exec_node (mk Op_Cls32 t [a] imm) i (env, s) = (env(i := of32 (cls (low32 (env a)))), s)"
  "exec_node (mk Op_Rbit32 t [a] imm) i (env, s) = (env(i := of32 (rev_bits (low32 (env a)))), s)"
  "exec_node (mk Op_AddsFlags32 t [a, b] imm) i (env, s) = (env(i := of32 (low32 (env a) + low32 (env b))), s\<lparr>g_nzcv := adc_flags (low32 (env a)) (low32 (env b)) False\<rparr>)"
  by (simp_all add: exec_mk mk_new sem_defs effect_defs)

lemma exec_vals1 [emits]:
  "exec_node (mk Op_SubsFlags32 t [a, b] imm) i (env, s) = (env(i := of32 (low32 (env a) - low32 (env b))), s\<lparr>g_nzcv := sbb_flags (low32 (env a)) (low32 (env b)) True\<rparr>)"
  "exec_node (mk Op_Adc32 t [a, b, c] imm) i (env, s) = (env(i := of32 (low32 (env a) + low32 (env b) + of_bool (bit (env c) 1))), s)"
  "exec_node (mk Op_Adcs32 t [a, b, c] imm) i (env, s) = (env(i := of32 (low32 (env a) + low32 (env b) + of_bool (bit (env c) 1))), s\<lparr>g_nzcv := adc_flags (low32 (env a)) (low32 (env b)) (bit (env c) 1)\<rparr>)"
  "exec_node (mk Op_Sbc32 t [a, b, c] imm) i (env, s) = (env(i := of32 (low32 (env a) - low32 (env b) - of_bool (\<not> bit (env c) 1))), s)"
  "exec_node (mk Op_Sbcs32 t [a, b, c] imm) i (env, s) = (env(i := of32 (low32 (env a) - low32 (env b) - of_bool (\<not> bit (env c) 1))), s\<lparr>g_nzcv := sbb_flags (low32 (env a)) (low32 (env b)) (bit (env c) 1)\<rparr>)"
  "exec_node (mk Op_Csel32 t [a, b, c] imm) i (env, s) = (env(i := of32 (if nzcv_check (ucast (low32 (env c))) (cond_from_bits (ucast imm)) then low32 (env a) else low32 (env b))), s)"
  "exec_node (mk Op_Add64 t [a, b] imm) i (env, s) = (env(i := of64 (low64 (env a) + low64 (env b))), s)"
  "exec_node (mk Op_Sub64 t [a, b] imm) i (env, s) = (env(i := of64 (low64 (env a) - low64 (env b))), s)"
  "exec_node (mk Op_And64 t [a, b] imm) i (env, s) = (env(i := of64 (low64 (env a) AND low64 (env b))), s)"
  "exec_node (mk Op_Or64 t [a, b] imm) i (env, s) = (env(i := of64 (low64 (env a) OR low64 (env b))), s)"
  "exec_node (mk Op_Eor64 t [a, b] imm) i (env, s) = (env(i := of64 (low64 (env a) XOR low64 (env b))), s)"
  "exec_node (mk Op_Mul64 t [a, b] imm) i (env, s) = (env(i := of64 (low64 (env a) * low64 (env b))), s)"
  "exec_node (mk Op_Lsl64 t [a, b] imm) i (env, s) = (env(i := of64 (wrapping_shl (low64 (env a)) (ucast (low64 (env b))))), s)"
  "exec_node (mk Op_Lsr64 t [a, b] imm) i (env, s) = (env(i := of64 (wrapping_shr (low64 (env a)) (ucast (low64 (env b))))), s)"
  "exec_node (mk Op_Asr64 t [a, b] imm) i (env, s) = (env(i := of64 (wrapping_sar (low64 (env a)) (ucast (low64 (env b))))), s)"
  "exec_node (mk Op_Ror64 t [a, b] imm) i (env, s) = (env(i := of64 (rotate_right (low64 (env a)) (ucast (low64 (env b))))), s)"
  by (simp_all add: exec_mk mk_new sem_defs effect_defs)

lemma exec_vals2 [emits]:
  "exec_node (mk Op_UDiv64 t [a, b] imm) i (env, s) = (env(i := of64 (udiv (low64 (env a)) (low64 (env b)))), s)"
  "exec_node (mk Op_SDiv64 t [a, b] imm) i (env, s) = (env(i := of64 (sdiv_host (low64 (env a)) (low64 (env b)))), s)"
  "exec_node (mk Op_Clz64 t [a] imm) i (env, s) = (env(i := of64 (of_nat (leading_zeros (low64 (env a))))), s)"
  "exec_node (mk Op_Cls64 t [a] imm) i (env, s) = (env(i := of64 (cls (low64 (env a)))), s)"
  "exec_node (mk Op_Rbit64 t [a] imm) i (env, s) = (env(i := of64 (rev_bits (low64 (env a)))), s)"
  "exec_node (mk Op_AddsFlags64 t [a, b] imm) i (env, s) = (env(i := of64 (low64 (env a) + low64 (env b))), s\<lparr>g_nzcv := adc_flags (low64 (env a)) (low64 (env b)) False\<rparr>)"
  "exec_node (mk Op_SubsFlags64 t [a, b] imm) i (env, s) = (env(i := of64 (low64 (env a) - low64 (env b))), s\<lparr>g_nzcv := sbb_flags (low64 (env a)) (low64 (env b)) True\<rparr>)"
  "exec_node (mk Op_Adc64 t [a, b, c] imm) i (env, s) = (env(i := of64 (low64 (env a) + low64 (env b) + of_bool (bit (env c) 1))), s)"
  "exec_node (mk Op_Adcs64 t [a, b, c] imm) i (env, s) = (env(i := of64 (low64 (env a) + low64 (env b) + of_bool (bit (env c) 1))), s\<lparr>g_nzcv := adc_flags (low64 (env a)) (low64 (env b)) (bit (env c) 1)\<rparr>)"
  "exec_node (mk Op_Sbc64 t [a, b, c] imm) i (env, s) = (env(i := of64 (low64 (env a) - low64 (env b) - of_bool (\<not> bit (env c) 1))), s)"
  "exec_node (mk Op_Sbcs64 t [a, b, c] imm) i (env, s) = (env(i := of64 (low64 (env a) - low64 (env b) - of_bool (\<not> bit (env c) 1))), s\<lparr>g_nzcv := sbb_flags (low64 (env a)) (low64 (env b)) (bit (env c) 1)\<rparr>)"
  "exec_node (mk Op_Csel64 t [a, b, c] imm) i (env, s) = (env(i := of64 (if nzcv_check (ucast (low32 (env c))) (cond_from_bits (ucast imm)) then low64 (env a) else low64 (env b))), s)"
  "exec_node (mk Op_UMulH64 t [a, b] imm) i (env, s) = (env(i := of64 (ucast (drop_bit 64 (ucast (low64 (env a)) * ucast (low64 (env b)) :: u128)))), s)"
  "exec_node (mk Op_SMulH64 t [a, b] imm) i (env, s) = (env(i := of64 (ucast (drop_bit 64 (scast (low64 (env a)) * scast (low64 (env b)) :: u128)))), s)"
  "exec_node (mk Op_Rev16 TyU32 [a] imm) i (env, s) = (env(i := of32 (rev_bytes 2 (low32 (env a)))), s)"
  "exec_node (mk Op_Rev16 TyU64 [a] imm) i (env, s) = (env(i := of64 (rev_bytes 2 (low64 (env a)))), s)"
  by (simp_all add: exec_mk mk_new sem_defs effect_defs)

lemma exec_vals3 [emits]:
  "exec_node (mk Op_Rev64 TyU32 [a] imm) i (env, s) = (env(i := of32 (rev_bytes 4 (low32 (env a)))), s)"
  "exec_node (mk Op_Rev64 TyU64 [a] imm) i (env, s) = (env(i := of64 (rev_bytes 8 (low64 (env a)))), s)"
  "exec_node (mk Op_Rev32 t [a] imm) i (env, s) = (env(i := of64 (rev_bytes 4 (low64 (env a)))), s)"
  "exec_node (mk Op_Identity TyU64 [a] imm) i (env, s) = (env(i := of64 (low64 (env a))), s)"
  "exec_node (mk Op_ConstU32 t [] imm) i (env, s) = (env(i := of32 (ucast imm)), s)"
  "exec_node (mk Op_ConstU64 t [] imm) i (env, s) = (env(i := of64 imm), s)"
  "exec_node (mk Op_GetX t [] imm) i (env, s) = (env(i := of64 (g_x s (unat imm))), s)"
  "exec_node (mk Op_GetW t [] imm) i (env, s) = (env(i := of32 (ucast (g_x s (unat imm)))), s)"
  "exec_node (armlet_new Op_GetSp t) i (env, s) = (env(i := of64 (g_sp s)), s)"
  "exec_node (armlet_new Op_GetNzcv t) i (env, s) = (env(i := of32 (ucast (g_nzcv s))), s)"
  "exec_node (mk Op_Load8 t [a] imm) i (env, s) = (env(i := ucast (load_le 1 (g_mem s) (low64 (env a)) :: u8)), s)"
  "exec_node (mk Op_Load16 t [a] imm) i (env, s) = (env(i := ucast (load_le 2 (g_mem s) (low64 (env a)) :: u16)), s)"
  "exec_node (mk Op_Load32 t [a] imm) i (env, s) = (env(i := of32 (load_le 4 (g_mem s) (low64 (env a)))), s)"
  "exec_node (mk Op_Load64 t [a] imm) i (env, s) = (env(i := of64 (load_le 8 (g_mem s) (low64 (env a)))), s)"
  "exec_node (mk Op_Load128 t [a] imm) i (env, s) = (env(i := load_le 16 (g_mem s) (low64 (env a))), s)"
  by (simp_all add: exec_mk mk_new sem_defs effect_defs)

lemma exec_crc [emits]:
  "exec_node (mk Op_Crc32Ieee8 t [a, b] imm) i (env, s) = (env(i := of32 (crc32 (low32 (env a)) (low64 (env b)) 1 False)), s)"
  "exec_node (mk Op_Crc32Ieee16 t [a, b] imm) i (env, s) = (env(i := of32 (crc32 (low32 (env a)) (low64 (env b)) 2 False)), s)"
  "exec_node (mk Op_Crc32Ieee32 t [a, b] imm) i (env, s) = (env(i := of32 (crc32 (low32 (env a)) (low64 (env b)) 4 False)), s)"
  "exec_node (mk Op_Crc32Ieee64 t [a, b] imm) i (env, s) = (env(i := of32 (crc32 (low32 (env a)) (low64 (env b)) 8 False)), s)"
  "exec_node (mk Op_Crc32Castagnoli8 t [a, b] imm) i (env, s) = (env(i := of32 (crc32 (low32 (env a)) (low64 (env b)) 1 True)), s)"
  "exec_node (mk Op_Crc32Castagnoli16 t [a, b] imm) i (env, s) = (env(i := of32 (crc32 (low32 (env a)) (low64 (env b)) 2 True)), s)"
  "exec_node (mk Op_Crc32Castagnoli32 t [a, b] imm) i (env, s) = (env(i := of32 (crc32 (low32 (env a)) (low64 (env b)) 4 True)), s)"
  "exec_node (mk Op_Crc32Castagnoli64 t [a, b] imm) i (env, s) = (env(i := of32 (crc32 (low32 (env a)) (low64 (env b)) 8 True)), s)"
  by (simp_all add: exec_mk sem_defs effect_defs)

text \<open>Nodes without a result.\<close>

lemma exec_effects [emits]:
  "exec_node (mk Op_SetX t [a] imm) i (env, s) = (env(i := 0), s\<lparr>g_x := (g_x s)(unat imm := low64 (env a))\<rparr>)"
  "exec_node (mk Op_SetW t [a] imm) i (env, s) = (env(i := 0), s\<lparr>g_x := (g_x s)(unat imm := ucast (low32 (env a)))\<rparr>)"
  "exec_node (mk Op_SetSp t [a] imm) i (env, s) = (env(i := 0), s\<lparr>g_sp := low64 (env a)\<rparr>)"
  "exec_node (mk Op_SetNzcv t [a] imm) i (env, s) = (env(i := 0), s\<lparr>g_nzcv := ucast (low32 (env a))\<rparr>)"
  "exec_node (mk Op_Store8 t [a, b] imm) i (env, s) = (env(i := 0), s\<lparr>g_mem := store_le 1 (g_mem s) (low64 (env a)) (ucast (env b) :: u8)\<rparr>)"
  "exec_node (mk Op_Store16 t [a, b] imm) i (env, s) = (env(i := 0), s\<lparr>g_mem := store_le 2 (g_mem s) (low64 (env a)) (ucast (env b) :: u16)\<rparr>)"
  "exec_node (mk Op_Store32 t [a, b] imm) i (env, s) = (env(i := 0), s\<lparr>g_mem := store_le 4 (g_mem s) (low64 (env a)) (low32 (env b))\<rparr>)"
  "exec_node (mk Op_Store64 t [a, b] imm) i (env, s) = (env(i := 0), s\<lparr>g_mem := store_le 8 (g_mem s) (low64 (env a)) (low64 (env b))\<rparr>)"
  "exec_node (mk Op_Store128 t [a, b] imm) i (env, s) = (env(i := 0), s\<lparr>g_mem := store_le 16 (g_mem s) (low64 (env a)) (env b)\<rparr>)"
  "exec_node (mk Op_LogicFlags32 t [a] imm) i (env, s) = (env(i := 0), s\<lparr>g_nzcv := logic_nzcv (low32 (env a))\<rparr>)"
  "exec_node (mk Op_LogicFlags64 t [a] imm) i (env, s) = (env(i := 0), s\<lparr>g_nzcv := logic_nzcv (low64 (env a))\<rparr>)"
  by (simp_all add: exec_mk sem_defs effect_defs)

lemma exec_control [emits]:
  "exec_node (mk Op_Branch t vs imm) i (env, s) = (env(i := 0), s)"
  "exec_node (mk Op_BranchLink t vs imm) i (env, s) = (env(i := 0), s)"
  "exec_node (mk Op_BranchCond t vs imm) i (env, s) = (env(i := 0), s)"
  "exec_node (mk Op_Ret t vs imm) i (env, s) = (env(i := 0), s)"
  "exec_node (mk Op_BranchIndirect t vs imm) i (env, s) = (env(i := 0), s)"
  "exec_node (mk Op_BranchIndirectLink t vs imm) i (env, s) = (env(i := 0), s)"
  "exec_node (mk Op_CbZ t vs imm) i (env, s) = (env(i := 0), s)"
  "exec_node (mk Op_CbNz t vs imm) i (env, s) = (env(i := 0), s)"
  "exec_node (mk Op_TbZ t vs imm) i (env, s) = (env(i := 0), s)"
  "exec_node (mk Op_TbNz t vs imm) i (env, s) = (env(i := 0), s)"
  "exec_node (mk Op_Hint t vs imm) i (env, s) = (env(i := 0), s)"
  "exec_node (mk Op_MemoryBarrier t vs imm) i (env, s) = (env(i := 0), s)"
  "exec_node (mk Op_Clrex t vs imm) i (env, s) = (env(i := 0), s)"
  by (simp_all add: exec_mk sem_defs effect_defs Let_def)

lemma exec_vector [emits]:
  "exec_node (mk Op_GetV TyU32 [] imm) i (env, s) = (env(i := of32 (low32 (g_v s (unat imm)))), s)"
  "exec_node (mk Op_GetV TyU64 [] imm) i (env, s) = (env(i := of64 (low64 (g_v s (unat imm)))), s)"
  "exec_node (mk Op_GetV TyU128 [] imm) i (env, s) = (env(i := g_v s (unat imm)), s)"
  "exec_node (mk Op_SetV t [a] imm) i (env, s) = (env(i := 0), s\<lparr>g_v := (g_v s)(unat imm := env a)\<rparr>)"
  "exec_node (mk Op_VecBuildQ t [a, b] imm) i (env, s) =
    (env(i := of64 (low64 (env a)) OR push_bit 64 (of64 (low64 (env b)))), s)"
  "exec_node (mk Op_VecExtractLo64 t [a] imm) i (env, s) = (env(i := of64 (low64 (env a))), s)"
  "exec_node (mk Op_VecExtractHi64 t [a] imm) i (env, s) = (env(i := drop_bit 64 (env a)), s)"
  by (simp_all add: exec_mk sem_defs effect_defs)

text \<open>Atomic operations.\<close>

lemma exec_rmw:
  "from_u8 (ucast imm) = Some f \<Longrightarrow> exec_node (mk Op_AtomicRmw8 t [a, b] imm) i (env, s) =
    (env(i := fst (fallback (g_mem s) (low64 (env a)) 1 f (env b) 0)), s\<lparr>g_mem := snd (fallback (g_mem s) (low64 (env a)) 1 f (env b) 0)\<rparr>)"
  "from_u8 (ucast imm) = Some f \<Longrightarrow> exec_node (mk Op_AtomicRmw16 t [a, b] imm) i (env, s) =
    (env(i := fst (fallback (g_mem s) (low64 (env a)) 2 f (env b) 0)), s\<lparr>g_mem := snd (fallback (g_mem s) (low64 (env a)) 2 f (env b) 0)\<rparr>)"
  "from_u8 (ucast imm) = Some f \<Longrightarrow> exec_node (mk Op_AtomicRmw32 t [a, b] imm) i (env, s) =
    (env(i := fst (fallback (g_mem s) (low64 (env a)) 4 f (env b) 0)), s\<lparr>g_mem := snd (fallback (g_mem s) (low64 (env a)) 4 f (env b) 0)\<rparr>)"
  "from_u8 (ucast imm) = Some f \<Longrightarrow> exec_node (mk Op_AtomicRmw64 t [a, b] imm) i (env, s) =
    (env(i := fst (fallback (g_mem s) (low64 (env a)) 8 f (env b) 0)), s\<lparr>g_mem := snd (fallback (g_mem s) (low64 (env a)) 8 f (env b) 0)\<rparr>)"
  by (simp_all add: exec_mk sem_defs effect_defs case_prod_unfold)

lemma exec_cas [emits]:
  "exec_node (mk Op_AtomicCas8 t [a, b, c] imm) i (env, s) =
    (env(i := fst (fallback (g_mem s) (low64 (env a)) 1 Cas (env c) (env b))), s\<lparr>g_mem := snd (fallback (g_mem s) (low64 (env a)) 1 Cas (env c) (env b))\<rparr>)"
  "exec_node (mk Op_AtomicCas16 t [a, b, c] imm) i (env, s) =
    (env(i := fst (fallback (g_mem s) (low64 (env a)) 2 Cas (env c) (env b))), s\<lparr>g_mem := snd (fallback (g_mem s) (low64 (env a)) 2 Cas (env c) (env b))\<rparr>)"
  "exec_node (mk Op_AtomicCas32 t [a, b, c] imm) i (env, s) =
    (env(i := fst (fallback (g_mem s) (low64 (env a)) 4 Cas (env c) (env b))), s\<lparr>g_mem := snd (fallback (g_mem s) (low64 (env a)) 4 Cas (env c) (env b))\<rparr>)"
  "exec_node (mk Op_AtomicCas64 t [a, b, c] imm) i (env, s) =
    (env(i := fst (fallback (g_mem s) (low64 (env a)) 8 Cas (env c) (env b))), s\<lparr>g_mem := snd (fallback (g_mem s) (low64 (env a)) 8 Cas (env c) (env b))\<rparr>)"
  "exec_node (mk Op_AtomicCas128 t [a, b, c] imm) i (env, s) =
    (env(i := fst (fallback (g_mem s) (low64 (env a)) 16 Cas (env c) (env b))), s\<lparr>g_mem := snd (fallback (g_mem s) (low64 (env a)) 16 Cas (env c) (env b))\<rparr>)"
  by (simp_all add: exec_mk sem_defs effect_defs case_prod_unfold)

end
