(* ===== verification/A64.thy ===== *)
theory A64
  imports Ir_Sem Bits
begin

text \<open>
  The architecture's side of the contract: what the A64 integer instructions do, written after
  the pseudocode of the Arm Architecture Reference Manual, parametric in the datasize (the word
  length) and independent of the translator. Operands are fields of the instruction word.
\<close>

section \<open>Fields and registers\<close>

abbreviation (input) fld :: "u32 \<Rightarrow> nat \<Rightarrow> nat \<Rightarrow> nat" where
  "fld insn lsb len \<equiv> unat (bits insn lsb len)"

text \<open>\<open>X[n]\<close> with register 31 as zero, and with register 31 as the stack pointer.\<close>

definition rX :: "nat \<Rightarrow> guest \<Rightarrow> 'a::len word" where
  "rX n s = (if n = 31 then 0 else ucast (g_x s n))"

definition rXSP :: "nat \<Rightarrow> guest \<Rightarrow> 'a::len word" where
  "rXSP n s = ucast (if n = 31 then g_sp s else g_x s n)"

definition wX :: "nat \<Rightarrow> 'a::len word \<Rightarrow> guest \<Rightarrow> guest" where
  "wX n v s = (if n = 31 then s else s\<lparr>g_x := (g_x s)(n := ucast v)\<rparr>)"

definition wXSP :: "nat \<Rightarrow> 'a::len word \<Rightarrow> guest \<Rightarrow> guest" where
  "wXSP n v s = (if n = 31 then s\<lparr>g_sp := ucast v\<rparr> else s\<lparr>g_x := (g_x s)(n := ucast v)\<rparr>)"

section \<open>Shared pseudocode functions\<close>

definition AddWithCarry :: "'a::len word \<Rightarrow> 'a word \<Rightarrow> bool \<Rightarrow> 'a word \<times> nzcv" where
  "AddWithCarry x y carry_in =
     (let unsigned_sum = uint x + uint y + of_bool carry_in;
          signed_sum = sint x + sint y + of_bool carry_in;
          result = word_of_int unsigned_sum
      in (result, pack_nzcv (bit result (LENGTH('a) - 1)) (result = 0)
            (uint result \<noteq> unsigned_sum) (sint result \<noteq> signed_sum)))"

datatype shift_type = LSL | LSR | ASR | ROR

definition shift_of :: "nat \<Rightarrow> shift_type" where
  "shift_of k = [LSL, LSR, ASR, ROR] ! k"

fun ShiftReg :: "shift_type \<Rightarrow> nat \<Rightarrow> 'a::len word \<Rightarrow> 'a word" where
  "ShiftReg LSL n x = push_bit n x"
| "ShiftReg LSR n x = drop_bit n x"
| "ShiftReg ASR n x = signed_drop_bit n x"
| "ShiftReg ROR n x = word_rotr n x"

text \<open>\<open>ExtendReg\<close>: the low \<open>len\<close> bits of a register, extended to the datasize and shifted left.\<close>

definition ExtendReg :: "nat \<Rightarrow> nat \<Rightarrow> u64 \<Rightarrow> 'a::len word" where
  "ExtendReg opt shift v =
     (let len = 8 * 2 ^ (opt mod 4);
          i = (if opt < 4 then take_bit len (uint v) else signed_take_bit (len - 1) (uint v))
      in push_bit shift (word_of_int i))"

definition cond_passed :: "u32 \<Rightarrow> guest \<Rightarrow> bool" where
  "cond_passed c s = cond_holds (cond_from_bits (ucast c)) (bit (g_nzcv s) 3) (bit (g_nzcv s) 2) (bit (g_nzcv s) 1) (bit (g_nzcv s) 0)"

text \<open>The logical immediate of the fields \<open>N:immr:imms\<close> at bits 22, 16 and 10.\<close>

definition limm :: "u32 \<Rightarrow> 'a::len word" where
  "limm insn =
     (let len = 31 - leading_zeros (push_bit 6 (bits insn 22 1) OR (NOT (bits insn 10 6) AND 0x3f));
          s = fld insn 10 6 mod 2 ^ len; r = fld insn 16 6 mod 2 ^ len
      in horner_sum of_bool 2 (map (limm_bit len s r) [0..<LENGTH('a)]))"

definition SDiv :: "'a::len word \<Rightarrow> 'a word \<Rightarrow> 'a word" where
  "SDiv x y = (if y = 0 then 0 else word_of_int (sint x sdiv sint y))"

definition UDiv :: "'a::len word \<Rightarrow> 'a word \<Rightarrow> 'a word" where
  "UDiv x y = (if y = 0 then 0 else word_of_int (uint x div uint y))"

definition CountLeadingSignBits :: "'a::len word \<Rightarrow> nat" where
  "CountLeadingSignBits x = leading_zeros (drop_bit 1 x XOR take_bit (LENGTH('a) - 1) x) - 1"

text \<open>The bytes of every container of \<open>n\<close> bytes in reverse order.\<close>

definition RevBytes :: "nat \<Rightarrow> 'a::len word \<Rightarrow> 'a word" where
  "RevBytes n x = join (LENGTH('a) div 8) (\<lambda>i. lane (i div n * n + (n - 1 - i mod n)) x :: u8)"

text \<open>The bitfield move: \<open>wmask\<close> and \<open>tmask\<close> are those of \<open>DecodeBitMasks\<close> at element size datasize.\<close>

datatype bitfield_kind = Ubfm | Sbfm | Bfm

definition BitfieldMove :: "bitfield_kind \<Rightarrow> nat \<Rightarrow> nat \<Rightarrow> 'a::len word \<Rightarrow> 'a word \<Rightarrow> 'a word" where
  "BitfieldMove kind r s src dst0 =
     (let wmask = word_rotr r (mask (s + 1));
          tmask = mask ((s + LENGTH('a) - r) mod LENGTH('a) + 1);
          dst = (if kind = Bfm then dst0 else 0);
          bot = (dst AND NOT wmask) OR (word_rotr r src AND wmask);
          top = (if kind = Sbfm then (if bit src s then -1 else 0) else dst)
      in (top AND NOT tmask) OR (bot AND tmask))"

section \<open>Instructions\<close>

text \<open>The operand that decides the datasize: \<open>d64\<close> at 64 bits, \<open>d32\<close> at 32.\<close>

definition at_size :: "u32 \<Rightarrow> 'a \<Rightarrow> 'a \<Rightarrow> 'a" where
  "at_size insn d64 d32 = (if bit insn 31 then d64 else d32)"

definition a64_addsub :: "bool \<Rightarrow> bool \<Rightarrow> bool \<Rightarrow> nat \<Rightarrow> 'a::len word \<Rightarrow> 'a word \<Rightarrow> guest \<Rightarrow> guest" where
  "a64_addsub sub_op setflags sp_dest d x y s =
     (case AddWithCarry x (if sub_op then NOT y else y) sub_op of (r, f) \<Rightarrow>
       if setflags then wX d r (s\<lparr>g_nzcv := f\<rparr>) else if sp_dest then wXSP d r s else wX d r s)"

definition a64_addsub_imm :: "bool \<Rightarrow> bool \<Rightarrow> u32 \<Rightarrow> guest \<Rightarrow> guest" where
  "a64_addsub_imm sub_op setflags insn s =
     (let n = fld insn 5 5; d = fld insn 0 5; sh = (if bit insn 22 then 12 else 0)
      in at_size insn
           (a64_addsub sub_op setflags True d (rXSP n s :: u64) (push_bit sh (ucast (bits insn 10 12))) s)
           (a64_addsub sub_op setflags True d (rXSP n s :: u32) (push_bit sh (ucast (bits insn 10 12))) s))"

definition a64_addsub_shift :: "bool \<Rightarrow> bool \<Rightarrow> u32 \<Rightarrow> guest \<Rightarrow> guest" where
  "a64_addsub_shift sub_op setflags insn s =
     (let n = fld insn 5 5; m = fld insn 16 5; d = fld insn 0 5; ty = shift_of (fld insn 22 2); amount = fld insn 10 6
      in at_size insn
           (a64_addsub sub_op setflags False d (rX n s :: u64) (ShiftReg ty amount (rX m s)) s)
           (a64_addsub sub_op setflags False d (rX n s :: u32) (ShiftReg ty amount (rX m s)) s))"

definition a64_addsub_ext :: "bool \<Rightarrow> bool \<Rightarrow> u32 \<Rightarrow> guest \<Rightarrow> guest" where
  "a64_addsub_ext sub_op setflags insn s =
     (let n = fld insn 5 5; m = rX (fld insn 16 5) s; d = fld insn 0 5; ext = fld insn 13 3; amount = fld insn 10 3
      in at_size insn
           (a64_addsub sub_op setflags True d (rXSP n s :: u64) (ExtendReg ext amount m) s)
           (a64_addsub sub_op setflags True d (rXSP n s :: u32) (ExtendReg ext amount m) s))"

definition a64_addsub_carry :: "bool \<Rightarrow> bool \<Rightarrow> u32 \<Rightarrow> guest \<Rightarrow> guest" where
  "a64_addsub_carry sub_op setflags insn s =
     (let n = fld insn 5 5; m = fld insn 16 5; d = fld insn 0 5; c = bit (g_nzcv s) 1;
          s' = (\<lambda>f. if setflags then s\<lparr>g_nzcv := f\<rparr> else s)
      in at_size insn
           (case AddWithCarry (rX n s :: u64) (if sub_op then NOT (rX m s) else rX m s) c of (r, f) \<Rightarrow> wX d r (s' f))
           (case AddWithCarry (rX n s :: u32) (if sub_op then NOT (rX m s) else rX m s) c of (r, f) \<Rightarrow> wX d r (s' f)))"

text \<open>The bitwise operations; \<open>ANDS\<close> and \<open>BICS\<close> set the flags.\<close>

datatype logical_op = LogAnd | LogOrr | LogEor

fun a64_logic :: "logical_op \<Rightarrow> 'a::len word \<Rightarrow> 'a word \<Rightarrow> 'a word" where
  "a64_logic LogAnd x y = x AND y"
| "a64_logic LogOrr x y = x OR y"
| "a64_logic LogEor x y = x XOR y"

definition logic_result :: "bool \<Rightarrow> bool \<Rightarrow> nat \<Rightarrow> 'a::len word \<Rightarrow> guest \<Rightarrow> guest" where
  "logic_result setflags sp_dest d r s =
     (if setflags then wX d r (s\<lparr>g_nzcv := pack_nzcv (bit r (LENGTH('a) - 1)) (r = 0) False False\<rparr>)
      else if sp_dest then wXSP d r s else wX d r s)"

definition a64_log_imm :: "logical_op \<Rightarrow> bool \<Rightarrow> u32 \<Rightarrow> guest \<Rightarrow> guest" where
  "a64_log_imm p setflags insn s =
     (let n = fld insn 5 5; d = fld insn 0 5
      in at_size insn
           (logic_result setflags True d (a64_logic p (rX n s :: u64) (limm insn)) s)
           (logic_result setflags True d (a64_logic p (rX n s :: u32) (limm insn)) s))"

definition a64_log_shift :: "logical_op \<Rightarrow> bool \<Rightarrow> bool \<Rightarrow> u32 \<Rightarrow> guest \<Rightarrow> guest" where
  "a64_log_shift p invert setflags insn s =
     (let n = fld insn 5 5; m = fld insn 16 5; d = fld insn 0 5; ty = shift_of (fld insn 22 2); amount = fld insn 10 6
      in at_size insn
           (logic_result setflags False d (a64_logic p (rX n s :: u64)
              (if invert then NOT (ShiftReg ty amount (rX m s)) else ShiftReg ty amount (rX m s))) s)
           (logic_result setflags False d (a64_logic p (rX n s :: u32)
              (if invert then NOT (ShiftReg ty amount (rX m s)) else ShiftReg ty amount (rX m s))) s))"

datatype move_kind = MoveZ | MoveN | MoveK

definition MoveWide :: "move_kind \<Rightarrow> nat \<Rightarrow> 'a::len word \<Rightarrow> 'a word \<Rightarrow> 'a word" where
  "MoveWide kind pos imm old =
     (case kind of MoveZ \<Rightarrow> push_bit pos imm | MoveN \<Rightarrow> NOT (push_bit pos imm)
      | MoveK \<Rightarrow> push_bit (pos + 16) (drop_bit (pos + 16) old) OR push_bit pos imm OR take_bit pos old)"

definition a64_movewide :: "move_kind \<Rightarrow> u32 \<Rightarrow> guest \<Rightarrow> guest" where
  "a64_movewide kind insn s =
     (let d = fld insn 0 5; pos = 16 * fld insn 21 2
      in at_size insn
           (wX d (MoveWide kind pos (ucast (bits insn 5 16)) (rX d s) :: u64) s)
           (wX d (MoveWide kind pos (ucast (bits insn 5 16)) (rX d s) :: u32) s))"

definition a64_bitfield :: "bitfield_kind \<Rightarrow> u32 \<Rightarrow> guest \<Rightarrow> guest" where
  "a64_bitfield kind insn s =
     (let n = fld insn 5 5; d = fld insn 0 5; r = fld insn 16 6; b = fld insn 10 6
      in at_size insn
           (wX d (BitfieldMove kind r b (rX n s) (rX d s) :: u64) s)
           (wX d (BitfieldMove kind r b (rX n s) (rX d s) :: u32) s))"

text \<open>\<open>EXTR\<close>: the datasize bits from \<open>lsb\<close> of the two registers side by side.\<close>

definition a64_extract :: "u32 \<Rightarrow> guest \<Rightarrow> guest" where
  "a64_extract insn s =
     (let n = fld insn 5 5; m = fld insn 16 5; d = fld insn 0 5; lsb = fld insn 10 6
      in at_size insn
           (wX d (word_of_int (drop_bit lsb (concat_bit 64 (uint (rX m s :: u64)) (uint (rX n s :: u64)))) :: u64) s)
           (wX d (word_of_int (drop_bit lsb (concat_bit 32 (uint (rX m s :: u32)) (uint (rX n s :: u32)))) :: u32) s))"

definition CondSelect :: "bool \<Rightarrow> bool \<Rightarrow> bool \<Rightarrow> 'a::len word \<Rightarrow> 'a word \<Rightarrow> 'a word" where
  "CondSelect passed neg inc x y =
     (if passed then x else (if neg then NOT y else y) + of_bool inc)"

definition a64_condsel :: "bool \<Rightarrow> bool \<Rightarrow> u32 \<Rightarrow> guest \<Rightarrow> guest" where
  "a64_condsel neg inc insn s =
     (let n = fld insn 5 5; m = fld insn 16 5; d = fld insn 0 5; passed = cond_passed (bits insn 12 4) s
      in at_size insn
           (wX d (CondSelect passed neg inc (rX n s) (rX m s) :: u64) s)
           (wX d (CondSelect passed neg inc (rX n s) (rX m s) :: u32) s))"

definition a64_condcmp :: "bool \<Rightarrow> bool \<Rightarrow> u32 \<Rightarrow> guest \<Rightarrow> guest" where
  "a64_condcmp sub_op imm_form insn s =
     (let n = fld insn 5 5; m = fld insn 16 5;
          y64 = (if imm_form then ucast (bits insn 16 5) else rX m s :: u64);
          y32 = (if imm_form then ucast (bits insn 16 5) else rX m s :: u32)
      in s\<lparr>g_nzcv :=
           if cond_passed (bits insn 12 4) s
           then at_size insn (snd (AddWithCarry (rX n s) (if sub_op then NOT y64 else y64) sub_op))
                             (snd (AddWithCarry (rX n s) (if sub_op then NOT y32 else y32) sub_op))
           else ucast (bits insn 0 4)\<rparr>)"

datatype dp1_kind = Clz | Cls | Rbit | Rev16 | Rev32 | RevAll

definition a64_dp1 :: "dp1_kind \<Rightarrow> 'a::len word \<Rightarrow> 'a word" where
  "a64_dp1 kind x =
     (case kind of Clz \<Rightarrow> of_nat (leading_zeros x) | Cls \<Rightarrow> of_nat (CountLeadingSignBits x)
      | Rbit \<Rightarrow> word_reverse x | Rev16 \<Rightarrow> RevBytes 2 x | Rev32 \<Rightarrow> RevBytes 4 x
      | RevAll \<Rightarrow> RevBytes (LENGTH('a) div 8) x)"

definition a64_dp_1src :: "dp1_kind \<Rightarrow> u32 \<Rightarrow> guest \<Rightarrow> guest" where
  "a64_dp_1src kind insn s =
     (let n = fld insn 5 5; d = fld insn 0 5
      in at_size insn (wX d (a64_dp1 kind (rX n s) :: u64) s) (wX d (a64_dp1 kind (rX n s) :: u32) s))"

datatype dp2_kind = Lslv | Lsrv | Asrv | Rorv | Udiv | Sdiv

definition a64_dp2 :: "dp2_kind \<Rightarrow> 'a::len word \<Rightarrow> 'a word \<Rightarrow> 'a word" where
  "a64_dp2 kind x y =
     (let amount = unat y mod LENGTH('a) in
      case kind of Lslv \<Rightarrow> ShiftReg LSL amount x | Lsrv \<Rightarrow> ShiftReg LSR amount x | Asrv \<Rightarrow> ShiftReg ASR amount x
      | Rorv \<Rightarrow> ShiftReg ROR amount x | Udiv \<Rightarrow> UDiv x y | Sdiv \<Rightarrow> SDiv x y)"

definition a64_dp_2src :: "dp2_kind \<Rightarrow> u32 \<Rightarrow> guest \<Rightarrow> guest" where
  "a64_dp_2src kind insn s =
     (let n = fld insn 5 5; m = fld insn 16 5; d = fld insn 0 5
      in at_size insn (wX d (a64_dp2 kind (rX n s) (rX m s) :: u64) s) (wX d (a64_dp2 kind (rX n s) (rX m s) :: u32) s))"

text \<open>The checksum of the low \<open>1, 2, 4\<close> or \<open>8\<close> bytes of the second register.\<close>

definition a64_crc :: "u32 \<Rightarrow> guest \<Rightarrow> guest" where
  "a64_crc insn s =
     (let n = fld insn 5 5; m = fld insn 16 5; d = fld insn 0 5
      in wX d (crc32 (rX n s) (rX m s) (2 ^ fld insn 10 2) (bit insn 12)) s)"

datatype dp3_kind = Madd | Msub | Smaddl | Umaddl | Smsubl | Umsubl | Umulh | Smulh

definition a64_dp_3src :: "dp3_kind \<Rightarrow> u32 \<Rightarrow> guest \<Rightarrow> guest" where
  "a64_dp_3src kind insn s =
     (let n = fld insn 5 5; m = fld insn 16 5; d = fld insn 0 5; a = fld insn 10 5;
          xa = rX a s :: u64; xn = rX n s :: u64; xm = rX m s :: u64; wn = rX n s :: u32; wm = rX m s :: u32
      in case kind of
        Madd \<Rightarrow> at_size insn (wX d (xa + xn * xm) s) (wX d (rX a s + wn * wm) s)
      | Msub \<Rightarrow> at_size insn (wX d (xa - xn * xm) s) (wX d (rX a s - wn * wm) s)
      | Smaddl \<Rightarrow> wX d (xa + word_of_int (sint wn * sint wm)) s
      | Umaddl \<Rightarrow> wX d (xa + word_of_int (uint wn * uint wm)) s
      | Smsubl \<Rightarrow> wX d (xa - word_of_int (sint wn * sint wm)) s
      | Umsubl \<Rightarrow> wX d (xa - word_of_int (uint wn * uint wm)) s
      | Umulh \<Rightarrow> wX d (word_of_int (drop_bit 64 (uint xn * uint xm)) :: u64) s
      | Smulh \<Rightarrow> wX d (word_of_int (drop_bit 64 (sint xn * sint xm)) :: u64) s)"

section \<open>PC-relative addresses and branches\<close>

definition a64_adr :: "bool \<Rightarrow> u32 \<Rightarrow> u64 \<Rightarrow> guest \<Rightarrow> guest" where
  "a64_adr page insn pc s =
     (let imm = signed_take_bit 20 (push_bit 2 (ucast (bits insn 5 19)) OR ucast (bits insn 29 2)) :: u64
      in wX (fld insn 0 5) (if page then push_bit 12 (drop_bit 12 pc) + push_bit 12 imm else pc + imm) s)"

text \<open>The target of a branch with an offset field of \<open>len\<close> bits, in words of four bytes.\<close>

definition rel_target :: "u32 \<Rightarrow> nat \<Rightarrow> nat \<Rightarrow> u64 \<Rightarrow> u64" where
  "rel_target insn lsb len pc = pc + push_bit 2 (signed_take_bit (len - 1) (ucast (bits insn lsb len)))"

definition link_to :: "bool \<Rightarrow> u64 \<Rightarrow> guest \<Rightarrow> guest" where
  "link_to link pc s = (if link then wX 30 (pc + 4) s else s)"

definition a64_branch_imm :: "bool \<Rightarrow> u32 \<Rightarrow> u64 \<Rightarrow> guest \<Rightarrow> guest \<times> u64" where
  "a64_branch_imm link insn pc s = (link_to link pc s, rel_target insn 0 26 pc)"

definition a64_branch_reg :: "bool \<Rightarrow> u32 \<Rightarrow> u64 \<Rightarrow> guest \<Rightarrow> guest \<times> u64" where
  "a64_branch_reg link insn pc s = (link_to link pc s, rX (fld insn 5 5) s)"

definition a64_condbranch :: "u32 \<Rightarrow> u64 \<Rightarrow> guest \<Rightarrow> guest \<times> u64" where
  "a64_condbranch insn pc s = (s, if cond_passed (bits insn 0 4) s then rel_target insn 5 19 pc else pc + 4)"

definition a64_compbranch :: "bool \<Rightarrow> u32 \<Rightarrow> u64 \<Rightarrow> guest \<Rightarrow> guest \<times> u64" where
  "a64_compbranch nonzero insn pc s =
     (let t = fld insn 0 5; zero = at_size insn ((rX t s :: u64) = 0) ((rX t s :: u32) = 0)
      in (s, if zero \<noteq> nonzero then rel_target insn 5 19 pc else pc + 4))"

definition a64_testbranch :: "bool \<Rightarrow> u32 \<Rightarrow> u64 \<Rightarrow> guest \<Rightarrow> guest \<times> u64" where
  "a64_testbranch nonzero insn pc s =
     (let pos = (if bit insn 31 then 32 else 0) + fld insn 19 5
      in (s, if bit (rX (fld insn 0 5) s :: u64) pos = nonzero then rel_target insn 5 14 pc else pc + 4))"

text \<open>\<open>DC ZVA\<close>: zeroes the 64-byte block that holds the address.\<close>

definition a64_zva :: "u32 \<Rightarrow> guest \<Rightarrow> guest" where
  "a64_zva insn s =
     (let base = push_bit 6 (drop_bit 6 (rX (fld insn 0 5) s))
      in s\<lparr>g_mem := (\<lambda>a. if unat (a - base) < 64 then 0 else g_mem s a)\<rparr>)"

end
