(* ===== verification/Frontend.thy ===== *)
theory Frontend
  imports A64
begin

text \<open>
  What the translators of \<open>src/frontend/translate\<close> share: the errors of \<open>src/error.rs\<close>, the
  status of a translated instruction, the meaning of a correct translation, and how the register
  accessors of the emitter read and write the guest registers.
\<close>

section \<open>Results\<close>

datatype error =
    DecodeError u64 u32
  | Unsupported u64 u32
  | GuestMemory u64
  | CodeCacheFull
  | BackendError string
  | HostAlloc string
  | UnsupportedHost
  | BlockTooLarge u64

datatype inst_status = Continue | Terminator

type_synonym translation = "emitter \<Rightarrow> ((error + inst_status) \<times> emitter) option"

definition unsupported :: translation where
  "unsupported em = Some (Inl (Unsupported (current_pc em) 0), em)"

definition decode_error :: "u32 \<Rightarrow> translation" where
  "decode_error insn em = Some (Inl (DecodeError (current_pc em) insn), em)"

text \<open>\<open>if sf == 1 { RegSize::X } else { RegSize::W }\<close>.\<close>

definition sf_size :: "u32 \<Rightarrow> reg_size" where
  "sf_size sf = (if sf = 1 then X else W)"

text \<open>\<open>bits(raw, lsb, 5) as u8\<close>.\<close>

abbreviation (input) reg :: "u32 \<Rightarrow> nat \<Rightarrow> nat" where
  "reg insn lsb \<equiv> unat (bits insn lsb 5)"

section \<open>Correct translation\<close>

text \<open>
  The translation succeeds from every well-formed block, keeps it well-formed and asks for the
  next instruction; running the longer block does to the guest what \<open>f\<close>, given the address of
  the instruction, does after the shorter one has run.
\<close>

definition correct :: "translation \<Rightarrow> (u64 \<Rightarrow> guest \<Rightarrow> guest) \<Rightarrow> bool" where
  "correct t f \<longleftrightarrow> (\<forall>em s0. em_wf em \<longrightarrow> (\<exists>em'. t em = Some (Inr Continue, em') \<and> em_wf em' \<and>
     snd (runs s0 em') = f (current_pc em) (snd (runs s0 em))))"

text \<open>A branch ends the block: the terminal holds where execution continues.\<close>

definition correct_branch :: "translation \<Rightarrow> (u64 \<Rightarrow> guest \<Rightarrow> guest \<times> u64) \<Rightarrow> bool" where
  "correct_branch t f \<longleftrightarrow> (\<forall>em s0. em_wf em \<longrightarrow> (\<exists>em'. t em = Some (Inr Terminator, em') \<and> em_wf em' \<and>
     (case runs s0 em' of (env, s) \<Rightarrow> \<exists>pc. branch_target (terminal (em_block em')) (low64 \<circ> env) = Some pc \<and>
        (s, pc) = f (current_pc em) (snd (runs s0 em)))))"

lemma correctI:
  assumes "\<And>em s0 env s. em_wf em \<Longrightarrow> 0 < next_ref em \<Longrightarrow> runs s0 em = (env, s) \<Longrightarrow>
    \<exists>em'. t em = Some (Inr Continue, em') \<and> em_wf em' \<and> snd (runs s0 em') = f (current_pc em) s"
  shows "correct t f"
  unfolding correct_def
proof (intro allI impI)
  fix em s0 assume "em_wf em"
  with assms[OF this em_push_emits(7)[OF this], of s0 "fst (runs s0 em)" "snd (runs s0 em)"]
  show "\<exists>em'. t em = Some (Inr Continue, em') \<and> em_wf em' \<and>
    snd (runs s0 em') = f (current_pc em) (snd (runs s0 em))" by simp
qed

lemma correct_branchI:
  assumes "\<And>em s0 env s. em_wf em \<Longrightarrow> 0 < next_ref em \<Longrightarrow> runs s0 em = (env, s) \<Longrightarrow>
    \<exists>em'. t em = Some (Inr Terminator, em') \<and> em_wf em' \<and>
      (case runs s0 em' of (env, s') \<Rightarrow> \<exists>pc. branch_target (terminal (em_block em')) (low64 \<circ> env) = Some pc \<and>
        (s', pc) = f (current_pc em) s)"
  shows "correct_branch t f"
  unfolding correct_branch_def
proof (intro allI impI)
  fix em s0 assume "em_wf em"
  with assms[OF this em_push_emits(7)[OF this], of s0 "fst (runs s0 em)" "snd (runs s0 em)"]
  show "\<exists>em'. t em = Some (Inr Terminator, em') \<and> em_wf em' \<and>
      (case runs s0 em' of (env, s') \<Rightarrow> \<exists>pc. branch_target (terminal (em_block em')) (low64 \<circ> env) = Some pc \<and>
        (s', pc) = f (current_pc em) (snd (runs s0 em)))" by simp
qed

section \<open>Fields\<close>

lemma bit1_cases: "bit1 insn k = (if bit insn k then 1 else 0)"
  by (rule bit_word_eqI) (auto simp: bit1_def bit_simps intro!: gr0I)

lemma bits_take: "bits insn k n = take_bit n (drop_bit k insn)"
  by (simp add: bits_def take_bit_eq_mask mask_eq_exp_minus_1)

lemma bits_less: "unat (bits insn k n) < 2 ^ n"
  by (simp add: bits_take unsigned_take_bit_eq)

lemma reg_less [simp]: "unat (bits insn k 5) < 32"
  using bits_less[of insn k 5] by simp

lemma unat_ucast_u64 [simp]: "unat (ucast (x :: u32) :: u64) = unat x"
  by (simp add: unsigned_ucast_eq take_bit_nat_eq_self unsigned_less less_le_trans[OF unsigned_less])

lemma reg_number [simp]: "r < 32 \<Longrightarrow> unat (of_nat r :: u64) = r"
  by (simp add: unsigned_of_nat take_bit_nat_eq_self)

section \<open>Register accesses\<close>

text \<open>The node that reads a register, and the emitter after a write: a write of the zero
  register emits nothing.\<close>

definition rd_x :: "nat \<Rightarrow> armlet" where
  "rd_x r = (if r = ZR_ENCODING then mk Op_ConstU64 TyU64 [] 0 else mk Op_GetX TyU64 [] (of_nat r))"

definition rd_w :: "nat \<Rightarrow> armlet" where
  "rd_w r = (if r = ZR_ENCODING then mk Op_ConstU32 TyU32 [] 0 else mk Op_GetW TyU32 [] (of_nat r))"

definition rd_xsp :: "nat \<Rightarrow> armlet" where
  "rd_xsp r = (if r = ZR_ENCODING then armlet_new Op_GetSp TyU64 else mk Op_GetX TyU64 [] (of_nat r))"

definition wr_x :: "nat \<Rightarrow> value_ref \<Rightarrow> emitter \<Rightarrow> emitter" where
  "wr_x r v em = (if r = ZR_ENCODING then em else app em (mk Op_SetX TyVoid [v] (of_nat r)))"

definition wr_w :: "nat \<Rightarrow> value_ref \<Rightarrow> emitter \<Rightarrow> emitter" where
  "wr_w r v em = (if r = ZR_ENCODING then em else app em (with_flags W_SIZED (mk Op_SetW TyVoid [v] (of_nat r))))"

definition wr_xsp :: "nat \<Rightarrow> value_ref \<Rightarrow> emitter \<Rightarrow> emitter" where
  "wr_xsp r v em = app em (if r = ZR_ENCODING then mk Op_SetSp TyVoid [v] 0 else mk Op_SetX TyVoid [v] (of_nat r))"

definition wr_wsp :: "nat \<Rightarrow> value_ref \<Rightarrow> emitter \<Rightarrow> emitter" where
  "wr_wsp r v em = app em (if r = ZR_ENCODING then mk Op_SetSp TyVoid [v] 0
     else with_flags W_SIZED (mk Op_SetW TyVoid [v] (of_nat r)))"

named_theorems regs \<open>register accesses\<close>

lemma gpr_sizes [regs]:
  "get_gpr r X = get_x r" "get_gpr r W = get_w r" "set_gpr r v X = set_x r v" "set_gpr r v W = em_set_w r v"
  by (simp_all add: get_gpr_def set_gpr_def)

lemma reg_emits [regs]:
  assumes "em_wf em"
  shows "get_x r em = Some (next_ref em, app em (rd_x r))" "get_w r em = Some (next_ref em, app em (rd_w r))"
    "get_x_or_sp r True em = Some (next_ref em, app em (rd_xsp r))"
    "get_x_or_sp r False em = Some (next_ref em, app em (rd_x r))"
    "set_x r v em = Some ((), wr_x r v em)" "em_set_w r v em = Some ((), wr_w r v em)"
    "set_gpr_or_sp r v X True em = Some ((), wr_xsp r v em)" "set_gpr_or_sp r v W True em = Some ((), wr_wsp r v em)"
    "set_gpr_or_sp r v X False em = Some ((), wr_x r v em)" "set_gpr_or_sp r v W False em = Some ((), wr_w r v em)"
    "get_nzcv em = Some (next_ref em, app em (armlet_new Op_GetNzcv TyNzcv))"
    "set_nzcv v em = Some ((), app em (mk Op_SetNzcv TyVoid [v] 0))"
  using assms by (simp_all add: get_x_def get_w_def const_u64_def const_u32_def get_sp_def set_x_def em_set_w_def
      get_x_or_sp_def set_gpr_or_sp_def set_gpr_def set_sp_def rd_x_def rd_w_def rd_xsp_def wr_x_def wr_w_def wr_xsp_def
      wr_wsp_def get_nzcv_def set_nzcv_def em_push_emits)

lemma wr_wf [regs]:
  assumes "em_wf em"
  shows "em_wf (wr_x r v em)" "em_wf (wr_w r v em)" "em_wf (wr_xsp r v em)" "em_wf (wr_wsp r v em)"
    "current_pc (wr_x r v em) = current_pc em" "current_pc (wr_w r v em) = current_pc em"
    "current_pc (wr_xsp r v em) = current_pc em" "current_pc (wr_wsp r v em) = current_pc em"
  using assms by (simp_all add: wr_x_def wr_w_def wr_xsp_def wr_wsp_def em_push_emits)

lemma rd_exec [regs]:
  assumes "r < 32"
  shows "exec_node (rd_x r) i (env, s) = (env(i := of64 (rX r s)), s)"
    "exec_node (rd_w r) i (env, s) = (env(i := of32 (rX r s)), s)"
    "exec_node (rd_xsp r) i (env, s) = (env(i := of64 (rXSP r s)), s)"
  using assms by (simp_all add: rd_x_def rd_w_def rd_xsp_def emits rX_def rXSP_def ZR_ENCODING_def)

lemma wr_exec [regs]:
  assumes "r < 32" "em_wf em" "runs s0 em = (env, s)"
  shows "snd (runs s0 (wr_x r v em)) = wX r (low64 (env v)) s"
    "snd (runs s0 (wr_w r v em)) = wX r (low32 (env v)) s"
    "snd (runs s0 (wr_xsp r v em)) = wXSP r (low64 (env v)) s"
    "env v = of32 y \<Longrightarrow> snd (runs s0 (wr_wsp r v em)) = wXSP r y s"
  using assms by (simp_all add: wr_x_def wr_w_def wr_xsp_def wr_wsp_def emits wX_def wXSP_def ZR_ENCODING_def)

end
