(* ===== verification/Translate_Int.thy ===== *)
theory Translate_Int
  imports Frontend
begin

text \<open>
  The translators of the integer instruction families, \<open>src/frontend/translate\<close>: one definition
  per file. The decoded instruction is the decoder's enumeration of the family, every variant
  holding the instruction word; a \<open>_\<close> arm of the code's \<open>match\<close> is the constructor \<open>_other\<close>.
\<close>

section \<open>Add and subtract\<close>

datatype ADDSUB_IMM = ADD_Rd_SP_Rn_SP_AIMM u32 | ADDS_Rd_Rn_SP_AIMM u32 | SUB_Rd_SP_Rn_SP_AIMM u32
  | SUBS_Rd_Rn_SP_AIMM u32 | ADDSUB_IMM_other u32

fun addsub_imm_op :: "ADDSUB_IMM \<Rightarrow> (u32 \<times> bool \<times> bool) option" where
  "addsub_imm_op (ADD_Rd_SP_Rn_SP_AIMM i) = Some (i, False, False)"
| "addsub_imm_op (ADDS_Rd_Rn_SP_AIMM i) = Some (i, False, True)"
| "addsub_imm_op (SUB_Rd_SP_Rn_SP_AIMM i) = Some (i, True, False)"
| "addsub_imm_op (SUBS_Rd_Rn_SP_AIMM i) = Some (i, True, True)"
| "addsub_imm_op (ADDSUB_IMM_other i) = None"

text \<open>The tail of the three add/sub translators.\<close>

definition addsub_result :: "bool \<Rightarrow> bool \<Rightarrow> bool \<Rightarrow> nat \<Rightarrow> value_ref \<Rightarrow> value_ref \<Rightarrow> reg_size \<Rightarrow> translation" where
  "addsub_result is_sub set_flags sp_form rd a b sz em =
     (if set_flags then do {
        (result, em) \<leftarrow> (if is_sub then em_subs a b sz em else em_adds a b sz em);
        (_, em) \<leftarrow> set_gpr rd result sz em;
        Some (Inr Continue, em)
      } else do {
        (result, em) \<leftarrow> (if is_sub then em_sub a b sz em else em_add a b sz em);
        (_, em) \<leftarrow> set_gpr_or_sp rd result sz sp_form em;
        Some (Inr Continue, em)
      })"

definition translate_addsub_imm :: "ADDSUB_IMM \<Rightarrow> translation" where
  "translate_addsub_imm i em =
     (case addsub_imm_op i of None \<Rightarrow> unsupported em
      | Some (insn, is_sub, set_flags) \<Rightarrow>
          let sf = bit1 insn 31; sh = bit1 insn 22; imm12 = bits insn 10 12;
              rn = reg insn 5; rd = reg insn 0; sz = sf_size sf;
              imm = (ucast imm12 :: u64);
              imm = (if sh = 1 then push_bit 12 imm else imm);
              imm = (if sf = 0 then imm AND 0xFFFFFFFF else imm);
              sp_form = (\<not> set_flags)
          in do {
            (a, em) \<leftarrow> get_x_or_sp rn sp_form em;
            (b, em) \<leftarrow> const_u64 imm em;
            addsub_result is_sub set_flags sp_form rd a b sz em
          })"

datatype ADDSUB_SHIFT = ADD_Rd_Rn_Rm_SFT u32 | ADDS_Rd_Rn_Rm_SFT u32 | SUB_Rd_Rn_Rm_SFT u32 | SUBS_Rd_Rn_Rm_SFT u32

fun addsub_shift_op :: "ADDSUB_SHIFT \<Rightarrow> u32 \<times> bool \<times> bool" where
  "addsub_shift_op (ADD_Rd_Rn_Rm_SFT i) = (i, False, False)"
| "addsub_shift_op (ADDS_Rd_Rn_Rm_SFT i) = (i, False, True)"
| "addsub_shift_op (SUB_Rd_Rn_Rm_SFT i) = (i, True, False)"
| "addsub_shift_op (SUBS_Rd_Rn_Rm_SFT i) = (i, True, True)"

text \<open>The \<open>match shift\<close> of the shifted-register forms.\<close>

definition shifted :: "u32 \<Rightarrow> value_ref \<Rightarrow> value_ref \<Rightarrow> reg_size \<Rightarrow> value_ref emits" where
  "shifted shift b amt sz em =
     (if shift = 0 then em_lsl b amt sz em else if shift = 1 then em_lsr b amt sz em
      else if shift = 2 then em_asr b amt sz em else em_ror b amt sz em)"

definition translate_addsub_shift :: "ADDSUB_SHIFT \<Rightarrow> translation" where
  "translate_addsub_shift i em =
     (case addsub_shift_op i of (insn, is_sub, set_flags) \<Rightarrow>
        let sf = bit1 insn 31; shift = bits insn 22 2; rm = reg insn 16; imm6 = bits insn 10 6;
            rn = reg insn 5; rd = reg insn 0; sz = sf_size sf
        in if shift = 3 then decode_error insn em
           else if sf = 0 \<and> 32 \<le> imm6 then decode_error insn em
           else do {
             (a, em) \<leftarrow> get_gpr rn sz em;
             (b, em) \<leftarrow> get_gpr rm sz em;
             (b, em) \<leftarrow> (if imm6 \<noteq> 0 then do { (amt, em) \<leftarrow> const_u64 (ucast imm6) em; shifted shift b amt sz em }
               else Some (b, em));
             addsub_result is_sub set_flags False rd a b sz em
           })"

datatype ADDSUB_EXT = ADD_Rd_SP_Rn_SP_Rm_EXT u32 | ADDS_Rd_Rn_SP_Rm_EXT u32 | SUB_Rd_SP_Rn_SP_Rm_EXT u32
  | SUBS_Rd_Rn_SP_Rm_EXT u32

fun addsub_ext_op :: "ADDSUB_EXT \<Rightarrow> u32 \<times> bool \<times> bool" where
  "addsub_ext_op (ADD_Rd_SP_Rn_SP_Rm_EXT i) = (i, False, False)"
| "addsub_ext_op (ADDS_Rd_Rn_SP_Rm_EXT i) = (i, False, True)"
| "addsub_ext_op (SUB_Rd_SP_Rn_SP_Rm_EXT i) = (i, True, False)"
| "addsub_ext_op (SUBS_Rd_Rn_SP_Rm_EXT i) = (i, True, True)"

definition extended :: "nat \<Rightarrow> bool \<Rightarrow> value_ref \<Rightarrow> value_ref emits" where
  "extended width is_signed b em =
     (if width < 64 then do {
        (mask_c, em) \<leftarrow> const_u64 (push_bit width 1 - 1) em;
        (b, em) \<leftarrow> em_and b mask_c X em;
        if is_signed then do {
          (shl, em) \<leftarrow> const_u64 (of_nat (64 - width)) em;
          (sh1, em) \<leftarrow> em_lsl b shl X em;
          (shl2, em) \<leftarrow> const_u64 (of_nat (64 - width)) em;
          em_asr sh1 shl2 X em
        } else Some (b, em)
      } else Some (b, em))"

definition translate_addsub_ext :: "ADDSUB_EXT \<Rightarrow> translation" where
  "translate_addsub_ext i em =
     (case addsub_ext_op i of (insn, is_sub, set_flags) \<Rightarrow>
        let sf = bit1 insn 31; rm = reg insn 16; opt = unat (bits insn 13 3); imm3 = bits insn 10 3;
            rn = reg insn 5; rd = reg insn 0; sz = sf_size sf; sp_form = (\<not> set_flags)
        in if 4 < imm3 then decode_error insn em
           else do {
             (a, em) \<leftarrow> get_x_or_sp rn sp_form em;
             (b, em) \<leftarrow> get_x rm em;
             (b, em) \<leftarrow> extended ([8, 16, 32, 64] ! (opt mod 4)) (4 \<le> opt) b em;
             (b, em) \<leftarrow> (if imm3 \<noteq> 0 then do { (amt, em) \<leftarrow> const_u64 (ucast imm3) em; em_lsl b amt X em }
               else Some (b, em));
             (b, em) \<leftarrow> (if sz = W then do { (mask_c, em) \<leftarrow> const_u64 0xFFFFFFFF em; em_and b mask_c X em }
               else Some (b, em));
             addsub_result is_sub set_flags sp_form rd a b sz em
           })"

datatype ADDSUB_CARRY = ADC_Rd_Rn_Rm u32 | SBC_Rd_Rn_Rm u32 | ADCS_Rd_Rn_Rm u32 | SBCS_Rd_Rn_Rm u32

fun addsub_carry_op :: "ADDSUB_CARRY \<Rightarrow> u32 \<times> bool \<times> bool" where
  "addsub_carry_op (ADC_Rd_Rn_Rm i) = (i, False, False)"
| "addsub_carry_op (SBC_Rd_Rn_Rm i) = (i, True, False)"
| "addsub_carry_op (ADCS_Rd_Rn_Rm i) = (i, False, True)"
| "addsub_carry_op (SBCS_Rd_Rn_Rm i) = (i, True, True)"

definition translate_addsub_carry :: "ADDSUB_CARRY \<Rightarrow> translation" where
  "translate_addsub_carry i em =
     (case addsub_carry_op i of (insn, is_sub, setflags) \<Rightarrow>
        let sf = bit1 insn 31; rm = reg insn 16; rn = reg insn 5; rd = reg insn 0; sz = sf_size sf;
            t = (if sf = 1 then TyU64 else TyU32);
            p = (case (is_sub, setflags) of
                   (False, False) \<Rightarrow> (if sf = 1 then Op_Adc64 else Op_Adc32)
                 | (True, False) \<Rightarrow> (if sf = 1 then Op_Sbc64 else Op_Sbc32)
                 | (False, True) \<Rightarrow> (if sf = 1 then Op_Adcs64 else Op_Adcs32)
                 | (True, True) \<Rightarrow> (if sf = 1 then Op_Sbcs64 else Op_Sbcs32))
        in do {
             (n, em) \<leftarrow> get_gpr rn sz em;
             (m, em) \<leftarrow> get_gpr rm sz em;
             (nzcv, em) \<leftarrow> get_nzcv em;
             (result, em) \<leftarrow> em_push (mk p t [n, m, nzcv] 0) em;
             (_, em) \<leftarrow> set_gpr rd result sz em;
             Some (Inr Continue, em)
           })"

section \<open>Logic and moves\<close>

datatype log_op = LAnd | LOr | LEor | LAnds | LBic | LOrn | LEon | LBics

datatype LOG_IMM = AND_Rd_SP_Rn_LIMM u32 | ORR_Rd_SP_Rn_LIMM u32 | EOR_Rd_SP_Rn_LIMM u32 | ANDS_Rd_Rn_LIMM u32

fun log_imm_op :: "LOG_IMM \<Rightarrow> u32 \<times> log_op" where
  "log_imm_op (AND_Rd_SP_Rn_LIMM i) = (i, LAnd)"
| "log_imm_op (ORR_Rd_SP_Rn_LIMM i) = (i, LOr)"
| "log_imm_op (EOR_Rd_SP_Rn_LIMM i) = (i, LEor)"
| "log_imm_op (ANDS_Rd_Rn_LIMM i) = (i, LAnds)"

text \<open>The \<open>match op\<close> of the two logical translators.\<close>

definition log_emit :: "log_op \<Rightarrow> value_ref \<Rightarrow> value_ref \<Rightarrow> reg_size \<Rightarrow> value_ref emits" where
  "log_emit p a b sz em =
     (if p \<in> {LAnd, LAnds, LBic, LBics} then em_and a b sz em
      else if p \<in> {LOr, LOrn} then em_or a b sz em else em_eor a b sz em)"

definition translate_log_imm :: "LOG_IMM \<Rightarrow> translation" where
  "translate_log_imm i em =
     (case log_imm_op i of (insn, p) \<Rightarrow>
        let sf = bit1 insn 31; n = bit1 insn 22; immr = bits insn 16 6; imms = bits insn 10 6;
            rn = reg insn 5; rd = reg insn 0; width = (if sf = 1 then 64 else 32)
        in if sf = 0 \<and> n \<noteq> 0 then decode_error insn em
           else case decode_bit_masks n imms immr width of
             None \<Rightarrow> decode_error insn em
           | Some imm \<Rightarrow>
              let sz = sf_size sf; sp_form_dst = (p \<noteq> LAnds)
              in do {
                (a, em) \<leftarrow> get_gpr rn sz em;
                (b, em) \<leftarrow> const_u64 imm em;
                (result, em) \<leftarrow> log_emit p a b sz em;
                (_, em) \<leftarrow> (if p = LAnds then logic_flags result sz em else Some ((), em));
                (_, em) \<leftarrow> set_gpr_or_sp rd result sz sp_form_dst em;
                Some (Inr Continue, em)
              })"

datatype LOG_SHIFT = AND_Rd_Rn_Rm_SFT u32 | ORR_Rd_Rn_Rm_SFT u32 | EOR_Rd_Rn_Rm_SFT u32 | ANDS_Rd_Rn_Rm_SFT u32
  | BIC_Rd_Rn_Rm_SFT u32 | ORN_Rd_Rn_Rm_SFT u32 | EON_Rd_Rn_Rm_SFT u32 | BICS_Rd_Rn_Rm_SFT u32

fun log_shift_op :: "LOG_SHIFT \<Rightarrow> u32 \<times> log_op" where
  "log_shift_op (AND_Rd_Rn_Rm_SFT i) = (i, LAnd)"
| "log_shift_op (ORR_Rd_Rn_Rm_SFT i) = (i, LOr)"
| "log_shift_op (EOR_Rd_Rn_Rm_SFT i) = (i, LEor)"
| "log_shift_op (ANDS_Rd_Rn_Rm_SFT i) = (i, LAnds)"
| "log_shift_op (BIC_Rd_Rn_Rm_SFT i) = (i, LBic)"
| "log_shift_op (ORN_Rd_Rn_Rm_SFT i) = (i, LOrn)"
| "log_shift_op (EON_Rd_Rn_Rm_SFT i) = (i, LEon)"
| "log_shift_op (BICS_Rd_Rn_Rm_SFT i) = (i, LBics)"

definition translate_log_shift :: "LOG_SHIFT \<Rightarrow> translation" where
  "translate_log_shift i em =
     (case log_shift_op i of (insn, p) \<Rightarrow>
        let sf = bit1 insn 31; shift = bits insn 22 2; rm = reg insn 16; imm6 = bits insn 10 6;
            rn = reg insn 5; rd = reg insn 0; sz = sf_size sf
        in if sf = 0 \<and> 32 \<le> imm6 then decode_error insn em
           else do {
             (a, em) \<leftarrow> get_gpr rn sz em;
             (b, em) \<leftarrow> get_gpr rm sz em;
             (b, em) \<leftarrow> (if imm6 \<noteq> 0 then do { (amt, em) \<leftarrow> const_u64 (ucast imm6) em; shifted shift b amt sz em }
               else Some (b, em));
             (b, em) \<leftarrow> (if p \<in> {LBic, LOrn, LEon, LBics} then do {
                 (all_ones, em) \<leftarrow> const_u64 (if sf = 1 then NOT 0 else 0xFFFFFFFF) em;
                 em_eor b all_ones sz em }
               else Some (b, em));
             (result, em) \<leftarrow> log_emit p a b sz em;
             (_, em) \<leftarrow> (if p \<in> {LAnds, LBics} then logic_flags result sz em else Some ((), em));
             (_, em) \<leftarrow> set_gpr rd result sz em;
             Some (Inr Continue, em)
           })"

datatype MOVEWIDE = MOVZ_Rd_HALF u32 | MOVN_Rd_HALF u32 | MOVK_Rd_HALF u32

fun movewide_op :: "MOVEWIDE \<Rightarrow> move_kind \<times> u32" where
  "movewide_op (MOVZ_Rd_HALF i) = (MoveZ, i)"
| "movewide_op (MOVN_Rd_HALF i) = (MoveN, i)"
| "movewide_op (MOVK_Rd_HALF i) = (MoveK, i)"

definition translate_movewide :: "MOVEWIDE \<Rightarrow> translation" where
  "translate_movewide i em =
     (case movewide_op i of (kind, insn) \<Rightarrow>
        let sf = bit1 insn 31; hw = bits insn 21 2; imm16 = bits insn 5 16; rd = reg insn 0
        in if sf = 0 \<and> 2 \<le> hw then decode_error insn em
           else let sz = sf_size sf; shift = unat hw * 16; imm_shifted = push_bit shift (ucast imm16 :: u64)
           in case kind of
             MoveZ \<Rightarrow> do {
               (c, em) \<leftarrow> const_u64 imm_shifted em;
               (_, em) \<leftarrow> set_gpr rd c sz em;
               Some (Inr Continue, em)
             }
           | MoveN \<Rightarrow> do {
               (c, em) \<leftarrow> const_u64 (if sf = 0 then NOT imm_shifted AND 0xFFFFFFFF else NOT imm_shifted) em;
               (_, em) \<leftarrow> set_gpr rd c sz em;
               Some (Inr Continue, em)
             }
           | MoveK \<Rightarrow> do {
               (prev, em) \<leftarrow> get_gpr rd sz em;
               let mask = NOT (push_bit shift (0xFFFF :: u64));
               (mask_c, em) \<leftarrow> const_u64 (if sf = 0 then mask AND 0xFFFFFFFF else mask) em;
               (cleared, em) \<leftarrow> em_and prev mask_c sz em;
               (imm_c, em) \<leftarrow> const_u64 imm_shifted em;
               (merged, em) \<leftarrow> em_or cleared imm_c sz em;
               (_, em) \<leftarrow> set_gpr rd merged sz em;
               Some (Inr Continue, em)
             })"

section \<open>Bitfields and extract\<close>

datatype BITFIELD = UBFM_Rd_Rn_IMMR_IMMS u32 | SBFM_Rd_Rn_IMMR_IMMS u32 | BFM_Rd_Rn_IMMR_IMMS u32

fun bitfield_op :: "BITFIELD \<Rightarrow> u32 \<times> bitfield_kind" where
  "bitfield_op (UBFM_Rd_Rn_IMMR_IMMS i) = (i, Ubfm)"
| "bitfield_op (SBFM_Rd_Rn_IMMR_IMMS i) = (i, Sbfm)"
| "bitfield_op (BFM_Rd_Rn_IMMR_IMMS i) = (i, Bfm)"

text \<open>The mask of the low \<open>n\<close> bits, as both branches of the code compute it.\<close>

definition low_mask :: "nat \<Rightarrow> nat \<Rightarrow> u64" where
  "low_mask width n = (if width \<le> n then drop_bit (64 - width) (NOT 0) else push_bit n 1 - 1)"

definition bitfield_bot :: "nat \<Rightarrow> nat \<Rightarrow> nat \<Rightarrow> value_ref \<Rightarrow> reg_size \<Rightarrow> value_ref emits" where
  "bitfield_bot width immr imms src sz em =
     (if immr \<le> imms then do {
        (amt, em) \<leftarrow> const_u64 (of_nat immr) em;
        (shifted, em) \<leftarrow> em_lsr src amt sz em;
        (mask_c, em) \<leftarrow> const_u64 (low_mask width (imms - immr + 1)) em;
        em_and shifted mask_c sz em
      } else do {
        (mask_c, em) \<leftarrow> const_u64 (push_bit (imms + 1) 1 - 1) em;
        (masked, em) \<leftarrow> em_and src mask_c sz em;
        (shift_c, em) \<leftarrow> const_u64 (of_nat (width - immr)) em;
        em_lsl masked shift_c sz em
      })"

definition translate_bitfield :: "BITFIELD \<Rightarrow> translation" where
  "translate_bitfield i em =
     (case bitfield_op i of (insn, kind) \<Rightarrow>
        let sf = bit1 insn 31; n = bit1 insn 22; immr = unat (bits insn 16 6); imms = unat (bits insn 10 6);
            rn = reg insn 5; rd = reg insn 0
        in if sf \<noteq> n \<or> (sf = 0 \<and> (32 \<le> immr \<or> 32 \<le> imms)) then decode_error insn em
           else let sz = sf_size sf; width = (if sf = 1 then 64 else 32) in do {
             (src, em) \<leftarrow> get_gpr rn sz em;
             (bot, em) \<leftarrow> bitfield_bot width immr imms src sz em;
             (result, em) \<leftarrow> (case kind of
                Ubfm \<Rightarrow> Some (bot, em)
              | Sbfm \<Rightarrow> (
                  let high_bit = (if imms < immr then imms + width - immr else imms - immr);
                      shl_amt = of_nat (width - 1 - high_bit)
                  in do {
                    (amt_c, em) \<leftarrow> const_u64 shl_amt em;
                    (shifted_l, em) \<leftarrow> em_lsl bot amt_c sz em;
                    (amt2, em) \<leftarrow> const_u64 shl_amt em;
                    em_asr shifted_l amt2 sz em
                  })
              | Bfm \<Rightarrow> do {
                  (dst_prev, em) \<leftarrow> get_gpr rd sz em;
                  let mask = (if immr \<le> imms then low_mask width (imms - immr + 1)
                              else push_bit (width - immr) (push_bit (imms + 1) 1 - 1));
                  (clear_c, em) \<leftarrow> const_u64 (if sf = 0 then NOT mask AND 0xFFFFFFFF else NOT mask) em;
                  (cleared, em) \<leftarrow> em_and dst_prev clear_c sz em;
                  em_or cleared bot sz em
                });
             (_, em) \<leftarrow> set_gpr rd result sz em;
             Some (Inr Continue, em)
           })"

datatype EXTRACT = EXTR_Rd_Rn_Rm_IMMS u32

definition translate_extract :: "EXTRACT \<Rightarrow> translation" where
  "translate_extract i em =
     (case i of EXTR_Rd_Rn_Rm_IMMS insn \<Rightarrow>
        let sf = bit1 insn 31; n = bit1 insn 22; rm = reg insn 16; imms = unat (bits insn 10 6);
            rn = reg insn 5; rd = reg insn 0; sz = sf_size sf; width = (if sf = 1 then 64 else 32)
        in if sf \<noteq> n then decode_error insn em
           else if width \<le> imms then decode_error insn em
           else do {
             (result, em) \<leftarrow> (
               if imms = 0 then get_gpr rm sz em
               else if rn = rm then do {
                 (v, em) \<leftarrow> get_gpr rn sz em;
                 (amt, em) \<leftarrow> const_u64 (of_nat imms) em;
                 em_ror v amt sz em
               } else do {
                 (hi, em) \<leftarrow> get_gpr rn sz em;
                 (lo, em) \<leftarrow> get_gpr rm sz em;
                 (hi_shift, em) \<leftarrow> const_u64 (of_nat (width - imms)) em;
                 (lo_shift, em) \<leftarrow> const_u64 (of_nat imms) em;
                 (hi_part, em) \<leftarrow> em_lsl hi hi_shift sz em;
                 (lo_part, em) \<leftarrow> em_lsr lo lo_shift sz em;
                 em_or hi_part lo_part sz em
               });
             (_, em) \<leftarrow> set_gpr rd result sz em;
             Some (Inr Continue, em)
           })"

section \<open>Conditional selects and compares\<close>

datatype condsel_kind = Csel | Csinc | Csinv | Csneg

datatype CONDSEL = CSEL_Rd_Rn_Rm_COND u32 | CSINC_Rd_Rn_Rm_COND u32 | CSINV_Rd_Rn_Rm_COND u32 | CSNEG_Rd_Rn_Rm_COND u32

fun condsel_op :: "CONDSEL \<Rightarrow> u32 \<times> condsel_kind" where
  "condsel_op (CSEL_Rd_Rn_Rm_COND i) = (i, Csel)"
| "condsel_op (CSINC_Rd_Rn_Rm_COND i) = (i, Csinc)"
| "condsel_op (CSINV_Rd_Rn_Rm_COND i) = (i, Csinv)"
| "condsel_op (CSNEG_Rd_Rn_Rm_COND i) = (i, Csneg)"

definition translate_condsel :: "CONDSEL \<Rightarrow> translation" where
  "translate_condsel i em =
     (case condsel_op i of (insn, kind) \<Rightarrow>
        let sf = bit1 insn 31; rm = reg insn 16; cond = bits insn 12 4; rn = reg insn 5; rd = reg insn 0;
            sz = sf_size sf; t = (if sf = 1 then TyU64 else TyU32)
        in do {
          (true_val, em) \<leftarrow> get_gpr rn sz em;
          (false_val, em) \<leftarrow> get_gpr rm sz em;
          (one, em) \<leftarrow> const_u64 1 em;
          (all_ones, em) \<leftarrow> const_u64 (if sf = 1 then NOT 0 else 0xFFFFFFFF) em;
          (false_val, em) \<leftarrow> (case kind of
             Csel \<Rightarrow> Some (false_val, em)
           | Csinc \<Rightarrow> em_add false_val one sz em
           | Csinv \<Rightarrow> em_eor false_val all_ones sz em
           | Csneg \<Rightarrow> do { (zero, em) \<leftarrow> const_u64 0 em; em_sub zero false_val sz em });
          (nzcv, em) \<leftarrow> get_nzcv em;
          (result, em) \<leftarrow> em_push (mk (if sf = 1 then Op_Csel64 else Op_Csel32) t [true_val, false_val, nzcv] (ucast cond)) em;
          (_, em) \<leftarrow> set_gpr rd result sz em;
          Some (Inr Continue, em)
        })"

datatype CONDCMP_IMM = CCMP_Rn_CCMP_IMM_NZCV_COND u32 | CCMN_Rn_CCMP_IMM_NZCV_COND u32

fun condcmp_imm_op :: "CONDCMP_IMM \<Rightarrow> u32 \<times> bool" where
  "condcmp_imm_op (CCMP_Rn_CCMP_IMM_NZCV_COND i) = (i, True)"
| "condcmp_imm_op (CCMN_Rn_CCMP_IMM_NZCV_COND i) = (i, False)"

text \<open>The common tail: compare, then select the flags on the condition of the old ones.\<close>

definition condcmp_tail :: "bool \<Rightarrow> value_ref \<Rightarrow> value_ref \<Rightarrow> value_ref \<Rightarrow> u32 \<Rightarrow> u32 \<Rightarrow> reg_size \<Rightarrow> translation" where
  "condcmp_tail is_sub old_nzcv a b cond nzcv_imm sz em = do {
     (_, em) \<leftarrow> (if is_sub then em_subs a b sz em else em_adds a b sz em);
     (compare_nzcv, em) \<leftarrow> get_nzcv em;
     (imm_nzcv, em) \<leftarrow> em_push (mk Op_ConstU32 TyU32 [] (ucast nzcv_imm)) em;
     (selected, em) \<leftarrow> em_push (mk Op_Csel32 TyU32 [compare_nzcv, imm_nzcv, old_nzcv] (ucast cond)) em;
     (_, em) \<leftarrow> set_nzcv selected em;
     Some (Inr Continue, em)
   }"

definition translate_condcmp_imm :: "CONDCMP_IMM \<Rightarrow> translation" where
  "translate_condcmp_imm i em =
     (case condcmp_imm_op i of (insn, is_sub) \<Rightarrow>
        let sf = bit1 insn 31; imm5 = bits insn 16 5; cond = bits insn 12 4; rn = reg insn 5;
            nzcv_imm = bits insn 0 4; sz = sf_size sf
        in do {
          (old_nzcv, em) \<leftarrow> get_nzcv em;
          (a, em) \<leftarrow> get_gpr rn sz em;
          (b, em) \<leftarrow> const_u64 (ucast imm5) em;
          condcmp_tail is_sub old_nzcv a b cond nzcv_imm sz em
        })"

datatype CONDCMP_REG = CCMP_Rn_Rm_NZCV_COND u32 | CCMN_Rn_Rm_NZCV_COND u32

fun condcmp_reg_op :: "CONDCMP_REG \<Rightarrow> u32 \<times> bool" where
  "condcmp_reg_op (CCMP_Rn_Rm_NZCV_COND i) = (i, True)"
| "condcmp_reg_op (CCMN_Rn_Rm_NZCV_COND i) = (i, False)"

definition translate_condcmp_reg :: "CONDCMP_REG \<Rightarrow> translation" where
  "translate_condcmp_reg i em =
     (case condcmp_reg_op i of (insn, is_sub) \<Rightarrow>
        let sf = bit1 insn 31; rm = reg insn 16; cond = bits insn 12 4; rn = reg insn 5;
            nzcv_imm = bits insn 0 4; sz = sf_size sf
        in do {
          (old_nzcv, em) \<leftarrow> get_nzcv em;
          (a, em) \<leftarrow> get_gpr rn sz em;
          (b, em) \<leftarrow> get_gpr rm sz em;
          condcmp_tail is_sub old_nzcv a b cond nzcv_imm sz em
        })"

section \<open>Data processing with one, two and three sources\<close>

datatype DP_1SRC = CLZ_Rd_Rn u32 | CLS_Rd_Rn u32 | RBIT_Rd_Rn u32 | REV16_Rd_Rn u32 | REV32_Rd_Rn u32
  | REV_Rd_Rn u32 | REV_Rd_X_Rn_X u32
  | PACIA_Rd_Rn_SP u32 | PACIB_Rd_Rn_SP u32 | PACDA_Rd_Rn_SP u32 | PACDB_Rd_Rn_SP u32
  | AUTIA_Rd_Rn_SP u32 | AUTIB_Rd_Rn_SP u32 | AUTDA_Rd_Rn_SP u32 | AUTDB_Rd_Rn_SP u32
  | PACIZA_Rd u32 | PACIZB_Rd u32 | PACDZA_Rd u32 | PACDZB_Rd u32
  | AUTIZA_Rd u32 | AUTIZB_Rd u32 | AUTDZA_Rd u32 | AUTDZB_Rd u32 | XPACI_Rd u32 | XPACD_Rd u32

text \<open>\<open>Inl\<close> the instruction word of a pointer-authentication instruction.\<close>

fun dp_1src_op :: "DP_1SRC \<Rightarrow> u32 + (u32 \<times> dp1_kind)" where
  "dp_1src_op (CLZ_Rd_Rn i) = Inr (i, Clz)"
| "dp_1src_op (CLS_Rd_Rn i) = Inr (i, Cls)"
| "dp_1src_op (RBIT_Rd_Rn i) = Inr (i, Rbit)"
| "dp_1src_op (REV16_Rd_Rn i) = Inr (i, Rev16)"
| "dp_1src_op (REV32_Rd_Rn i) = Inr (i, Rev32)"
| "dp_1src_op (REV_Rd_Rn i) = Inr (i, RevAll)"
| "dp_1src_op (REV_Rd_X_Rn_X i) = Inr (i, RevAll)"
| "dp_1src_op (PACIA_Rd_Rn_SP i) = Inl i"
| "dp_1src_op (PACIB_Rd_Rn_SP i) = Inl i"
| "dp_1src_op (PACDA_Rd_Rn_SP i) = Inl i"
| "dp_1src_op (PACDB_Rd_Rn_SP i) = Inl i"
| "dp_1src_op (AUTIA_Rd_Rn_SP i) = Inl i"
| "dp_1src_op (AUTIB_Rd_Rn_SP i) = Inl i"
| "dp_1src_op (AUTDA_Rd_Rn_SP i) = Inl i"
| "dp_1src_op (AUTDB_Rd_Rn_SP i) = Inl i"
| "dp_1src_op (PACIZA_Rd i) = Inl i"
| "dp_1src_op (PACIZB_Rd i) = Inl i"
| "dp_1src_op (PACDZA_Rd i) = Inl i"
| "dp_1src_op (PACDZB_Rd i) = Inl i"
| "dp_1src_op (AUTIZA_Rd i) = Inl i"
| "dp_1src_op (AUTIZB_Rd i) = Inl i"
| "dp_1src_op (AUTDZA_Rd i) = Inl i"
| "dp_1src_op (AUTDZB_Rd i) = Inl i"
| "dp_1src_op (XPACI_Rd i) = Inl i"
| "dp_1src_op (XPACD_Rd i) = Inl i"

definition pac_identity :: "u32 \<Rightarrow> translation" where
  "pac_identity insn em =
     (let rd = reg insn 0 in do {
       (src, em) \<leftarrow> get_gpr rd X em;
       (pass, em) \<leftarrow> em_push (mk Op_Identity TyU64 [src] 0) em;
       (_, em) \<leftarrow> set_gpr rd pass X em;
       Some (Inr Continue, em)
     })"

text \<open>The opcode of a one-source operation; the source is read before the error.\<close>

fun dp_1src_opcode :: "dp1_kind \<Rightarrow> bool \<Rightarrow> op option" where
  "dp_1src_opcode Clz wide = Some (if wide then Op_Clz64 else Op_Clz32)"
| "dp_1src_opcode Cls wide = Some (if wide then Op_Cls64 else Op_Cls32)"
| "dp_1src_opcode Rbit wide = Some (if wide then Op_Rbit64 else Op_Rbit32)"
| "dp_1src_opcode Rev16 wide = Some Op_Rev16"
| "dp_1src_opcode Rev32 wide = (if wide then Some Op_Rev32 else None)"
| "dp_1src_opcode RevAll wide = Some Op_Rev64"

definition translate_dp_1src :: "DP_1SRC \<Rightarrow> translation" where
  "translate_dp_1src i em =
     (case dp_1src_op i of Inl insn \<Rightarrow> pac_identity insn em
      | Inr (insn, kind) \<Rightarrow>
        let sf = bit1 insn 31; rn = reg insn 5; rd = reg insn 0; sz = sf_size sf;
            t = (if sf = 1 then TyU64 else TyU32)
        in do {
          (src, em) \<leftarrow> get_gpr rn sz em;
          case dp_1src_opcode kind (sf = 1) of None \<Rightarrow> decode_error insn em
          | Some p \<Rightarrow> do {
              (result, em) \<leftarrow> em_push (mk p t [src] 0) em;
              (_, em) \<leftarrow> set_gpr rd result sz em;
              Some (Inr Continue, em)
            }
        })"

datatype DP_2SRC = LSLV_Rd_Rn_Rm u32 | LSRV_Rd_Rn_Rm u32 | ASRV_Rd_Rn_Rm u32 | RORV_Rd_Rn_Rm u32
  | UDIV_Rd_Rn_Rm u32 | SDIV_Rd_Rn_Rm u32
  | CRC32B_Rd_Rn_Rm u32 | CRC32H_Rd_Rn_Rm u32 | CRC32W_Rd_Rn_Rm u32 | CRC32X_Rd_Rn_Rm u32
  | CRC32CB_Rd_Rn_Rm u32 | CRC32CH_Rd_Rn_Rm u32 | CRC32CW_Rd_Rn_Rm u32 | CRC32CX_Rd_Rn_Rm u32
  | DP_2SRC_other u32

text \<open>\<open>Inl\<close> the instruction word of a checksum instruction.\<close>

fun dp_2src_op :: "DP_2SRC \<Rightarrow> (u32 + (u32 \<times> dp2_kind)) option" where
  "dp_2src_op (LSLV_Rd_Rn_Rm i) = Some (Inr (i, Lslv))"
| "dp_2src_op (LSRV_Rd_Rn_Rm i) = Some (Inr (i, Lsrv))"
| "dp_2src_op (ASRV_Rd_Rn_Rm i) = Some (Inr (i, Asrv))"
| "dp_2src_op (RORV_Rd_Rn_Rm i) = Some (Inr (i, Rorv))"
| "dp_2src_op (UDIV_Rd_Rn_Rm i) = Some (Inr (i, Udiv))"
| "dp_2src_op (SDIV_Rd_Rn_Rm i) = Some (Inr (i, Sdiv))"
| "dp_2src_op (CRC32B_Rd_Rn_Rm i) = Some (Inl i)"
| "dp_2src_op (CRC32H_Rd_Rn_Rm i) = Some (Inl i)"
| "dp_2src_op (CRC32W_Rd_Rn_Rm i) = Some (Inl i)"
| "dp_2src_op (CRC32X_Rd_Rn_Rm i) = Some (Inl i)"
| "dp_2src_op (CRC32CB_Rd_Rn_Rm i) = Some (Inl i)"
| "dp_2src_op (CRC32CH_Rd_Rn_Rm i) = Some (Inl i)"
| "dp_2src_op (CRC32CW_Rd_Rn_Rm i) = Some (Inl i)"
| "dp_2src_op (CRC32CX_Rd_Rn_Rm i) = Some (Inl i)"
| "dp_2src_op (DP_2SRC_other i) = None"

definition translate_crc :: "u32 \<Rightarrow> translation" where
  "translate_crc insn em =
     (let width = unat (bits insn 10 2);
          p = (if bit1 insn 12 = 0 then [Op_Crc32Ieee8, Op_Crc32Ieee16, Op_Crc32Ieee32, Op_Crc32Ieee64]
               else [Op_Crc32Castagnoli8, Op_Crc32Castagnoli16, Op_Crc32Castagnoli32, Op_Crc32Castagnoli64]) ! width;
          rn = reg insn 5; rm = reg insn 16; rd = reg insn 0
      in do {
        (accumulator, em) \<leftarrow> get_w rn em;
        (val, em) \<leftarrow> get_gpr rm (if width = 3 then X else W) em;
        (result, em) \<leftarrow> em_push (mk p TyU32 [accumulator, val] 0) em;
        (_, em) \<leftarrow> em_set_w rd result em;
        Some (Inr Continue, em)
      })"

definition translate_dp_2src :: "DP_2SRC \<Rightarrow> translation" where
  "translate_dp_2src i em =
     (case dp_2src_op i of None \<Rightarrow> unsupported em
      | Some (Inl insn) \<Rightarrow> translate_crc insn em
      | Some (Inr (insn, kind)) \<Rightarrow>
        let sf = bit1 insn 31; rm = reg insn 16; rn = reg insn 5; rd = reg insn 0; sz = sf_size sf;
            t = (if sf = 1 then TyU64 else TyU32)
        in do {
          (n, em) \<leftarrow> get_gpr rn sz em;
          (m, em) \<leftarrow> get_gpr rm sz em;
          (result, em) \<leftarrow> (case kind of
             Lslv \<Rightarrow> em_lsl n m sz em
           | Lsrv \<Rightarrow> em_lsr n m sz em
           | Asrv \<Rightarrow> em_asr n m sz em
           | Rorv \<Rightarrow> em_ror n m sz em
           | Udiv \<Rightarrow> em_push (mk (if sf = 1 then Op_UDiv64 else Op_UDiv32) t [n, m] 0) em
           | Sdiv \<Rightarrow> em_push (mk (if sf = 1 then Op_SDiv64 else Op_SDiv32) t [n, m] 0) em);
          (_, em) \<leftarrow> set_gpr rd result sz em;
          Some (Inr Continue, em)
        })"

datatype DP_3SRC = MADD_Rd_Rn_Rm_Ra u32 | MSUB_Rd_Rn_Rm_Ra u32 | SMADDL_Rd_Rn_Rm_Ra u32 | UMADDL_Rd_Rn_Rm_Ra u32
  | SMSUBL_Rd_Rn_Rm_Ra u32 | UMSUBL_Rd_Rn_Rm_Ra u32 | UMULH_Rd_Rn_Rm u32 | SMULH_Rd_Rn_Rm u32

fun dp_3src_op :: "DP_3SRC \<Rightarrow> u32 \<times> dp3_kind" where
  "dp_3src_op (MADD_Rd_Rn_Rm_Ra i) = (i, Madd)"
| "dp_3src_op (MSUB_Rd_Rn_Rm_Ra i) = (i, Msub)"
| "dp_3src_op (SMADDL_Rd_Rn_Rm_Ra i) = (i, Smaddl)"
| "dp_3src_op (UMADDL_Rd_Rn_Rm_Ra i) = (i, Umaddl)"
| "dp_3src_op (SMSUBL_Rd_Rn_Rm_Ra i) = (i, Smsubl)"
| "dp_3src_op (UMSUBL_Rd_Rn_Rm_Ra i) = (i, Umsubl)"
| "dp_3src_op (UMULH_Rd_Rn_Rm i) = (i, Umulh)"
| "dp_3src_op (SMULH_Rd_Rn_Rm i) = (i, Smulh)"

definition widen_w_to_x :: "value_ref \<Rightarrow> bool \<Rightarrow> value_ref emits" where
  "widen_w_to_x v is_signed em = do {
     (mask_c, em) \<leftarrow> const_u64 0xFFFFFFFF em;
     (masked, em) \<leftarrow> em_and v mask_c X em;
     if is_signed then do {
       (shl, em) \<leftarrow> const_u64 32 em;
       (s1, em) \<leftarrow> em_lsl masked shl X em;
       (shl2, em) \<leftarrow> const_u64 32 em;
       em_asr s1 shl2 X em
     } else Some (masked, em)
   }"

definition translate_dp_3src :: "DP_3SRC \<Rightarrow> translation" where
  "translate_dp_3src i em =
     (case dp_3src_op i of (insn, kind) \<Rightarrow>
        let sf = bit1 insn 31; rm = reg insn 16; ra = reg insn 10; rn = reg insn 5; rd = reg insn 0
        in if kind \<in> {Madd, Msub} then
             let sz = sf_size sf in do {
               (n, em) \<leftarrow> get_gpr rn sz em;
               (m, em) \<leftarrow> get_gpr rm sz em;
               (a, em) \<leftarrow> get_gpr ra sz em;
               (prod, em) \<leftarrow> em_push (mk (if sf = 1 then Op_Mul64 else Op_Mul32) (if sf = 1 then TyU64 else TyU32) [n, m] 0) em;
               (result, em) \<leftarrow> (if kind = Madd then em_add a prod sz em else em_sub a prod sz em);
               (_, em) \<leftarrow> set_gpr rd result sz em;
               Some (Inr Continue, em)
             }
           else if kind \<in> {Umulh, Smulh} then do {
               (n, em) \<leftarrow> get_x rn em;
               (m, em) \<leftarrow> get_x rm em;
               (hi, em) \<leftarrow> em_push (mk (if kind = Umulh then Op_UMulH64 else Op_SMulH64) TyU64 [n, m] 0) em;
               (_, em) \<leftarrow> set_x rd hi em;
               Some (Inr Continue, em)
             }
           else do {
               (n, em) \<leftarrow> get_w rn em;
               (m, em) \<leftarrow> get_w rm em;
               (a, em) \<leftarrow> get_x ra em;
               let is_signed = (kind \<in> {Smaddl, Smsubl});
               (n64, em) \<leftarrow> widen_w_to_x n is_signed em;
               (m64, em) \<leftarrow> widen_w_to_x m is_signed em;
               (prod, em) \<leftarrow> em_push (mk Op_Mul64 TyU64 [n64, m64] 0) em;
               (result, em) \<leftarrow> (if kind \<in> {Smaddl, Umaddl} then em_add a prod X em else em_sub a prod X em);
               (_, em) \<leftarrow> set_x rd result em;
               Some (Inr Continue, em)
             })"

end
