(* ===== verification/Translate_Branch.thy ===== *)
theory Translate_Branch
  imports Frontend
begin

text \<open>
  The translators of address generation, branches, exceptions and system instructions,
  \<open>src/frontend/translate\<close>. A branch translator ends the block by setting its terminal.
\<close>

section \<open>Addresses and branches\<close>

datatype PCRELADDR = ADR_Rd_ADDR_PCREL21 u32 | ADRP_Rd_ADDR_ADRP u32

fun pcreladdr_op :: "PCRELADDR \<Rightarrow> u32 \<times> bool" where
  "pcreladdr_op (ADR_Rd_ADDR_PCREL21 i) = (i, False)"
| "pcreladdr_op (ADRP_Rd_ADDR_ADRP i) = (i, True)"

definition translate_pcreladdr :: "PCRELADDR \<Rightarrow> translation" where
  "translate_pcreladdr i em =
     (case pcreladdr_op i of (insn, is_adrp) \<Rightarrow>
        let immlo = bits insn 29 2; immhi = bits insn 5 19; rd = reg insn 0;
            raw_imm = push_bit 2 (ucast immhi) OR ucast immlo;
            offset = sign_extend raw_imm 21;
            (base, final_off) = (if is_adrp then (current_pc em AND NOT 0xFFF, push_bit 12 offset)
                                 else (current_pc em, offset));
            target = base + final_off
        in do {
          (c, em) \<leftarrow> const_u64 target em;
          (_, em) \<leftarrow> set_x rd c em;
          Some (Inr Continue, em)
        })"

definition branch_offset :: "u32 \<Rightarrow> nat \<Rightarrow> nat \<Rightarrow> u64" where
  "branch_offset insn lsb len = push_bit 2 (sign_extend (ucast (bits insn lsb len)) len)"

datatype BRANCH_IMM = B_ADDR_PCREL26 u32 | BL_ADDR_PCREL26 u32

fun branch_imm_op :: "BRANCH_IMM \<Rightarrow> u32 \<times> bool" where
  "branch_imm_op (B_ADDR_PCREL26 i) = (i, False)"
| "branch_imm_op (BL_ADDR_PCREL26 i) = (i, True)"

definition translate_branch_imm :: "BRANCH_IMM \<Rightarrow> translation" where
  "translate_branch_imm i em =
     (case branch_imm_op i of (insn, link) \<Rightarrow> do {
        (_, em) \<leftarrow> em_branch (current_pc em + branch_offset insn 0 26) link em;
        Some (Inr Terminator, em)
      })"

datatype BRANCH_REG = BR_Rn u32 | BLR_Rn u32 | RET_Rn u32 | BRANCH_REG_other u32

fun branch_reg_op :: "BRANCH_REG \<Rightarrow> (u32 \<times> bool \<times> bool) option" where
  "branch_reg_op (BR_Rn i) = Some (i, False, False)"
| "branch_reg_op (BLR_Rn i) = Some (i, True, False)"
| "branch_reg_op (RET_Rn i) = Some (i, False, True)"
| "branch_reg_op (BRANCH_REG_other i) = None"

definition translate_branch_reg :: "BRANCH_REG \<Rightarrow> translation" where
  "translate_branch_reg i em =
     (case branch_reg_op i of None \<Rightarrow> unsupported em
      | Some (insn, link, is_ret) \<Rightarrow> do {
          (target, em) \<leftarrow> get_x (reg insn 5) em;
          (_, em) \<leftarrow> branch_indirect target link is_ret em;
          Some (Inr Terminator, em)
        })"

datatype CONDBRANCH = B__ADDR_PCREL19 u32 | BC__ADDR_PCREL19 u32

fun condbranch_word :: "CONDBRANCH \<Rightarrow> u32" where
  "condbranch_word (B__ADDR_PCREL19 i) = i"
| "condbranch_word (BC__ADDR_PCREL19 i) = i"

definition translate_condbranch :: "CONDBRANCH \<Rightarrow> translation" where
  "translate_condbranch i em =
     (let insn = condbranch_word i; cond = cond_from_bits (ucast (bits insn 0 4)) in do {
        (_, em) \<leftarrow> em_branch_cond cond (current_pc em + branch_offset insn 5 19) em;
        Some (Inr Terminator, em)
      })"

datatype COMPBRANCH = CBZ_Rt_ADDR_PCREL19 u32 | CBNZ_Rt_ADDR_PCREL19 u32

fun compbranch_op :: "COMPBRANCH \<Rightarrow> u32 \<times> bool" where
  "compbranch_op (CBZ_Rt_ADDR_PCREL19 i) = (i, False)"
| "compbranch_op (CBNZ_Rt_ADDR_PCREL19 i) = (i, True)"

definition translate_compbranch :: "COMPBRANCH \<Rightarrow> translation" where
  "translate_compbranch i em =
     (case compbranch_op i of (insn, negate) \<Rightarrow>
        let sf = bit1 insn 31; rt = reg insn 0; target = current_pc em + branch_offset insn 5 19; sz = sf_size sf
        in do {
          (val, em) \<leftarrow> get_gpr rt sz em;
          (_, em) \<leftarrow> em_push (mk (if negate then Op_CbNz else Op_CbZ) TyVoid [val] target) em;
          Some (Inr Terminator, set_terminal (CompareBranchZero val negate (sf = 1) target (current_pc em + 4)) em)
        })"

datatype TESTBRANCH = TBZ_Rt_BIT_NUM_ADDR_PCREL14 u32 | TBNZ_Rt_BIT_NUM_ADDR_PCREL14 u32

fun testbranch_op :: "TESTBRANCH \<Rightarrow> u32 \<times> bool" where
  "testbranch_op (TBZ_Rt_BIT_NUM_ADDR_PCREL14 i) = (i, False)"
| "testbranch_op (TBNZ_Rt_BIT_NUM_ADDR_PCREL14 i) = (i, True)"

definition translate_testbranch :: "TESTBRANCH \<Rightarrow> translation" where
  "translate_testbranch i em =
     (case testbranch_op i of (insn, negate) \<Rightarrow>
        let b5 = bit1 insn 31; b40 = bits insn 19 5; rt = reg insn 0;
            bit_idx = (ucast (push_bit 5 b5 OR b40) :: u8);
            target = current_pc em + branch_offset insn 5 14
        in do {
          (val, em) \<leftarrow> get_x rt em;
          (_, em) \<leftarrow> em_push (mk (if negate then Op_TbNz else Op_TbZ) TyVoid [val] (push_bit 8 target OR ucast bit_idx)) em;
          Some (Inr Terminator, set_terminal (TestBranchBit val bit_idx negate target (current_pc em + 4)) em)
        })"

section \<open>Exceptions and system instructions\<close>

datatype EXCEPTION = BRK_EXCEPTION u32 | SVC_EXCEPTION u32 | HVC_EXCEPTION u32 | EXCEPTION_other u32

fun exception_op :: "EXCEPTION \<Rightarrow> (op \<times> exception_kind \<times> u32) option" where
  "exception_op (BRK_EXCEPTION i) = Some (Op_Brk, Brk, i)"
| "exception_op (SVC_EXCEPTION i) = Some (Op_Svc, Svc, i)"
| "exception_op (HVC_EXCEPTION i) = Some (Op_Hvc, Hvc, i)"
| "exception_op (EXCEPTION_other i) = None"

definition translate_exception :: "EXCEPTION \<Rightarrow> translation" where
  "translate_exception i em =
     (case exception_op i of None \<Rightarrow> unsupported em
      | Some (p, kind, insn) \<Rightarrow>
          let imm16 = bits insn 5 16 in do {
            (_, em) \<leftarrow> em_push (mk p TyVoid [] (ucast imm16)) em;
            Some (Inr Terminator, set_terminal (Exception kind imm16) em)
          })"

datatype IC_SYSTEM = CLREX_UIMM4 u32 | HINT_UIMM7 u32 | DGH u32 | SB u32 | DMB_BARRIER u32 | DSB_BARRIER u32
  | DSB_BARRIER_DSB_NXS u32 | ISB_BARRIER_ISB u32 | MSR_PSTATEFIELD_UIMM4 u32 | MRS_Rt_SYSREG u32
  | MSR_SYSREG_Rt u32 | SYS_UIMM3_OP1_CRn_CRm_UIMM3_OP2_Rt u32 | IC_SYSTEM_other u32

definition encode_sysreg :: "u32 \<Rightarrow> u16" where
  "encode_sysreg insn =
     (let op0 = 2 OR bit1 insn 19; op1 = bits insn 16 3; crn = bits insn 12 4; crm = bits insn 8 4; op2 = bits insn 5 3
      in sysreg_pack op0 op1 crn crm op2)"

text \<open>The stores of a \<open>DC ZVA\<close>, at the offsets that are left.\<close>

fun zva_stores :: "value_ref \<Rightarrow> value_ref \<Rightarrow> nat list \<Rightarrow> unit emits" where
  "zva_stores aligned zero [] em = Some ((), em)"
| "zva_stores aligned zero (off # offs) em = do {
     (addr, em) \<leftarrow> (if off = 0 then Some (aligned, em)
        else do { (d, em) \<leftarrow> const_u64 (of_nat off) em; em_add aligned d X em });
     (_, em) \<leftarrow> em_store addr zero 8 em;
     zva_stores aligned zero offs em
   }"

definition translate_sys :: "u32 \<Rightarrow> unit emits" where
  "translate_sys insn em =
     (let op1 = bits insn 16 3; crn = bits insn 12 4; crm = bits insn 8 4; op2 = bits insn 5 3; rt = reg insn 0
      in if (op1, crn, crm, op2) = (3, 7, 4, 1) then do {
           (base, em) \<leftarrow> get_x_or_sp rt False em;
           (mask_c, em) \<leftarrow> const_u64 (NOT 63) em;
           (aligned, em) \<leftarrow> em_and base mask_c X em;
           (zero, em) \<leftarrow> const_u64 0 em;
           zva_stores aligned zero [0, 8, 16, 24, 32, 40, 48, 56] em
         }
         else em_do (armlet_new Op_Hint TyVoid) em)"

fun ic_system_body :: "IC_SYSTEM \<Rightarrow> unit emits option" where
  "ic_system_body (CLREX_UIMM4 i) = Some (em_do (armlet_new Op_Clrex TyVoid))"
| "ic_system_body (HINT_UIMM7 i) = Some (em_do (armlet_new Op_Hint TyVoid))"
| "ic_system_body (DGH i) = Some (em_do (armlet_new Op_Hint TyVoid))"
| "ic_system_body (SB i) = Some (em_do (armlet_new Op_Hint TyVoid))"
| "ic_system_body (DMB_BARRIER i) = Some (em_do (armlet_new Op_MemoryBarrier TyVoid))"
| "ic_system_body (DSB_BARRIER i) = Some (em_do (armlet_new Op_MemoryBarrier TyVoid))"
| "ic_system_body (DSB_BARRIER_DSB_NXS i) = Some (em_do (armlet_new Op_MemoryBarrier TyVoid))"
| "ic_system_body (ISB_BARRIER_ISB i) = Some (em_do (armlet_new Op_MemoryBarrier TyVoid))"
| "ic_system_body (MSR_PSTATEFIELD_UIMM4 i) = Some (em_do (armlet_new Op_Hint TyVoid))"
| "ic_system_body (MRS_Rt_SYSREG i) = Some (\<lambda>em. do {
     (val, em) \<leftarrow> em_push (mk Op_Mrs TyU64 [] (ucast (encode_sysreg i))) em;
     set_gpr (reg i 0) val X em })"
| "ic_system_body (MSR_SYSREG_Rt i) = Some (\<lambda>em. do {
     (val, em) \<leftarrow> get_gpr (reg i 0) X em;
     em_do (mk Op_Msr TyVoid [val] (ucast (encode_sysreg i))) em })"
| "ic_system_body (SYS_UIMM3_OP1_CRn_CRm_UIMM3_OP2_Rt i) = Some (translate_sys i)"
| "ic_system_body (IC_SYSTEM_other i) = None"

definition translate_ic_system :: "IC_SYSTEM \<Rightarrow> translation" where
  "translate_ic_system i em =
     (case ic_system_body i of None \<Rightarrow> unsupported em
      | Some body \<Rightarrow> do { (_, em) \<leftarrow> body em; Some (Inr Continue, em) })"

end
