(* ===== verification/Int_Sound.thy ===== *)
theory Int_Sound
  imports Translate_Int Translate_Branch
begin

text \<open>
  The translators of \<open>Translate_Int\<close> against the instruction descriptions of \<open>A64\<close>. Every proof
  has two halves: the nodes a translator emits are run symbolically (\<open>sym_exec\<close>), which leaves
  equations between words, and these are rewritten with the collection \<open>a64\<close>.
\<close>

section \<open>Arithmetic of the flags\<close>

lemma sint_uint_range:
  fixes x :: "'a::len word"
  shows "- (2 ^ (LENGTH('a) - 1)) \<le> sint x" "sint x < 2 ^ (LENGTH('a) - 1)" "0 \<le> uint x" "uint x < 2 ^ LENGTH('a)"
  using sint_greater_eq[of x] sint_less[of x] by auto

lemma uint_NOT: "uint (NOT y :: 'a::len word) = 2 ^ LENGTH('a) - 1 - uint y"
proof -
  have "uint (NOT y) = take_bit LENGTH('a) (NOT (uint y))" by (simp add: unsigned_not_eq)
  also have "\<dots> = (2 ^ LENGTH('a) - 1 - uint y) mod 2 ^ LENGTH('a)"
    by (simp add: take_bit_eq_mod not_int_def mod_diff_left_eq) (metis (no_types) add.commute diff_add_eq mod_add_self1 uminus_add_conv_diff)
  also have "\<dots> = 2 ^ LENGTH('a) - 1 - uint y"
    using sint_uint_range(3,4)[of y] by (intro mod_pos_pos_trivial) linarith+
  finally show ?thesis .
qed

lemma sint_NOT: "sint (NOT y :: 'a::len word) = - sint y - 1"
proof (rule bit_eqI)
  fix n show "bit (sint (NOT y)) n = bit (- sint y - 1) n"
    using bit_sint_iff[of y n] bit_sint_iff[of "NOT y" n] bit_not_int_iff[of "sint y" n]
    by (auto simp: bit_simps not_int_def dest: bit_imp_le_length)
qed

lemma add_with_carry:
  fixes x y :: "'a::len word"
  shows "AddWithCarry x y c = (x + y + of_bool c, adc_flags x y c)"
    "AddWithCarry x (NOT y) c = (x - y - of_bool (\<not> c), sbb_flags x y c)"
proof -
  have w: "word_of_int (uint x + uint z + of_bool c) = x + z + of_bool c" for z :: "'a word"
    by simp
  have u: "uint (word_of_int i :: 'a word) \<noteq> i \<longleftrightarrow> 2 ^ LENGTH('a) \<le> i" if "0 \<le> i" for i
    using that by (auto simp: unsigned_of_int take_bit_int_eq_self_iff)
  show "AddWithCarry x y c = (x + y + of_bool c, adc_flags x y c)"
    unfolding AddWithCarry_def Let_def w adc_flags_def
      eq_commute[of "sint (x + y + of_bool c)" "sint x + sint y + of_bool c"]
    using u[of "uint x + uint y + of_bool c"] w[of y] by (auto simp: sint_uint_range)
  have v: "x + NOT y + of_bool c = x - y - of_bool (\<not> c)" by (cases c) (simp_all add: not_eq_complement)
  have "uint (x - y - of_bool (\<not> c)) \<noteq> uint x + uint (NOT y) + of_bool c \<longleftrightarrow> \<not> uint x < uint y + of_bool (\<not> c)"
  proof -
    have "0 \<le> uint x + uint (NOT y) + of_bool c" by simp
    note u[OF this, unfolded w v]
    also have "2 ^ LENGTH('a) \<le> uint x + uint (NOT y) + of_bool c \<longleftrightarrow> \<not> uint x < uint y + of_bool (\<not> c)"
      unfolding uint_NOT by (cases c) auto
    finally show ?thesis .
  qed
  moreover have "sint x + sint (NOT y) + of_bool c = sint x - sint y - of_bool (\<not> c)"
    by (cases c) (auto simp: sint_NOT)
  ultimately show "AddWithCarry x (NOT y) c = (x - y - of_bool (\<not> c), sbb_flags x y c)"
    unfolding AddWithCarry_def Let_def sbb_flags_def w v
      eq_commute[of "sint (x - y - of_bool (\<not> c))" "sint x + sint (NOT y) + of_bool c"] by (simp only:)
qed

named_theorems a64 \<open>the architecture's operations over the operations of the nodes\<close>

lemma a64_addsub_simps [a64]:
  "a64_addsub False True sp d x y s = wX d (x + y) (s\<lparr>g_nzcv := adc_flags x y False\<rparr>)"
  "a64_addsub True True sp d x y s = wX d (x - y) (s\<lparr>g_nzcv := sbb_flags x y True\<rparr>)"
  "a64_addsub False False True d x y s = wXSP d (x + y) s"
  "a64_addsub True False True d x y s = wXSP d (x - y) s"
  "a64_addsub False False False d x y s = wX d (x + y) s"
  "a64_addsub True False False d x y s = wX d (x - y) s"
  using add_with_carry(1)[of x y False] add_with_carry(2)[of x y True] by (simp_all add: a64_addsub_def)

lemma sized_simps [emits]: "sized W p q = p" "sized X p q = q" "size_ty W = TyU32" "size_ty X = TyU64"
  by (simp_all add: sized_def size_ty_def)

lemma ucast_reg [a64]: "(ucast (rX n s :: u64) :: u32) = rX n s" "(ucast (rXSP n s :: u64) :: u32) = rXSP n s"
  by (simp_all add: rX_def rXSP_def)

lemma rXSP_rX: "n \<noteq> 31 \<Longrightarrow> rXSP n s = rX n s"
  by (simp add: rX_def rXSP_def)

lemma mask32 [a64]: "(ucast ((x :: u64) AND 0xFFFFFFFF) :: u32) = ucast x"
  by (simp add: low32_mask) (auto intro!: bit_word_eqI simp: bit_simps)

lemma ucast_u32 [a64]:
  "(ucast (push_bit n (ucast (x :: u32) :: u64)) :: u32) = push_bit n x" "(ucast (ucast x :: u64) :: u32) = x"
  by (rule bit_word_eqI; auto simp: bit_simps dest: bit_imp_le_length)+

text \<open>Runs a translator's nodes: what is left are equations of words.\<close>

lemmas sym_exec = bit1_cases Let_def sf_size_def emits regs
lemmas spec_exec = at_size_def Let_def a64

text \<open>The tail of the add/sub translators, as a rewrite rule of the goal it ends.\<close>

lemma addsub_result_ends:
  assumes "em_wf em" "runs s0 em = (env, s)" "d < 32"
  shows "(\<exists>em'. addsub_result is_sub setf sp d a b X em = Some (Inr Continue, em') \<and> em_wf em' \<and> snd (runs s0 em') = g) \<longleftrightarrow>
      a64_addsub is_sub setf sp d (low64 (env a)) (low64 (env b)) s = g"
    "(\<exists>em'. addsub_result is_sub setf sp d a b W em = Some (Inr Continue, em') \<and> em_wf em' \<and> snd (runs s0 em') = g) \<longleftrightarrow>
      a64_addsub is_sub setf sp d (low32 (env a)) (low32 (env b)) s = g"
  using assms by (cases is_sub; cases setf; cases sp; simp add: addsub_result_def sym_exec a64)+

lemma a64_addsub_dest: "a64_addsub is_sub True False d x y s = a64_addsub is_sub True True d x y s"
  by (simp add: a64_addsub_def)

lemma addsub_imm_correct:
  assumes "addsub_imm_op i = Some (insn, is_sub, setf)" "setf \<longrightarrow> reg insn 5 \<noteq> 31"
  shows "correct (translate_addsub_imm i) (\<lambda>_. a64_addsub_imm is_sub setf insn)"
  by (rule correctI; insert assms; cases setf;
      simp add: translate_addsub_imm_def addsub_result_ends a64_addsub_imm_def sym_exec spec_exec rXSP_rX a64_addsub_dest del: a64_addsub_simps)

lemma add_sub:
  "AddWithCarry x (if is_sub then NOT y else y) c =
   (if is_sub then (x - y - of_bool (\<not> c), sbb_flags x y c) else (x + y + of_bool c, adc_flags x y c))"
  by (cases is_sub; simp only: add_with_carry(2) if_True if_False; simp only: add_with_carry(1))

lemma bit_flags [a64]: "bit (of32 (ucast (f :: nzcv))) n = bit f n"
  by (auto simp: of32_def bit_simps dest: bit_imp_le_length)

lemma addsub_carry_correct:
  assumes "addsub_carry_op i = (insn, is_sub, setf)"
  shows "correct (translate_addsub_carry i) (\<lambda>_. a64_addsub_carry is_sub setf insn)"
  unfolding a64_addsub_carry_def Let_def add_sub
  by (rule correctI; insert assms; cases is_sub; cases setf; simp add: translate_addsub_carry_def sym_exec spec_exec a64)

text \<open>Shifts by an immediate below the width.\<close>

lemma ShiftReg_0 [a64]: "ShiftReg ty 0 x = x"
  by (cases ty) (auto intro!: bit_word_eqI simp: bit_word_rotr_iff dest: bit_imp_le_length)

lemma bits6_less [simp]: "unat (bits insn k 6) < 64"
  using bits_less[of insn k 6] by simp

lemma unat_u32 [simp]: "\<not> 32 \<le> bits insn k 6 \<Longrightarrow> unat (bits insn k 6) < 32"
  by (simp add: word_le_nat_alt)

lemma unat_eq_word: "unat (x :: u32) = n \<longleftrightarrow> n < 2 ^ 32 \<and> x = of_nat n"
  using unsigned_less[of x] by (auto simp: unsigned_of_nat take_bit_nat_eq_self)

lemma bits2_cases:
  obtains "bits insn k 2 = 0" | "bits insn k 2 = 1" | "bits insn k 2 = 2" | "bits insn k 2 = 3"
proof -
  have "unat (bits insn k 2) \<in> {0, 1, 2, 3}" using bits_less[of insn k 2] by auto
  then have "bits insn k 2 \<in> {0, 1, 2, 3}" by (auto simp: unat_eq_word)
  then show ?thesis using that by blast
qed

lemma shift_of_simps [a64]: "shift_of 0 = LSL" "shift_of (Suc 0) = LSR" "shift_of 2 = ASR" "shift_of 3 = ROR"
  by (simp_all add: shift_of_def numeral_2_eq_2 numeral_3_eq_3)

lemma shift_amount [a64]:
  fixes x :: "'a::len word"
  assumes "unat w < LENGTH('a)"
  shows "wrapping_shl x w = ShiftReg LSL (unat w) x" "wrapping_shr x w = ShiftReg LSR (unat w) x"
    "wrapping_sar x w = ShiftReg ASR (unat w) x" "rotate_right x w = ShiftReg ROR (unat w) x"
  using assms by (simp_all add: wrapping_shl_def wrapping_shr_def wrapping_sar_def rotate_right_def)

lemma addsub_shift_correct:
  assumes "addsub_shift_op i = (insn, is_sub, setf)" "bits insn 22 2 \<noteq> 3" "bit insn 31 \<or> \<not> 32 \<le> bits insn 10 6"
  shows "correct (translate_addsub_shift i) (\<lambda>_. a64_addsub_shift is_sub setf insn)"
  by (rule correctI; insert assms; cases rule: bits2_cases[of insn 22]; cases "bit insn 31";
      simp add: translate_addsub_shift_def shifted_def addsub_result_ends a64_addsub_shift_def sym_exec spec_exec a64
        del: ShiftReg.simps linorder_not_le)

section \<open>Logic and moves\<close>

text \<open>The code's eight logical operations as the architecture's three, inverted or setting flags.\<close>

fun log_kind :: "log_op \<Rightarrow> logical_op" where
  "log_kind LAnd = LogAnd" | "log_kind LAnds = LogAnd" | "log_kind LBic = LogAnd" | "log_kind LBics = LogAnd"
| "log_kind LOr = LogOrr" | "log_kind LOrn = LogOrr" | "log_kind LEor = LogEor" | "log_kind LEon = LogEor"

definition log_flags :: "log_op \<Rightarrow> bool" where "log_flags p = (p \<in> {LAnds, LBics})"
definition log_invert :: "log_op \<Rightarrow> bool" where "log_invert p = (p \<in> {LBic, LOrn, LEon, LBics})"

lemma logic_result_simps [a64]:
  "logic_result True sp d r s = wX d r (s\<lparr>g_nzcv := logic_nzcv r\<rparr>)"
  "logic_result False True d r s = wXSP d r s" "logic_result False False d r s = wX d r s"
  by (simp_all add: logic_result_def logic_nzcv_def)

lemma xor_ones [a64]: "(x :: u32) XOR 0xFFFFFFFF = NOT x" "(y :: u64) XOR 0xFFFFFFFFFFFFFFFF = NOT y" "(y :: u64) XOR -1 = NOT y"
proof -
  have "(0xFFFFFFFF :: u32) = -1" "(0xFFFFFFFFFFFFFFFF :: u64) = -1" by simp_all
  then show "(x :: u32) XOR 0xFFFFFFFF = NOT x" "(y :: u64) XOR 0xFFFFFFFFFFFFFFFF = NOT y"
    by (metis bit.xor_one_right)+
qed simp

lemma log_shift_correct:
  assumes "log_shift_op i = (insn, p)" "bit insn 31 \<or> \<not> 32 \<le> bits insn 10 6"
  shows "correct (translate_log_shift i) (\<lambda>_. a64_log_shift (log_kind p) (log_invert p) (log_flags p) insn)"
  by (rule correctI; insert assms; cases rule: bits2_cases[of insn 22]; cases "bit insn 31"; cases p;
      simp add: translate_log_shift_def shifted_def log_emit_def a64_log_shift_def log_flags_def log_invert_def
        sym_exec spec_exec a64 del: ShiftReg.simps linorder_not_le)

lemma mult16 [a64]: "n * 16 = 16 * (n :: nat)"
  by simp

lemma move_keep [a64]:
  "x AND NOT (push_bit n 0xFFFF) OR y = push_bit (n + 16) (drop_bit (n + 16) x) OR y OR take_bit n (x :: 'a::len word)"
proof (rule bit_word_eqI)
  fix k assume "k < LENGTH('a)"
  have m: "(0xFFFF :: 'a word) = mask 16" by (simp add: mask_eq_exp_minus_1)
  show "bit (x AND NOT (push_bit n 0xFFFF) OR y) k = bit (push_bit (n + 16) (drop_bit (n + 16) x) OR y OR take_bit n x) k"
    unfolding m using \<open>k < LENGTH('a)\<close> by (auto simp: bit_simps)
qed

lemma ucast_NOT [a64]:
  "(ucast (NOT (push_bit n (ucast (x :: u32) :: u64))) :: u32) = NOT (push_bit n x)"
  "(ucast (NOT (push_bit n (0xFFFF :: u64))) :: u32) = NOT (push_bit n 0xFFFF)"
proof -
  show *: "(ucast (NOT (push_bit n (ucast x :: u64))) :: u32) = NOT (push_bit n x)" for x :: u32
    by (rule bit_word_eqI) (auto simp: bit_simps)
  show "(ucast (NOT (push_bit n (0xFFFF :: u64))) :: u32) = NOT (push_bit n 0xFFFF)"
    using *[of "0xFFFF"] by (simp only: unsigned_numeral) simp
qed

lemma movewide_correct:
  assumes "movewide_op i = (kind, insn)" "bit insn 31 \<or> \<not> 2 \<le> bits insn 21 2"
  shows "correct (translate_movewide i) (\<lambda>_. a64_movewide kind insn)"
  by (rule correctI; insert assms; cases "bit insn 31"; cases kind;
      simp add: translate_movewide_def a64_movewide_def MoveWide_def
        sym_exec spec_exec a64 del: linorder_not_le)

section \<open>Conditions\<close>

lemma flag_casts [a64]:
  "(ucast (ucast (f :: nzcv) :: u32) :: nzcv) = f" "(ucast (ucast (c :: u32) :: u64) :: u8) = ucast c"
  by (rule bit_word_eqI; auto simp: bit_simps dest: bit_imp_le_length)+

lemma and_bit: "(f :: u8) AND push_bit k 1 \<noteq> 0 \<longleftrightarrow> k < 8 \<and> bit f k"
  by (auto simp: push_bit_of_1 and_exp_eq_0_iff_not_bit dest: bit_imp_le_length)

declare minus_eq_not_plus_1 [symmetric, a64]

lemma check_passed [a64]: "nzcv_check (g_nzcv s) (cond_from_bits (ucast c)) = cond_passed c s"
  unfolding nzcv_check_def cond_passed_def nzcv_n_def nzcv_z_def nzcv_c_def nzcv_v_def N_BIT_def Z_BIT_def C_BIT_def V_BIT_def
    and_bit by simp

lemma condsel_correct:
  assumes "condsel_op i = (insn, kind)"
  shows "correct (translate_condsel i) (\<lambda>_. a64_condsel (kind \<in> {Csinv, Csneg}) (kind \<in> {Csinc, Csneg}) insn)"
  by (rule correctI; insert assms; cases "bit insn 31"; cases kind;
      simp add: translate_condsel_def a64_condsel_def CondSelect_def
        sym_exec spec_exec a64 del: linorder_not_le)

lemma condcmp_imm_correct:
  assumes "condcmp_imm_op i = (insn, is_sub)"
  shows "correct (translate_condcmp_imm i) (\<lambda>_. a64_condcmp is_sub True insn)"
  unfolding a64_condcmp_def Let_def add_sub
  by (rule correctI; insert assms; cases "bit insn 31"; cases is_sub;
      simp add: translate_condcmp_imm_def condcmp_tail_def sym_exec spec_exec a64)

lemma condcmp_reg_correct:
  assumes "condcmp_reg_op i = (insn, is_sub)"
  shows "correct (translate_condcmp_reg i) (\<lambda>_. a64_condcmp is_sub False insn)"
  unfolding a64_condcmp_def Let_def add_sub
  by (rule correctI; insert assms; cases "bit insn 31"; cases is_sub;
      simp add: translate_condcmp_reg_def condcmp_tail_def sym_exec spec_exec a64)

section \<open>Data processing\<close>

text \<open>The operations of the nodes are the architecture's.\<close>

lemma leading_zeros_pos:
  fixes x :: "'a::len word"
  assumes "\<not> bit x (LENGTH('a) - 1)"
  shows "0 < leading_zeros x"
proof -
  obtain n where "LENGTH('a) = Suc n" using len_not_eq_0 not0_implies_Suc by blast
  then show ?thesis using assms by (simp add: leading_zeros_def)
qed

lemma cls_eq [a64]: "cls x = of_nat (CountLeadingSignBits x)"
proof -
  let ?y = "drop_bit 1 x XOR take_bit (LENGTH('a) - 1) x" and ?z = "x XOR signed_drop_bit 1 x"
  have "?z = ?y"
  proof (rule bit_word_eqI)
    fix n assume "n < LENGTH('a)"
    then show "bit ?z n = bit ?y n" by (cases "n = LENGTH('a) - 1") (auto simp: bit_simps dest: bit_imp_le_length)
  qed
  moreover have "0 < leading_zeros ?y" by (rule leading_zeros_pos) (auto simp: bit_simps dest: bit_imp_le_length)
  ultimately show ?thesis by (simp add: cls_def CountLeadingSignBits_def of_nat_diff)
qed

lemma RevBytes_eq [a64]: "RevBytes n x = rev_bytes n x"
  by (simp add: RevBytes_def rev_bytes_def minus_mod_eq_div_mult)

lemma rev_bits_eq [a64]: "rev_bits x = word_reverse x"
  by (simp add: rev_bits_def)

lemma UDiv_eq [a64]: "UDiv x y = udiv x y"
  by (simp add: UDiv_def udiv_def word_div_def)

lemma SDiv_eq [a64]: "SDiv (x :: 'a::len word) y = sdiv_host x y"
proof (cases "y = -1 \<and> x = push_bit (LENGTH('a) - 1) 1")
  case True
  then have y: "sint y = -1" and x: "word_of_int (- sint x) = - x" "y \<noteq> 0" by simp_all
  have "- (push_bit (LENGTH('a) - 1) 1 :: 'a word) = push_bit (LENGTH('a) - 1) 1"
    by (rule bit_word_eqI) (auto simp: minus_exp_eq_not_mask bit_simps)
  then have "- x = x" using True by simp
  then show ?thesis using True x by (simp add: SDiv_def sdiv_host_def y)
qed (auto simp: SDiv_def sdiv_host_def)

lemma amount_mod [simp]: "unat (rX n s :: u32) mod 64 = unat (rX n s :: u64) mod 64"
  by (simp add: rX_def unsigned_ucast_eq take_bit_eq_mod mod_mod_cancel)

lemma wX_rX [simp]: "wX n (rX n s :: u64) s = s"
  by (simp add: wX_def rX_def)

lemma crc32_low [a64]:
  assumes "n \<le> 4"
  shows "crc32 acc (ucast (rX m s :: u32)) n c = crc32 acc (rX m s) n c"
proof -
  have "drop_bit (8 * i) (ucast (ucast x :: u32) :: u64) AND 0xFF = drop_bit (8 * i) x AND 0xFF" if "i < n" for i x
  proof (rule bit_word_eqI)
    have m: "(0xFF :: u64) = mask 8" by (simp add: mask_eq_exp_minus_1)
    show "bit (drop_bit (8 * i) (ucast (ucast x :: u32) :: u64) AND 0xFF) k = bit (drop_bit (8 * i) x AND 0xFF) k" for k
      unfolding m using assms that by (auto simp: bit_simps dest: bit_imp_le_length)
  qed
  then show ?thesis
    unfolding crc32_def ucast_reg(1)[symmetric] by (intro foldl_cong) (auto simp: crc_byte_def)
qed

lemma dp_1src_correct:
  assumes "dp_1src_op i = Inr (insn, kind)" "kind = Rev32 \<longrightarrow> bit insn 31"
  shows "correct (translate_dp_1src i) (\<lambda>_. a64_dp_1src kind insn)"
  by (rule correctI; insert assms; cases "bit insn 31"; cases kind;
      simp add: translate_dp_1src_def a64_dp_1src_def a64_dp1_def sym_exec spec_exec a64)

lemma pac_correct:
  assumes "dp_1src_op i = Inl insn"
  shows "correct (translate_dp_1src i) (\<lambda>_ s. s)"
  by (rule correctI; insert assms; 
      simp add: translate_dp_1src_def pac_identity_def sym_exec spec_exec a64)

lemma dp_2src_correct:
  assumes "dp_2src_op i = Some (Inr (insn, kind))"
  shows "correct (translate_dp_2src i) (\<lambda>_. a64_dp_2src kind insn)"
  by (rule correctI; insert assms; cases "bit insn 31"; cases kind;
      simp add: translate_dp_2src_def a64_dp_2src_def a64_dp2_def wrapping_shl_def wrapping_shr_def wrapping_sar_def rotate_right_def sym_exec spec_exec a64)

lemma crc_correct:
  assumes "dp_2src_op i = Some (Inl insn)"
  shows "correct (translate_dp_2src i) (\<lambda>_. a64_crc insn)"
  by (rule correctI; insert assms; cases "bit insn 12"; cases rule: bits2_cases[of insn 10];
      simp add: translate_dp_2src_def translate_crc_def a64_crc_def sym_exec spec_exec a64)

text \<open>Products: the widened operands and the high half.\<close>

lemma bit_u32: "bit (w :: u32) n \<Longrightarrow> n < 32"
  using bit_imp_le_length by fastforce

lemma ucast_mask32 [a64]: "(ucast (w :: u32) :: u64) AND 0xFFFFFFFF = ucast w"
  unfolding low32_mask by (rule bit_word_eqI) (auto simp: bit_simps dest: bit_u32)

lemma widen_signed [a64]: "signed_drop_bit 32 (push_bit 32 (ucast (w :: u32) :: u64)) = scast w"
proof (rule bit_word_eqI)
  fix n assume "n < LENGTH(64)"
  then show "bit (signed_drop_bit 32 (push_bit 32 (ucast w :: u64))) n = bit (scast w :: u64) n"
    by (cases "n = 31") (auto simp: bit_simps min_def dest: bit_u32)
qed

lemma high_half [a64]:
  "(ucast (drop_bit 64 (ucast (x :: u64) * ucast (y :: u64) :: u128)) :: u64) = word_of_int (drop_bit 64 (uint x * uint y))"
  "(ucast (drop_bit 64 (scast x * scast y :: u128)) :: u64) = word_of_int (drop_bit 64 (sint x * sint y))"
proof -
  have *: "(ucast (drop_bit 64 (word_of_int p :: u128)) :: u64) = word_of_int (drop_bit 64 p)" for p
    by (rule bit_word_eqI) (auto simp: bit_simps)
  have "(ucast x * ucast y :: u128) = word_of_int (uint x * uint y)" "(scast x * scast y :: u128) = word_of_int (sint x * sint y)"
    by simp_all
  then show "(ucast (drop_bit 64 (ucast x * ucast y :: u128)) :: u64) = word_of_int (drop_bit 64 (uint x * uint y))"
    "(ucast (drop_bit 64 (scast x * scast y :: u128)) :: u64) = word_of_int (drop_bit 64 (sint x * sint y))"
    by (simp_all only: *)
qed

lemma dp_3src_correct:
  assumes "dp_3src_op i = (insn, kind)"
  shows "correct (translate_dp_3src i) (\<lambda>_. a64_dp_3src kind insn)"
  by (rule correctI; insert assms; cases "bit insn 31"; cases kind;
      simp add: translate_dp_3src_def widen_w_to_x_def a64_dp_3src_def wrapping_shl_def wrapping_sar_def sym_exec spec_exec a64)

section \<open>Extract\<close>

lemma amount_nat [simp]: "n < 2 ^ 32 \<Longrightarrow> unat (ucast (of_nat n :: u64) :: u32) = n"
  by (simp add: unsigned_ucast_eq unsigned_of_nat take_bit_nat_eq_self)

definition extract_bits :: "nat \<Rightarrow> 'a::len word \<Rightarrow> 'a word \<Rightarrow> 'a word" where
  "extract_bits lsb hi lo = word_of_int (drop_bit lsb (concat_bit LENGTH('a) (uint lo) (uint hi)))"

lemma extract_spec: 
  "word_of_int (drop_bit lsb (concat_bit 64 (uint lo) (uint hi))) = extract_bits lsb hi (lo :: u64)"
  "word_of_int (drop_bit lsb (concat_bit 32 (uint lo') (uint hi'))) = extract_bits lsb hi' (lo' :: u32)"
  by (simp_all add: extract_bits_def)

lemma bit_extract_bits:
  fixes hi lo :: "'a::len word"
  assumes "lsb < LENGTH('a)" "k < LENGTH('a)"
  shows "bit (extract_bits lsb hi lo) k = (if lsb + k < LENGTH('a) then bit lo (lsb + k) else bit hi (lsb + k - LENGTH('a)))"
  using assms by (auto simp: extract_bits_def bit_simps bit_concat_bit_iff)

lemma extract_bits_0 [simp]: "extract_bits 0 hi lo = lo" "word_rotr 0 lo = lo"
  using ShiftReg_0[of ROR lo] by (auto intro: bit_word_eqI simp: bit_extract_bits)

lemma extract_bits_eq:
  fixes hi lo :: "'a::len word"
  assumes "lsb < LENGTH('a)"
  shows "extract_bits lsb lo lo = word_rotr lsb lo"
    "0 < lsb \<Longrightarrow> extract_bits lsb hi lo = push_bit (LENGTH('a) - lsb) hi OR drop_bit lsb lo"
proof -
  show "extract_bits lsb lo lo = word_rotr lsb lo"
  proof (rule bit_word_eqI)
    fix n assume n: "n < LENGTH('a)"
    then have "(n + lsb) mod LENGTH('a) = (if lsb + n < LENGTH('a) then lsb + n else lsb + n - LENGTH('a))"
      using assms by (simp add: mod_if add.commute)
    then show "bit (extract_bits lsb lo lo) n = bit (word_rotr lsb lo) n"
      using bit_extract_bits[OF assms n, of lo lo] n by (simp add: bit_word_rotr_iff)
  qed
  show "extract_bits lsb hi lo = push_bit (LENGTH('a) - lsb) hi OR drop_bit lsb lo" if "0 < lsb"
  proof (rule bit_word_eqI)
    fix n assume n: "n < LENGTH('a)"
    show "bit (extract_bits lsb hi lo) n = bit (push_bit (LENGTH('a) - lsb) hi OR drop_bit lsb lo) n"
    proof (cases "lsb + n < LENGTH('a)")
      case True
      then have "\<not> LENGTH('a) - lsb \<le> n" by linarith
      then show ?thesis using True bit_extract_bits[OF assms n, of hi lo] n by (simp add: bit_simps)
    next
      case False
      then have "\<not> bit lo (lsb + n)" "LENGTH('a) - lsb \<le> n" "n - (LENGTH('a) - lsb) = lsb + n - LENGTH('a)"
        using assms bit_imp_le_length by fastforce+
      then show ?thesis using False bit_extract_bits[OF assms n, of hi lo] n by (simp add: bit_simps)
    qed
  qed
qed

lemma bits6_width [simp]:
  "\<not> 64 \<le> unat (bits insn k 6)" "\<not> 32 \<le> bits insn k 6 \<Longrightarrow> \<not> 32 \<le> unat (bits insn k 6)"
  using bits6_less[of insn k] unat_u32[of insn k] by linarith+

lemma extract_correct:
  assumes "bit insn 22 = bit insn 31" "bit insn 31 \<or> \<not> 32 \<le> bits insn 10 6"
  shows "correct (translate_extract (EXTR_Rd_Rn_Rm_IMMS insn)) (\<lambda>_. a64_extract insn)"
  unfolding a64_extract_def Let_def extract_spec
  by (rule correctI; insert assms; cases "bit insn 31"; cases "fld insn 10 6 = 0"; cases "reg insn 5 = reg insn 16";
      simp add: translate_extract_def extract_bits_eq sym_exec spec_exec a64 del: linorder_not_le of_nat_diff)

section \<open>Extended registers\<close>

definition ext64 :: "nat \<Rightarrow> u64 \<Rightarrow> u64" where
  "ext64 opt v = (let len = 8 * 2 ^ (opt mod 4) in if opt < 4 then take_bit len v else signed_take_bit (len - 1) v)"

lemma ExtendReg_eq:
  assumes "LENGTH('a::len) \<le> 64"
  shows "ExtendReg opt sh v = push_bit sh (ucast (ext64 opt v) :: 'a word)"
proof -
  let ?len = "8 * 2 ^ (opt mod 4) :: nat"
  have "(word_of_int (if opt < 4 then take_bit ?len (uint v) else signed_take_bit (?len - 1) (uint v)) :: 'a word) = ucast (ext64 opt v)"
    using assms by (intro bit_word_eqI) (auto simp: ext64_def Let_def bit_simps bit_uint_iff)
  then show ?thesis by (simp add: ExtendReg_def Let_def)
qed

lemma sign_extend_low:
  assumes "0 < len" "len \<le> 64"
  shows "signed_drop_bit (64 - len) (push_bit (64 - len) (take_bit len v)) = (signed_take_bit (len - 1) v :: u64)"
proof (rule bit_word_eqI)
  fix n assume "n < LENGTH(64)"
  then show "bit (signed_drop_bit (64 - len) (push_bit (64 - len) (take_bit len v))) n = bit (signed_take_bit (len - 1) v) n"
    using assms by (cases "n = len - 1"; cases "len \<le> n") (auto simp: bit_simps min_def)
qed

lemma ext64_simps:
  "ext64 0 v = v AND 0xFF" "ext64 (Suc 0) v = v AND 0xFFFF" "ext64 2 v = v AND 0xFFFFFFFF" "ext64 3 v = v"
  "ext64 4 v = signed_drop_bit 56 (push_bit 56 (v AND 0xFF))" "ext64 5 v = signed_drop_bit 48 (push_bit 48 (v AND 0xFFFF))"
  "ext64 6 v = signed_drop_bit 32 (push_bit 32 (v AND 0xFFFFFFFF))" "ext64 7 v = v"
proof -
  have m: "v AND 0xFF = take_bit 8 v" "v AND 0xFFFF = take_bit 16 v" "v AND 0xFFFFFFFF = take_bit 32 v"
    by (simp_all add: take_bit_eq_mask mask_eq_exp_minus_1)
  have "take_bit 64 v = v" "signed_take_bit 63 v = v" by (auto intro!: bit_word_eqI simp: bit_simps)
  then show "ext64 0 v = v AND 0xFF" "ext64 (Suc 0) v = v AND 0xFFFF" "ext64 2 v = v AND 0xFFFFFFFF" "ext64 3 v = v"
    "ext64 4 v = signed_drop_bit 56 (push_bit 56 (v AND 0xFF))" "ext64 5 v = signed_drop_bit 48 (push_bit 48 (v AND 0xFFFF))"
    "ext64 6 v = signed_drop_bit 32 (push_bit 32 (v AND 0xFFFFFFFF))" "ext64 7 v = v"
    using sign_extend_low[of 8 v] sign_extend_low[of 16 v] sign_extend_low[of 32 v] unfolding m by (simp_all add: ext64_def)
qed

lemma ucast_push_bit [a64]: "(ucast (push_bit n (x :: u64)) :: u32) = push_bit n (ucast x)"
  by (rule bit_word_eqI) (auto simp: bit_simps)

lemma bits3_less [simp]: "unat (bits insn k 3) < 64"
  using bits_less[of insn k 3] by simp

lemma bits3_cases:
  obtains "bits insn k 3 = 0" | "bits insn k 3 = 1" | "bits insn k 3 = 2" | "bits insn k 3 = 3"
    | "bits insn k 3 = 4" | "bits insn k 3 = 5" | "bits insn k 3 = 6" | "bits insn k 3 = 7"
proof -
  have "unat (bits insn k 3) \<in> {0, 1, 2, 3, 4, 5, 6, 7}" using bits_less[of insn k 3] by auto
  then have "bits insn k 3 \<in> {0, 1, 2, 3, 4, 5, 6, 7}" by (auto simp: unat_eq_word)
  then show ?thesis using that by blast
qed

lemma addsub_ext_correct:
  assumes "addsub_ext_op i = (insn, is_sub, setf)" "\<not> 4 < bits insn 10 3" "setf \<longrightarrow> reg insn 5 \<noteq> 31"
  shows "correct (translate_addsub_ext i) (\<lambda>_. a64_addsub_ext is_sub setf insn)"
  by (rule correctI; insert assms; cases rule: bits3_cases[of insn 13]; cases "bit insn 31"; cases setf;
      simp add: translate_addsub_ext_def extended_def addsub_result_ends a64_addsub_ext_def ExtendReg_eq ext64_simps rXSP_rX
        a64_addsub_dest
        sym_exec spec_exec a64 del: linorder_not_less a64_addsub_simps push_bit_and)

section \<open>Logical immediates\<close>

lemma bits_bit1: "bits insn k 1 = bit1 insn k"
  by (simp add: bits_def bit1_def)

lemma limm_decode:
  assumes "decode_bit_masks (bit1 insn 22) (bits insn 10 6) (bits insn 16 6) width = Some v" "LENGTH('a::len) = width" "width = 32 \<or> width = 64"
  shows "limm insn = (ucast v :: 'a word)"
proof -
  define len where "len = 31 - leading_zeros (push_bit 6 (bits insn 22 1) OR (NOT (bits insn 10 6) AND 0x3f))"
  have "bit v k \<longleftrightarrow> limm_bit len (fld insn 10 6 mod 2 ^ len) (fld insn 16 6 mod 2 ^ len) k" if "k < LENGTH('a)" for k
    using decode_bit_masks_bits[OF assms(1,3)[folded bits_bit1]] that assms(2,3) unfolding Let_def len_def[symmetric] by auto
  then show ?thesis
    unfolding limm_def Let_def len_def[symmetric]
    by (intro bit_word_eqI) (simp add: bit_horner_sum_bit_word_iff bit_ucast_iff)
qed

lemma log_imm_correct:
  assumes "log_imm_op i = (insn, p)" "bit insn 31 \<or> \<not> bit insn 22"
    "decode_bit_masks (bit1 insn 22) (bits insn 10 6) (bits insn 16 6) (if bit insn 31 then 64 else 32) = Some v"
  shows "correct (translate_log_imm i) (\<lambda>_. a64_log_imm (log_kind p) (log_flags p) insn)"
proof -
  have v: "bit insn 31 \<Longrightarrow> limm insn = v" "\<not> bit insn 31 \<Longrightarrow> limm insn = (ucast v :: u32)"
    using assms(3) limm_decode[of insn 64 v, where 'a=64] limm_decode[of insn 32 v, where 'a=32] by auto
  have p: "p \<in> {LAnd, LOr, LEor, LAnds}" using assms(1) by (cases i) auto
  show ?thesis
    by (rule correctI; insert assms p; cases "bit insn 31"; cases p;
      simp add: translate_log_imm_def log_emit_def a64_log_imm_def log_flags_def v sym_exec spec_exec a64)
qed

section \<open>Bitfields\<close>

definition bitfield_src :: "nat \<Rightarrow> nat \<Rightarrow> 'a::len word \<Rightarrow> 'a word" where
  "bitfield_src r b src =
     (if r \<le> b then drop_bit r src AND mask (b - r + 1) else push_bit (LENGTH('a) - r) (src AND mask (b + 1)))"

definition bitfield_top :: "nat \<Rightarrow> nat \<Rightarrow> nat \<Rightarrow> nat" where
  "bitfield_top width r b = (if b < r then b + width - r else b - r)"

lemma bit_BitfieldMove:
  fixes src dst :: "'a::len word"
  assumes "r < LENGTH('a)" "b < LENGTH('a)" "k < LENGTH('a)"
  shows "bit (BitfieldMove kind r b src dst) k \<longleftrightarrow>
    (if k \<le> bitfield_top LENGTH('a) r b
     then (if r \<le> b then bit src (k + r) else if LENGTH('a) \<le> k + r then bit src (k + r - LENGTH('a)) else kind = Bfm \<and> bit dst k)
     else (case kind of Ubfm \<Rightarrow> False | Sbfm \<Rightarrow> bit src b | Bfm \<Rightarrow> bit dst k))"
proof -
  have d: "(b + LENGTH('a) - r) mod LENGTH('a) = bitfield_top LENGTH('a) r b"
    using assms by (auto simp: bitfield_top_def mod_if)
  have m: "(k + r) mod LENGTH('a) = (if k + r < LENGTH('a) then k + r else k + r - LENGTH('a))"
    using assms by (simp add: mod_if)
  show ?thesis
    using assms unfolding BitfieldMove_def Let_def d
    by (cases kind) (auto simp: bit_simps bit_word_rotr_iff m bitfield_top_def)
qed

lemma bit_bitfield_src:
  fixes src :: "'a::len word"
  assumes "r < LENGTH('a)" "b < LENGTH('a)" "k < LENGTH('a)"
  shows "bit (bitfield_src r b src) k \<longleftrightarrow>
    k \<le> bitfield_top LENGTH('a) r b \<and> (if r \<le> b then bit src (k + r) else LENGTH('a) \<le> k + r \<and> bit src (k + r - LENGTH('a)))"
  using assms by (auto simp: bitfield_src_def bitfield_top_def bit_simps add.commute)

lemma BitfieldMove_eq:
  fixes src dst :: "'a::len word"
  assumes "r < LENGTH('a)" "b < LENGTH('a)"
  shows "BitfieldMove Ubfm r b src dst = bitfield_src r b src"
    "BitfieldMove Sbfm r b src dst =
       signed_drop_bit (LENGTH('a) - 1 - bitfield_top LENGTH('a) r b)
         (push_bit (LENGTH('a) - 1 - bitfield_top LENGTH('a) r b) (bitfield_src r b src))"
    "BitfieldMove Bfm r b src dst =
       (dst AND NOT (if r \<le> b then mask (b - r + 1) else push_bit (LENGTH('a) - r) (mask (b + 1)))) OR bitfield_src r b src"
proof -
  let ?d = "bitfield_top LENGTH('a) r b"
  have d: "?d < LENGTH('a)" using assms by (auto simp: bitfield_top_def)
  note bits = bit_BitfieldMove[OF assms] bit_bitfield_src[OF assms]
  show "BitfieldMove Ubfm r b src dst = bitfield_src r b src"
    by (rule bit_word_eqI) (auto simp: bits)
  show "BitfieldMove Bfm r b src dst =
       (dst AND NOT (if r \<le> b then mask (b - r + 1) else push_bit (LENGTH('a) - r) (mask (b + 1)))) OR bitfield_src r b src"
    by (rule bit_word_eqI) (use assms in \<open>auto simp: bits bit_simps bitfield_top_def\<close>)
  show "BitfieldMove Sbfm r b src dst =
       signed_drop_bit (LENGTH('a) - 1 - ?d) (push_bit (LENGTH('a) - 1 - ?d) (bitfield_src r b src))"
  proof (rule bit_word_eqI)
    fix k assume k: "k < LENGTH('a)"
    have s: "bit (signed_drop_bit (LENGTH('a) - 1 - ?d) (push_bit (LENGTH('a) - 1 - ?d) (bitfield_src r b src))) k =
       bit (bitfield_src r b src) (if k \<le> ?d then k else ?d)"
      using k d by (auto simp: bit_simps)
    show "bit (BitfieldMove Sbfm r b src dst) k = 
       bit (signed_drop_bit (LENGTH('a) - 1 - ?d) (push_bit (LENGTH('a) - 1 - ?d) (bitfield_src r b src))) k"
      unfolding s bits(1)[OF k] using bits(2)[OF k, of src] bits(2)[OF d, of src] assms by (auto simp: bitfield_top_def)
  qed
qed

lemma minus_one_mask: "2 ^ n - 1 = (mask n :: 'a::len word)"
  by (simp add: mask_eq_exp_minus_1)

lemma ucast_masks:
  "(ucast (NOT x :: u64) :: u32) = NOT (ucast x)" "(ucast (mask n :: u64) :: u32) = mask n"
  "n \<le> 64 \<Longrightarrow> low_mask 64 n = mask n" "n \<le> 32 \<Longrightarrow> low_mask 32 n = mask n"
  by (auto intro!: bit_word_eqI simp: low_mask_def minus_one_mask bit_simps)

lemma mask_fields:
  "2 * 2 ^ n - 1 = (mask (Suc n) :: 'a::len word)"
  "low_mask 64 (Suc (unat (bits insn k 6) - m)) = mask (Suc (unat (bits insn k 6) - m))"
  "\<not> 32 \<le> bits insn k 6 \<Longrightarrow> low_mask 32 (Suc (unat (bits insn k 6) - m)) = mask (Suc (unat (bits insn k 6) - m))"
proof -
  have "unat (bits insn k 6) - m < 64" using bits6_less[of insn k] by linarith
  moreover have "unat (bits insn k 6) - m < 32" if "\<not> 32 \<le> bits insn k 6" using unat_u32[OF that] by linarith
  ultimately show "low_mask 64 (Suc (unat (bits insn k 6) - m)) = mask (Suc (unat (bits insn k 6) - m))"
    "\<not> 32 \<le> bits insn k 6 \<Longrightarrow> low_mask 32 (Suc (unat (bits insn k 6) - m)) = mask (Suc (unat (bits insn k 6) - m))"
    by (simp_all add: ucast_masks(3,4) Suc_le_eq)
qed (use minus_one_mask[of "Suc n"] in simp)

lemma bitfield_correct:
  assumes "bitfield_op i = (insn, kind)" "bit insn 22 = bit insn 31"
    "bit insn 31 \<or> \<not> 32 \<le> bits insn 16 6 \<and> \<not> 32 \<le> bits insn 10 6"
  shows "correct (translate_bitfield i) (\<lambda>_. a64_bitfield kind insn)"
  by (rule correctI; insert assms; cases "bit insn 31"; cases kind; cases "fld insn 16 6 \<le> fld insn 10 6";
      simp add: translate_bitfield_def bitfield_bot_def a64_bitfield_def BitfieldMove_eq bitfield_src_def bitfield_top_def
        minus_one_mask ucast_masks mask_fields sym_exec spec_exec a64 del: linorder_not_le of_nat_diff mask_Suc_exp push_bit_and)

section \<open>Properties\<close>









text \<open>A translation has at most one meaning.\<close>

lemma correct_unique:
  assumes "correct t f" "correct t g"
  shows "f 0 s = g 0 s"
proof -
  let ?em = "\<lparr>em_block = block_new 0, current_pc = 0\<rparr>"
  have wf: "em_wf ?em" using block_inv_new[of 0] by (auto simp: em_wf_def)
  have "iter_live (block_new 0) = Some []" by (rule iter_live_inv(1)[OF block_inv_new])
  then have "snd (runs s ?em) = s" by (simp add: runs_def)
  then show ?thesis using assms wf unfolding correct_def by (metis emitter.select_convs(2) option.inject prod.inject)
qed

lemma cmp_fields:
  "bits 0xF10043FF 5 5 = 31" "bits 0xF10043FF 0 5 = 31" "bits 0xF10043FF 10 12 = 16" "bit (0xF10043FF :: u32) 31" "\<not> bit (0xF10043FF :: u32) 22"
  by (simp_all add: bits_def)

lemma cmp_sp_model:
  "correct (translate_addsub_imm (SUBS_Rd_Rn_SP_AIMM 0xF10043FF))
     (\<lambda>_ s. (a64_addsub_imm True True 0xF10043FF (s\<lparr>g_sp := 0\<rparr>))\<lparr>g_sp := g_sp s\<rparr>)"
  by (rule correctI; simp add: translate_addsub_imm_def addsub_result_ends a64_addsub_imm_def cmp_fields sym_exec spec_exec
      rX_def rXSP_def wX_def)


end
