(* ===== verification/Branch_Sound.thy ===== *)
theory Branch_Sound
  imports Int_Sound
begin

text \<open>
  The translators of \<open>Translate_Branch\<close> against the architecture: addresses, the successor of a
  block that ends in a branch, and the link register.
\<close>

lemma wr_runs:
  assumes "r < 32" "em_wf em" "runs s0 em = (env, s)"
  shows "\<exists>env'. runs s0 (wr_x r v em) = (env', wX r (low64 (env v)) s) \<and> (\<forall>i < next_ref em. env' i = env i)"
  using assms by (auto simp: wr_x_def emits wX_def ZR_ENCODING_def)

lemma link_runs:
  assumes "em_wf em" "runs s0 em = (env, s)"
  obtains em' env' where "em_link link em = Some ((), em')" "em_wf em'" "current_pc em' = current_pc em"
    "runs s0 em' = (env', link_to link (current_pc em) s)" "\<forall>i < next_ref em. env' i = env i" "next_ref em \<le> next_ref em'"
proof (cases link)
  case True
  show ?thesis
    by (rule that[of "wr_x 30 (next_ref em) (app em (mk Op_ConstU64 TyU64 [] (current_pc em + 4)))"
          "(env(next_ref em := of64 (current_pc em + 4)))(Suc (next_ref em) := 0)"])
      (use True assms in \<open>simp_all add: emits regs wr_x_def ZR_ENCODING_def link_to_def wX_def\<close>)
next
  case False
  then show ?thesis using that[of em env] assms by (simp add: em_link_def link_to_def)
qed

lemma offset_eq: "0 < len \<Longrightarrow> len \<le> 64 \<Longrightarrow> pc + branch_offset insn lsb len = rel_target insn lsb len pc"
  by (simp add: branch_offset_def rel_target_def sign_extend_word)

lemma branch_imm_correct:
  assumes "branch_imm_op i = (insn, link)"
  shows "correct_branch (translate_branch_imm i) (a64_branch_imm link insn)"
proof (rule correct_branchI)
  fix em s0 env s assume em: "em_wf em" "runs s0 em = (env, s)"
  obtain em' env' where "em_link link em = Some ((), em')" "em_wf em'" "current_pc em' = current_pc em"
    "runs s0 em' = (env', link_to link (current_pc em) s)" using link_runs[OF em] by metis
  then show "\<exists>em'. translate_branch_imm i em = Some (Inr Terminator, em') \<and> em_wf em' \<and>
     (case runs s0 em' of (env, s') \<Rightarrow> \<exists>pc. branch_target (terminal (em_block em')) (low64 \<circ> env) = Some pc \<and>
        (s', pc) = a64_branch_imm link insn (current_pc em) s)"
    using assms by (cases link) (simp_all add: translate_branch_imm_def emits a64_branch_imm_def offset_eq del: em_link_def)
qed

lemma branch_reg_correct:
  assumes "branch_reg_op i = Some (insn, link, is_ret)"
  shows "correct_branch (translate_branch_reg i) (a64_branch_reg link insn)"
proof (rule correct_branchI)
  fix em s0 env s assume em: "em_wf em" "runs s0 em = (env, s)"
  let ?n = "next_ref em" and ?em = "app em (rd_x (reg insn 5))"
  have r: "runs s0 ?em = (env(?n := of64 (rX (reg insn 5) s)), s)" "em_wf ?em" "next_ref ?em = Suc ?n" "current_pc ?em = current_pc em"
    using em by (simp_all add: emits regs)
  obtain em' env' where l: "em_link link ?em = Some ((), em')" "em_wf em'" "current_pc em' = current_pc ?em"
    "runs s0 em' = (env', link_to link (current_pc ?em) s)"
    "\<forall>i < next_ref ?em. env' i = (env(?n := of64 (rX (reg insn 5) s))) i" "next_ref ?em \<le> next_ref em'"
    by (rule link_runs[OF r(2,1)])
  then have "env' ?n = of64 (rX (reg insn 5) s)" "?n < next_ref em'" using r(3) by auto
  with l show "\<exists>em'. translate_branch_reg i em = Some (Inr Terminator, em') \<and> em_wf em' \<and>
     (case runs s0 em' of (env, s') \<Rightarrow> \<exists>pc. branch_target (terminal (em_block em')) (low64 \<circ> env) = Some pc \<and>
        (s', pc) = a64_branch_reg link insn (current_pc em) s)"
    using assms em by (cases link; cases is_ret)
      (simp_all add: translate_branch_reg_def emits regs a64_branch_reg_def del: em_link_def)
qed

lemma cond_code_from_bits: "nzcv_check f (cond_from_bits (cond_code (cond_from_bits b))) = nzcv_check f (cond_from_bits b)"
  by (simp only: cond_from_bits_code)

lemma condbranch_correct: "correct_branch (translate_condbranch i) (a64_condbranch (condbranch_word i))"
  by (rule correct_branchI; simp add: translate_condbranch_def a64_condbranch_def offset_eq cond_code_from_bits sym_exec spec_exec a64)

lemma low32_zero: "take_bit 32 (ucast (w :: u32) :: u64) = 0 \<longleftrightarrow> w = 0"
proof -
  have "take_bit 32 (ucast w :: u64) = ucast w" by (rule bit_word_eqI) (auto simp: bit_simps dest: bit_u32)
  moreover have "(ucast (ucast w :: u64) :: u32) = w" by (simp add: a64)
  ultimately show ?thesis by (metis unsigned_0)
qed

lemma bit_index:
  "unat (ucast (bits insn k 5) :: u8) = unat (bits insn k 5)" "unat (ucast (32 OR bits insn k 5) :: u8) = 32 + unat (bits insn k 5)"
proof -
  have u: "unat (ucast x :: u8) = unat x" if "unat x < 256" for x :: u32
    using that by (simp add: unsigned_ucast_eq take_bit_nat_eq_self)
  have "bits insn k 5 AND push_bit 5 1 = 0" by (rule bit_word_eqI) (auto simp: bits_take bit_simps simp del: push_bit_of_1)
  then have "bits insn k 5 AND 32 = 0" by simp
  then have "32 OR bits insn k 5 = 32 + bits insn k 5" by (simp add: disjunctive_add_eq_or and.commute add.commute[of 32] or.commute[of 32])
  moreover have "unat (32 + bits insn k 5) = 32 + unat (bits insn k 5)"
  proof -
    have "32 + unat (bits insn k 5) < 4294967296" using reg_less[of insn k] by linarith
    then show ?thesis by (simp add: unat_word_ariths)
  qed
  ultimately show "unat (ucast (bits insn k 5) :: u8) = unat (bits insn k 5)"
    "unat (ucast (32 OR bits insn k 5) :: u8) = 32 + unat (bits insn k 5)"
    using u[of "bits insn k 5"] u[of "32 + bits insn k 5"] reg_less[of insn k] by simp_all
qed

lemma compbranch_correct:
  assumes "compbranch_op i = (insn, negate)"
  shows "correct_branch (translate_compbranch i) (a64_compbranch negate insn)"
  by (rule correct_branchI; insert assms; cases "bit insn 31"; cases negate;
    simp add: translate_compbranch_def a64_compbranch_def low32_zero offset_eq sym_exec spec_exec a64)

lemma testbranch_correct:
  assumes "testbranch_op i = (insn, negate)"
  shows "correct_branch (translate_testbranch i) (a64_testbranch negate insn)"
  by (rule correct_branchI; insert assms; cases "bit insn 31"; cases negate;
    simp add: translate_testbranch_def a64_testbranch_def bit_index offset_eq sym_exec spec_exec a64)

lemma and_minus: "(x :: u64) AND - (2 ^ n) = push_bit n (drop_bit n x)"
  unfolding minus_exp_eq_not_mask by (rule bit_word_eqI) (auto simp: bit_simps)

lemma page_of: "(pc :: u64) AND - 4096 = push_bit 12 (drop_bit 12 pc)" "pc AND - 64 = push_bit 6 (drop_bit 6 pc)"
  using and_minus[of pc 12] and_minus[of pc 6] by simp_all

lemma pcreladdr_correct:
  assumes "pcreladdr_op i = (insn, page)"
  shows "correct (translate_pcreladdr i) (a64_adr page insn)"
  by (rule correctI; insert assms; cases page;
    simp add: translate_pcreladdr_def a64_adr_def page_of sign_extend_word sym_exec spec_exec a64)

section \<open>Exceptions and system instructions\<close>

text \<open>The instructions without an effect on the registers and memory of the model.\<close>

fun no_effect :: "IC_SYSTEM \<Rightarrow> bool" where
  "no_effect (MRS_Rt_SYSREG i) = False" | "no_effect (MSR_SYSREG_Rt i) = False"
| "no_effect (SYS_UIMM3_OP1_CRn_CRm_UIMM3_OP2_Rt i) = False" | "no_effect (IC_SYSTEM_other i) = False"
| "no_effect i = True"

lemma ic_system_hint_correct:
  assumes "no_effect i"
  shows "correct (translate_ic_system i) (\<lambda>_ s. s)"
  by (rule correctI; insert assms; cases i; simp add: translate_ic_system_def mk_new sym_exec)

lemma exec_exception:
  "exec_node (mk Op_Brk t vs imm) i (env, s) = (env(i := 0), s)"
  "exec_node (mk Op_Svc t vs imm) i (env, s) = (env(i := 0), s)"
  "exec_node (mk Op_Hvc t vs imm) i (env, s) = (env(i := 0), s)"
  by (simp_all add: exec_mk sem_defs effect_defs Let_def)

lemma exception_result:
  assumes "exception_op i = Some (p, kind, insn)" "em_wf em"
  shows "\<exists>em'. translate_exception i em = Some (Inr Terminator, em') \<and> em_wf em' \<and> snd (runs s0 em') = snd (runs s0 em) \<and>
    terminal (em_block em') = Exception kind (bits insn 5 16)"
  using assms by (cases i; cases "runs s0 em"; auto simp: translate_exception_def exec_exception sym_exec)

definition zva_op :: "u32 \<Rightarrow> bool" where
  "zva_op insn \<longleftrightarrow> bits insn 16 3 = 3 \<and> bits insn 12 4 = 7 \<and> bits insn 8 4 = 4 \<and> bits insn 5 3 = 1"

lemma store_zero:
  assumes "unat n \<le> 56"
  shows "store_le 8 m (b + n) (0 :: u64) = (\<lambda>a. if unat n \<le> unat (a - b) \<and> unat (a - b) < unat n + 8 then 0 else m a)"
proof
  fix a
  have d: "a - (b + n) = (a - b) - n" by simp
  have "unat (a - (b + n)) < 8 \<longleftrightarrow> unat n \<le> unat (a - b) \<and> unat (a - b) < unat n + 8"
    unfolding d using assms by (auto simp: unat_sub_if')
  moreover have "lane k (0 :: u64) = (0 :: u8)" for k by (simp add: lane_def)
  ultimately show "store_le 8 m (b + n) (0 :: u64) a =
      (if unat n \<le> unat (a - b) \<and> unat (a - b) < unat n + 8 then 0 else m a)"
    by (simp add: store_le_def)
qed

lemma zva_stores:
  "store_le 8 (store_le 8 (store_le 8 (store_le 8 (store_le 8 (store_le 8 (store_le 8 (store_le 8 m b (0 :: u64)) (b + 8) (0 :: u64))
     (b + 16) (0 :: u64)) (b + 24) (0 :: u64)) (b + 32) (0 :: u64)) (b + 40) (0 :: u64)) (b + 48) (0 :: u64)) (b + 56) (0 :: u64) =
   (\<lambda>a. if unat (a - b) < 64 then 0 else m a)"
proof -
  have "store_le 8 m b (0 :: u64) = (\<lambda>a. if unat (a - b) < 8 then 0 else m a)"
    using store_zero[of 0 m b] by simp
  then show ?thesis by (auto simp: store_zero)
qed

lemma zva_correct:
  assumes "zva_op insn"
  shows "correct (translate_ic_system (SYS_UIMM3_OP1_CRn_CRm_UIMM3_OP2_Rt insn)) (\<lambda>_. a64_zva insn)"
  by (rule correctI; insert assms; simp add: translate_ic_system_def translate_sys_def zva_op_def a64_zva_def page_of zva_stores sym_exec a64)

section \<open>Properties\<close>





end
