(* ===== verification/A64_Mem.thy ===== *)
theory A64_Mem
  imports A64
begin

text \<open>
  The loads, stores and atomics of the architecture, after the pseudocode of the Arm Architecture
  Reference Manual. Memory is little-endian and does not fault; \<open>ReadMem\<close> and \<open>WriteMem\<close> are
  \<open>Mem[]\<close> of \<open>n\<close> bytes.
\<close>

datatype ldst_kind = LoadU | LoadS | StoreG | FpLoad | FpStore

datatype idx_mode = Off | Pre | Post

definition ReadMem :: "nat \<Rightarrow> u64 \<Rightarrow> guest \<Rightarrow> 'a::len word" where
  "ReadMem n a s = load_le n (g_mem s) a"

definition WriteMem :: "nat \<Rightarrow> u64 \<Rightarrow> 'a::len word \<Rightarrow> guest \<Rightarrow> guest" where
  "WriteMem n a v s = s\<lparr>g_mem := store_le n (g_mem s) a v\<rparr>"

definition wV :: "nat \<Rightarrow> u128 \<Rightarrow> guest \<Rightarrow> guest" where
  "wV n v s = s\<lparr>g_v := (g_v s)(n := v)\<rparr>"

text \<open>One register: \<open>t\<close> is the register, \<open>x\<close> says that a signed load extends to 64 bits.\<close>

fun a64_access :: "ldst_kind \<Rightarrow> bool \<Rightarrow> nat \<Rightarrow> nat \<Rightarrow> u64 \<Rightarrow> guest \<Rightarrow> guest" where
  "a64_access LoadU x n t a s = wX t (ReadMem n a s :: u64) s"
| "a64_access LoadS x n t a s =
     (if x then wX t (signed_take_bit (8 * n - 1) (ReadMem n a s) :: u64) s
      else wX t (signed_take_bit (8 * n - 1) (ReadMem n a s) :: u32) s)"
| "a64_access StoreG x n t a s = WriteMem n a (rX t s :: u64) s"
| "a64_access FpLoad x n t a s = wV t (ReadMem n a s) s"
| "a64_access FpStore x n t a s = WriteMem n a (g_v s t) s"

text \<open>\<open>8 << scale\<close> bits, with \<open>scale = size\<close>, and \<open>opc<1>:size\<close> for the vector registers.\<close>

definition access_scale :: "ldst_kind \<Rightarrow> u32 \<Rightarrow> nat" where
  "access_scale kind insn = fld insn 30 2 + (if kind \<in> {FpLoad, FpStore} \<and> bit insn 23 then 4 else 0)"

definition access_bytes :: "ldst_kind \<Rightarrow> u32 \<Rightarrow> nat" where
  "access_bytes kind insn = 2 ^ access_scale kind insn"

definition simm :: "u32 \<Rightarrow> nat \<Rightarrow> nat \<Rightarrow> u64" where
  "simm insn lsb len = signed_take_bit (len - 1) (ucast (bits insn lsb len))"

definition a64_ldst_pos :: "ldst_kind \<Rightarrow> bool \<Rightarrow> u32 \<Rightarrow> guest \<Rightarrow> guest" where
  "a64_ldst_pos kind x insn s =
     (let n = access_bytes kind insn
      in a64_access kind x n (fld insn 0 5) (rXSP (fld insn 5 5) s + of_nat (fld insn 10 12 * n)) s)"

definition a64_ldst_unscaled :: "ldst_kind \<Rightarrow> bool \<Rightarrow> u32 \<Rightarrow> guest \<Rightarrow> guest" where
  "a64_ldst_unscaled kind x insn s =
     a64_access kind x (access_bytes kind insn) (fld insn 0 5) (rXSP (fld insn 5 5) s + simm insn 12 9) s"

text \<open>Pre- and post-indexed addresses: the writeback comes after the access.\<close>

definition indexed :: "idx_mode \<Rightarrow> nat \<Rightarrow> u64 \<Rightarrow> (u64 \<Rightarrow> guest \<Rightarrow> guest) \<Rightarrow> guest \<Rightarrow> guest" where
  "indexed mode n offset f s =
     (let base = rXSP n s; target = base + offset; s' = f (if mode = Post then base else target) s
      in if mode = Off then s' else wXSP n target s')"

definition a64_ldst_imm9 :: "ldst_kind \<Rightarrow> bool \<Rightarrow> idx_mode \<Rightarrow> u32 \<Rightarrow> guest \<Rightarrow> guest" where
  "a64_ldst_imm9 kind x mode insn =
     indexed mode (fld insn 5 5) (simm insn 12 9) (a64_access kind x (access_bytes kind insn) (fld insn 0 5))"

definition a64_ldst_regoff :: "ldst_kind \<Rightarrow> bool \<Rightarrow> u32 \<Rightarrow> guest \<Rightarrow> guest" where
  "a64_ldst_regoff kind x insn s =
     (let offset = ExtendReg (fld insn 13 3) (if bit insn 12 then access_scale kind insn else 0) (rX (fld insn 16 5) s)
      in a64_access kind x (access_bytes kind insn) (fld insn 0 5) (rXSP (fld insn 5 5) s + offset) s)"

text \<open>Pairs: both accesses, then the writeback.\<close>

definition a64_pair_access :: "bool \<Rightarrow> bool \<Rightarrow> nat \<Rightarrow> nat \<Rightarrow> nat \<Rightarrow> u64 \<Rightarrow> guest \<Rightarrow> guest" where
  "a64_pair_access is_load is_fp n t t2 a s =
     (let a2 = a + of_nat n in
      if is_load then
        (if is_fp then wV t2 (ReadMem n a2 s) (wV t (ReadMem n a s) s)
         else wX t2 (ReadMem n a2 s :: u64) (wX t (ReadMem n a s :: u64) s))
      else
        (if is_fp then WriteMem n a2 (g_v s t2) (WriteMem n a (g_v s t) s)
         else WriteMem n a2 (rX t2 s :: u64) (WriteMem n a (rX t s :: u64) s)))"

definition a64_pair :: "bool \<Rightarrow> bool \<Rightarrow> idx_mode \<Rightarrow> u32 \<Rightarrow> guest \<Rightarrow> guest" where
  "a64_pair is_load is_fp mode insn =
     (let scale = (if is_fp then 2 + fld insn 30 2 else 2 + fld insn 31 1)
      in indexed mode (fld insn 5 5) (push_bit scale (simm insn 15 7))
           (a64_pair_access is_load is_fp (2 ^ scale) (fld insn 0 5) (fld insn 10 5)))"

definition a64_ldpsw :: "idx_mode \<Rightarrow> u32 \<Rightarrow> guest \<Rightarrow> guest" where
  "a64_ldpsw mode insn =
     indexed mode (fld insn 5 5) (push_bit 2 (simm insn 15 7))
       (\<lambda>a s. wX (fld insn 10 5) (signed_take_bit 31 (ReadMem 4 (a + 4) s) :: u64)
         (wX (fld insn 0 5) (signed_take_bit 31 (ReadMem 4 a s) :: u64) s))"

definition a64_loadlit :: "u32 \<Rightarrow> u64 \<Rightarrow> guest \<Rightarrow> guest" where
  "a64_loadlit insn pc s =
     (let a = rel_target insn 5 19 pc; t = fld insn 0 5; opc = fld insn 30 2 in
      if bit insn 26 then wV t (ReadMem (4 * 2 ^ opc) a s) s
      else if opc = 2 then wX t (signed_take_bit 31 (ReadMem 4 a s) :: u64) s
      else wX t (ReadMem (4 * 2 ^ opc) a s :: u64) s)"

text \<open>Ordered loads and stores: one thread is modelled, so that they are plain accesses.\<close>

definition a64_ordered :: "bool \<Rightarrow> nat \<Rightarrow> u32 \<Rightarrow> guest \<Rightarrow> guest" where
  "a64_ordered is_load n insn s =
     a64_access (if is_load then LoadU else StoreG) False n (fld insn 0 5) (rXSP (fld insn 5 5) s) s"

text \<open>Atomics at the width of the cell.\<close>

fun atomic_value :: "atomic_op \<Rightarrow> 'a::len word \<Rightarrow> 'a word \<Rightarrow> 'a word" where
  "atomic_value Add data v = data + v"
| "atomic_value Clr data v = data AND NOT v"
| "atomic_value Eor data v = data XOR v"
| "atomic_value SetBits data v = data OR v"
| "atomic_value Smax data v = (if sint v < sint data then data else v)"
| "atomic_value Smin data v = (if sint v < sint data then v else data)"
| "atomic_value Umax data v = (if uint v < uint data then data else v)"
| "atomic_value Umin data v = (if uint v < uint data then v else data)"
| "atomic_value Swp data v = v"
| "atomic_value Cas data v = data"

definition a64_atomic :: "atomic_op \<Rightarrow> 'a::len itself \<Rightarrow> u32 \<Rightarrow> guest \<Rightarrow> guest" where
  "a64_atomic kind TYPE('a) insn s =
     (let n = LENGTH('a) div 8; a = rXSP (fld insn 5 5) s; data = (ReadMem n a s :: 'a word)
      in wX (fld insn 0 5) (ucast data :: u64) (WriteMem n a (atomic_value kind data (rX (fld insn 16 5) s)) s))"

definition a64_cas :: "'a::len itself \<Rightarrow> u32 \<Rightarrow> guest \<Rightarrow> guest" where
  "a64_cas TYPE('a) insn s =
     (let n = LENGTH('a) div 8; a = rXSP (fld insn 5 5) s; data = (ReadMem n a s :: 'a word);
          s' = (if data = rX (fld insn 16 5) s then WriteMem n a (rX (fld insn 0 5) s :: 'a word) s else s)
      in wX (fld insn 16 5) (ucast data :: u64) s')"

text \<open>By the width of the cell in bytes.\<close>

definition a64_lse :: "atomic_op \<Rightarrow> nat \<Rightarrow> u32 \<Rightarrow> guest \<Rightarrow> guest" where
  "a64_lse kind n =
     (if kind = Cas then
        (if n = 1 then a64_cas TYPE(8) else if n = 2 then a64_cas TYPE(16) else if n = 4 then a64_cas TYPE(32) else a64_cas TYPE(64))
      else
        (if n = 1 then a64_atomic kind TYPE(8) else if n = 2 then a64_atomic kind TYPE(16)
         else if n = 4 then a64_atomic kind TYPE(32) else a64_atomic kind TYPE(64)))"

text \<open>The addressing mode of the indexed forms with one register and with two.\<close>

definition imm9_mode :: "u32 \<Rightarrow> idx_mode" where
  "imm9_mode insn = (if bits insn 10 2 = 1 then Post else if bits insn 10 2 = 3 then Pre else Off)"

definition pair_mode :: "u32 \<Rightarrow> idx_mode" where
  "pair_mode insn = (if bits insn 23 3 = 1 then Post else Pre)"

end
