(* ===== verification/Translate_Mem.thy ===== *)
theory Translate_Mem
  imports Translate_Int Translate_Branch A64_Mem
begin

text \<open>
  The translators of loads and stores, \<open>src/frontend/translate/ldst_*.rs\<close>, \<open>ldstpair_*.rs\<close>,
  \<open>loadlit.rs\<close>, \<open>ldstexcl.rs\<close> and \<open>lse_atomic.rs\<close>. The instruction enums are those of the
  \<open>disarm64\<close> decoder; a constructor \<open>..._other\<close> stands for the variants of a family that the
  source catches with \<open>_\<close>. The four single-register families share the code of the access.
\<close>

section \<open>Single registers\<close>

definition unsupported_raw :: "u32 \<Rightarrow> translation" where
  "unsupported_raw insn em = Some (Inl (Unsupported (current_pc em) insn), em)"

text \<open>What the \<open>match insn\<close> of a family gives: the access, a prefetch or a variant it does not list.\<close>

datatype mem_op = MemAccess u32 ldst_kind bool | MemPrefetch | MemOther

definition fp_kind :: "ldst_kind \<Rightarrow> bool" where
  "fp_kind kind \<longleftrightarrow> kind = FpLoad \<or> kind = FpStore"

definition fp_q_form :: "ldst_kind \<Rightarrow> u32 \<Rightarrow> bool" where
  "fp_q_form kind insn \<longleftrightarrow> fp_kind kind \<and> bits insn 30 2 = 0 \<and> bit1 insn 23 = 1"

definition ldst_bytes :: "ldst_kind \<Rightarrow> u32 \<Rightarrow> nat" where
  "ldst_bytes kind insn = (if fp_q_form kind insn then 16 else 2 ^ unat (bits insn 30 2))"

text \<open>\<open>match kind\<close>: the access at \<open>addr\<close>.\<close>

definition ldst_access :: "ldst_kind \<Rightarrow> bool \<Rightarrow> u32 \<Rightarrow> value_ref \<Rightarrow> translation" where
  "ldst_access kind target_x insn addr em =
     (let size = bits insn 30 2; rt = reg insn 0; bytes = ldst_bytes kind insn in
      case kind of
        StoreG \<Rightarrow> do {
          (val, em) \<leftarrow> get_gpr rt (if size = 3 then X else W) em;
          (_, em) \<leftarrow> em_store addr val bytes em;
          Some (Inr Continue, em)
        }
      | LoadU \<Rightarrow> do {
          (v, em) \<leftarrow> em_load addr bytes em;
          (_, em) \<leftarrow> (if size \<le> 2 then em_set_w rt v em else set_x rt v em);
          Some (Inr Continue, em)
        }
      | LoadS \<Rightarrow> do {
          (v, em) \<leftarrow> em_load addr bytes em;
          (shl, em) \<leftarrow> const_u64 (64 - of_nat (bytes * 8)) em;
          (s1, em) \<leftarrow> em_lsl v shl X em;
          (s2, em) \<leftarrow> const_u64 (64 - of_nat (bytes * 8)) em;
          (sx, em) \<leftarrow> em_asr s1 s2 X em;
          (_, em) \<leftarrow> (if target_x then set_x rt sx em else em_set_w rt sx em);
          Some (Inr Continue, em)
        }
      | FpLoad \<Rightarrow>
          if bytes = 16 then do {
            (q, em) \<leftarrow> em_load addr 16 em;
            (_, em) \<leftarrow> set_v_q rt q em;
            Some (Inr Continue, em)
          }
          else if bytes = 8 then do {
            (v, em) \<leftarrow> em_load addr bytes em;
            (_, em) \<leftarrow> set_v_d rt v em;
            Some (Inr Continue, em)
          }
          else if bytes \<in> {1, 2, 4} then do {
            (v, em) \<leftarrow> em_load addr bytes em;
            (v, em) \<leftarrow> (if bytes < 4 then do {
                (m, em) \<leftarrow> const_u32 (push_bit (bytes * 8) 1 - 1) em;
                em_and v m W em
              } else Some (v, em));
            (_, em) \<leftarrow> set_v_s rt v em;
            Some (Inr Continue, em)
          }
          else unsupported_raw insn em
      | FpStore \<Rightarrow>
          if bytes = 16 then do {
            (q, em) \<leftarrow> get_v_q rt em;
            (_, em) \<leftarrow> em_store addr q 16 em;
            Some (Inr Continue, em)
          }
          else if bytes = 8 then do {
            (v, em) \<leftarrow> get_v_d rt em;
            (_, em) \<leftarrow> em_store addr v bytes em;
            Some (Inr Continue, em)
          }
          else if bytes \<in> {1, 2, 4} then do {
            (v, em) \<leftarrow> get_v_s rt em;
            (_, em) \<leftarrow> em_store addr v bytes em;
            Some (Inr Continue, em)
          }
          else unsupported_raw insn em)"

datatype LDST_POS = LDR_Rt_ADDR_UIMM12 u32 | LDRB_Rt_ADDR_UIMM12 u32 | LDRH_Rt_ADDR_UIMM12 u32
  | LDRSB_Rt_ADDR_UIMM12 u32 | LDRSH_Rt_ADDR_UIMM12 u32 | LDRSW_Rt_ADDR_UIMM12 u32 | STR_Rt_ADDR_UIMM12 u32
  | STRB_Rt_ADDR_UIMM12 u32 | STRH_Rt_ADDR_UIMM12 u32 | LDR_Ft_ADDR_UIMM12 u32 | STR_Ft_ADDR_UIMM12 u32
  | PRFM_PRFOP_ADDR_UIMM12 u32

fun ldst_pos_op :: "LDST_POS \<Rightarrow> mem_op" where
  "ldst_pos_op (LDR_Rt_ADDR_UIMM12 i) = MemAccess i LoadU True"
| "ldst_pos_op (LDRB_Rt_ADDR_UIMM12 i) = MemAccess i LoadU False"
| "ldst_pos_op (LDRH_Rt_ADDR_UIMM12 i) = MemAccess i LoadU False"
| "ldst_pos_op (LDRSB_Rt_ADDR_UIMM12 i) = MemAccess i LoadS (bit1 i 22 = 0)"
| "ldst_pos_op (LDRSH_Rt_ADDR_UIMM12 i) = MemAccess i LoadS (bit1 i 22 = 0)"
| "ldst_pos_op (LDRSW_Rt_ADDR_UIMM12 i) = MemAccess i LoadS True"
| "ldst_pos_op (STR_Rt_ADDR_UIMM12 i) = MemAccess i StoreG True"
| "ldst_pos_op (STRB_Rt_ADDR_UIMM12 i) = MemAccess i StoreG False"
| "ldst_pos_op (STRH_Rt_ADDR_UIMM12 i) = MemAccess i StoreG False"
| "ldst_pos_op (LDR_Ft_ADDR_UIMM12 i) = MemAccess i FpLoad False"
| "ldst_pos_op (STR_Ft_ADDR_UIMM12 i) = MemAccess i FpStore False"
| "ldst_pos_op (PRFM_PRFOP_ADDR_UIMM12 i) = MemPrefetch"

definition translate_ldst_pos :: "LDST_POS \<Rightarrow> translation" where
  "translate_ldst_pos i em =
     (case ldst_pos_op i of
        MemAccess insn kind target_x \<Rightarrow>
          let offset = ucast (bits insn 10 12) * of_nat (ldst_bytes kind insn) in do {
            (base, em) \<leftarrow> get_x_or_sp (reg insn 5) True em;
            (off, em) \<leftarrow> const_u64 offset em;
            (addr, em) \<leftarrow> em_add base off X em;
            ldst_access kind target_x insn addr em
          }
      | MemPrefetch \<Rightarrow> Some (Inr Continue, em)
      | MemOther \<Rightarrow> unsupported em)"

datatype LDST_UNSCALED = LDUR_Rt_ADDR_SIMM9 u32 | LDURB_Rt_ADDR_SIMM9 u32 | LDURH_Rt_ADDR_SIMM9 u32
  | LDURSB_Rt_ADDR_SIMM9 u32 | LDURSH_Rt_ADDR_SIMM9 u32 | LDURSW_Rt_ADDR_SIMM9 u32 | STUR_Rt_ADDR_SIMM9 u32
  | STURB_Rt_ADDR_SIMM9 u32 | STURH_Rt_ADDR_SIMM9 u32 | LDUR_Ft_ADDR_SIMM9 u32 | STUR_Ft_ADDR_SIMM9 u32
  | PRFUM_PRFOP_ADDR_SIMM9 u32 | LDST_UNSCALED_other u32

fun ldst_unscaled_op :: "LDST_UNSCALED \<Rightarrow> mem_op" where
  "ldst_unscaled_op (LDUR_Rt_ADDR_SIMM9 i) = MemAccess i LoadU True"
| "ldst_unscaled_op (LDURB_Rt_ADDR_SIMM9 i) = MemAccess i LoadU False"
| "ldst_unscaled_op (LDURH_Rt_ADDR_SIMM9 i) = MemAccess i LoadU False"
| "ldst_unscaled_op (LDURSB_Rt_ADDR_SIMM9 i) = MemAccess i LoadS (bit1 i 22 = 0)"
| "ldst_unscaled_op (LDURSH_Rt_ADDR_SIMM9 i) = MemAccess i LoadS (bit1 i 22 = 0)"
| "ldst_unscaled_op (LDURSW_Rt_ADDR_SIMM9 i) = MemAccess i LoadS True"
| "ldst_unscaled_op (STUR_Rt_ADDR_SIMM9 i) = MemAccess i StoreG True"
| "ldst_unscaled_op (STURB_Rt_ADDR_SIMM9 i) = MemAccess i StoreG False"
| "ldst_unscaled_op (STURH_Rt_ADDR_SIMM9 i) = MemAccess i StoreG False"
| "ldst_unscaled_op (LDUR_Ft_ADDR_SIMM9 i) = MemAccess i FpLoad False"
| "ldst_unscaled_op (STUR_Ft_ADDR_SIMM9 i) = MemAccess i FpStore False"
| "ldst_unscaled_op (PRFUM_PRFOP_ADDR_SIMM9 i) = MemPrefetch"
| "ldst_unscaled_op (LDST_UNSCALED_other i) = MemOther"

definition translate_ldst_unscaled :: "LDST_UNSCALED \<Rightarrow> translation" where
  "translate_ldst_unscaled i em =
     (case ldst_unscaled_op i of
        MemAccess insn kind target_x \<Rightarrow> do {
          (base, em) \<leftarrow> get_x_or_sp (reg insn 5) True em;
          (off, em) \<leftarrow> const_u64 (sign_extend (ucast (bits insn 12 9)) 9) em;
          (addr, em) \<leftarrow> em_add base off X em;
          ldst_access kind target_x insn addr em
        }
      | MemPrefetch \<Rightarrow> Some (Inr Continue, em)
      | MemOther \<Rightarrow> unsupported em)"

text \<open>With writeback, after the access; an error skips it.\<close>

definition with_writeback :: "(unit emits) \<Rightarrow> ((error + inst_status) \<times> emitter) option \<Rightarrow> ((error + inst_status) \<times> emitter) option" where
  "with_writeback wb res = do {
     (r, em) \<leftarrow> res;
     case r of Inl e \<Rightarrow> Some (Inl e, em)
     | Inr status \<Rightarrow> do { (_, em) \<leftarrow> wb em; Some (Inr Continue, em) }
   }"

datatype LDST_IMM9 = LDR_Rt_ADDR_SIMM9 u32 | LDRB_Rt_ADDR_SIMM9 u32 | LDRH_Rt_ADDR_SIMM9 u32
  | LDRSB_Rt_ADDR_SIMM9 u32 | LDRSH_Rt_ADDR_SIMM9 u32 | LDRSW_Rt_ADDR_SIMM9 u32 | STR_Rt_ADDR_SIMM9 u32
  | STRB_Rt_ADDR_SIMM9 u32 | STRH_Rt_ADDR_SIMM9 u32 | LDR_Ft_ADDR_SIMM9 u32 | STR_Ft_ADDR_SIMM9 u32
  | LDST_IMM9_other u32

fun ldst_imm9_op :: "LDST_IMM9 \<Rightarrow> mem_op" where
  "ldst_imm9_op (LDR_Rt_ADDR_SIMM9 i) = MemAccess i LoadU True"
| "ldst_imm9_op (LDRB_Rt_ADDR_SIMM9 i) = MemAccess i LoadU False"
| "ldst_imm9_op (LDRH_Rt_ADDR_SIMM9 i) = MemAccess i LoadU False"
| "ldst_imm9_op (LDRSB_Rt_ADDR_SIMM9 i) = MemAccess i LoadS (bit1 i 22 = 0)"
| "ldst_imm9_op (LDRSH_Rt_ADDR_SIMM9 i) = MemAccess i LoadS (bit1 i 22 = 0)"
| "ldst_imm9_op (LDRSW_Rt_ADDR_SIMM9 i) = MemAccess i LoadS True"
| "ldst_imm9_op (STR_Rt_ADDR_SIMM9 i) = MemAccess i StoreG True"
| "ldst_imm9_op (STRB_Rt_ADDR_SIMM9 i) = MemAccess i StoreG False"
| "ldst_imm9_op (STRH_Rt_ADDR_SIMM9 i) = MemAccess i StoreG False"
| "ldst_imm9_op (LDR_Ft_ADDR_SIMM9 i) = MemAccess i FpLoad False"
| "ldst_imm9_op (STR_Ft_ADDR_SIMM9 i) = MemAccess i FpStore False"
| "ldst_imm9_op (LDST_IMM9_other i) = MemOther"

definition translate_ldst_imm9 :: "LDST_IMM9 \<Rightarrow> translation" where
  "translate_ldst_imm9 i em =
     (case ldst_imm9_op i of
        MemAccess insn kind target_x \<Rightarrow>
          let mode = bits insn 10 2; rn = reg insn 5 in do {
            (base, em) \<leftarrow> get_x_or_sp rn True em;
            (off, em) \<leftarrow> const_u64 (sign_extend (ucast (bits insn 12 9)) 9) em;
            (effective_addr, em) \<leftarrow> em_add base off X em;
            let access_addr = (if mode = 1 then base else effective_addr);
            with_writeback
              (if mode = 1 \<or> mode = 3 then set_x_or_sp rn effective_addr True else (\<lambda>em. Some ((), em)))
              (ldst_access kind target_x insn access_addr em)
          }
      | MemPrefetch \<Rightarrow> Some (Inr Continue, em)
      | MemOther \<Rightarrow> unsupported em)"

datatype LDST_REGOFF = LDR_Rt_ADDR_REGOFF u32 | LDRB_Rt_ADDR_REGOFF u32 | LDRH_Rt_ADDR_REGOFF u32
  | LDRSB_Rt_ADDR_REGOFF u32 | LDRSH_Rt_ADDR_REGOFF u32 | LDRSW_Rt_ADDR_REGOFF u32 | STR_Rt_ADDR_REGOFF u32
  | STRB_Rt_ADDR_REGOFF u32 | STRH_Rt_ADDR_REGOFF u32 | LDR_Ft_ADDR_REGOFF u32 | STR_Ft_ADDR_REGOFF u32
  | PRFM_PRFOP_ADDR_REGOFF u32

fun ldst_regoff_op :: "LDST_REGOFF \<Rightarrow> mem_op" where
  "ldst_regoff_op (LDR_Rt_ADDR_REGOFF i) = MemAccess i LoadU True"
| "ldst_regoff_op (LDRB_Rt_ADDR_REGOFF i) = MemAccess i LoadU False"
| "ldst_regoff_op (LDRH_Rt_ADDR_REGOFF i) = MemAccess i LoadU False"
| "ldst_regoff_op (LDRSB_Rt_ADDR_REGOFF i) = MemAccess i LoadS (bit1 i 22 = 0)"
| "ldst_regoff_op (LDRSH_Rt_ADDR_REGOFF i) = MemAccess i LoadS (bit1 i 22 = 0)"
| "ldst_regoff_op (LDRSW_Rt_ADDR_REGOFF i) = MemAccess i LoadS True"
| "ldst_regoff_op (STR_Rt_ADDR_REGOFF i) = MemAccess i StoreG True"
| "ldst_regoff_op (STRB_Rt_ADDR_REGOFF i) = MemAccess i StoreG False"
| "ldst_regoff_op (STRH_Rt_ADDR_REGOFF i) = MemAccess i StoreG False"
| "ldst_regoff_op (LDR_Ft_ADDR_REGOFF i) = MemAccess i FpLoad False"
| "ldst_regoff_op (STR_Ft_ADDR_REGOFF i) = MemAccess i FpStore False"
| "ldst_regoff_op (PRFM_PRFOP_ADDR_REGOFF i) = MemPrefetch"

definition regoff_extend :: "u32 \<Rightarrow> (nat \<times> bool) option" where
  "regoff_extend opt =
     (if opt = 2 then Some (32, False) else if opt = 3 then Some (64, False)
      else if opt = 6 then Some (32, True) else if opt = 7 then Some (64, True) else None)"

definition translate_ldst_regoff :: "LDST_REGOFF \<Rightarrow> translation" where
  "translate_ldst_regoff i em =
     (case ldst_regoff_op i of
        MemAccess insn kind target_x \<Rightarrow>
          let size = bits insn 30 2; s_bit = bit1 insn 12; q_form = fp_q_form kind insn in do {
            (base, em) \<leftarrow> get_x_or_sp (reg insn 5) True em;
            (off, em) \<leftarrow> get_x (reg insn 16) em;
            case regoff_extend (bits insn 13 3) of
              None \<Rightarrow> decode_error insn em
            | Some (width, is_signed) \<Rightarrow> do {
                (off, em) \<leftarrow> extended width is_signed off em;
                (off, em) \<leftarrow> (if s_bit = 1 then do {
                    (shamt, em) \<leftarrow> const_u64 (if q_form then 4 else ucast size) em;
                    em_lsl off shamt X em
                  } else Some (off, em));
                (addr, em) \<leftarrow> em_add base off X em;
                ldst_access kind target_x insn addr em
              }
          }
      | MemPrefetch \<Rightarrow> Some (Inr Continue, em)
      | MemOther \<Rightarrow> unsupported em)"

section \<open>Pairs\<close>

definition ldpsw :: "u32 \<Rightarrow> idx_mode \<Rightarrow> translation" where
  "ldpsw insn mode em =
     (let rt2 = reg insn 10; rn = reg insn 5; rt = reg insn 0;
          offset = push_bit 2 (sign_extend (ucast (bits insn 15 7)) 7)
      in do {
        (base, em) \<leftarrow> get_x_or_sp rn True em;
        (off, em) \<leftarrow> const_u64 offset em;
        (writeback_addr, em) \<leftarrow> em_add base off X em;
        let access_addr = (if mode = Post then base else writeback_addr);
        (four, em) \<leftarrow> const_u64 4 em;
        (access_addr2, em) \<leftarrow> em_add access_addr four X em;
        (lo, em) \<leftarrow> em_load access_addr 4 em;
        (hi, em) \<leftarrow> em_load access_addr2 4 em;
        (sh, em) \<leftarrow> const_u64 32 em;
        (lo1, em) \<leftarrow> em_lsl lo sh X em;
        (lo_sx, em) \<leftarrow> em_asr lo1 sh X em;
        (hi1, em) \<leftarrow> em_lsl hi sh X em;
        (hi_sx, em) \<leftarrow> em_asr hi1 sh X em;
        (_, em) \<leftarrow> set_x rt lo_sx em;
        (_, em) \<leftarrow> set_x rt2 hi_sx em;
        (_, em) \<leftarrow> (if mode \<noteq> Off then set_x_or_sp rn writeback_addr True em else Some ((), em));
        Some (Inr Continue, em)
      })"

text \<open>Scale, size in bytes and register size of a pair.\<close>

definition pair_layout :: "bool \<Rightarrow> u32 \<Rightarrow> (nat \<times> nat \<times> reg_size) option" where
  "pair_layout is_fp opc =
     (if is_fp then
        (if opc = 0 then Some (2, 4, W) else if opc = 1 then Some (3, 8, X) else if opc = 2 then Some (4, 16, X) else None)
      else
        (if opc = 0 then Some (2, 4, W) else if opc = 2 then Some (3, 8, X) else None))"

definition fp_load_q :: "nat \<Rightarrow> value_ref \<Rightarrow> unit emits" where
  "fp_load_q rt addr em = do { (q, em) \<leftarrow> em_load addr 16 em; set_v_q rt q em }"

definition fp_store_q :: "nat \<Rightarrow> value_ref \<Rightarrow> unit emits" where
  "fp_store_q rt addr em = do { (q, em) \<leftarrow> get_v_q rt em; em_store addr q 16 em }"

definition pair_access :: "bool \<Rightarrow> bool \<Rightarrow> nat \<Rightarrow> reg_size \<Rightarrow> nat \<Rightarrow> nat \<Rightarrow> value_ref \<Rightarrow> value_ref \<Rightarrow> unit emits" where
  "pair_access is_load is_fp bytes sz rt rt2 addr addr2 em =
     (if is_load then
        (if is_fp \<and> bytes = 16 then do { (_, em) \<leftarrow> fp_load_q rt addr em; fp_load_q rt2 addr2 em }
         else do {
           (lo, em) \<leftarrow> em_load addr bytes em;
           (hi, em) \<leftarrow> em_load addr2 bytes em;
           if is_fp then
             (if bytes = 8 then do { (_, em) \<leftarrow> set_v_d rt lo em; set_v_d rt2 hi em }
              else do { (_, em) \<leftarrow> set_v_s rt lo em; set_v_s rt2 hi em })
           else do { (_, em) \<leftarrow> set_gpr rt lo sz em; set_gpr rt2 hi sz em }
         })
      else
        (if is_fp \<and> bytes = 16 then do { (_, em) \<leftarrow> fp_store_q rt addr em; fp_store_q rt2 addr2 em }
         else do {
           (lo, em) \<leftarrow> (if is_fp then if bytes = 8 then get_v_d rt em else get_v_s rt em else get_gpr rt sz em);
           (hi, em) \<leftarrow> (if is_fp then if bytes = 8 then get_v_d rt2 em else get_v_s rt2 em else get_gpr rt2 sz em);
           (_, em) \<leftarrow> em_store addr lo bytes em;
           em_store addr2 hi bytes em
         }))"

text \<open>\<open>Some (Inl insn)\<close> is LDPSW; otherwise the word and whether it loads and is floating-point.\<close>

datatype LDSTPAIR_OFF = STP_Rt_Rt2_ADDR_SIMM7 u32 | LDP_Rt_Rt2_ADDR_SIMM7 u32 | STP_Ft_Ft2_ADDR_SIMM7 u32
  | LDP_Ft_Ft2_ADDR_SIMM7 u32 | LDPSW_Rt_Rt2_ADDR_SIMM7 u32 | LDSTPAIR_OFF_other u32

fun ldstpair_off_op :: "LDSTPAIR_OFF \<Rightarrow> (u32 + (u32 \<times> bool \<times> bool)) option" where
  "ldstpair_off_op (STP_Rt_Rt2_ADDR_SIMM7 i) = Some (Inr (i, False, False))"
| "ldstpair_off_op (LDP_Rt_Rt2_ADDR_SIMM7 i) = Some (Inr (i, True, False))"
| "ldstpair_off_op (STP_Ft_Ft2_ADDR_SIMM7 i) = Some (Inr (i, False, True))"
| "ldstpair_off_op (LDP_Ft_Ft2_ADDR_SIMM7 i) = Some (Inr (i, True, True))"
| "ldstpair_off_op (LDPSW_Rt_Rt2_ADDR_SIMM7 i) = Some (Inl i)"
| "ldstpair_off_op (LDSTPAIR_OFF_other i) = None"

definition translate_ldstpair_off :: "LDSTPAIR_OFF \<Rightarrow> translation" where
  "translate_ldstpair_off i em =
     (case ldstpair_off_op i of
        None \<Rightarrow> unsupported em
      | Some (Inl insn) \<Rightarrow> ldpsw insn Off em
      | Some (Inr (insn, is_load, is_fp)) \<Rightarrow>
          (case pair_layout is_fp (bits insn 30 2) of
             None \<Rightarrow> unsupported_raw insn em
           | Some (scale, bytes, sz) \<Rightarrow> do {
               (base, em) \<leftarrow> get_x_or_sp (reg insn 5) True em;
               (off, em) \<leftarrow> const_u64 (push_bit scale (sign_extend (ucast (bits insn 15 7)) 7)) em;
               (access_addr, em) \<leftarrow> em_add base off X em;
               (one, em) \<leftarrow> const_u64 (of_nat bytes) em;
               (access_addr2, em) \<leftarrow> em_add access_addr one X em;
               (_, em) \<leftarrow> pair_access is_load is_fp bytes sz (reg insn 0) (reg insn 10) access_addr access_addr2 em;
               Some (Inr Continue, em)
             }))"

datatype LDSTPAIR_INDEXED = STP_Rt_W_Rt2_W_ADDR_SIMM7_S_S u32 | LDP_Rt_W_Rt2_W_ADDR_SIMM7_S_S u32
  | STP_Ft_S_S_Ft2_S_S_ADDR_SIMM7_S_S u32 | LDP_Ft_S_S_Ft2_S_S_ADDR_SIMM7_S_S u32 | LDPSW_Rt_X_Rt2_X_ADDR_SIMM7_S_S u32
  | LDSTPAIR_INDEXED_other u32

fun ldstpair_indexed_op :: "LDSTPAIR_INDEXED \<Rightarrow> (u32 + (u32 \<times> bool \<times> bool)) option" where
  "ldstpair_indexed_op (STP_Rt_W_Rt2_W_ADDR_SIMM7_S_S i) = Some (Inr (i, False, False))"
| "ldstpair_indexed_op (LDP_Rt_W_Rt2_W_ADDR_SIMM7_S_S i) = Some (Inr (i, True, False))"
| "ldstpair_indexed_op (STP_Ft_S_S_Ft2_S_S_ADDR_SIMM7_S_S i) = Some (Inr (i, False, True))"
| "ldstpair_indexed_op (LDP_Ft_S_S_Ft2_S_S_ADDR_SIMM7_S_S i) = Some (Inr (i, True, True))"
| "ldstpair_indexed_op (LDPSW_Rt_X_Rt2_X_ADDR_SIMM7_S_S i) = Some (Inl i)"
| "ldstpair_indexed_op (LDSTPAIR_INDEXED_other i) = None"

definition translate_ldstpair_indexed :: "LDSTPAIR_INDEXED \<Rightarrow> translation" where
  "translate_ldstpair_indexed i em =
     (case ldstpair_indexed_op i of
        None \<Rightarrow> unsupported em
      | Some (Inl insn) \<Rightarrow> ldpsw insn (if bits insn 23 3 = 1 then Post else Pre) em
      | Some (Inr (insn, is_load, is_fp)) \<Rightarrow>
          (case pair_layout is_fp (bits insn 30 2) of
             None \<Rightarrow> unsupported_raw insn em
           | Some (scale, bytes, sz) \<Rightarrow> do {
               let mode = bits insn 23 3;
               (base, em) \<leftarrow> get_x_or_sp (reg insn 5) True em;
               (off, em) \<leftarrow> const_u64 (push_bit scale (sign_extend (ucast (bits insn 15 7)) 7)) em;
               (writeback_addr, em) \<leftarrow> em_add base off X em;
               let access_addr = (if mode = 1 then base else writeback_addr);
               (one, em) \<leftarrow> const_u64 (of_nat bytes) em;
               (access_addr2, em) \<leftarrow> em_add access_addr one X em;
               (_, em) \<leftarrow> pair_access is_load is_fp bytes sz (reg insn 0) (reg insn 10) access_addr access_addr2 em;
               (_, em) \<leftarrow> set_x_or_sp (reg insn 5) writeback_addr True em;
               Some (Inr Continue, em)
             }))"

section \<open>Literals\<close>

datatype LOADLIT = LDR_Rt_ADDR_PCREL19 u32 | LDRSW_Rt_ADDR_PCREL19 u32 | LDR_Ft_ADDR_PCREL19 u32 | PRFM_PRFOP_ADDR_PCREL19 u32

fun loadlit_op :: "LOADLIT \<Rightarrow> u32 option" where
  "loadlit_op (LDR_Rt_ADDR_PCREL19 i) = Some i"
| "loadlit_op (LDRSW_Rt_ADDR_PCREL19 i) = Some i"
| "loadlit_op (LDR_Ft_ADDR_PCREL19 i) = Some i"
| "loadlit_op (PRFM_PRFOP_ADDR_PCREL19 i) = None"

definition translate_loadlit :: "LOADLIT \<Rightarrow> translation" where
  "translate_loadlit i em =
     (case loadlit_op i of None \<Rightarrow> Some (Inr Continue, em)
      | Some insn \<Rightarrow>
          let opc = bits insn 30 2; v = bit1 insn 26; rt = reg insn 0;
              offset = sign_extend (push_bit 2 (ucast (bits insn 5 19))) 21
          in do {
            (addr, em) \<leftarrow> const_u64 (current_pc em + offset) em;
            if v = 1 then
              (if opc = 0 then do { (val, em) \<leftarrow> em_load addr 4 em; (_, em) \<leftarrow> set_v_s rt val em; Some (Inr Continue, em) }
               else if opc = 1 then do { (val, em) \<leftarrow> em_load addr 8 em; (_, em) \<leftarrow> set_v_d rt val em; Some (Inr Continue, em) }
               else if opc = 2 then do { (q, em) \<leftarrow> em_load addr 16 em; (_, em) \<leftarrow> set_v_q rt q em; Some (Inr Continue, em) }
               else unsupported_raw insn em)
            else
              (if opc = 0 then do { (val, em) \<leftarrow> em_load addr 4 em; (_, em) \<leftarrow> em_set_w rt val em; Some (Inr Continue, em) }
               else if opc = 1 then do { (val, em) \<leftarrow> em_load addr 8 em; (_, em) \<leftarrow> set_x rt val em; Some (Inr Continue, em) }
               else if opc = 2 then do {
                 (val, em) \<leftarrow> em_load addr 4 em;
                 (shl, em) \<leftarrow> const_u64 32 em;
                 (s1, em) \<leftarrow> em_lsl val shl X em;
                 (shl2, em) \<leftarrow> const_u64 32 em;
                 (sx, em) \<leftarrow> em_asr s1 shl2 X em;
                 (_, em) \<leftarrow> set_x rt sx em;
                 Some (Inr Continue, em)
               }
               else unsupported_raw insn em)
          })"

section \<open>Exclusive and ordered accesses\<close>

datatype excl_kind = LoadEx nat bool | StoreEx nat | LoadAcq nat bool | StoreRel nat | LoadExPair bool | StoreExPair bool

definition size_from_bit30 :: "u32 \<Rightarrow> nat \<times> bool" where
  "size_from_bit30 insn = (let bytes = 2 ^ unat (bits insn 30 2) in (bytes, bytes = 8))"

datatype LDSTEXCL = LDXRB_Rt_ADDR_SIMPLE u32 | LDAXRB_Rt_ADDR_SIMPLE u32 | LDXRH_Rt_ADDR_SIMPLE u32 | LDAXRH_Rt_ADDR_SIMPLE u32
  | LDXR_Rt_ADDR_SIMPLE u32 | LDAXR_Rt_ADDR_SIMPLE u32 | STXRB_Rs_Rt_ADDR_SIMPLE u32 | STLXRB_Rs_Rt_ADDR_SIMPLE u32
  | STXRH_Rs_Rt_ADDR_SIMPLE u32 | STLXRH_Rs_Rt_ADDR_SIMPLE u32 | STXR_Rs_Rt_ADDR_SIMPLE u32 | STLXR_Rs_Rt_ADDR_SIMPLE u32
  | LDARB_Rt_ADDR_SIMPLE u32 | LDAPRB_Rt_ADDR_SIMPLE u32 | LDLARB_Rt_ADDR_SIMPLE u32 | LDARH_Rt_ADDR_SIMPLE u32
  | LDAPRH_Rt_ADDR_SIMPLE u32 | LDLARH_Rt_ADDR_SIMPLE u32 | LDAR_Rt_ADDR_SIMPLE u32 | LDAPR_Rt_ADDR_SIMPLE u32
  | LDLAR_Rt_ADDR_SIMPLE u32 | STLRB_Rt_ADDR_SIMPLE u32 | STLLRB_Rt_ADDR_SIMPLE u32 | STLRH_Rt_ADDR_SIMPLE u32
  | STLLRH_Rt_ADDR_SIMPLE u32 | STLR_Rt_ADDR_SIMPLE u32 | STLLR_Rt_ADDR_SIMPLE u32 | LDXP_Rt_Rt2_ADDR_SIMPLE u32
  | LDAXP_Rt_Rt2_ADDR_SIMPLE u32 | STXP_Rs_Rt_Rt2_ADDR_SIMPLE u32 | STLXP_Rs_Rt_Rt2_ADDR_SIMPLE u32
  | LDSTEXCL_other u32

fun ldstexcl_op :: "LDSTEXCL \<Rightarrow> (u32 \<times> excl_kind) option" where
  "ldstexcl_op (LDXRB_Rt_ADDR_SIMPLE i) = Some (i, LoadEx 1 False)"
| "ldstexcl_op (LDAXRB_Rt_ADDR_SIMPLE i) = Some (i, LoadEx 1 False)"
| "ldstexcl_op (LDXRH_Rt_ADDR_SIMPLE i) = Some (i, LoadEx 2 False)"
| "ldstexcl_op (LDAXRH_Rt_ADDR_SIMPLE i) = Some (i, LoadEx 2 False)"
| "ldstexcl_op (LDXR_Rt_ADDR_SIMPLE i) = Some (i, LoadEx (fst (size_from_bit30 i)) (snd (size_from_bit30 i)))"
| "ldstexcl_op (LDAXR_Rt_ADDR_SIMPLE i) = Some (i, LoadEx (fst (size_from_bit30 i)) (snd (size_from_bit30 i)))"
| "ldstexcl_op (STXRB_Rs_Rt_ADDR_SIMPLE i) = Some (i, StoreEx 1)"
| "ldstexcl_op (STLXRB_Rs_Rt_ADDR_SIMPLE i) = Some (i, StoreEx 1)"
| "ldstexcl_op (STXRH_Rs_Rt_ADDR_SIMPLE i) = Some (i, StoreEx 2)"
| "ldstexcl_op (STLXRH_Rs_Rt_ADDR_SIMPLE i) = Some (i, StoreEx 2)"
| "ldstexcl_op (STXR_Rs_Rt_ADDR_SIMPLE i) = Some (i, StoreEx (fst (size_from_bit30 i)))"
| "ldstexcl_op (STLXR_Rs_Rt_ADDR_SIMPLE i) = Some (i, StoreEx (fst (size_from_bit30 i)))"
| "ldstexcl_op (LDARB_Rt_ADDR_SIMPLE i) = Some (i, LoadAcq 1 False)"
| "ldstexcl_op (LDAPRB_Rt_ADDR_SIMPLE i) = Some (i, LoadAcq 1 False)"
| "ldstexcl_op (LDLARB_Rt_ADDR_SIMPLE i) = Some (i, LoadAcq 1 False)"
| "ldstexcl_op (LDARH_Rt_ADDR_SIMPLE i) = Some (i, LoadAcq 2 False)"
| "ldstexcl_op (LDAPRH_Rt_ADDR_SIMPLE i) = Some (i, LoadAcq 2 False)"
| "ldstexcl_op (LDLARH_Rt_ADDR_SIMPLE i) = Some (i, LoadAcq 2 False)"
| "ldstexcl_op (LDAR_Rt_ADDR_SIMPLE i) = Some (i, LoadAcq (fst (size_from_bit30 i)) (snd (size_from_bit30 i)))"
| "ldstexcl_op (LDAPR_Rt_ADDR_SIMPLE i) = Some (i, LoadAcq (fst (size_from_bit30 i)) (snd (size_from_bit30 i)))"
| "ldstexcl_op (LDLAR_Rt_ADDR_SIMPLE i) = Some (i, LoadAcq (fst (size_from_bit30 i)) (snd (size_from_bit30 i)))"
| "ldstexcl_op (STLRB_Rt_ADDR_SIMPLE i) = Some (i, StoreRel 1)"
| "ldstexcl_op (STLLRB_Rt_ADDR_SIMPLE i) = Some (i, StoreRel 1)"
| "ldstexcl_op (STLRH_Rt_ADDR_SIMPLE i) = Some (i, StoreRel 2)"
| "ldstexcl_op (STLLRH_Rt_ADDR_SIMPLE i) = Some (i, StoreRel 2)"
| "ldstexcl_op (STLR_Rt_ADDR_SIMPLE i) = Some (i, StoreRel (fst (size_from_bit30 i)))"
| "ldstexcl_op (STLLR_Rt_ADDR_SIMPLE i) = Some (i, StoreRel (fst (size_from_bit30 i)))"
| "ldstexcl_op (LDXP_Rt_Rt2_ADDR_SIMPLE i) = Some (i, LoadExPair (bit1 i 30 = 1))"
| "ldstexcl_op (LDAXP_Rt_Rt2_ADDR_SIMPLE i) = Some (i, LoadExPair (bit1 i 30 = 1))"
| "ldstexcl_op (STXP_Rs_Rt_Rt2_ADDR_SIMPLE i) = Some (i, StoreExPair (bit1 i 30 = 1))"
| "ldstexcl_op (STLXP_Rs_Rt_Rt2_ADDR_SIMPLE i) = Some (i, StoreExPair (bit1 i 30 = 1))"
| "ldstexcl_op (LDSTEXCL_other i) = None"

text \<open>The opcode for a width; other widths are \<open>unreachable!\<close>.\<close>

definition by_width :: "nat \<Rightarrow> 'a \<Rightarrow> 'a \<Rightarrow> 'a \<Rightarrow> 'a \<Rightarrow> 'a option" where
  "by_width bytes p8 p16 p32 p64 =
     (if bytes = 1 then Some p8 else if bytes = 2 then Some p16 else if bytes = 4 then Some p32
      else if bytes = 8 then Some p64 else None)"

text \<open>Two registers as one 64-bit value.\<close>

definition pack_words :: "value_ref \<Rightarrow> value_ref \<Rightarrow> value_ref emits" where
  "pack_words lo hi em = do {
     (m, em) \<leftarrow> const_u64 0xFFFFFFFF em;
     (lo, em) \<leftarrow> em_and lo m X em;
     (sh, em) \<leftarrow> const_u64 32 em;
     (hi, em) \<leftarrow> em_lsl hi sh X em;
     em_or lo hi X em
   }"

definition excl_access :: "excl_kind \<Rightarrow> u32 \<Rightarrow> value_ref \<Rightarrow> unit emits" where
  "excl_access kind insn addr em =
     (let rt = reg insn 0; rt2 = reg insn 10; rs = reg insn 16;
          set_status = (\<lambda>result em. if rs \<noteq> ZR_ENCODING then em_set_w rs result em else Some ((), em))
      in case kind of
        LoadEx bytes target_x \<Rightarrow> do {
          (p, t) \<leftarrow> by_width bytes (Op_LoadEx8, TyU32) (Op_LoadEx16, TyU32) (Op_LoadEx32, TyU32) (Op_LoadEx64, TyU64);
          (v, em) \<leftarrow> em_push (mk p t [addr] 0) em;
          if target_x then set_x rt v em else em_set_w rt v em
        }
      | StoreEx bytes \<Rightarrow> do {
          (val, em) \<leftarrow> get_gpr rt (if bytes = 8 then X else W) em;
          p \<leftarrow> by_width bytes Op_StoreEx8 Op_StoreEx16 Op_StoreEx32 Op_StoreEx64;
          (result, em) \<leftarrow> em_push (mk p TyU32 [addr, val] 0) em;
          set_status result em
        }
      | LoadExPair wide \<Rightarrow>
          if wide then do {
            (q, em) \<leftarrow> em_push (mk Op_LoadEx128 TyU128 [addr] 0) em;
            (lo, em) \<leftarrow> vec_extract_lo64 q em;
            (hi, em) \<leftarrow> vec_extract_hi64 q em;
            (_, em) \<leftarrow> set_x rt lo em;
            set_x rt2 hi em
          } else do {
            (v, em) \<leftarrow> em_push (mk Op_LoadEx64 TyU64 [addr] 0) em;
            (sh, em) \<leftarrow> const_u64 32 em;
            (hi, em) \<leftarrow> em_lsr v sh X em;
            (_, em) \<leftarrow> em_set_w rt v em;
            em_set_w rt2 hi em
          }
      | StoreExPair wide \<Rightarrow> do {
          (lo, em) \<leftarrow> get_x rt em;
          (hi, em) \<leftarrow> get_x rt2 em;
          (result, em) \<leftarrow>
            (if wide then do {
               (q, em) \<leftarrow> vec_build_q lo hi em;
               em_push (mk Op_StoreEx128 TyU32 [addr, q] 0) em
             } else do {
               (v, em) \<leftarrow> pack_words lo hi em;
               em_push (mk Op_StoreEx64 TyU32 [addr, v] 0) em
             });
          set_status result em
        }
      | LoadAcq bytes target_x \<Rightarrow> do {
          (v, em) \<leftarrow> em_load addr bytes em;
          if target_x then set_x rt v em else em_set_w rt v em
        }
      | StoreRel bytes \<Rightarrow> do {
          (val, em) \<leftarrow> get_gpr rt (if bytes = 8 then X else W) em;
          em_store addr val bytes em
        })"

definition translate_ldstexcl :: "LDSTEXCL \<Rightarrow> translation" where
  "translate_ldstexcl i em =
     (case ldstexcl_op i of None \<Rightarrow> unsupported em
      | Some (insn, kind) \<Rightarrow> do {
          (addr, em) \<leftarrow> get_x_or_sp (reg insn 5) True em;
          (_, em) \<leftarrow> excl_access kind insn addr em;
          Some (Inr Continue, em)
        })"

section \<open>Atomic operations\<close>

text \<open>An \<open>LSE_ATOMIC\<close> variant is its name and word; the table is the \<open>dispatch!\<close> of the source, with 0 for
  the variants whose width is in the word.\<close>

datatype LSE_ATOMIC = Lse string u32

definition lse_table :: "(string \<times> atomic_op \<times> nat) list" where
  "lse_table =
    [(''LDADD_Rs_Rt_ADDR_SIMPLE'', Add, 0), (''LDADDA_Rs_Rt_ADDR_SIMPLE'', Add, 0),
     (''LDADDL_Rs_Rt_ADDR_SIMPLE'', Add, 0), (''LDADDAL_Rs_Rt_ADDR_SIMPLE'', Add, 0),
     (''LDCLR_Rs_Rt_ADDR_SIMPLE'', Clr, 0), (''LDCLRA_Rs_Rt_ADDR_SIMPLE'', Clr, 0),
     (''LDCLRL_Rs_Rt_ADDR_SIMPLE'', Clr, 0), (''LDCLRAL_Rs_Rt_ADDR_SIMPLE'', Clr, 0),
     (''LDEOR_Rs_Rt_ADDR_SIMPLE'', Eor, 0), (''LDEORA_Rs_Rt_ADDR_SIMPLE'', Eor, 0),
     (''LDEORL_Rs_Rt_ADDR_SIMPLE'', Eor, 0), (''LDEORAL_Rs_Rt_ADDR_SIMPLE'', Eor, 0),
     (''LDSET_Rs_Rt_ADDR_SIMPLE'', SetBits, 0), (''LDSETA_Rs_Rt_ADDR_SIMPLE'', SetBits, 0),
     (''LDSETL_Rs_Rt_ADDR_SIMPLE'', SetBits, 0), (''LDSETAL_Rs_Rt_ADDR_SIMPLE'', SetBits, 0),
     (''LDSMAX_Rs_Rt_ADDR_SIMPLE'', Smax, 0), (''LDSMAXA_Rs_Rt_ADDR_SIMPLE'', Smax, 0),
     (''LDSMAXL_Rs_Rt_ADDR_SIMPLE'', Smax, 0), (''LDSMAXAL_Rs_Rt_ADDR_SIMPLE'', Smax, 0),
     (''LDSMIN_Rs_Rt_ADDR_SIMPLE'', Smin, 0), (''LDSMINA_Rs_Rt_ADDR_SIMPLE'', Smin, 0),
     (''LDSMINL_Rs_Rt_ADDR_SIMPLE'', Smin, 0), (''LDSMINAL_Rs_Rt_ADDR_SIMPLE'', Smin, 0),
     (''LDUMAX_Rs_Rt_ADDR_SIMPLE'', Umax, 0), (''LDUMAXA_Rs_Rt_ADDR_SIMPLE'', Umax, 0),
     (''LDUMAXL_Rs_Rt_ADDR_SIMPLE'', Umax, 0), (''LDUMAXAL_Rs_Rt_ADDR_SIMPLE'', Umax, 0),
     (''LDUMIN_Rs_Rt_ADDR_SIMPLE'', Umin, 0), (''LDUMINA_Rs_Rt_ADDR_SIMPLE'', Umin, 0),
     (''LDUMINL_Rs_Rt_ADDR_SIMPLE'', Umin, 0), (''LDUMINAL_Rs_Rt_ADDR_SIMPLE'', Umin, 0),
     (''SWP_Rs_Rt_ADDR_SIMPLE'', Swp, 0), (''SWPA_Rs_Rt_ADDR_SIMPLE'', Swp, 0), (''SWPL_Rs_Rt_ADDR_SIMPLE'', Swp, 0),
     (''SWPAL_Rs_Rt_ADDR_SIMPLE'', Swp, 0), (''CAS_Rs_Rt_ADDR_SIMPLE'', Cas, 0), (''CASA_Rs_Rt_ADDR_SIMPLE'', Cas, 0),
     (''CASL_Rs_Rt_ADDR_SIMPLE'', Cas, 0), (''CASAL_Rs_Rt_ADDR_SIMPLE'', Cas, 0),
     (''LDADDB_Rs_Rt_ADDR_SIMPLE'', Add, 1), (''LDADDAB_Rs_Rt_ADDR_SIMPLE'', Add, 1),
     (''LDADDLB_Rs_Rt_ADDR_SIMPLE'', Add, 1), (''LDADDALB_Rs_Rt_ADDR_SIMPLE'', Add, 1),
     (''LDADDH_Rs_Rt_ADDR_SIMPLE'', Add, 2), (''LDADDAH_Rs_Rt_ADDR_SIMPLE'', Add, 2),
     (''LDADDLH_Rs_Rt_ADDR_SIMPLE'', Add, 2), (''LDADDALH_Rs_Rt_ADDR_SIMPLE'', Add, 2),
     (''LDCLRB_Rs_Rt_ADDR_SIMPLE'', Clr, 1), (''LDCLRAB_Rs_Rt_ADDR_SIMPLE'', Clr, 1),
     (''LDCLRLB_Rs_Rt_ADDR_SIMPLE'', Clr, 1), (''LDCLRALB_Rs_Rt_ADDR_SIMPLE'', Clr, 1),
     (''LDCLRH_Rs_Rt_ADDR_SIMPLE'', Clr, 2), (''LDCLRAH_Rs_Rt_ADDR_SIMPLE'', Clr, 2),
     (''LDCLRLH_Rs_Rt_ADDR_SIMPLE'', Clr, 2), (''LDCLRALH_Rs_Rt_ADDR_SIMPLE'', Clr, 2),
     (''LDEORB_Rs_Rt_ADDR_SIMPLE'', Eor, 1), (''LDEORAB_Rs_Rt_ADDR_SIMPLE'', Eor, 1),
     (''LDEORLB_Rs_Rt_ADDR_SIMPLE'', Eor, 1), (''LDEORALB_Rs_Rt_ADDR_SIMPLE'', Eor, 1),
     (''LDEORH_Rs_Rt_ADDR_SIMPLE'', Eor, 2), (''LDEORAH_Rs_Rt_ADDR_SIMPLE'', Eor, 2),
     (''LDEORLH_Rs_Rt_ADDR_SIMPLE'', Eor, 2), (''LDEORALH_Rs_Rt_ADDR_SIMPLE'', Eor, 2),
     (''LDSETB_Rs_Rt_ADDR_SIMPLE'', SetBits, 1), (''LDSETAB_Rs_Rt_ADDR_SIMPLE'', SetBits, 1),
     (''LDSETLB_Rs_Rt_ADDR_SIMPLE'', SetBits, 1), (''LDSETALB_Rs_Rt_ADDR_SIMPLE'', SetBits, 1),
     (''LDSETH_Rs_Rt_ADDR_SIMPLE'', SetBits, 2), (''LDSETAH_Rs_Rt_ADDR_SIMPLE'', SetBits, 2),
     (''LDSETLH_Rs_Rt_ADDR_SIMPLE'', SetBits, 2), (''LDSETALH_Rs_Rt_ADDR_SIMPLE'', SetBits, 2),
     (''LDSMAXB_Rs_Rt_ADDR_SIMPLE'', Smax, 1), (''LDSMAXAB_Rs_Rt_ADDR_SIMPLE'', Smax, 1),
     (''LDSMAXLB_Rs_Rt_ADDR_SIMPLE'', Smax, 1), (''LDSMAXALB_Rs_Rt_ADDR_SIMPLE'', Smax, 1),
     (''LDSMAXH_Rs_Rt_ADDR_SIMPLE'', Smax, 2), (''LDSMAXAH_Rs_Rt_ADDR_SIMPLE'', Smax, 2),
     (''LDSMAXLH_Rs_Rt_ADDR_SIMPLE'', Smax, 2), (''LDSMAXALH_Rs_Rt_ADDR_SIMPLE'', Smax, 2),
     (''LDSMINB_Rs_Rt_ADDR_SIMPLE'', Smin, 1), (''LDSMINAB_Rs_Rt_ADDR_SIMPLE'', Smin, 1),
     (''LDSMINLB_Rs_Rt_ADDR_SIMPLE'', Smin, 1), (''LDSMINALB_Rs_Rt_ADDR_SIMPLE'', Smin, 1),
     (''LDSMINH_Rs_Rt_ADDR_SIMPLE'', Smin, 2), (''LDSMINAH_Rs_Rt_ADDR_SIMPLE'', Smin, 2),
     (''LDSMINLH_Rs_Rt_ADDR_SIMPLE'', Smin, 2), (''LDSMINALH_Rs_Rt_ADDR_SIMPLE'', Smin, 2),
     (''LDUMAXB_Rs_Rt_ADDR_SIMPLE'', Umax, 1), (''LDUMAXAB_Rs_Rt_ADDR_SIMPLE'', Umax, 1),
     (''LDUMAXLB_Rs_Rt_ADDR_SIMPLE'', Umax, 1), (''LDUMAXALB_Rs_Rt_ADDR_SIMPLE'', Umax, 1),
     (''LDUMAXH_Rs_Rt_ADDR_SIMPLE'', Umax, 2), (''LDUMAXAH_Rs_Rt_ADDR_SIMPLE'', Umax, 2),
     (''LDUMAXLH_Rs_Rt_ADDR_SIMPLE'', Umax, 2), (''LDUMAXALH_Rs_Rt_ADDR_SIMPLE'', Umax, 2),
     (''LDUMINB_Rs_Rt_ADDR_SIMPLE'', Umin, 1), (''LDUMINAB_Rs_Rt_ADDR_SIMPLE'', Umin, 1),
     (''LDUMINLB_Rs_Rt_ADDR_SIMPLE'', Umin, 1), (''LDUMINALB_Rs_Rt_ADDR_SIMPLE'', Umin, 1),
     (''LDUMINH_Rs_Rt_ADDR_SIMPLE'', Umin, 2), (''LDUMINAH_Rs_Rt_ADDR_SIMPLE'', Umin, 2),
     (''LDUMINLH_Rs_Rt_ADDR_SIMPLE'', Umin, 2), (''LDUMINALH_Rs_Rt_ADDR_SIMPLE'', Umin, 2),
     (''SWPB_Rs_Rt_ADDR_SIMPLE'', Swp, 1), (''SWPAB_Rs_Rt_ADDR_SIMPLE'', Swp, 1), (''SWPLB_Rs_Rt_ADDR_SIMPLE'', Swp, 1),
     (''SWPALB_Rs_Rt_ADDR_SIMPLE'', Swp, 1), (''SWPH_Rs_Rt_ADDR_SIMPLE'', Swp, 2),
     (''SWPAH_Rs_Rt_ADDR_SIMPLE'', Swp, 2), (''SWPLH_Rs_Rt_ADDR_SIMPLE'', Swp, 2),
     (''SWPALH_Rs_Rt_ADDR_SIMPLE'', Swp, 2), (''CASB_Rs_Rt_ADDR_SIMPLE'', Cas, 1),
     (''CASAB_Rs_Rt_ADDR_SIMPLE'', Cas, 1), (''CASLB_Rs_Rt_ADDR_SIMPLE'', Cas, 1),
     (''CASALB_Rs_Rt_ADDR_SIMPLE'', Cas, 1), (''CASH_Rs_Rt_ADDR_SIMPLE'', Cas, 2),
     (''CASAH_Rs_Rt_ADDR_SIMPLE'', Cas, 2), (''CASLH_Rs_Rt_ADDR_SIMPLE'', Cas, 2),
     (''CASALH_Rs_Rt_ADDR_SIMPLE'', Cas, 2)]"

definition casp_names :: "string list" where
  "casp_names = [''CASP_Rs_PAIRREG_Rt_PAIRREG_ADDR_SIMPLE'', ''CASPA_Rs_PAIRREG_Rt_PAIRREG_ADDR_SIMPLE'',
     ''CASPL_Rs_PAIRREG_Rt_PAIRREG_ADDR_SIMPLE'', ''CASPAL_Rs_PAIRREG_Rt_PAIRREG_ADDR_SIMPLE'']"

definition atomic_sized :: "bool \<Rightarrow> nat \<Rightarrow> op" where
  "atomic_sized cas bytes =
     (if cas then
        (if bytes = 1 then Op_AtomicCas8 else if bytes = 2 then Op_AtomicCas16 else if bytes = 4 then Op_AtomicCas32
         else Op_AtomicCas64)
      else
        (if bytes = 1 then Op_AtomicRmw8 else if bytes = 2 then Op_AtomicRmw16 else if bytes = 4 then Op_AtomicRmw32
         else Op_AtomicRmw64))"

definition atomic_rmw :: "u32 \<Rightarrow> atomic_op \<Rightarrow> nat \<Rightarrow> translation" where
  "atomic_rmw insn kind fixed_bytes em =
     (let bytes = (if fixed_bytes \<noteq> 0 then fixed_bytes else 2 ^ unat (bits insn 30 2));
          rs = reg insn 16; rn = reg insn 5; rt = reg insn 0;
          sz = (if bytes = 8 then X else W); t = (if bytes = 8 then TyU64 else TyU32)
      in do {
        (addr, em) \<leftarrow> get_x_or_sp rn True em;
        (rs_val, em) \<leftarrow> get_gpr rs sz em;
        (_, em) \<leftarrow>
          (if kind = Cas then do {
             (rt_val, em) \<leftarrow> get_gpr rt sz em;
             (old, em) \<leftarrow> em_push (mk (atomic_sized True bytes) t [addr, rs_val, rt_val] 0) em;
             set_gpr rs old sz em
           } else do {
             (old, em) \<leftarrow> em_push (mk (atomic_sized False bytes) t [addr, rs_val] (ucast (op_code kind))) em;
             set_gpr rt old sz em
           });
        Some (Inr Continue, em)
      })"

definition casp_pair :: "bool \<Rightarrow> nat \<Rightarrow> value_ref emits" where
  "casp_pair wide r em = do {
     (lo, em) \<leftarrow> get_x r em;
     (hi, em) \<leftarrow> get_x (r + 1) em;
     if wide then vec_build_q lo hi em else pack_words lo hi em
   }"

definition casp :: "u32 \<Rightarrow> translation" where
  "casp insn em =
     (let wide = (bits insn 30 1 = 1); rs = reg insn 16; rn = reg insn 5; rt = reg insn 0 in
      if odd rs \<or> odd rt then unsupported_raw insn em
      else do {
        (addr, em) \<leftarrow> get_x_or_sp rn True em;
        (expected, em) \<leftarrow> casp_pair wide rs em;
        (new, em) \<leftarrow> casp_pair wide rt em;
        (_, em) \<leftarrow>
          (if wide then do {
             (old, em) \<leftarrow> em_push (mk Op_AtomicCas128 TyU128 [addr, expected, new] 0) em;
             (lo, em) \<leftarrow> vec_extract_lo64 old em;
             (hi, em) \<leftarrow> vec_extract_hi64 old em;
             (_, em) \<leftarrow> set_x rs lo em;
             set_x (rs + 1) hi em
           } else do {
             (old, em) \<leftarrow> em_push (mk Op_AtomicCas64 TyU64 [addr, expected, new] 0) em;
             (sh, em) \<leftarrow> const_u64 32 em;
             (hi, em) \<leftarrow> em_lsr old sh X em;
             (_, em) \<leftarrow> em_set_w rs old em;
             em_set_w (rs + 1) hi em
           });
        Some (Inr Continue, em)
      })"

fun translate_lse_atomic :: "LSE_ATOMIC \<Rightarrow> translation" where
  "translate_lse_atomic (Lse name insn) em =
     (case map_of lse_table name of
        Some (kind, fixed_bytes) \<Rightarrow> atomic_rmw insn kind fixed_bytes em
      | None \<Rightarrow> if name \<in> set casp_names then casp insn em else unsupported em)"

end
