(* ===== verification/Mem_Sound.thy ===== *)
theory Mem_Sound
  imports Translate_Mem Int_Sound Branch_Sound
begin

text \<open>
  The translators of loads and stores are correct: what the emitted nodes do to registers and memory
  is what \<open>A64_Mem\<close> says. First the widths of values in memory, registers and the IR; then one lemma
  for the access the four single-register families share and one for the access of a pair, each for
  an emitter that has already computed the address.
\<close>

section \<open>Reads and writes at different widths\<close>

lemma ucast_load [a64]:
  assumes "n * 8 \<le> LENGTH('a::len)" "n * 8 \<le> LENGTH('b::len)"
  shows "(ucast (load_le n m p :: 'a word) :: 'b word) = load_le n m p"
  using assms by (intro bit_word_eqI) (auto simp: load_le_def bit_join bit_ucast_iff)

lemma store_ucast [a64]:
  assumes "n * 8 \<le> LENGTH('b::len)"
  shows "store_le n m p (ucast (v :: 'a::len word) :: 'b word) = store_le n m p v"
proof
  fix a
  have "lane k (ucast v :: 'b word) = (lane k v :: u8)" if "k < n" for k
    using assms that by (intro bit_word_eqI) (auto simp: lane_def bit_simps)
  then show "store_le n m p (ucast v :: 'b word) a = store_le n m p v a" by (simp add: store_le_def)
qed

lemma load_forms [a64]:
  "n * 8 \<le> 64 \<Longrightarrow> low64 (load_le n m p) = load_le n m p" "n * 8 \<le> 32 \<Longrightarrow> low32 (load_le n m p) = load_le n m p"
  "n * 8 \<le> 64 \<Longrightarrow> of64 (load_le n m p) = load_le n m p" "n * 8 \<le> 32 \<Longrightarrow> of32 (load_le n m p) = load_le n m p"
  "n * 8 \<le> 32 \<Longrightarrow> wX r (load_le n m p :: u32) s = wX r (load_le n m p :: u64) s"
  by (simp_all add: low64_def low32_def of64_def of32_def wX_def ucast_load)

lemma load_masked [a64]:
  "(load_le (Suc 0) m p :: u32) AND 0xFF = load_le (Suc 0) m p" "(load_le 2 m p :: u32) AND 0xFFFF = load_le 2 m p"
proof -
  have "(load_le n m p :: u32) AND mask (8 * n) = load_le n m p" if "n \<le> 4" for n
    using that by (intro bit_word_eqI) (auto simp: bit_simps load_le_def bit_join)
  from this[of 1] this[of 2] show "(load_le (Suc 0) m p :: u32) AND 0xFF = load_le (Suc 0) m p"
    "(load_le 2 m p :: u32) AND 0xFFFF = load_le 2 m p" by (simp_all add: mask_eq_exp_minus_1)
qed

lemma store_forms [a64]:
  "n * 8 \<le> 64 \<Longrightarrow> store_le n m p (low64 v) = store_le n m p v" "n * 8 \<le> 32 \<Longrightarrow> store_le n m p (low32 v) = store_le n m p v"
  "n * 8 \<le> 128 \<Longrightarrow> store_le n m p (of64 d) = store_le n m p d" "n * 8 \<le> 128 \<Longrightarrow> store_le n m p (of32 w) = store_le n m p w"
  by (simp_all add: low64_def low32_def of64_def of32_def store_ucast)

lemma store_reg [a64]: "n * 8 \<le> 32 \<Longrightarrow> store_le n m p (rX r s :: u32) = store_le n m p (rX r s :: u64)"
  using store_ucast[of n m p "rX r s :: u64", where 'b = 32] by (simp add: ucast_reg)

lemma sext_shift [a64]:
  "signed_drop_bit 56 (push_bit 56 (v :: u64)) = signed_take_bit 7 v" "signed_drop_bit 48 (push_bit 48 v) = signed_take_bit 15 v"
  "signed_drop_bit 32 (push_bit 32 v) = signed_take_bit 31 v"
  using sign_extend_word[of 8 v] sign_extend_word[of 16 v] sign_extend_word[of 32 v] by (simp_all add: sign_extend_def)

lemma ucast_sext [a64]: "n < 32 \<Longrightarrow> (ucast (signed_take_bit n (v :: u64)) :: u32) = signed_take_bit n (ucast v)"
  by (rule bit_word_eqI) (auto simp: bit_simps min_def)

lemma sext_full [a64]: "signed_take_bit 63 (v :: u64) = v" "signed_take_bit 31 (w :: u32) = w"
  by (auto intro!: bit_word_eqI simp: bit_simps)

section \<open>One access\<close>

lemma v_emits [regs]:
  assumes "em_wf em"
  shows "get_v_s r em = Some (next_ref em, app em (mk Op_GetV TyU32 [] (of_nat r)))"
    "get_v_d r em = Some (next_ref em, app em (mk Op_GetV TyU64 [] (of_nat r)))"
    "get_v_q r em = Some (next_ref em, app em (mk Op_GetV TyU128 [] (of_nat r)))"
    "set_v_s r v em = Some ((), app em (with_flags W_SIZED (mk Op_SetV TyVoid [v] (of_nat r))))"
    "set_v_d r v em = Some ((), app em (mk Op_SetV TyVoid [v] (of_nat r)))"
    "set_v_q r v em = Some ((), app em (mk Op_SetV TyVoid [v] (of_nat r)))"
  using assms by (simp_all add: get_v_s_def get_v_d_def get_v_q_def set_v_s_def set_v_d_def set_v_q_def em_push_emits)

lemma bytes_cases:
  assumes "fp_kind kind \<and> bit insn 23 \<longrightarrow> bits insn 30 2 = 0"
  shows "ldst_bytes kind insn = access_bytes kind insn"
  using assms by (auto simp: ldst_bytes_def access_bytes_def access_scale_def fp_q_form_def fp_kind_def bit1_cases)

lemmas access_defs = ldst_access_def ldst_bytes_def access_bytes_def access_scale_def fp_q_form_def fp_kind_def ReadMem_def WriteMem_def wV_def

lemma wr_keeps:
  assumes "em_wf em" "w < next_ref em"
  shows "fst (runs s0 (wr_x r v em)) w = fst (runs s0 em) w" "fst (runs s0 (wr_w r v em)) w = fst (runs s0 em) w"
    "fst (runs s0 (wr_xsp r v em)) w = fst (runs s0 em) w"
  using assms by (cases "runs s0 em"; auto simp: wr_x_def wr_w_def wr_xsp_def emits)+

lemma wr_mono:
  assumes "em_wf em" "w < next_ref em"
  shows "w < next_ref (wr_x r v em)" "w < next_ref (wr_w r v em)"
  using assms by (simp_all add: wr_x_def wr_w_def emits)

text \<open>The access does what the architecture does and keeps the value of an earlier node \<open>w\<close>.\<close>

lemma access_LoadU:
  assumes "em_wf em" "runs s0 em = (env, s)" "addr < next_ref em" "w < next_ref em"
  shows "\<exists>em'. ldst_access LoadU target_x insn addr em = Some (Inr Continue, em') \<and> em_wf em' \<and>
    snd (runs s0 em') = a64_access LoadU target_x (access_bytes LoadU insn) (reg insn 0) (low64 (env addr)) s \<and> fst (runs s0 em') w = env w"
  by (insert assms; cases rule: bits2_cases[of insn 30]; simp add: access_defs wr_keeps sym_exec spec_exec regs a64)

lemma access_LoadS:
  assumes "em_wf em" "runs s0 em = (env, s)" "addr < next_ref em" "w < next_ref em" "target_x \<or> bits insn 30 2 \<noteq> 3"
  shows "\<exists>em'. ldst_access LoadS target_x insn addr em = Some (Inr Continue, em') \<and> em_wf em' \<and>
    snd (runs s0 em') = a64_access LoadS target_x (access_bytes LoadS insn) (reg insn 0) (low64 (env addr)) s \<and> fst (runs s0 em') w = env w"
  by (insert assms; cases rule: bits2_cases[of insn 30]; cases target_x; simp add: access_defs wr_keeps sym_exec spec_exec regs a64)

lemma access_StoreG:
  assumes "em_wf em" "runs s0 em = (env, s)" "addr < next_ref em" "w < next_ref em"
  shows "\<exists>em'. ldst_access StoreG target_x insn addr em = Some (Inr Continue, em') \<and> em_wf em' \<and>
    snd (runs s0 em') = a64_access StoreG target_x (access_bytes StoreG insn) (reg insn 0) (low64 (env addr)) s \<and> fst (runs s0 em') w = env w"
  by (insert assms; cases rule: bits2_cases[of insn 30]; simp add: access_defs wr_keeps sym_exec spec_exec regs a64)

lemma access_FpLoad:
  assumes "em_wf em" "runs s0 em = (env, s)" "addr < next_ref em" "w < next_ref em" "bit insn 23 \<longrightarrow> bits insn 30 2 = 0"
  shows "\<exists>em'. ldst_access FpLoad target_x insn addr em = Some (Inr Continue, em') \<and> em_wf em' \<and>
    snd (runs s0 em') = a64_access FpLoad target_x (access_bytes FpLoad insn) (reg insn 0) (low64 (env addr)) s \<and> fst (runs s0 em') w = env w"
  by (insert assms; cases rule: bits2_cases[of insn 30]; cases "bit insn 23"; simp add: access_defs wr_keeps sym_exec spec_exec regs a64)

lemma access_FpStore:
  assumes "em_wf em" "runs s0 em = (env, s)" "addr < next_ref em" "w < next_ref em" "bit insn 23 \<longrightarrow> bits insn 30 2 = 0"
  shows "\<exists>em'. ldst_access FpStore target_x insn addr em = Some (Inr Continue, em') \<and> em_wf em' \<and>
    snd (runs s0 em') = a64_access FpStore target_x (access_bytes FpStore insn) (reg insn 0) (low64 (env addr)) s \<and> fst (runs s0 em') w = env w"
  by (insert assms; cases rule: bits2_cases[of insn 30]; cases "bit insn 23"; simp add: access_defs wr_keeps sym_exec spec_exec regs a64)

definition access_defined :: "ldst_kind \<Rightarrow> bool \<Rightarrow> u32 \<Rightarrow> bool" where
  "access_defined kind target_x insn \<longleftrightarrow> (kind = LoadS \<longrightarrow> target_x \<or> bits insn 30 2 \<noteq> 3) \<and>
     (kind \<in> {FpLoad, FpStore} \<and> bit insn 23 \<longrightarrow> bits insn 30 2 = 0)"

lemma access_runs:
  assumes "em_wf em" "runs s0 em = (env, s)" "addr < next_ref em" "w < next_ref em" "access_defined kind target_x insn"
  shows "\<exists>em'. ldst_access kind target_x insn addr em = Some (Inr Continue, em') \<and> em_wf em' \<and>
    snd (runs s0 em') = a64_access kind target_x (access_bytes kind insn) (reg insn 0) (low64 (env addr)) s \<and> fst (runs s0 em') w = env w"
  using assms access_LoadU[OF assms(1-4)] access_LoadS[OF assms(1-4), of target_x insn] access_StoreG[OF assms(1-4)]
    access_FpLoad[OF assms(1-4), of insn target_x] access_FpStore[OF assms(1-4), of insn target_x]
  by (cases kind) (auto simp: access_defined_def)

lemma access_ends:
  assumes "em_wf em" "runs s0 em = (env, s)" "addr < next_ref em" "access_defined kind target_x insn"
  shows "(\<exists>em'. ldst_access kind target_x insn addr em = Some (Inr Continue, em') \<and> em_wf em' \<and> snd (runs s0 em') = g) \<longleftrightarrow>
    a64_access kind target_x (access_bytes kind insn) (reg insn 0) (low64 (env addr)) s = g"
  using access_runs[OF assms(1-3) em_push_emits(7)[OF assms(1)] assms(4)] by fastforce

section \<open>The families\<close>

lemma simm_eq: "0 < len \<Longrightarrow> len \<le> 64 \<Longrightarrow> sign_extend (ucast (bits insn lsb len)) len = simm insn lsb len"
  by (simp add: simm_def sign_extend_word)

lemma defined_bytes: "access_defined kind target_x insn \<Longrightarrow> ldst_bytes kind insn = access_bytes kind insn"
  using bytes_cases by (auto simp: access_defined_def fp_kind_def)

lemma ldst_pos_correct:
  assumes "ldst_pos_op i = MemAccess insn kind target_x" "access_defined kind target_x insn"
  shows "correct (translate_ldst_pos i) (\<lambda>_. a64_ldst_pos kind target_x insn)"
  by (rule correctI; insert assms; simp add: translate_ldst_pos_def access_ends a64_ldst_pos_def defined_bytes sym_exec spec_exec regs a64)

lemma ldst_unscaled_correct:
  assumes "ldst_unscaled_op i = MemAccess insn kind target_x" "access_defined kind target_x insn"
  shows "correct (translate_ldst_unscaled i) (\<lambda>_. a64_ldst_unscaled kind target_x insn)"
  by (rule correctI; insert assms; simp add: translate_ldst_unscaled_def access_ends a64_ldst_unscaled_def simm_eq sym_exec spec_exec regs a64)

lemma set_x_or_sp_emits [regs]: "em_wf em \<Longrightarrow> set_x_or_sp r v True em = Some ((), wr_xsp r v em)"
  by (simp add: set_x_or_sp_def set_sp_def set_x_def wr_xsp_def em_push_emits)

lemma writeback_ends:
  assumes "em_wf em" "runs s0 em = (env, s)" "addr < next_ref em" "w < next_ref em" "access_defined kind target_x insn" "rn < 32"
  shows "(\<exists>em'. with_writeback (set_x_or_sp rn w True) (ldst_access kind target_x insn addr em) = Some (Inr Continue, em') \<and>
      em_wf em' \<and> snd (runs s0 em') = g) \<longleftrightarrow>
    wXSP rn (low64 (env w)) (a64_access kind target_x (access_bytes kind insn) (reg insn 0) (low64 (env addr)) s) = g"
proof -
  obtain em' where em': "ldst_access kind target_x insn addr em = Some (Inr Continue, em')" "em_wf em'"
    "snd (runs s0 em') = a64_access kind target_x (access_bytes kind insn) (reg insn 0) (low64 (env addr)) s" "fst (runs s0 em') w = env w"
    using access_runs[OF assms(1-5)] by blast
  obtain env' s' where run: "runs s0 em' = (env', s')" by (cases "runs s0 em'")
  then show ?thesis using em' assms(6) by (simp add: with_writeback_def regs)
qed

lemma no_writeback_ends:
  assumes "em_wf em" "runs s0 em = (env, s)" "addr < next_ref em" "access_defined kind target_x insn"
  shows "(\<exists>em'. with_writeback (\<lambda>em. Some ((), em)) (ldst_access kind target_x insn addr em) = Some (Inr Continue, em') \<and>
      em_wf em' \<and> snd (runs s0 em') = g) \<longleftrightarrow>
    a64_access kind target_x (access_bytes kind insn) (reg insn 0) (low64 (env addr)) s = g"
  proof -
  obtain em' where "ldst_access kind target_x insn addr em = Some (Inr Continue, em')" "em_wf em'"
    "snd (runs s0 em') = a64_access kind target_x (access_bytes kind insn) (reg insn 0) (low64 (env addr)) s"
    using access_runs[OF assms(1-3) em_push_emits(7)[OF assms(1)] assms(4)] by blast
  then show ?thesis by (simp add: with_writeback_def)
qed

lemma ldst_imm9_correct:
  assumes "ldst_imm9_op i = MemAccess insn kind target_x" "access_defined kind target_x insn"
  shows "correct (translate_ldst_imm9 i) (\<lambda>_. a64_ldst_imm9 kind target_x (imm9_mode insn) insn)"
  by (rule correctI; insert assms; cases rule: bits2_cases[of insn 10];
      simp add: translate_ldst_imm9_def writeback_ends no_writeback_ends a64_ldst_imm9_def indexed_def imm9_mode_def simm_eq sym_exec spec_exec regs a64)

lemma regoff_shift:
  assumes "access_defined kind target_x insn"
  shows "wrapping_shl v (ucast (if fp_q_form kind insn then 4 else ucast (bits insn 30 2) :: u64)) = push_bit (access_scale kind insn) (v :: u64)"
proof (cases "kind \<in> {FpLoad, FpStore} \<and> bit insn 23")
  case True
  then have "bits insn 30 2 = 0" using assms by (simp add: access_defined_def)
  moreover have "fp_q_form kind insn" using True calculation by (auto simp: fp_q_form_def fp_kind_def bit1_cases)
  ultimately show ?thesis unfolding access_scale_def if_P[OF True] by (simp add: wrapping_shl_def)
next
  case False
  then have "\<not> fp_q_form kind insn" by (auto simp: fp_q_form_def fp_kind_def bit1_cases)
  then show ?thesis
    unfolding access_scale_def if_not_P[OF False] by (cases rule: bits2_cases[of insn 30]) (simp_all add: wrapping_shl_def)
qed

lemma ldst_regoff_correct:
  assumes "ldst_regoff_op i = MemAccess insn kind target_x" "access_defined kind target_x insn" "bits insn 13 3 \<in> {2, 3, 6, 7}"
  shows "correct (translate_ldst_regoff i) (\<lambda>_. a64_ldst_regoff kind target_x insn)"
  by (rule correctI; insert assms; cases rule: bits3_cases[of insn 13]; cases "bit insn 12";
    simp add: translate_ldst_regoff_def access_ends a64_ldst_regoff_def regoff_extend_def extended_def ExtendReg_eq ext64_simps
      regoff_shift sym_exec spec_exec regs a64 del: push_bit_and)

lemma lit_target: "pc + sign_extend (push_bit 2 (ucast (bits insn 5 19))) 21 = rel_target insn 5 19 pc"
proof -
  have "signed_take_bit 20 (push_bit 2 (ucast (bits insn 5 19) :: u64)) = push_bit 2 (signed_take_bit 18 (ucast (bits insn 5 19)))"
    by (rule bit_word_eqI) (auto simp: bit_simps min_def)
  then show ?thesis by (simp add: sign_extend_word rel_target_def)
qed

lemma loadlit_correct:
  assumes "loadlit_op i = Some insn" "bits insn 30 2 \<noteq> 3"
  shows "correct (translate_loadlit i) (a64_loadlit insn)"
  by (rule correctI; insert assms; cases rule: bits2_cases[of insn 30]; cases "bit insn 26";
      simp add: translate_loadlit_def a64_loadlit_def lit_target ReadMem_def wV_def sym_exec spec_exec regs a64)

lemma wr_snd:
  assumes "r < 32" "em_wf em"
  shows "snd (runs s0 (wr_x r v em)) = wX r (low64 (fst (runs s0 em) v)) (snd (runs s0 em))"
    "snd (runs s0 (wr_w r v em)) = wX r (low32 (fst (runs s0 em) v)) (snd (runs s0 em))"
    "snd (runs s0 (wr_xsp r v em)) = wXSP r (low64 (fst (runs s0 em) v)) (snd (runs s0 em))"
  using wr_exec[OF assms surjective_pairing] by simp_all

lemma ldpsw_correct: "correct (ldpsw insn mode) (\<lambda>_. a64_ldpsw mode insn)"
  by (rule correctI; cases mode; simp add: ldpsw_def a64_ldpsw_def indexed_def ReadMem_def wr_snd wr_keeps wr_mono simm_eq sym_exec spec_exec regs a64)

text \<open>Both accesses of a pair, with an earlier node kept for the writeback.\<close>

lemma pair_runs:
  assumes "em_wf em" "runs s0 em = (env, s)" "a < next_ref em" "a2 < next_ref em" "w < next_ref em"
    and "pair_layout is_fp opc = Some (scale, bytes, sz)" "low64 (env a2) = low64 (env a) + of_nat bytes" "rt < 32" "rt2 < 32"
  shows "\<exists>em'. pair_access is_load is_fp bytes sz rt rt2 a a2 em = Some ((), em') \<and> em_wf em' \<and>
    snd (runs s0 em') = a64_pair_access is_load is_fp bytes rt rt2 (low64 (env a)) s \<and> fst (runs s0 em') w = env w"
  by (insert assms; cases is_load; cases is_fp;
      auto simp: pair_layout_def pair_access_def fp_load_q_def fp_store_q_def a64_pair_access_def ReadMem_def WriteMem_def wV_def
        wr_snd wr_keeps wr_mono sym_exec spec_exec regs a64 split: if_splits)

lemma pair_ends:
  assumes "em_wf em" "runs s0 em = (env, s)" "a < next_ref em" "a2 < next_ref em"
    and "pair_layout is_fp opc = Some (scale, bytes, sz)" "low64 (env a2) = low64 (env a) + of_nat bytes" "rt < 32" "rt2 < 32"
  shows "(\<exists>em'. (pair_access is_load is_fp bytes sz rt rt2 a a2 em \<bind> (\<lambda>(u, em). Some (Inr Continue, em))) = Some (Inr Continue, em') \<and>
      em_wf em' \<and> snd (runs s0 em') = g) \<longleftrightarrow> a64_pair_access is_load is_fp bytes rt rt2 (low64 (env a)) s = g"
proof -
  obtain em' where "pair_access is_load is_fp bytes sz rt rt2 a a2 em = Some ((), em')" "em_wf em'"
    "snd (runs s0 em') = a64_pair_access is_load is_fp bytes rt rt2 (low64 (env a)) s"
    using pair_runs[OF assms(1-4) em_push_emits(7)[OF assms(1)] assms(5-8)] by blast
  then show ?thesis by simp
qed

lemma pair_writeback_ends:
  assumes "em_wf em" "runs s0 em = (env, s)" "a < next_ref em" "a2 < next_ref em" "w < next_ref em" "rn < 32"
    and "pair_layout is_fp opc = Some (scale, bytes, sz)" "low64 (env a2) = low64 (env a) + of_nat bytes" "rt < 32" "rt2 < 32"
  shows "(\<exists>em'. (pair_access is_load is_fp bytes sz rt rt2 a a2 em \<bind>
        (\<lambda>(u, em). set_x_or_sp rn w True em \<bind> (\<lambda>(u, em). Some (Inr Continue, em)))) = Some (Inr Continue, em') \<and>
      em_wf em' \<and> snd (runs s0 em') = g) \<longleftrightarrow>
    wXSP rn (low64 (env w)) (a64_pair_access is_load is_fp bytes rt rt2 (low64 (env a)) s) = g"
proof -
  obtain em' where "pair_access is_load is_fp bytes sz rt rt2 a a2 em = Some ((), em')" "em_wf em'"
    "snd (runs s0 em') = a64_pair_access is_load is_fp bytes rt rt2 (low64 (env a)) s" "fst (runs s0 em') w = env w"
    using pair_runs[OF assms(1-5) assms(7-10)] by blast
  then show ?thesis using assms(6) by (simp add: regs wr_snd)
qed

definition pair_scale :: "bool \<Rightarrow> u32 \<Rightarrow> nat" where
  "pair_scale is_fp insn = (if is_fp then 2 + fld insn 30 2 else 2 + fld insn 31 1)"

lemma layout_scale:
  assumes "pair_layout is_fp (bits insn 30 2) = Some (scale, bytes, sz)"
  shows "pair_scale is_fp insn = scale" "bytes = 2 ^ scale"
proof -
  have hi: "bits insn 31 1 = drop_bit 1 (bits insn 30 2)"
    by (simp add: bits_take drop_bit_take_bit)
  have cases: "bits insn 30 2 = 0 \<or> bits insn 30 2 = 1 \<or> bits insn 30 2 = 2 \<or> bits insn 30 2 = 3"
    by (cases rule: bits2_cases[of insn 30]) simp_all
  have "pair_scale is_fp insn = scale \<and> bytes = 2 ^ scale"
    using assms cases unfolding pair_layout_def pair_scale_def hi by (elim disjE) (auto split: if_splits)
  then show "pair_scale is_fp insn = scale" "bytes = 2 ^ scale" by simp_all
qed

lemma ldstpair_off_correct:
  assumes "ldstpair_off_op i = Some (Inr (insn, is_load, is_fp))" "pair_layout is_fp (bits insn 30 2) = Some (scale, bytes, sz)"
  shows "correct (translate_ldstpair_off i) (\<lambda>_. a64_pair is_load is_fp Off insn)"
proof -
  have scale: "(if is_fp then 2 + fld insn 30 2 else 2 + fld insn 31 1) = scale" using layout_scale(1)[OF assms(2)] by (simp add: pair_scale_def)
  have lay: "pair_layout is_fp (bits insn 30 2) = Some (scale, 2 ^ scale, sz)" using assms(2) layout_scale(2)[OF assms(2)] by simp
  show ?thesis
    unfolding a64_pair_def scale
    by (rule correctI; insert assms(1); simp add: translate_ldstpair_off_def lay pair_ends[OF _ _ _ _ lay] indexed_def simm_eq
      sym_exec spec_exec regs a64)
qed

lemma ldstpair_indexed_correct:
  assumes "ldstpair_indexed_op i = Some (Inr (insn, is_load, is_fp))" "pair_layout is_fp (bits insn 30 2) = Some (scale, bytes, sz)"
  shows "correct (translate_ldstpair_indexed i) (\<lambda>_. a64_pair is_load is_fp (pair_mode insn) insn)"
proof -
  have scale: "(if is_fp then 2 + fld insn 30 2 else 2 + fld insn 31 1) = scale" using layout_scale(1)[OF assms(2)] by (simp add: pair_scale_def)
  have lay: "pair_layout is_fp (bits insn 30 2) = Some (scale, 2 ^ scale, sz)" using assms(2) layout_scale(2)[OF assms(2)] by simp
  show ?thesis
    unfolding a64_pair_def scale
    by (rule correctI; insert assms(1); cases "bits insn 23 3 = 1";
      simp add: translate_ldstpair_indexed_def lay pair_writeback_ends[OF _ _ _ _ _ _ lay] indexed_def pair_mode_def simm_eq
      sym_exec spec_exec regs a64)
qed

lemma ldpsw_forms_correct:
  "ldstpair_off_op i = Some (Inl insn) \<Longrightarrow> correct (translate_ldstpair_off i) (\<lambda>_. a64_ldpsw Off insn)"
  "ldstpair_indexed_op j = Some (Inl insn) \<Longrightarrow> correct (translate_ldstpair_indexed j) (\<lambda>_. a64_ldpsw (pair_mode insn) insn)"
  using ldpsw_correct unfolding translate_ldstpair_off_def translate_ldstpair_indexed_def correct_def pair_mode_def by simp_all

section \<open>Ordered accesses and atomics\<close>

lemma ordered_widths:
  assumes "ldstexcl_op i = Some (insn, LoadAcq n x) \<or> ldstexcl_op i = Some (insn, StoreRel n)"
  shows "n \<in> {1, 2, 4, 8} \<and> (ldstexcl_op i = Some (insn, LoadAcq n x) \<longrightarrow> x = (n = 8))"
  using assms by (cases i; cases rule: bits2_cases[of insn 30]) (auto simp: size_from_bit30_def Let_def)

lemma ordered_correct:
  "ldstexcl_op i = Some (insn, LoadAcq n x) \<Longrightarrow> correct (translate_ldstexcl i) (\<lambda>_. a64_ordered True n insn)"
  "ldstexcl_op i = Some (insn, StoreRel n) \<Longrightarrow> correct (translate_ldstexcl i) (\<lambda>_. a64_ordered False n insn)"
  using ordered_widths[of i insn n x]
  by (intro correctI; auto simp: translate_ldstexcl_def excl_access_def a64_ordered_def ReadMem_def WriteMem_def
      sym_exec spec_exec regs a64)+

section \<open>The translators\<close>

text \<open>A prefetch does nothing.\<close>

lemma prefetch_correct:
  "ldst_pos_op i1 = MemPrefetch \<Longrightarrow> correct (translate_ldst_pos i1) (\<lambda>_ s. s)"
  "ldst_unscaled_op i2 = MemPrefetch \<Longrightarrow> correct (translate_ldst_unscaled i2) (\<lambda>_ s. s)"
  "ldst_imm9_op i3 = MemPrefetch \<Longrightarrow> correct (translate_ldst_imm9 i3) (\<lambda>_ s. s)"
  "ldst_regoff_op i4 = MemPrefetch \<Longrightarrow> correct (translate_ldst_regoff i4) (\<lambda>_ s. s)"
  "loadlit_op i5 = None \<Longrightarrow> correct (translate_loadlit i5) (\<lambda>_ s. s)"
  by (rule correctI; simp add: translate_ldst_pos_def translate_ldst_unscaled_def translate_ldst_imm9_def translate_ldst_regoff_def
      translate_loadlit_def)+

lemma pairs_correct:
  "ldstpair_off_op i = Some (Inr (insn, is_load, is_fp)) \<Longrightarrow> pair_layout is_fp (bits insn 30 2) \<noteq> None \<Longrightarrow>
    correct (translate_ldstpair_off i) (\<lambda>_. a64_pair is_load is_fp Off insn)"
  "ldstpair_indexed_op j = Some (Inr (insn, is_load, is_fp)) \<Longrightarrow> pair_layout is_fp (bits insn 30 2) \<noteq> None \<Longrightarrow>
    correct (translate_ldstpair_indexed j) (\<lambda>_. a64_pair is_load is_fp (pair_mode insn) insn)"
  using ldstpair_off_correct ldstpair_indexed_correct by (auto simp: not_None_eq)



end
