(* ===== verification/Lse_Sound.thy ===== *)
theory Lse_Sound
  imports Mem_Sound
begin

text \<open>
  The atomic translators are correct. The IR operations are those of \<open>Atomic\<close>; at each width the
  fallback they are defined by is one read, the new value and one write, which is the
  read-modify-write of the architecture.
\<close>

section \<open>One width\<close>

lemma rmw_value:
  "f \<noteq> Cas \<Longrightarrow> snd (rmw_int f (a :: 'a::len word) operand e) = atomic_value f a (ucast operand)"
proof -
  have m: "max a v = (if uint v < uint a then a else v)" "min a v = (if uint v < uint a then v else a)" for v :: "'a word"
    unfolding max_def min_def word_le_def by simp_all
  show "f \<noteq> Cas \<Longrightarrow> snd (rmw_int f a operand e) = atomic_value f a (ucast operand)"
    unfolding rmw_int_def Let_def m by (cases f) (auto simp: not_less not_le intro: signed_word_eqI[OF sym])
qed

lemma rmw_cell:
  assumes "LENGTH('a::len) = n * 8" "n \<le> 16"
  shows "fallback m p n f operand e =
    (ucast (load_le n m p :: 'a word), store_le n m p (snd (rmw_int f (load_le n m p :: 'a word) operand e)))"
proof -
  have "fst (rmw_int f (load_le n m p :: 'a word) operand e) = ucast (load_le n m p :: 'a word)" by (simp add: rmw_int_def Let_def)
  then show ?thesis using rmw_int_fallback[OF assms, where op = f and mem = m and p = p and operand = operand and expected = e]
    by (simp add: case_prod_unfold)
qed

lemma cas_value: "snd (rmw_int Cas (a :: 'a::len word) operand e) = (if a = ucast e then ucast operand else a)"
  by (simp add: rmw_int_def Let_def)

lemma from_op_code: "from_u8 (ucast (ucast (op_code f) :: u64)) = Some f"
  by (cases f) (simp_all add: from_u8_def)

lemma narrow_reg:
  "(ucast (of32 (rX r s)) :: u8) = rX r s" "(ucast (of32 (rX r s)) :: u16) = rX r s"
  "(ucast (of32 (rX r s)) :: u32) = rX r s" "(ucast (of64 (rX r s)) :: u64) = rX r s"
  unfolding rX_def of32_def of64_def by (auto simp: bit_simps intro!: bit_word_eqI)

lemma narrow_result:
  "(ucast (low32 (ucast (a :: u8))) :: u64) = ucast a" "(ucast (low32 (ucast (b :: u16))) :: u64) = ucast b"
  "low32 (ucast (c :: u32)) = c" "low64 (ucast (d :: u64)) = d"
proof -
  have "n < 32" if "bit a n" for n using bit_imp_le_length[OF that] by simp
  moreover have "n < 32" if "bit b n" for n using bit_imp_le_length[OF that] by simp
  ultimately show "(ucast (low32 (ucast (a :: u8))) :: u64) = ucast a" "(ucast (low32 (ucast (b :: u16))) :: u64) = ucast b"
    "low32 (ucast (c :: u32)) = c" "low64 (ucast (d :: u64)) = d"
    unfolding low32_def low64_def by (auto simp: bit_simps intro!: bit_word_eqI)
qed

lemma rmw_step:
  assumes "f \<noteq> Cas"
  shows "fallback m p 1 f q e = (ucast (load_le 1 m p :: u8), store_le 1 m p (atomic_value f (load_le 1 m p :: u8) (ucast q)))"
    "fallback m p 2 f q e = (ucast (load_le 2 m p :: u16), store_le 2 m p (atomic_value f (load_le 2 m p :: u16) (ucast q)))"
    "fallback m p 4 f q e = (ucast (load_le 4 m p :: u32), store_le 4 m p (atomic_value f (load_le 4 m p :: u32) (ucast q)))"
    "fallback m p 8 f q e = (ucast (load_le 8 m p :: u64), store_le 8 m p (atomic_value f (load_le 8 m p :: u64) (ucast q)))"
  by (simp_all add: rmw_value[OF assms] rmw_cell[where 'a = 8 and n = 1] rmw_cell[where 'a = 16 and n = 2] rmw_cell[where 'a = 32 and n = 4]
      rmw_cell[where 'a = 64 and n = 8] del: One_nat_def)

lemma cas_step:
  "fallback m p 1 Cas q e = (ucast (load_le 1 m p :: u8), store_le 1 m p (if load_le 1 m p = (ucast e :: u8) then ucast q else load_le 1 m p :: u8))"
  "fallback m p 2 Cas q e = (ucast (load_le 2 m p :: u16), store_le 2 m p (if load_le 2 m p = (ucast e :: u16) then ucast q else load_le 2 m p :: u16))"
  "fallback m p 4 Cas q e = (ucast (load_le 4 m p :: u32), store_le 4 m p (if load_le 4 m p = (ucast e :: u32) then ucast q else load_le 4 m p :: u32))"
  "fallback m p 8 Cas q e = (ucast (load_le 8 m p :: u64), store_le 8 m p (if load_le 8 m p = (ucast e :: u64) then ucast q else load_le 8 m p :: u64))"
  by (simp_all add: rmw_cell[where 'a = 8 and n = 1] rmw_cell[where 'a = 16 and n = 2] rmw_cell[where 'a = 32 and n = 4]
      rmw_cell[where 'a = 64 and n = 8] cas_value del: One_nat_def)

lemma wX_narrow:
  "wX r (low32 (ucast (a :: u8))) s = wX r a s" "wX r (low32 (ucast (b :: u16))) s = wX r b s"
  by (simp_all add: wX_def narrow_result)

lemma rmw_correct_at:
  assumes "f \<noteq> Cas" "n \<in> {1, 2, 4, 8}"
  shows "correct (\<lambda>em. do {
      (addr, em) \<leftarrow> get_x_or_sp (reg insn 5) True em;
      (v, em) \<leftarrow> get_gpr (reg insn 16) (if n = 8 then X else W) em;
      (_, em) \<leftarrow> do {
        (old, em) \<leftarrow> em_push (mk (atomic_sized False n) (if n = 8 then TyU64 else TyU32) [addr, v] (ucast (op_code f))) em;
        set_gpr (reg insn 0) old (if n = 8 then X else W) em
      };
      Some (Inr Continue, em) }) (\<lambda>_. a64_lse f n insn)"
  using assms(2) unfolding insert_iff empty_iff
  by (elim disjE; simp only: FalseE; intro correctI;
    simp add: atomic_sized_def exec_rmw[OF from_op_code] rmw_step[OF assms(1)] assms(1) narrow_reg wX_narrow narrow_result
      a64_lse_def a64_atomic_def ReadMem_def WriteMem_def sym_exec spec_exec regs a64 del: One_nat_def)

lemma cas_correct_at:
  assumes "n \<in> {1, 2, 4, 8}"
  shows "correct (\<lambda>em. do {
      (addr, em) \<leftarrow> get_x_or_sp (reg insn 5) True em;
      (v, em) \<leftarrow> get_gpr (reg insn 16) (if n = 8 then X else W) em;
      (_, em) \<leftarrow> do {
        (v', em) \<leftarrow> get_gpr (reg insn 0) (if n = 8 then X else W) em;
        (old, em) \<leftarrow> em_push (mk (atomic_sized True n) (if n = 8 then TyU64 else TyU32) [addr, v, v'] 0) em;
        set_gpr (reg insn 16) old (if n = 8 then X else W) em
      };
      Some (Inr Continue, em) }) (\<lambda>_. a64_lse Cas n insn)"
  using assms unfolding insert_iff empty_iff
  by (elim disjE; simp only: FalseE; intro correctI;
    simp add: atomic_sized_def cas_step narrow_reg wX_narrow narrow_result store_load
      a64_lse_def a64_cas_def ReadMem_def WriteMem_def Let_def sym_exec spec_exec regs a64 del: One_nat_def)

definition lse_bytes :: "nat \<Rightarrow> u32 \<Rightarrow> nat" where
  "lse_bytes fixed insn = (if fixed \<noteq> 0 then fixed else 2 ^ fld insn 30 2)"

lemma lse_widths: "map_of lse_table name = Some (f, fixed) \<Longrightarrow> fixed \<in> {0, 1, 2}"
proof -
  have "\<forall>e \<in> set lse_table. snd (snd e) \<in> {0, 1, 2}" by (simp add: lse_table_def)
  then show "map_of lse_table name = Some (f, fixed) \<Longrightarrow> fixed \<in> {0, 1, 2}" by (auto dest!: map_of_SomeD)
qed

lemma lse_bytes_cases: "fixed \<in> {0, 1, 2} \<Longrightarrow> lse_bytes fixed insn \<in> {1, 2, 4, 8}"
  by (cases rule: bits2_cases[of insn 30]) (auto simp: lse_bytes_def)

lemma lse_atomic_correct:
  assumes "map_of lse_table name = Some (f, fixed)"
  shows "correct (translate_lse_atomic (Lse name insn)) (\<lambda>_. a64_lse f (lse_bytes fixed insn) insn)"
proof -
  have n: "lse_bytes fixed insn \<in> {1, 2, 4, 8}" using lse_bytes_cases[OF lse_widths[OF assms]] .
  have "correct (atomic_rmw insn f fixed) (\<lambda>_. a64_lse f (lse_bytes fixed insn) insn)"
  proof (cases "f = Cas")
    case True
    show ?thesis using cas_correct_at[OF n, of insn]
      unfolding True atomic_rmw_def lse_bytes_def[symmetric] Let_def if_P[OF refl] .
  next
    case False
    show ?thesis using rmw_correct_at[OF False n, of insn]
      unfolding atomic_rmw_def lse_bytes_def[symmetric] Let_def if_not_P[OF False] .
  qed
  then show ?thesis using assms unfolding correct_def by simp
qed

text \<open>The compare-and-swap of a pair of registers, at the width of the pair.\<close>

definition a64_casp :: "u32 \<Rightarrow> guest \<Rightarrow> guest" where
  "a64_casp insn s =
     (let t = fld insn 0 5; r = fld insn 16 5; a = rXSP (fld insn 5 5) s in
      if bit insn 30 then
        (let data = (ReadMem 16 a s :: u128);
             s' = (if data = word_cat (rX (r + 1) s :: u64) (rX r s :: u64)
                   then WriteMem 16 a (word_cat (rX (t + 1) s :: u64) (rX t s :: u64) :: u128) s else s)
         in wX (r + 1) (ucast (drop_bit 64 data) :: u64) (wX r (ucast data :: u64) s'))
      else
        (let data = (ReadMem 8 a s :: u64);
             s' = (if data = word_cat (rX (r + 1) s :: u32) (rX r s :: u32)
                   then WriteMem 8 a (word_cat (rX (t + 1) s :: u32) (rX t s :: u32) :: u64) s else s)
         in wX (r + 1) (ucast (drop_bit 32 data) :: u32) (wX r (ucast data :: u32) s')))"

lemma cas_step_pair:
  "fallback m p 16 Cas q e = (load_le 16 m p, store_le 16 m p (if load_le 16 m p = e then q else load_le 16 m p))"
  by (simp add: rmw_cell[where 'a = 128 and n = 16] cas_value)

lemma pair_words:
  "of64 (rX a s) OR push_bit 64 (of64 (rX b s)) = word_cat (rX b s :: u64) (rX a s :: u64)"
  "ucast (of64 (rX a s AND 0xFFFFFFFF OR push_bit 32 (rX b s))) = (word_cat (rX b s :: u32) (rX a s :: u32) :: u64)"
proof -
  show "of64 (rX a s) OR push_bit 64 (of64 (rX b s)) = word_cat (rX b s :: u64) (rX a s :: u64)"
    by (rule bit_word_eqI) (auto simp: of64_def bit_simps dest: bit_imp_le_length)
  have m: "x AND 0xFFFFFFFF = take_bit 32 (x :: u64)" for x by (simp add: take_bit_eq_mask mask_eq_exp_minus_1)
  show "ucast (of64 (rX a s AND 0xFFFFFFFF OR push_bit 32 (rX b s))) = (word_cat (rX b s :: u32) (rX a s :: u32) :: u64)"
    unfolding m by (rule bit_word_eqI) (auto simp: of64_def rX_def bit_simps)
qed

lemma pair_halves:
  "low64 (load_le 16 m p) = ucast (load_le 16 m p :: u128)" "low64 (drop_bit 64 d) = ucast (drop_bit 64 d)"
  "low64 (word_cat x y) = ucast (word_cat (x :: u64) (y :: u64) :: u128)"
  "low32 (ucast (e :: u64)) = ucast e" "low64 (ucast e) = e" "low32 (of64 (drop_bit 32 e)) = ucast (drop_bit 32 e)"
  "low32 (load_le 8 m p) = ucast (load_le 8 m p :: u64)"
  unfolding load_le_ucast[where 'a = 64 and n = 8, simplified]
  by (auto intro!: bit_word_eqI simp: low64_def low32_def of64_def bit_simps)

lemma casp_correct:
  assumes "even (reg insn 16)" "even (reg insn 0)"
  shows "correct (casp insn) (\<lambda>_. a64_casp insn)"
proof -
  have "Suc n < 32" if "even n" "n < 32" for n :: nat
    using that by (elim evenE) simp
  then have r: "Suc (reg insn 16) < 32" "Suc (reg insn 0) < 32" using assms by simp_all
  have w: "(bits insn 30 (Suc 0) = 1) = bit insn 30"
    by (simp add: bits_take take_bit_Suc bit_iff_odd_drop_bit odd_iff_mod_2_eq_one)
  show ?thesis
  by (rule correctI; insert assms r w; cases "bit insn 30";
    simp add: casp_def casp_pair_def pack_words_def vec_build_q_def vec_extract_lo64_def vec_extract_hi64_def a64_casp_def cas_step cas_step_pair store_load ReadMem_def WriteMem_def wr_snd wr_keeps wr_mono
     pair_words pair_halves sym_exec spec_exec regs a64)
qed

lemma pair_names:
  assumes "name \<in> set casp_names"
  shows "map_of lse_table name = None"
proof -
  have "take 4 name = ''CASP''" using assms by (auto simp: casp_names_def)
  moreover have "\<forall>e \<in> set lse_table. take 4 (fst e) \<noteq> ''CASP''" by (simp add: lse_table_def)
  ultimately show ?thesis by (auto simp: map_of_eq_None_iff)
qed

lemma lse_pair_correct:
  assumes "name \<in> set casp_names" "even (reg insn 16)" "even (reg insn 0)"
  shows "correct (translate_lse_atomic (Lse name insn)) (\<lambda>_. a64_casp insn)"
  using casp_correct[OF assms(2,3)] assms(1) pair_names[OF assms(1)] unfolding correct_def by simp



end
