(* ===== verification/Translator.thy ===== *)
theory Translator
  imports Int_Sound Branch_Sound Translate_Mem
begin

text \<open>
  The translation loop, \<open>src/frontend/translator.rs\<close>, with the fallback to helper calls
  (\<open>translate/helper.rs\<close>) and the deliberate miscompilation of \<open>fault_injection.rs\<close>. Parameters:
  the decoder of the \<open>disarm64\<close> crate, the guest memory \<open>fetch\<close>, and, as they are not modelled,
  the translators of the floating-point and vector families (\<open>others\<close>) and the interpreter's \<open>plan\<close>.
\<close>

section \<open>Helper calls\<close>

datatype plan_src = SrcV nat | SrcX nat | SrcW nat
datatype plan_dst = DstV nat | DstX nat | DstW nat

record plan =
  p_srcs :: "plan_src option list"
  p_dst :: plan_dst

definition INTERP :: u32 where "INTERP = 0"

text \<open>The positional operands: slots before a present one are filled with zero constants.\<close>

fun helper_fill :: "nat \<Rightarrow> value_ref list \<Rightarrow> value_ref list emits" where
  "helper_fill 0 args em = Some (args, em)"
| "helper_fill (Suc missing) args em = do { (z, em) \<leftarrow> const_u32 0 em; helper_fill missing (args @ [z]) em }"

fun helper_args :: "nat \<Rightarrow> plan_src option list \<Rightarrow> value_ref list \<Rightarrow> value_ref list emits" where
  "helper_args slot [] args em = Some (args, em)"
| "helper_args slot (None # srcs) args em = helper_args (Suc slot) srcs args em"
| "helper_args slot (Some src # srcs) args em = do {
     (args, em) \<leftarrow> helper_fill (slot - length args) args em;
     (v, em) \<leftarrow> (case src of SrcV r \<Rightarrow> get_v_q r em | SrcX r \<Rightarrow> get_x r em | SrcW r \<Rightarrow> get_w r em);
     helper_args (Suc slot) srcs (args @ [v]) em
   }"

definition translate_helper :: "u32 \<Rightarrow> plan \<Rightarrow> translation" where
  "translate_helper inst p em = do {
     (args, em) \<leftarrow> helper_args 0 (p_srcs p) [] em;
     let t = (case p_dst p of DstV r \<Rightarrow> TyU128 | DstX r \<Rightarrow> TyU64 | DstW r \<Rightarrow> TyU32);
     (r, em) \<leftarrow> call_helper INTERP inst args t em;
     (_, em) \<leftarrow> (case p_dst p of DstV rd \<Rightarrow> set_v_q rd r em | DstX rd \<Rightarrow> set_x rd r em | DstW rd \<Rightarrow> em_set_w rd r em);
     Some (Inr Continue, em)
   }"

section \<open>One instruction\<close>

datatype operation = MOVEWIDE MOVEWIDE | ADDSUB_IMM ADDSUB_IMM | ADDSUB_SHIFT ADDSUB_SHIFT | ADDSUB_CARRY ADDSUB_CARRY
  | ADDSUB_EXT ADDSUB_EXT | LOG_IMM LOG_IMM | LOG_SHIFT LOG_SHIFT | EXCEPTION EXCEPTION | IC_SYSTEM IC_SYSTEM
  | BRANCH_IMM BRANCH_IMM | BRANCH_REG BRANCH_REG | CONDBRANCH CONDBRANCH | COMPBRANCH COMPBRANCH | TESTBRANCH TESTBRANCH
  | BITFIELD BITFIELD | CONDSEL CONDSEL | PCRELADDR PCRELADDR | EXTRACT EXTRACT | CONDCMP_IMM CONDCMP_IMM
  | CONDCMP_REG CONDCMP_REG | DP_1SRC DP_1SRC | DP_2SRC DP_2SRC | DP_3SRC DP_3SRC
  | LDST_POS LDST_POS | LDST_IMM9 LDST_IMM9 | LDST_UNSCALED LDST_UNSCALED | LDST_REGOFF LDST_REGOFF
  | LOADLIT LOADLIT | LDSTEXCL LDSTEXCL | LSE_ATOMIC LSE_ATOMIC | LDSTPAIR_OFF LDSTPAIR_OFF
  | LDSTPAIR_INDEXED LDSTPAIR_INDEXED | LDSTNAPAIR_OFFS | LDST_UNPRIV
  | SME_MISC_RPRFM | OTHER_FAMILY | UNLISTED

text \<open>\<open>ldst_alias.rs\<close>: the word of the family that behaves alike is decoded and translated.\<close>

definition translate_nap :: "(u32 \<Rightarrow> operation option) \<Rightarrow> u32 \<Rightarrow> translation" where
  "translate_nap decoder insn =
     (case decoder ((insn AND NOT (push_bit 23 7)) OR push_bit 23 2) of
        Some (LDSTPAIR_OFF i) \<Rightarrow> translate_ldstpair_off i | _ \<Rightarrow> unsupported_raw insn)"

definition translate_unpriv :: "(u32 \<Rightarrow> operation option) \<Rightarrow> u32 \<Rightarrow> translation" where
  "translate_unpriv decoder insn =
     (case decoder (insn AND NOT (push_bit 10 3)) of
        Some (LDST_UNSCALED i) \<Rightarrow> translate_ldst_unscaled i | _ \<Rightarrow> unsupported_raw insn)"

text \<open>The \<open>match opcode.operation\<close>; \<open>UNLISTED\<close> is the final \<open>_\<close> arm.\<close>

fun dispatch :: "(u32 \<Rightarrow> operation option) \<Rightarrow> (u32 \<Rightarrow> translation) \<Rightarrow> operation \<Rightarrow> u32 \<Rightarrow> translation" where
  "dispatch decoder others (MOVEWIDE i) inst = translate_movewide i"
| "dispatch decoder others (ADDSUB_IMM i) inst = translate_addsub_imm i"
| "dispatch decoder others (ADDSUB_SHIFT i) inst = translate_addsub_shift i"
| "dispatch decoder others (ADDSUB_CARRY i) inst = translate_addsub_carry i"
| "dispatch decoder others (ADDSUB_EXT i) inst = translate_addsub_ext i"
| "dispatch decoder others (LOG_IMM i) inst = translate_log_imm i"
| "dispatch decoder others (LOG_SHIFT i) inst = translate_log_shift i"
| "dispatch decoder others (EXCEPTION i) inst = translate_exception i"
| "dispatch decoder others (LDST_POS i) inst = translate_ldst_pos i"
| "dispatch decoder others (LDST_IMM9 i) inst = translate_ldst_imm9 i"
| "dispatch decoder others (LDST_UNSCALED i) inst = translate_ldst_unscaled i"
| "dispatch decoder others (LDST_REGOFF i) inst = translate_ldst_regoff i"
| "dispatch decoder others (LOADLIT i) inst = translate_loadlit i"
| "dispatch decoder others (LDSTEXCL i) inst = translate_ldstexcl i"
| "dispatch decoder others (LSE_ATOMIC i) inst = translate_lse_atomic i"
| "dispatch decoder others (LDSTPAIR_OFF i) inst = translate_ldstpair_off i"
| "dispatch decoder others (LDSTPAIR_INDEXED i) inst = translate_ldstpair_indexed i"
| "dispatch decoder others LDSTNAPAIR_OFFS inst = translate_nap decoder inst"
| "dispatch decoder others LDST_UNPRIV inst = translate_unpriv decoder inst"
| "dispatch decoder others (IC_SYSTEM i) inst = translate_ic_system i"
| "dispatch decoder others (BRANCH_IMM i) inst = translate_branch_imm i"
| "dispatch decoder others (BRANCH_REG i) inst = translate_branch_reg i"
| "dispatch decoder others (CONDBRANCH i) inst = translate_condbranch i"
| "dispatch decoder others (COMPBRANCH i) inst = translate_compbranch i"
| "dispatch decoder others (TESTBRANCH i) inst = translate_testbranch i"
| "dispatch decoder others (BITFIELD i) inst = translate_bitfield i"
| "dispatch decoder others (CONDSEL i) inst = translate_condsel i"
| "dispatch decoder others (PCRELADDR i) inst = translate_pcreladdr i"
| "dispatch decoder others (EXTRACT i) inst = translate_extract i"
| "dispatch decoder others (CONDCMP_IMM i) inst = translate_condcmp_imm i"
| "dispatch decoder others (CONDCMP_REG i) inst = translate_condcmp_reg i"
| "dispatch decoder others (DP_1SRC i) inst = translate_dp_1src i"
| "dispatch decoder others (DP_2SRC i) inst = translate_dp_2src i"
| "dispatch decoder others (DP_3SRC i) inst = translate_dp_3src i"
| "dispatch decoder others SME_MISC_RPRFM inst = (\<lambda>em. Some (Inr Continue, em))"
| "dispatch decoder others OTHER_FAMILY inst = others inst"
| "dispatch decoder others UNLISTED inst = (\<lambda>em. Some (Inl (Unsupported (current_pc em) inst), em))"

definition translate_instruction ::
    "(u32 \<Rightarrow> operation option) \<Rightarrow> (u32 \<Rightarrow> translation) \<Rightarrow> (u32 \<Rightarrow> plan option) \<Rightarrow> u32 \<Rightarrow> translation" where
  "translate_instruction decoder others plan_of inst em =
     (case decoder inst of None \<Rightarrow> Some (Inl (DecodeError (current_pc em) inst), em)
      | Some operation \<Rightarrow> do {
          let m = mark (em_block em);
          (result, em) \<leftarrow> dispatch decoder others operation inst em;
          case (result, plan_of inst) of
            (Inl (Unsupported pc opcode), Some p) \<Rightarrow> do {
              b \<leftarrow> rollback m (em_block em);
              translate_helper inst p (em\<lparr>em_block := b\<rparr>)
            }
          | (Inl (Unsupported pc opcode), None) \<Rightarrow> Some (Inl (Unsupported pc (if opcode = 0 then inst else opcode)), em)
          | (other, _) \<Rightarrow> Some (other, em)
        })"

text \<open>\<open>fault_injection::apply\<close>: \<open>mask\<close>, \<open>value\<close> and \<open>xor\<close> of the active injection.\<close>

record fault =
  f_mask :: u32
  f_value :: u32
  f_xor :: u64

definition fault_apply :: "fault option \<Rightarrow> u32 \<Rightarrow> unit emits" where
  "fault_apply active insn em =
     (case active of None \<Rightarrow> Some ((), em)
      | Some f \<Rightarrow>
          if insn AND f_mask f \<noteq> f_value f then Some ((), em)
          else let rd = unat (insn AND 31) in
            if rd = 31 then Some ((), em)
            else do {
              (v, em) \<leftarrow> get_x rd em;
              (x, em) \<leftarrow> const_u64 (f_xor f) em;
              (corrupted, em) \<leftarrow> em_eor v x X em;
              set_x rd corrupted em
            })"

section \<open>A block\<close>

record translate_options =
  max_insts :: u32
  multiblock :: bool

definition default_options :: translate_options where
  "default_options = \<lparr>max_insts = 64, multiblock = True\<rparr>"

definition covered :: "block \<Rightarrow> u64 \<Rightarrow> u64 \<Rightarrow> u64 \<Rightarrow> bool" where
  "covered b seg_start seg_end pc \<longleftrightarrow>
     (seg_start \<le> pc \<and> pc < seg_end) \<or> list_ex (\<lambda>(s, e). s \<le> pc \<and> pc < e) (ranges b)"

text \<open>The state right after the last followed branch.\<close>

record followed =
  fo_mark :: "nat \<times> nat"
  fo_cycles :: u32
  fo_ranges :: nat
  fo_terminal :: terminal
  fo_pc :: u64

record loop_state =
  l_block :: block
  l_pc :: u64
  l_seg :: u64
  l_followed :: "followed option"

definition saturating_inc :: "u32 \<Rightarrow> u32" where
  "saturating_inc c = (if c = -1 then c else c + 1)"

definition followable :: "translate_options \<Rightarrow> u32 \<Rightarrow> loop_state \<Rightarrow> u64 option" where
  "followable opts limit st =
     (case terminal (l_block st) of
        DirectBranch target_pc link \<Rightarrow>
          (if multiblock opts \<and> cycles (l_block st) < limit \<and> target_pc AND 3 = 0 \<and>
              \<not> covered (l_block st) (l_seg st) (l_pc st + 4) target_pc
           then Some target_pc else None)
      | _ \<Rightarrow> None)"

definition follow :: "u64 \<Rightarrow> loop_state \<Rightarrow> loop_state" where
  "follow target_pc st =
     (let b = l_block st; ranges_before = length (ranges b);
          b = b\<lparr>ranges := ranges b @ [(l_seg st, l_pc st + 4)]\<rparr>
      in \<lparr>l_block = b\<lparr>terminal := Invalid\<rparr>, l_pc = target_pc, l_seg = target_pc,
          l_followed = Some \<lparr>fo_mark = mark b, fo_cycles = cycles b, fo_ranges = ranges_before,
            fo_terminal = terminal b, fo_pc = l_pc st\<rparr>\<rparr>)"

text \<open>
  One round of the loop: \<open>Inl\<close> is the closure's return (an error, or true at a terminator), with
  the loop state it leaves; \<open>Inr\<close> the state of the next round.
\<close>

definition block_step ::
    "(u32 \<Rightarrow> translation) \<Rightarrow> fault option \<Rightarrow> (u64 \<Rightarrow> u32 option) \<Rightarrow> translate_options \<Rightarrow> u32 \<Rightarrow> loop_state \<Rightarrow>
      (((error + bool) \<times> loop_state) + loop_state) option" where
  "block_step tr fault fetch opts limit st =
     (case fetch (l_pc st) of None \<Rightarrow> Some (Inl (Inl (GuestMemory (l_pc st)), st))
      | Some inst \<Rightarrow> do {
          (result, em) \<leftarrow> tr inst \<lparr>em_block = l_block st, current_pc = l_pc st\<rparr>;
          case result of
            Inl e \<Rightarrow> Some (Inl (Inl e, st\<lparr>l_block := em_block em\<rparr>))
          | Inr status \<Rightarrow> do {
              (_, em) \<leftarrow> (if status = Continue then fault_apply fault inst em else Some ((), em));
              let b = em_block em;
              let st = st\<lparr>l_block := b\<lparr>cycles := saturating_inc (cycles b)\<rparr>\<rparr>;
              if status = Continue then Some (Inr (st\<lparr>l_pc := l_pc st + 4\<rparr>))
              else case followable opts limit st of
                Some target_pc \<Rightarrow> Some (Inr (follow target_pc st))
              | None \<Rightarrow>
                  let b = l_block st; seg_end = l_pc st + 4 in
                  Some (Inl (Inr True, st\<lparr>l_block := b\<lparr>end_pc := seg_end, ranges := ranges b @ [(l_seg st, seg_end)]\<rparr>\<rparr>))
            }
        })"

text \<open>The loop; a round adds one to \<open>cycles\<close>, so \<open>limit\<close> rounds of fuel are enough (\<open>block_loop_total\<close>).\<close>

fun block_loop ::
    "(u32 \<Rightarrow> translation) \<Rightarrow> fault option \<Rightarrow> (u64 \<Rightarrow> u32 option) \<Rightarrow> translate_options \<Rightarrow> u32 \<Rightarrow> nat \<Rightarrow> loop_state \<Rightarrow>
      ((error + bool) \<times> loop_state) option" where
  "block_loop tr fault fetch opts limit 0 st = (if cycles (l_block st) < limit then None else Some (Inr False, st))"
| "block_loop tr fault fetch opts limit (Suc n) st =
     (if cycles (l_block st) < limit then do {
        r \<leftarrow> block_step tr fault fetch opts limit st;
        case r of Inl out \<Rightarrow> Some out | Inr st \<Rightarrow> block_loop tr fault fetch opts limit n st
      } else Some (Inr False, st))"

definition translate_block_into ::
    "(u32 \<Rightarrow> translation) \<Rightarrow> fault option \<Rightarrow> block \<Rightarrow> u64 \<Rightarrow> (u64 \<Rightarrow> u32 option) \<Rightarrow> translate_options \<Rightarrow>
      ((error option) \<times> block) option" where
  "translate_block_into tr fault b start fetch opts =
     (let limit = (if max_insts opts = 0 then 1 else max_insts opts);
          st = \<lparr>l_block = block_reset start b, l_pc = start, l_seg = start, l_followed = None\<rparr>
      in do {
        (result, st) \<leftarrow> block_loop tr fault fetch opts limit (unat limit) st;
        let b = l_block st;
        case result of
          Inr True \<Rightarrow> Some (None, b)
        | Inr False \<Rightarrow>
            let pc = l_pc st; b = b\<lparr>end_pc := pc\<rparr>;
                b = (if pc \<noteq> l_seg st \<or> ranges b = [] then b\<lparr>ranges := ranges b @ [(l_seg st, pc)]\<rparr> else b)
            in Some (None, b\<lparr>terminal := LinkBlock pc\<rparr>)
        | Inl e \<Rightarrow>
            (case l_followed st of None \<Rightarrow> Some (Some e, b)
             | Some f \<Rightarrow> do {
                 b \<leftarrow> rollback (fo_mark f) b;
                 Some (None, b\<lparr>cycles := fo_cycles f, terminal := fo_terminal f, end_pc := fo_pc f + 4,
                   ranges := take (fo_ranges f + 1) (ranges b)\<rparr>)
               })
      })"

end
