(* ===== verification/Grow.thy ===== *)
theory Grow
  imports Translate_Int Translate_Branch
begin

text \<open>
  What every translator does to the emitter, whether it succeeds or not: it does not panic and
  only appends nodes and sets the terminal, so that a rollback to an earlier mark restores the
  earlier block. \<open>grows em0 r\<close> says so of a result \<open>r\<close> of a computation that started at \<open>em0\<close>; its
  introduction rules follow the builders and the shape of the code.
\<close>

definition extends :: "emitter \<Rightarrow> emitter \<Rightarrow> bool" where
  "extends em em' \<longleftrightarrow> current_pc em' = current_pc em \<and> em_wf em' \<and> em_wf em \<and>
     grown (em_block em) ((em_block em')\<lparr>terminal := terminal (em_block em)\<rparr>)"

definition grows :: "emitter \<Rightarrow> ('a \<times> emitter) option \<Rightarrow> bool" where
  "grows em0 res \<longleftrightarrow> (\<exists>r em'. res = Some (r, em') \<and> extends em0 em')"

lemma extends_wf [dest]: "extends em em' \<Longrightarrow> em_wf em'" by (simp add: extends_def)

lemma em_wf_tail: "em_wf em \<Longrightarrow> tail (em_block em) < length (code (em_block em))"
  using block_inv_tail em_wf_def by blast

lemma extends_refl: "em_wf em \<Longrightarrow> extends em em"
  using grown_refl by (auto simp: extends_def em_wf_def)

lemma push_terminal: "push a (b\<lparr>terminal := t\<rparr>) = map_option (\<lambda>(v, b). (v, b\<lparr>terminal := t\<rparr>)) (push a b)"
  by (simp add: push_def Let_def upd_node_def split: if_split)

lemma extends_app:
  assumes "extends em em'"
  shows "extends em (app em' a)"
proof -
  have wf: "em_wf em'" using assms by blast
  obtain v b where p: "push (a\<lparr>a_pc := current_pc em'\<rparr>) (em_block em') = Some (v, b)" "app em' a = em'\<lparr>em_block := b\<rparr>"
    using em_push_emits(1)[OF wf, of a] by (auto simp: em_push_def app_def split: bind_splits)
  then have "push (a\<lparr>a_pc := current_pc em'\<rparr>) ((em_block em')\<lparr>terminal := terminal (em_block em)\<rparr>) =
      Some (v, b\<lparr>terminal := terminal (em_block em)\<rparr>)" by (simp add: push_terminal)
  then have "grown (em_block em) (b\<lparr>terminal := terminal (em_block em)\<rparr>)"
    using grown_push assms em_wf_tail unfolding extends_def by blast
  then show ?thesis using assms p em_push_emits(3,5)[OF wf, of a] by (simp add: extends_def)
qed

lemma extends_set_terminal: "extends em em' \<Longrightarrow> extends em (set_terminal t em')"
  by (simp add: extends_def set_terminal_def em_wf_def)

named_theorems grow_rules \<open>introduction rules for \<open>grows\<close>\<close>

lemma grows_some [grow_rules]: "extends em0 em \<Longrightarrow> grows em0 (Some (r, em))"
  by (simp add: grows_def)

lemma grows_bind [grow_rules]:
  assumes "grows em0 m" "\<And>r em. extends em0 em \<Longrightarrow> grows em0 (f (r, em))"
  shows "grows em0 (m \<bind> f)"
  using assms by (auto simp: grows_def)

lemma grows_if [grow_rules]: "(c \<Longrightarrow> grows em0 a) \<Longrightarrow> (\<not> c \<Longrightarrow> grows em0 b) \<Longrightarrow> grows em0 (if c then a else b)"
  by simp

lemma grows_prod [grow_rules]: "(\<And>x y. p = (x, y) \<Longrightarrow> grows em0 (f x y)) \<Longrightarrow> grows em0 (case p of (x, y) \<Rightarrow> f x y)"
  by (cases p) simp

lemma grows_opt [grow_rules]:
  "(x = None \<Longrightarrow> grows em0 a) \<Longrightarrow> (\<And>y. x = Some y \<Longrightarrow> grows em0 (f y)) \<Longrightarrow> grows em0 (case x of None \<Rightarrow> a | Some y \<Rightarrow> f y)"
  by (cases x) simp_all

lemma grows_sum [grow_rules]:
  "(\<And>y. x = Inl y \<Longrightarrow> grows em0 (f y)) \<Longrightarrow> (\<And>y. x = Inr y \<Longrightarrow> grows em0 (g y)) \<Longrightarrow> grows em0 (case x of Inl y \<Rightarrow> f y | Inr y \<Rightarrow> g y)"
  by (cases x) simp_all

lemma grows_let [grow_rules]: "grows em0 (f v) \<Longrightarrow> grows em0 (let x = v in f x)"
  by simp

lemma grows_push [grow_rules]: "extends em0 em \<Longrightarrow> grows em0 (em_push a em)"
  using em_push_emits(1)[of em a] extends_app[of em0 em a] by (auto simp: grows_def)

lemma grows_do [grow_rules]: "extends em0 em \<Longrightarrow> grows em0 (em_do a em)"
  using em_push_emits(2)[of em a] extends_app[of em0 em a] by (auto simp: grows_def)

lemma grows_errors [grow_rules]:
  "extends em0 em \<Longrightarrow> grows em0 (unsupported em)" "extends em0 em \<Longrightarrow> grows em0 (decode_error insn em)"
  by (simp_all add: grows_def unsupported_def decode_error_def)

text \<open>The builders.\<close>

lemma grows_builders [grow_rules]:
  assumes "extends em0 em"
  shows "grows em0 (const_u32 c em)" "grows em0 (const_u64 d em)" "grows em0 (get_x r em)" "grows em0 (get_w r em)"
    "grows em0 (get_gpr r sz em)" "grows em0 (set_x r v em)" "grows em0 (em_set_w r v em)" "grows em0 (set_gpr r v sz em)"
    "grows em0 (get_sp em)" "grows em0 (get_x_or_sp r sp em)" "grows em0 (set_x_or_sp r v sp em)"
    "grows em0 (set_gpr_or_sp r v sz sp em)" "grows em0 (get_nzcv em)" "grows em0 (set_nzcv v em)"
    "grows em0 (em_add v w sz em)" "grows em0 (em_sub v w sz em)" "grows em0 (em_and v w sz em)" "grows em0 (em_or v w sz em)"
    "grows em0 (em_eor v w sz em)" "grows em0 (em_lsl v w sz em)" "grows em0 (em_lsr v w sz em)" "grows em0 (em_asr v w sz em)"
    "grows em0 (em_ror v w sz em)" "grows em0 (em_adds v w sz em)" "grows em0 (em_subs v w sz em)" "grows em0 (logic_flags v sz em)"
    "grows em0 (get_v_q r em)" "grows em0 (set_v_q r v em)" "grows em0 (call_helper h insn vs t em)"
  using assms
  by (cases sz; auto simp: const_u32_def const_u64_def get_x_def get_w_def get_gpr_def set_x_def em_set_w_def set_gpr_def get_sp_def
      get_x_or_sp_def set_x_or_sp_def set_gpr_or_sp_def set_sp_def get_nzcv_def set_nzcv_def em_add_def em_sub_def em_and_def
      em_or_def em_eor_def em_lsl_def em_lsr_def em_asr_def em_ror_def em_adds_def em_subs_def logic_flags_def get_v_q_def
      set_v_q_def call_helper_def intro!: grow_rules)+

lemma grows_memory [grow_rules]:
  assumes "extends em0 em" "bytes \<in> {1, 2, 4, 8, 16}"
  shows "grows em0 (em_load addr bytes em)" "grows em0 (em_store addr v bytes em)"
  using assms by (auto simp: em_load_def em_store_def intro!: grow_rules)

lemma grows_branches [grow_rules]:
  assumes "extends em0 em"
  shows "grows em0 (em_branch pc link em)" "grows em0 (em_branch_cond c pc em)" "grows em0 (branch_indirect v link ret em)"
  using assms by (auto simp: em_branch_def em_branch_cond_def branch_indirect_def em_link_def
      intro!: grow_rules extends_set_terminal)

section \<open>The translators\<close>

lemma grows_parts [grow_rules]:
  assumes "extends em0 em"
  shows "grows em0 (addsub_result is_sub sf sp rd a b sz em)" "grows em0 (shifted sh b a sz em)" "grows em0 (extended w sg b em)"
    "grows em0 (log_emit p a b sz em)" "grows em0 (bitfield_bot wd immr imms a sz em)" "grows em0 (condcmp_tail is_sub v a b c n sz em)"
    "grows em0 (pac_identity insn em)" "grows em0 (translate_crc insn em)" "grows em0 (widen_w_to_x v sg em)"
  using assms
  by (auto simp: addsub_result_def shifted_def extended_def log_emit_def bitfield_bot_def condcmp_tail_def pac_identity_def
      translate_crc_def widen_w_to_x_def Let_def intro!: grow_rules)

lemma grows_kinds [grow_rules]:
  "grows em0 a \<Longrightarrow> grows em0 b \<Longrightarrow> grows em0 c \<Longrightarrow> grows em0 (case mv of MoveZ \<Rightarrow> a | MoveN \<Rightarrow> b | MoveK \<Rightarrow> c)"
  "grows em0 a \<Longrightarrow> grows em0 b \<Longrightarrow> grows em0 c \<Longrightarrow> grows em0 (case bk of Ubfm \<Rightarrow> a | Sbfm \<Rightarrow> b | Bfm \<Rightarrow> c)"
  "grows em0 a \<Longrightarrow> grows em0 b \<Longrightarrow> grows em0 c \<Longrightarrow> grows em0 d \<Longrightarrow>
    grows em0 (case ck of Csel \<Rightarrow> a | Csinc \<Rightarrow> b | Csinv \<Rightarrow> c | Csneg \<Rightarrow> d)"
  "grows em0 a \<Longrightarrow> grows em0 b \<Longrightarrow> grows em0 c \<Longrightarrow> grows em0 d \<Longrightarrow> grows em0 e \<Longrightarrow> grows em0 f \<Longrightarrow>
    grows em0 (case dk of Lslv \<Rightarrow> a | Lsrv \<Rightarrow> b | Asrv \<Rightarrow> c | Rorv \<Rightarrow> d | Udiv \<Rightarrow> e | Sdiv \<Rightarrow> f)"
  "(\<And>insn. grows em0 (g insn)) \<Longrightarrow> grows em0 (case i of EXTR_Rd_Rn_Rm_IMMS insn \<Rightarrow> g insn)"
  by (cases mv; cases bk; cases ck; cases dk; cases i; simp)+

lemma grows_int:
  assumes "extends em0 em"
  shows "grows em0 (translate_addsub_imm i1 em)" "grows em0 (translate_addsub_shift i2 em)" "grows em0 (translate_addsub_ext i3 em)"
    "grows em0 (translate_addsub_carry i4 em)" "grows em0 (translate_log_imm i5 em)" "grows em0 (translate_log_shift i6 em)"
    "grows em0 (translate_movewide i7 em)" "grows em0 (translate_bitfield i8 em)" "grows em0 (translate_extract i9 em)"
    "grows em0 (translate_condsel i10 em)" "grows em0 (translate_condcmp_imm i11 em)" "grows em0 (translate_condcmp_reg i12 em)"
    "grows em0 (translate_dp_1src i13 em)" "grows em0 (translate_dp_2src i14 em)" "grows em0 (translate_dp_3src i15 em)"
  using assms
  unfolding translate_addsub_imm_def translate_addsub_shift_def translate_addsub_ext_def translate_addsub_carry_def
    translate_log_imm_def translate_log_shift_def translate_movewide_def translate_bitfield_def translate_extract_def
    translate_condsel_def translate_condcmp_imm_def translate_condcmp_reg_def translate_dp_1src_def translate_dp_2src_def
    translate_dp_3src_def Let_def
  by (auto intro!: grow_rules)

lemma grows_zva [grow_rules]: "extends em0 em \<Longrightarrow> grows em0 (zva_stores v z offs em)"
  by (induction offs arbitrary: em) (auto intro!: grow_rules)

lemma grows_system:
  assumes "extends em0 em"
  shows "ic_system_body i = Some body \<Longrightarrow> grows em0 (body em)" "grows em0 (translate_sys insn em)"
proof -
  show *: "grows em0 (translate_sys insn em)" for insn
    using assms by (auto simp: translate_sys_def Let_def intro!: grow_rules)
  show "ic_system_body i = Some body \<Longrightarrow> grows em0 (body em)"
    using assms * by (cases i) (auto intro!: grow_rules)
qed

lemma grows_branch:
  assumes "extends em0 em"
  shows "grows em0 (translate_pcreladdr i1 em)" "grows em0 (translate_branch_imm i2 em)" "grows em0 (translate_branch_reg i3 em)"
    "grows em0 (translate_condbranch i4 em)" "grows em0 (translate_compbranch i5 em)" "grows em0 (translate_testbranch i6 em)"
    "grows em0 (translate_exception i7 em)" "grows em0 (translate_ic_system i8 em)"
  using assms
  unfolding translate_pcreladdr_def translate_branch_imm_def translate_branch_reg_def translate_condbranch_def
    translate_compbranch_def translate_testbranch_def translate_exception_def translate_ic_system_def Let_def
  by (auto intro!: grow_rules extends_set_terminal grows_system(1))

end
