(* ===== verification/Grow_Mem.thy ===== *)
theory Grow_Mem
  imports Grow Translate_Mem
begin

text \<open>
  The translators of loads, stores and atomics only append nodes: the rules of \<open>Grow\<close> for the
  builders they add. An access never has a width the emitter does not know.
\<close>

lemma grows_raw [grow_rules]: "extends em0 em \<Longrightarrow> grows em0 (unsupported_raw insn em)"
  by (simp add: grows_def unsupported_raw_def)

lemma grows_vector [grow_rules]:
  assumes "extends em0 em"
  shows "grows em0 (get_v_d r em)" "grows em0 (get_v_s r em)" "grows em0 (set_v_d r v em)" "grows em0 (set_v_s r v em)"
    "grows em0 (vec_build_q v w em)" "grows em0 (vec_extract_lo64 v em)" "grows em0 (vec_extract_hi64 v em)"
    "grows em0 (fp_load_q r v em)" "grows em0 (fp_store_q r v em)" "grows em0 (pack_words v w em)" "grows em0 (ldpsw insn m em)"
    "grows em0 (casp_pair wide r em)"
  using assms
  by (auto simp: get_v_d_def get_v_s_def set_v_d_def set_v_s_def vec_build_q_def vec_extract_lo64_def vec_extract_hi64_def
      fp_load_q_def fp_store_q_def pack_words_def ldpsw_def casp_pair_def Let_def intro!: grow_rules)

lemma size_cases: "(2 :: nat) ^ unat (bits insn 30 2) \<in> {1, 2, 4, 8}"
proof -
  have "unat (bits insn 30 2) < 4" using bits_less[of insn 30 2] by simp
  then have "unat (bits insn 30 2) \<in> {0, 1, 2, 3}" by auto
  then show ?thesis by auto
qed

lemma ldst_bytes_cases: "ldst_bytes kind insn \<in> {1, 2, 4, 8, 16}"
  using size_cases[of insn] by (auto simp: ldst_bytes_def)

lemma grows_access [grow_rules]: "extends em0 em \<Longrightarrow> grows em0 (ldst_access kind x insn addr em)"
  using ldst_bytes_cases[of kind insn]
  by (cases kind) (auto simp: ldst_access_def Let_def intro!: grow_rules)

lemma grows_writeback [grow_rules]:
  assumes "grows em0 r" "\<And>em. extends em0 em \<Longrightarrow> grows em0 (wb em)"
  shows "grows em0 (with_writeback wb r)"
  using assms by (auto simp: with_writeback_def intro!: grow_rules)

lemma pair_layout_bytes: "pair_layout is_fp opc = Some (scale, bytes, sz) \<Longrightarrow> bytes \<in> {4, 8, 16}"
  by (auto simp: pair_layout_def split: if_splits)

lemma grows_pair [grow_rules]:
  "extends em0 em \<Longrightarrow> bytes \<in> {4, 8, 16} \<Longrightarrow> grows em0 (pair_access l f bytes sz r r2 a a2 em)"
  by (auto simp: pair_access_def intro!: grow_rules)

lemma grows_mem_op [grow_rules]:
  "(\<And>insn k x. m = MemAccess insn k x \<Longrightarrow> grows em0 (f insn k x)) \<Longrightarrow> grows em0 a \<Longrightarrow> grows em0 b \<Longrightarrow>
    grows em0 (case m of MemAccess insn k x \<Rightarrow> f insn k x | MemPrefetch \<Rightarrow> a | MemOther \<Rightarrow> b)"
  by (cases m) simp_all

lemma excl_bytes: "ldstexcl_op i = Some (insn, k) \<Longrightarrow> (\<exists>n x. k \<in> {LoadEx n x, StoreEx n, LoadAcq n x, StoreRel n} \<and> n \<in> {1, 2, 4, 8}) \<or>
    (\<exists>w. k \<in> {LoadExPair w, StoreExPair w})"
  using size_cases[of insn] by (cases i) (auto simp: size_from_bit30_def Let_def)

lemma grows_excl:
  assumes "extends em0 em" "ldstexcl_op i = Some (insn, k)"
  shows "grows em0 (excl_access k insn addr em)"
  using excl_bytes[OF assms(2)] assms(1)
  by (elim disjE exE conjE; auto simp: excl_access_def by_width_def Let_def intro!: grow_rules)

lemma grows_lse [grow_rules]:
  "extends em0 em \<Longrightarrow> grows em0 (atomic_rmw insn k n em)" "extends em0 em \<Longrightarrow> grows em0 (casp insn em)"
  by (auto simp: atomic_rmw_def casp_def Let_def intro!: grow_rules)

lemma grows_ldst:
  assumes "extends em0 em"
  shows "grows em0 (translate_ldst_pos i1 em)" "grows em0 (translate_ldst_unscaled i2 em)" "grows em0 (translate_ldst_imm9 i3 em)"
    "grows em0 (translate_ldst_regoff i4 em)" "grows em0 (translate_ldstpair_off i5 em)" "grows em0 (translate_ldstpair_indexed i6 em)"
    "grows em0 (translate_loadlit i7 em)" "grows em0 (translate_ldstexcl i8 em)" "grows em0 (translate_lse_atomic i9 em)"
proof -
  show "grows em0 (translate_lse_atomic i9 em)" using assms by (cases i9) (auto intro!: grow_rules)
  show "grows em0 (translate_ldstexcl i8 em)" using assms by (auto simp: translate_ldstexcl_def intro!: grow_rules grows_excl)
  show "grows em0 (translate_ldstpair_off i5 em)" "grows em0 (translate_ldstpair_indexed i6 em)"
    using assms
    by (auto dest: pair_layout_bytes simp: translate_ldstpair_off_def translate_ldstpair_indexed_def Let_def intro!: grow_rules)
qed (use assms in \<open>auto simp: translate_ldst_pos_def translate_ldst_unscaled_def translate_ldst_imm9_def translate_ldst_regoff_def
    translate_loadlit_def Let_def intro!: grow_rules\<close>)

end
