(* ===== verification/Translator_Sound.thy ===== *)
theory Translator_Sound
  imports Translator Grow_Mem Lse_Sound
begin

section \<open>Rollback\<close>

lemma rollback_terminal: "rollback m (b\<lparr>terminal := t\<rparr>) = map_option (\<lambda>b. b\<lparr>terminal := t\<rparr>) (rollback m b)"
  by (simp add: rollback_def upd_node_def Let_def split: prod.split if_split)

lemma rollback_fields:
  assumes "rollback m b = Some b'"
  shows "terminal b' = terminal b" "cycles b' = cycles b" "ranges b' = ranges b"
  using assms by (auto simp: rollback_def upd_node_def Let_def split: prod.splits if_splits)

lemma extends_rollback:
  assumes "extends em em'"
  shows "rollback (mark (em_block em)) (em_block em') = Some ((em_block em)\<lparr>terminal := terminal (em_block em')\<rparr>)"
proof -
  have "rollback (mark (em_block em)) ((em_block em')\<lparr>terminal := terminal (em_block em)\<rparr>) = Some (em_block em)"
    using assms by (simp add: extends_def grown_def)
  then obtain b where b: "rollback (mark (em_block em)) (em_block em') = Some b" "b\<lparr>terminal := terminal (em_block em)\<rparr> = em_block em"
    by (auto simp: rollback_terminal)
  have "b = b\<lparr>terminal := terminal (em_block em)\<rparr>\<lparr>terminal := terminal b\<rparr>" by simp
  also have "\<dots> = (em_block em)\<lparr>terminal := terminal (em_block em')\<rparr>"
    unfolding b(2) rollback_fields(1)[OF b(1)] by (rule refl)
  finally show ?thesis using b(1) by simp
qed

lemma extends_fields:
  assumes "extends em em'"
  shows "cycles (em_block em') = cycles (em_block em)" "ranges (em_block em') = ranges (em_block em)"
  using rollback_fields[OF extends_rollback[OF assms]] by simp_all

section \<open>One instruction\<close>

lemma grows_fill [grow_rules]: "extends em0 em \<Longrightarrow> grows em0 (helper_fill n args em)"
  by (induction n arbitrary: args em) (auto intro!: grow_rules)

lemma grows_src [grow_rules]:
  "extends em0 em \<Longrightarrow> grows em0 (case src of SrcV r \<Rightarrow> get_v_q r em | SrcX r \<Rightarrow> get_x r em | SrcW r \<Rightarrow> get_w r em)"
  by (cases src) (auto intro!: grow_rules)

lemma grows_args [grow_rules]: "extends em0 em \<Longrightarrow> grows em0 (helper_args slot srcs args em)"
proof (induction srcs arbitrary: slot args em)
  case (Cons src srcs)
  then show ?case by (cases src) (auto intro!: grow_rules)
qed (auto intro!: grow_rules)

lemma grows_dst [grow_rules]:
  "extends em0 em \<Longrightarrow> grows em0 (case d of DstV rd \<Rightarrow> set_v_q rd r em | DstX rd \<Rightarrow> set_x rd r em | DstW rd \<Rightarrow> em_set_w rd r em)"
  by (cases d) (auto intro!: grow_rules)

lemma grows_helper: "extends em0 em \<Longrightarrow> grows em0 (translate_helper inst p em)"
  by (auto simp: translate_helper_def Let_def intro!: grow_rules)

lemma grows_dispatch:
  assumes "extends em0 em" "grows em0 (others inst em)"
  shows "grows em0 (dispatch decoder others operation inst em)"
  using assms by (cases operation) (auto simp: translate_nap_def translate_unpriv_def split: option.splits operation.splits
      intro!: grow_rules grows_int grows_branch grows_ldst)

lemma grows_instruction:
  assumes "em_wf em" "\<And>em. em_wf em \<Longrightarrow> grows em (others inst em)"
  shows "grows em (translate_instruction decoder others plan_of inst em)"
proof (cases "decoder inst")
  case None
  then show ?thesis using assms(1) by (auto simp: translate_instruction_def intro!: grow_rules extends_refl)
next
  case (Some operation)
  obtain r em' where d: "dispatch decoder others operation inst em = Some (r, em')" "extends em em'"
    using grows_dispatch[of em em others inst decoder operation] extends_refl[OF assms(1)] assms(2)[OF assms(1)] by (auto simp: grows_def)
  have rb: "rollback (mark (em_block em)) (em_block em') = Some ((em_block em)\<lparr>terminal := terminal (em_block em')\<rparr>)"
    by (rule extends_rollback[OF d(2)])
  have pc: "em'\<lparr>em_block := (em_block em)\<lparr>terminal := t\<rparr>\<rparr> = set_terminal t em" for t
    using d(2) by (cases em; cases em') (auto simp: extends_def set_terminal_def)
  have "grows em (translate_helper inst p (set_terminal t em))" for p t
    by (rule grows_helper) (rule extends_set_terminal[OF extends_refl[OF assms(1)]])
  then show ?thesis
    using d Some rb pc
    by (cases r; cases "plan_of inst") (auto simp: translate_instruction_def grows_def split: error.split)
qed


section \<open>Blocks that only grow\<close>

text \<open>A rollback of the later block to the mark of the earlier one restores its nodes.\<close>

definition same_nodes :: "block \<Rightarrow> block \<Rightarrow> bool" where
  "same_nodes b c \<longleftrightarrow> code b = code c \<and> head b = head c \<and> tail b = tail c"

definition restores :: "block \<Rightarrow> block \<Rightarrow> bool" where
  "restores b b' \<longleftrightarrow> (\<exists>c. rollback (mark b) b' = Some c \<and> same_nodes c b) \<and> length (code b) \<le> length (code b') \<and>
     (tail b' = tail b \<or> (length (code b) \<le> tail b' \<and> tail b' < length (code b')))"

lemma same_nodes_simps [simp]:
  "same_nodes (b\<lparr>cycles := n\<rparr>) c = same_nodes b c" "same_nodes (b\<lparr>ranges := rs\<rparr>) c = same_nodes b c"
  "same_nodes (b\<lparr>terminal := t\<rparr>) c = same_nodes b c" "same_nodes (b\<lparr>end_pc := pc\<rparr>) c = same_nodes b c" "same_nodes b b"
  by (simp_all add: same_nodes_def)

lemma restores_iff:
  "restores b b' \<longleftrightarrow> length (code b) \<le> length (code b') \<and>
     (tail b' = tail b \<or> (length (code b) \<le> tail b' \<and> tail b' < length (code b'))) \<and>
     (if tail b = LINK_NONE then head b = LINK_NONE \<and> take (length (code b)) (code b') = code b
      else tail b < length (code b) \<and> head b' = head b \<and>
        (take (length (code b)) (code b'))[tail b := (code b' ! tail b)\<lparr>a_next := LINK_NONE\<rparr>] = code b)"
  by (auto simp: restores_def rollback_def mark_def upd_node_def same_nodes_def Let_def split: if_splits)

lemma restores_simps [simp]:
  "restores b (b'\<lparr>cycles := n\<rparr>) = restores b b'" "restores b (b'\<lparr>ranges := rs\<rparr>) = restores b b'"
  "restores b (b'\<lparr>terminal := t\<rparr>) = restores b b'" "restores (b\<lparr>cycles := n\<rparr>) b' = restores b b'"
  "restores (b\<lparr>ranges := rs\<rparr>) b' = restores b b'" "restores (b\<lparr>terminal := t\<rparr>) b' = restores b b'"
  by (simp_all add: restores_iff)

lemma restores_refl: "block_inv b xs \<Longrightarrow> restores b b"
  using grown_refl[of b xs] by (auto simp: grown_def restores_def)

lemma restores_trans:
  assumes "restores a b" "restores b c"
  shows "restores a c"
proof (cases "tail a = LINK_NONE")
  case True
  have "take (length (code a)) (code c) = code a"
  proof (cases "tail b = LINK_NONE")
    case False
    then have "length (code a) \<le> tail b" "take (length (code a)) (code b) = code a" using assms(1) True by (auto simp: restores_iff)
    moreover have "take (length (code a)) (code b) = take (length (code a)) (take (length (code b)) (code c))"
      using assms(2) False calculation(1) take_update_beyond by (metis restores_iff)
    moreover have "length (code a) \<le> length (code b)" using assms(1) by (simp add: restores_iff)
    ultimately show ?thesis by (simp add: min_absorb1)
  next
    case none: True
    then have "take (length (code a)) (take (length (code b)) (code c)) = code a" "length (code a) \<le> length (code b)"
      using assms True by (auto simp: restores_iff)
    then show ?thesis by (simp add: min_absorb1)
  qed
  then show ?thesis using assms True by (auto simp: restores_iff)
next
  case False
  let ?n = "length (code a)"
  have a: "tail a < ?n" "head b = head a" "(take ?n (code b))[tail a := (code b ! tail a)\<lparr>a_next := LINK_NONE\<rparr>] = code a"
      "?n \<le> length (code b)" "tail b = tail a \<or> ?n \<le> tail b"
    using assms(1) False by (auto simp: restores_iff)
  then have b: "tail b \<noteq> LINK_NONE" using False by (auto simp: LINK_NONE_def)
  then have c: "tail b < length (code b)" "head c = head b"
      "code b = (take (length (code b)) (code c))[tail b := (code c ! tail b)\<lparr>a_next := LINK_NONE\<rparr>]"
    using assms(2) by (auto simp: restores_iff)
  have "(take ?n (code c))[tail a := (code c ! tail a)\<lparr>a_next := LINK_NONE\<rparr>] = code a"
  proof (cases "tail b = tail a")
    case True
    have "take ?n (code b) = (take ?n (code c))[tail a := (code c ! tail a)\<lparr>a_next := LINK_NONE\<rparr>]"
      by (subst c(3)) (simp add: take_update_swap min_absorb1 a True)
    moreover have "code b ! tail a = (code c ! tail a)\<lparr>a_next := LINK_NONE\<rparr>"
      using a(1,4) by (subst c(3)) (simp add: True assms(2)[unfolded restores_iff])
    ultimately show ?thesis using a(3) by simp
  next
    case other: False
    then have beyond: "?n \<le> tail b" using a(5) by simp
    have "take ?n (code b) = take ?n (code c)"
      by (subst c(3)) (simp add: take_update_beyond[OF beyond] min_absorb1 a)
    moreover have "code b ! tail a = code c ! tail a"
      using calculation a(1) by (metis nth_take)
    ultimately show ?thesis using a(3) by simp
  qed
  then show ?thesis using assms a c False by (auto simp: restores_iff)
qed

lemma extends_restores:
  assumes "extends em em'"
  shows "restores (em_block em) (em_block em')"
proof -
  have "restores (em_block em) (em_block em'\<lparr>terminal := terminal (em_block em)\<rparr>)"
    unfolding restores_def
  proof (intro conjI exI)
    show "rollback (mark (em_block em)) (em_block em'\<lparr>terminal := terminal (em_block em)\<rparr>) = Some (em_block em)"
      using assms by (simp add: extends_def grown_def)
  qed (use assms in \<open>simp_all add: extends_def grown_def\<close>)
  then show ?thesis by (simp only: restores_simps)
qed

section \<open>Running a block\<close>

definition run_block :: "guest \<Rightarrow> block \<Rightarrow> run_state" where
  "run_block s0 b = runs s0 \<lparr>em_block = b, current_pc = 0\<rparr>"

lemma runs_run_block: "runs s0 em = run_block s0 (em_block em)"
  by (simp add: runs_def run_block_def)

lemma run_same_nodes:
  assumes "block_inv b xs" "same_nodes b c"
  shows "run_block s0 c = run_block s0 b" "block_inv c xs"
proof -
  show inv: "block_inv c xs" using assms by (simp add: block_inv_def same_nodes_def)
  have "run_nodes ir_val ir_eff c xs (\<lambda>_. 0) s0 = run_nodes ir_val ir_eff b xs (\<lambda>_. 0) s0"
    using assms(2) by (intro run_nodes_cong) (simp add: same_nodes_def)
  then show "run_block s0 c = run_block s0 b"
    by (simp add: run_block_def runs_def iter_live_inv(1)[OF assms(1)] iter_live_inv(1)[OF inv])
qed

definition wf_block :: "block \<Rightarrow> bool" where
  "wf_block b \<longleftrightarrow> (\<exists>xs. block_inv b xs)"

lemma em_wf_block: "em_wf em = wf_block (em_block em)"
  by (simp add: em_wf_def wf_block_def)

lemma wf_block_same: "same_nodes b c \<Longrightarrow> wf_block b \<Longrightarrow> wf_block c"
  using run_same_nodes(2) by (auto simp: wf_block_def)

lemma run_block_same: "same_nodes b c \<Longrightarrow> wf_block b \<Longrightarrow> run_block s0 c = run_block s0 b"
  using run_same_nodes(1) by (auto simp: wf_block_def)

lemma run_block_fields [simp]:
  assumes "wf_block b"
  shows "run_block s0 (b\<lparr>cycles := n\<rparr>) = run_block s0 b" "run_block s0 (b\<lparr>ranges := rs\<rparr>) = run_block s0 b"
    "run_block s0 (b\<lparr>terminal := t\<rparr>) = run_block s0 b" "run_block s0 (b\<lparr>end_pc := pc\<rparr>) = run_block s0 b"
  by (rule run_block_same[OF _ assms], simp add: same_nodes_def)+

lemma wf_block_fields [simp]:
  "wf_block (b\<lparr>cycles := n\<rparr>) = wf_block b" "wf_block (b\<lparr>ranges := rs\<rparr>) = wf_block b"
  "wf_block (b\<lparr>terminal := t\<rparr>) = wf_block b" "wf_block (b\<lparr>end_pc := pc\<rparr>) = wf_block b"
  by (simp_all add: wf_block_def block_inv_def)

section \<open>The machine\<close>

text \<open>Where execution goes on after an instruction or a block.\<close>

datatype exit = At u64 | Raise exception_kind u32

fun block_exit :: "terminal \<Rightarrow> (value_ref \<Rightarrow> ir_value) \<Rightarrow> exit option" where
  "block_exit (Exception kind imm) env = Some (Raise kind imm)"
| "block_exit t env = map_option At (branch_target t (low64 \<circ> env))"

lemma block_exit_link [simp]: "block_exit (LinkBlock pc) = (\<lambda>_. Some (At pc))"
  by (rule ext) simp

type_synonym behaviour = "u64 \<Rightarrow> guest \<Rightarrow> guest \<times> exit"

definition implemented :: "behaviour \<Rightarrow> emitter \<Rightarrow> guest \<Rightarrow> inst_status \<Rightarrow> emitter \<Rightarrow> bool" where
  "implemented f em s0 status em' \<longleftrightarrow>
     (case status of Continue \<Rightarrow> f (current_pc em) (snd (runs s0 em)) = (snd (runs s0 em'), At (current_pc em + 4))
      | Terminator \<Rightarrow> (\<exists>e. block_exit (terminal (em_block em')) (fst (runs s0 em')) = Some e \<and>
          f (current_pc em) (snd (runs s0 em)) = (snd (runs s0 em'), e)))"

definition implements :: "translation \<Rightarrow> behaviour \<Rightarrow> bool" where
  "implements t f \<longleftrightarrow> (\<forall>em s0. em_wf em \<longrightarrow> (\<exists>status em'. t em = Some (Inr status, em') \<and> implemented f em s0 status em'))"

lemma implementsI:
  "(\<And>em s0. em_wf em \<Longrightarrow> \<exists>status em'. t em = Some (Inr status, em') \<and> implemented f em s0 status em') \<Longrightarrow> implements t f"
  by (simp add: implements_def)

lemma implementsD:
  "implements t f \<Longrightarrow> em_wf em \<Longrightarrow> \<exists>status em'. t em = Some (Inr status, em') \<and> implemented f em s0 status em'"
  by (simp add: implements_def)

text \<open>\<open>n\<close> instructions from \<open>start\<close>; \<open>behaves\<close> gives the instructions their meaning.\<close>

fun arch_steps :: "(u32 \<Rightarrow> behaviour option) \<Rightarrow> (u64 \<Rightarrow> u32 option) \<Rightarrow> nat \<Rightarrow> u64 \<Rightarrow> guest \<Rightarrow> (guest \<times> exit) option" where
  "arch_steps behaves fetch 0 start s = Some (s, At start)"
| "arch_steps behaves fetch (Suc n) start s =
     (case arch_steps behaves fetch n start s of
        Some (s, At pc) \<Rightarrow> (case fetch pc of None \<Rightarrow> None
          | Some insn \<Rightarrow> (case behaves insn of None \<Rightarrow> None | Some f \<Rightarrow> Some (f pc s)))
      | _ \<Rightarrow> None)"

text \<open>The instruction slots of the recorded ranges, in the wrapping order of addresses.\<close>

definition slot :: "(u64 \<times> u64) list \<Rightarrow> u64 \<Rightarrow> bool" where
  "slot rs a \<longleftrightarrow> (\<exists>(s, e) \<in> set rs. a - s < e - s \<and> 4 dvd unat (a - s))"

lemma slot_append [simp]: "slot (rs @ qs) a \<longleftrightarrow> slot rs a \<or> slot qs a"
  by (auto simp: slot_def)

lemma slot_segment:
  assumes "k < 2 ^ 32"
  shows "slot [(seg, seg + of_nat (4 * k))] a \<Longrightarrow> slot [(seg, seg + of_nat (4 * k) + 4)] a"
    "slot [(seg, seg + of_nat (4 * k) + 4)] (seg + of_nat (4 * k))"
proof -
  have n: "4 * k < 2 ^ 64" "4 * k + 4 < 2 ^ 64" using assms by simp_all
  have of: "unat (of_nat m :: u64) = m" if "m < 2 ^ 64" for m
    using that by (simp add: unsigned_of_nat take_bit_nat_eq_self)
  have u: "unat (of_nat (4 * k) :: u64) = 4 * k" "unat (of_nat (4 * k) + 4 :: u64) = 4 * k + 4"
    using of[OF n(1)] of[OF n(2)] by (simp_all add: add.commute)
  have d: "seg + of_nat (4 * k) + 4 - seg = of_nat (4 * k) + 4" by simp
  show "slot [(seg, seg + of_nat (4 * k))] a \<Longrightarrow> slot [(seg, seg + of_nat (4 * k) + 4)] a"
    using u unfolding slot_def by (simp add: d word_less_nat_alt del: of_nat_mult)
  show "slot [(seg, seg + of_nat (4 * k) + 4)] (seg + of_nat (4 * k))"
    using u unfolding slot_def by (simp add: d word_less_nat_alt del: of_nat_mult)
qed

text \<open>
  Block \<open>b\<close> does what the first \<open>n\<close> instructions from \<open>start\<close> do, from every state and for every
  memory that agrees with \<open>fetch\<close> on the slots of \<open>rs\<close>.
\<close>

definition does :: "(u32 \<Rightarrow> behaviour option) \<Rightarrow> (u64 \<Rightarrow> u32 option) \<Rightarrow> u64 \<Rightarrow> (u64 \<times> u64) list \<Rightarrow> nat \<Rightarrow> block \<Rightarrow>
    ((value_ref \<Rightarrow> ir_value) \<Rightarrow> exit option) \<Rightarrow> bool" where
  "does behaves fetch start rs n b ex \<longleftrightarrow>
     (\<forall>fetch' s0. (\<forall>a. slot rs a \<longrightarrow> fetch' a = fetch a \<and> (\<forall>insn. fetch a = Some insn \<longrightarrow> behaves insn \<noteq> None)) \<longrightarrow>
       (\<exists>e. ex (fst (run_block s0 b)) = Some e \<and>
         arch_steps behaves fetch' n start s0 = Some (snd (run_block s0 b), e)))"

lemma fault_apply_none: "fault_apply None insn em = Some ((), em)"
  by (simp add: fault_apply_def)

lemma grows_fault [grow_rules]: "extends em0 em \<Longrightarrow> grows em0 (fault_apply fault insn em)"
  by (auto simp: fault_apply_def Let_def split: option.split intro!: grow_rules)

section \<open>The loop\<close>

text \<open>The invariant of the loop, and of the branch it could fall back to.\<close>

definition returns_to :: "(u32 \<Rightarrow> behaviour option) \<Rightarrow> fault option \<Rightarrow> (u64 \<Rightarrow> u32 option) \<Rightarrow> u64 \<Rightarrow> u32 \<Rightarrow> block \<Rightarrow> followed \<Rightarrow> bool" where
  "returns_to behaves fault fetch start limit b f \<longleftrightarrow> (\<exists>b0. fo_mark f = mark b0 \<and> wf_block b0 \<and> restores b0 b \<and>
     take (fo_ranges f + 1) (ranges b) = ranges b0 \<and> fo_cycles f \<le> limit \<and>
     (fault = None \<longrightarrow> does behaves fetch start (ranges b0) (unat (fo_cycles f)) b0 (block_exit (fo_terminal f))))"

definition can_fall_back :: "(u32 \<Rightarrow> behaviour option) \<Rightarrow> fault option \<Rightarrow> (u64 \<Rightarrow> u32 option) \<Rightarrow> u64 \<Rightarrow> u32 \<Rightarrow> loop_state \<Rightarrow> bool" where
  "can_fall_back behaves fault fetch start limit st \<longleftrightarrow> (\<forall>f. l_followed st = Some f \<longrightarrow> returns_to behaves fault fetch start limit (l_block st) f)"

definition loop_inv :: "(u32 \<Rightarrow> behaviour option) \<Rightarrow> fault option \<Rightarrow> (u64 \<Rightarrow> u32 option) \<Rightarrow> u64 \<Rightarrow> u32 \<Rightarrow> loop_state \<Rightarrow> bool" where
  "loop_inv behaves fault fetch start limit st \<longleftrightarrow> wf_block (l_block st) \<and> cycles (l_block st) \<le> limit \<and>
     (\<exists>k \<le> unat (cycles (l_block st)). l_pc st = l_seg st + of_nat (4 * k)) \<and> can_fall_back behaves fault fetch start limit st \<and>
     (fault = None \<longrightarrow> does behaves fetch start (ranges (l_block st) @ [(l_seg st, l_pc st)]) (unat (cycles (l_block st)))
        (l_block st) (\<lambda>_. Some (At (l_pc st))))"

definition ended :: "(u32 \<Rightarrow> behaviour option) \<Rightarrow> fault option \<Rightarrow> (u64 \<Rightarrow> u32 option) \<Rightarrow> u64 \<Rightarrow> u32 \<Rightarrow> block \<Rightarrow> bool" where
  "ended behaves fault fetch start limit b \<longleftrightarrow> wf_block b \<and> cycles b \<le> limit \<and>
     (fault = None \<longrightarrow> does behaves fetch start (ranges b) (unat (cycles b)) b (block_exit (terminal b)))"

definition step_ok :: "(u32 \<Rightarrow> behaviour option) \<Rightarrow> fault option \<Rightarrow> (u64 \<Rightarrow> u32 option) \<Rightarrow> u64 \<Rightarrow> u32 \<Rightarrow> loop_state \<Rightarrow> ((error + bool) \<times> loop_state) + loop_state \<Rightarrow> bool" where
  "step_ok behaves fault fetch start limit st r \<longleftrightarrow>
     (case r of Inr st' \<Rightarrow> loop_inv behaves fault fetch start limit st' \<and> unat (cycles (l_block st')) = Suc (unat (cycles (l_block st)))
      | Inl (Inr t, st') \<Rightarrow> t \<and> ended behaves fault fetch start limit (l_block st')
      | Inl (Inl e, st') \<Rightarrow> can_fall_back behaves fault fetch start limit st')"

definition loop_ok :: "(u32 \<Rightarrow> behaviour option) \<Rightarrow> fault option \<Rightarrow> (u64 \<Rightarrow> u32 option) \<Rightarrow> u64 \<Rightarrow> u32 \<Rightarrow> error + bool \<Rightarrow> loop_state \<Rightarrow> bool" where
  "loop_ok behaves fault fetch start limit r st \<longleftrightarrow>
     (case r of Inr True \<Rightarrow> ended behaves fault fetch start limit (l_block st)
      | Inr False \<Rightarrow> loop_inv behaves fault fetch start limit st
      | Inl e \<Rightarrow> can_fall_back behaves fault fetch start limit st)"

text \<open>What the loop relies on: the translator of one instruction never panics and only appends, and
  implements the instructions that have a meaning.\<close>

locale translator =
  fixes tr :: "u32 \<Rightarrow> translation" and behaves :: "u32 \<Rightarrow> behaviour option"
  assumes tr_grows: "em_wf em \<Longrightarrow> grows em (tr insn em)"
    and tr_implements: "behaves insn = Some f \<Longrightarrow> implements (tr insn) f"
begin

lemma tr_result:
  assumes "wf_block b" "tr insn \<lparr>em_block = b, current_pc = pc\<rparr> = Some (r, em)"
  shows "wf_block (em_block em)" "restores b (em_block em)" "cycles (em_block em) = cycles b" "ranges (em_block em) = ranges b"
    "current_pc em = pc"
proof -
  have e: "extends \<lparr>em_block = b, current_pc = pc\<rparr> em"
    using tr_grows[of "\<lparr>em_block = b, current_pc = pc\<rparr>" insn] assms by (auto simp: em_wf_block grows_def)
  show "wf_block (em_block em)" "restores b (em_block em)" "cycles (em_block em) = cycles b" "ranges (em_block em) = ranges b"
    "current_pc em = pc"
    using extends_wf[OF e] extends_restores[OF e] extends_fields[OF e] e[unfolded extends_def]
    by (simp_all add: em_wf_block)
qed

lemma tr_total: "wf_block b \<Longrightarrow> \<exists>r em. tr insn \<lparr>em_block = b, current_pc = pc\<rparr> = Some (r, em)"
  using tr_grows[of "\<lparr>em_block = b, current_pc = pc\<rparr>" insn] by (auto simp: em_wf_block grows_def)

lemma fault_result:
  assumes "wf_block b" "tr insn \<lparr>em_block = b, current_pc = pc\<rparr> = Some (r, em)"
  shows "\<exists>em'. fault_apply fault insn em = Some ((), em') \<and> wf_block (em_block em') \<and> restores b (em_block em') \<and>
    cycles (em_block em') = cycles b \<and> ranges (em_block em') = ranges b"
proof -
  let ?em0 = "\<lparr>em_block = b, current_pc = pc\<rparr>"
  have "extends ?em0 em" using tr_grows[of ?em0 insn] assms by (auto simp: em_wf_block grows_def)
  from grows_fault[OF this] obtain em' where em': "fault_apply fault insn em = Some ((), em')" "extends ?em0 em'"
    by (auto simp: grows_def)
  then show ?thesis using extends_restores[OF em'(2)] extends_fields[OF em'(2)] by (auto simp: extends_def em_wf_block)
qed

lemma does_step:
  assumes wf: "wf_block b" and pc: "pc = seg + of_nat (4 * k)" "k < 2 ^ 32"
    and before: "does behaves fetch start (rs @ [(seg, pc)]) n b (\<lambda>_. Some (At pc))"
    and tr: "fetch pc = Some insn" "tr insn \<lparr>em_block = b, current_pc = pc\<rparr> = Some (Inr status, em)"
  shows "does behaves fetch start (rs @ [(seg, pc + 4)]) (Suc n) (em_block em)
    (case status of Continue \<Rightarrow> \<lambda>_. Some (At (pc + 4)) | Terminator \<Rightarrow> block_exit (terminal (em_block em)))"
  unfolding does_def
proof (intro allI impI)
  fix fetch' s0
  assume agree: "\<forall>a. slot (rs @ [(seg, pc + 4)]) a \<longrightarrow> fetch' a = fetch a \<and> (\<forall>insn. fetch a = Some insn \<longrightarrow> behaves insn \<noteq> None)"
  have "\<forall>a. slot (rs @ [(seg, pc)]) a \<longrightarrow> fetch' a = fetch a \<and> (\<forall>insn. fetch a = Some insn \<longrightarrow> behaves insn \<noteq> None)"
    using agree slot_segment(1)[OF pc(2), of seg] unfolding pc(1) by auto
  then have arch: "arch_steps behaves fetch' n start s0 = Some (snd (run_block s0 b), At pc)"
    using before[unfolded does_def, THEN spec, THEN spec, THEN mp] by simp
  obtain f where f: "fetch' pc = Some insn" "behaves insn = Some f"
    using agree[THEN spec, of pc] slot_segment(2)[OF pc(2), of seg, folded pc(1)] tr(1) by auto
  have "implements (tr insn) f" by (rule tr_implements[OF f(2)])
  from implementsD[OF this, of "\<lparr>em_block = b, current_pc = pc\<rparr>" s0]
  have "case status of Continue \<Rightarrow> f pc (snd (run_block s0 b)) = (snd (run_block s0 (em_block em)), At (pc + 4))
      | Terminator \<Rightarrow> (\<exists>e. block_exit (terminal (em_block em)) (fst (run_block s0 (em_block em))) = Some e \<and>
          f pc (snd (run_block s0 b)) = (snd (run_block s0 (em_block em)), e))"
    using tr(2) wf by (cases status) (auto simp: em_wf_block runs_run_block implemented_def)
  then show "\<exists>e. (case status of Continue \<Rightarrow> \<lambda>_. Some (At (pc + 4)) | Terminator \<Rightarrow> block_exit (terminal (em_block em)))
        (fst (run_block s0 (em_block em))) = Some e \<and>
      arch_steps behaves fetch' (Suc n) start s0 = Some (snd (run_block s0 (em_block em)), e)"
    using arch f by (cases status) (auto split: prod.splits)
qed

lemma can_fall_back_grow:
  assumes "can_fall_back behaves fault fetch start limit st" "restores (l_block st) b" "ranges b = ranges (l_block st)"
  shows "can_fall_back behaves fault fetch start limit (st\<lparr>l_block := b\<rparr>)"
  using assms restores_trans unfolding can_fall_back_def returns_to_def by (fastforce)

lemma does_same:
  assumes "does behaves fetch start rs n b ex" "same_nodes b c" "wf_block b"
  shows "does behaves fetch start rs n c ex"
  using assms(1) unfolding does_def run_block_same[OF assms(2,3)] .

lemma saturating_inc: "c < limit \<Longrightarrow> saturating_inc c \<le> limit" "c < limit \<Longrightarrow> unat (saturating_inc c) = Suc (unat c)"
proof -
  assume c: "c < limit"
  then have "c \<noteq> -1" using word_order.extremum_strict by blast
  then show "unat (saturating_inc c) = Suc (unat c)"
    by (simp add: saturating_inc_def unatSuc add.commute) (metis add.commute unatSuc add_eq_0_iff)
  then show "saturating_inc c \<le> limit" using c by (simp add: word_le_nat_alt word_less_nat_alt)
qed

lemma does_mono:
  assumes "does behaves fetch start rs n b ex" "\<And>a. slot rs a \<Longrightarrow> slot rs' a"
  shows "does behaves fetch start rs' n b ex"
  using assms unfolding does_def by blast

lemma restores_wf: "wf_block b \<Longrightarrow> restores b b"
  using restores_refl by (auto simp: wf_block_def)

lemma follow_inv:
  assumes b: "b = l_block st" "wf_block b" "cycles b \<le> limit" "terminal b = DirectBranch t lnk"
    and d: "fault = None \<longrightarrow> does behaves fetch start (ranges b @ [(l_seg st, l_pc st + 4)]) (unat (cycles b)) b (block_exit (terminal b))"
  shows "loop_inv behaves fault fetch start limit (follow t st)"
proof -
  let ?b = "b\<lparr>ranges := ranges b @ [(l_seg st, l_pc st + 4)]\<rparr>"
  have same: "same_nodes b (?b\<lparr>terminal := Invalid\<rparr>)" "same_nodes b ?b" by (simp_all add: same_nodes_def)
  have "does behaves fetch start (ranges ?b @ [(t, t)]) (unat (cycles b)) (?b\<lparr>terminal := Invalid\<rparr>) (\<lambda>_. Some (At t))"
    if "fault = None"
  proof (rule does_mono[OF does_same[OF _ same(1) b(2)]])
    show "does behaves fetch start (ranges ?b) (unat (cycles b)) b (\<lambda>_. Some (At t))"
      using d that by (simp add: does_def b(4))
  qed (auto simp: slot_def)
  moreover have "returns_to behaves fault fetch start limit (?b\<lparr>terminal := Invalid\<rparr>)
      \<lparr>fo_mark = mark ?b, fo_cycles = cycles ?b, fo_ranges = length (ranges b), fo_terminal = terminal ?b, fo_pc = l_pc st\<rparr>"
    unfolding returns_to_def
    by (rule exI[of _ ?b]) (use b d does_same[OF _ same(2) b(2)] restores_wf[OF b(2)] in simp)
  ultimately show ?thesis
    using b by (auto simp: loop_inv_def can_fall_back_def follow_def Let_def)
qed

lemma step_result:
  assumes inv: "loop_inv behaves fault fetch start limit st" and less: "cycles (l_block st) < limit"
  shows "\<exists>r. block_step tr fault fetch opts limit st = Some r \<and> step_ok behaves fault fetch start limit st r"
proof (cases "fetch (l_pc st)")
  case None
  then show ?thesis using inv by (simp add: block_step_def step_ok_def loop_inv_def)
next
  case (Some insn)
  let ?b = "l_block st"
  have wf: "wf_block ?b" using inv by (simp add: loop_inv_def)
  obtain k where k: "l_pc st = l_seg st + of_nat (4 * k)" "k \<le> unat (cycles ?b)" using inv by (auto simp: loop_inv_def)
  then have k32: "k < 2 ^ 32" using unsigned_less[of "cycles ?b", where ?'a = nat] by simp
  obtain r em where tr: "tr insn \<lparr>em_block = ?b, current_pc = l_pc st\<rparr> = Some (r, em)" using tr_total[OF wf] by blast
  note res = tr_result[OF wf tr]
  show ?thesis
  proof (cases r)
    case (Inl e)
    have "can_fall_back behaves fault fetch start limit (st\<lparr>l_block := em_block em\<rparr>)"
      using inv by (intro can_fall_back_grow res) (simp add: loop_inv_def)
    then show ?thesis using Some tr Inl by (simp add: block_step_def step_ok_def)
  next
    case (Inr status)
    obtain em' where f: "(if status = Continue then fault_apply fault insn em else Some ((), em)) = Some ((), em')"
        "wf_block (em_block em')" "restores ?b (em_block em')" "cycles (em_block em') = cycles ?b" "ranges (em_block em') = ranges ?b"
        "fault = None \<or> status = Terminator \<longrightarrow> em' = em"
      using fault_result[OF wf tr, of fault] res that by (cases status; cases fault) (auto simp: fault_apply_none)
    define b where "b = (em_block em')\<lparr>cycles := saturating_inc (cycles ?b)\<rparr>"
    have b: "wf_block b" "restores ?b b" "cycles b \<le> limit" "unat (cycles b) = Suc (unat (cycles ?b))" "ranges b = ranges ?b"
      using f saturating_inc[OF less] by (simp_all add: b_def)
    have d: "does behaves fetch start (ranges ?b @ [(l_seg st, l_pc st + 4)]) (unat (cycles b)) b
        (case status of Continue \<Rightarrow> \<lambda>_. Some (At (l_pc st + 4)) | Terminator \<Rightarrow> block_exit (terminal b))" if "fault = None"
    proof -
      have em: "em' = em" using f(6) that by simp
      have "does behaves fetch start (ranges ?b @ [(l_seg st, l_pc st + 4)]) (unat (cycles b)) (em_block em)
          (case status of Continue \<Rightarrow> \<lambda>_. Some (At (l_pc st + 4)) | Terminator \<Rightarrow> block_exit (terminal (em_block em)))"
        unfolding b(4) by (rule does_step[where insn = insn, OF wf k(1) k32])
          (use inv that tr Inr Some in \<open>simp_all add: loop_inv_def\<close>)
      from does_same[OF this, of b] have "does behaves fetch start (ranges ?b @ [(l_seg st, l_pc st + 4)]) (unat (cycles b)) b
          (case status of Continue \<Rightarrow> \<lambda>_. Some (At (l_pc st + 4)) | Terminator \<Rightarrow> block_exit (terminal (em_block em)))"
        using res(1) by (simp add: b_def em same_nodes_def)
      moreover have "terminal b = terminal (em_block em)" by (simp add: b_def em)
      ultimately show ?thesis by (simp only:)
    qed
    have fb: "can_fall_back behaves fault fetch start limit (st\<lparr>l_block := b\<rparr>)"
      using inv by (intro can_fall_back_grow b) (simp add: loop_inv_def)
    have step: "block_step tr fault fetch opts limit st =
        (if status = Continue then Some (Inr (st\<lparr>l_block := b, l_pc := l_pc st + 4\<rparr>))
         else case followable opts limit (st\<lparr>l_block := b\<rparr>) of
           Some t \<Rightarrow> Some (Inr (follow t (st\<lparr>l_block := b\<rparr>)))
         | None \<Rightarrow> Some (Inl (Inr True, st\<lparr>l_block := b\<lparr>end_pc := l_pc st + 4, ranges := ranges b @ [(l_seg st, l_pc st + 4)]\<rparr>\<rparr>)))"
      using Some tr Inr f(1,4) by (simp add: block_step_def b_def Let_def cong: option.case_cong)
    show ?thesis
    proof (cases status)
      case Continue
      have "l_pc st + 4 = l_seg st + of_nat (4 * Suc k)" using k(1) by (simp add: algebra_simps)
      then show ?thesis
        using step Continue b d fb k(2) unfolding step_ok_def loop_inv_def can_fall_back_def
        by (auto intro!: exI[of _ "Suc k"])
    next
      case Terminator
      show ?thesis
      proof (cases "followable opts limit (st\<lparr>l_block := b\<rparr>)")
        case none: None
        let ?c = "b\<lparr>end_pc := l_pc st + 4, ranges := ranges b @ [(l_seg st, l_pc st + 4)]\<rparr>"
        have "ended behaves fault fetch start limit ?c"
          using b d does_same[of fetch start "ranges ?c" "unat (cycles b)" b "block_exit (terminal b)" ?c] Terminator
          by (simp add: ended_def same_nodes_def)
        then show ?thesis using step Terminator none by (simp add: step_ok_def)
      next
        case (Some t)
        then obtain lnk where t: "terminal b = DirectBranch t lnk" by (auto simp: followable_def split: terminal.splits if_splits)
        have "loop_inv behaves fault fetch start limit (follow t (st\<lparr>l_block := b\<rparr>))"
          by (rule follow_inv[of b]) (use b d Terminator t in simp_all)
        moreover have "cycles (l_block (follow t (st\<lparr>l_block := b\<rparr>))) = cycles b" by (simp add: follow_def Let_def)
        ultimately show ?thesis using step Terminator Some b(4) by (simp add: step_ok_def)
      qed
    qed
  qed
qed

lemma loop_result:
  assumes "loop_inv behaves fault fetch start limit st" "unat limit \<le> unat (cycles (l_block st)) + n"
  shows "\<exists>r st'. block_loop tr fault fetch opts limit n st = Some (r, st') \<and> loop_ok behaves fault fetch start limit r st'"
  using assms
proof (induction n arbitrary: st)
  case 0
  then have "\<not> cycles (l_block st) < limit" by (simp add: word_less_nat_alt)
  then show ?case using 0 by (simp add: loop_ok_def)
next
  case (Suc n)
  show ?case
  proof (cases "cycles (l_block st) < limit")
    case True
    obtain r where r: "block_step tr fault fetch opts limit st = Some r" "step_ok behaves fault fetch start limit st r"
      using step_result[OF Suc.prems(1) True] by blast
    show ?thesis
    proof (cases r)
      case (Inl out)
      then show ?thesis
        using r True by (cases out; cases "fst out") (auto simp: step_ok_def loop_ok_def)
    next
      case (Inr st')
      then have "\<exists>r st''. block_loop tr fault fetch opts limit n st' = Some (r, st'') \<and> loop_ok behaves fault fetch start limit r st''"
        using r Suc.prems(2) by (intro Suc.IH) (simp_all add: step_ok_def)
      then show ?thesis using Inr r True by simp
    qed
  qed (use Suc.prems in \<open>simp add: loop_ok_def\<close>)
qed

lemma initial_inv: "loop_inv behaves fault fetch start limit \<lparr>l_block = block_reset start b, l_pc = start, l_seg = start, l_followed = None\<rparr>"
proof -
  have inv: "block_inv (block_reset start b) []" by (rule block_inv_reset)
  then have run: "snd (run_block s0 (block_reset start b)) = s0" for s0
    using iter_live_inv(1)[OF inv] by (simp add: run_block_def runs_def)
  moreover have "cycles (block_reset start b) = 0" by (simp add: block_reset_def)
  ultimately show ?thesis using inv by (auto simp: loop_inv_def wf_block_def can_fall_back_def does_def)
qed

text \<open>A block that was returned: what it does, and how many instructions it counts.\<close>

theorem block_result:
  assumes "limit = (if max_insts opts = 0 then 1 else max_insts opts)"
  shows "\<exists>err b'. translate_block_into tr fault b start fetch opts = Some (err, b') \<and>
    (err = None \<longrightarrow> ended behaves fault fetch start limit b')"
proof -
  let ?st = "\<lparr>l_block = block_reset start b, l_pc = start, l_seg = start, l_followed = None\<rparr>"
  obtain r st where loop: "block_loop tr fault fetch opts limit (unat limit) ?st = Some (r, st)"
      "loop_ok behaves fault fetch start limit r st"
    using loop_result[OF initial_inv, of limit start b "unat limit" fault fetch opts] by auto
  show ?thesis
  proof (cases r)
    case (Inr t)
    show ?thesis
    proof (cases t)
      case True
      then show ?thesis using loop Inr assms by (simp add: translate_block_into_def loop_ok_def Let_def)
    next
      case False
      then have inv: "loop_inv behaves fault fetch start limit st" using loop Inr by (simp add: loop_ok_def)
      let ?rs = "if l_pc st \<noteq> l_seg st \<or> ranges (l_block st) = [] then ranges (l_block st) @ [(l_seg st, l_pc st)] else ranges (l_block st)"
      let ?b = "(l_block st)\<lparr>end_pc := l_pc st, ranges := ?rs, terminal := LinkBlock (l_pc st)\<rparr>"
      have "slot (ranges (l_block st) @ [(l_seg st, l_pc st)]) a \<Longrightarrow> slot ?rs a" for a by (auto simp: slot_def split: if_splits)
      then have "does behaves fetch start ?rs (unat (cycles ?b)) (l_block st) (\<lambda>_. Some (At (l_pc st)))" if "fault = None"
        using does_mono inv that unfolding loop_inv_def by fastforce
      then have "does behaves fetch start ?rs (unat (cycles ?b)) ?b (block_exit (terminal ?b))" if "fault = None"
        using does_same[of fetch start ?rs _ "l_block st" _ ?b] inv that by (simp add: loop_inv_def same_nodes_def comp_def)
      moreover have "wf_block ?b" using inv wf_block_same[of "l_block st" ?b] by (simp add: loop_inv_def same_nodes_def)
      ultimately have "ended behaves fault fetch start limit ?b" using inv by (simp add: ended_def loop_inv_def)
      moreover have "translate_block_into tr fault b start fetch opts = Some (None, ?b)"
        using loop(1) Inr False unfolding translate_block_into_def assms[symmetric] Let_def
        by (cases "l_pc st = l_seg st"; cases "ranges (l_block st)") simp_all
      ultimately show ?thesis by blast
    qed
  next
    case (Inl e)
    show ?thesis
    proof (cases "l_followed st")
      case None
      then show ?thesis using loop Inl assms by (simp add: translate_block_into_def Let_def)
    next
      case (Some f)
      then obtain b0 where b0: "fo_mark f = mark b0" "wf_block b0" "restores b0 (l_block st)"
          "take (fo_ranges f + 1) (ranges (l_block st)) = ranges b0" "fo_cycles f \<le> limit"
          "fault = None \<longrightarrow> does behaves fetch start (ranges b0) (unat (fo_cycles f)) b0 (block_exit (fo_terminal f))"
        using loop Inl by (auto simp: loop_ok_def can_fall_back_def returns_to_def)
      obtain c where c: "rollback (mark b0) (l_block st) = Some c" "same_nodes c b0" using b0(3) by (auto simp: restores_def)
      let ?c = "c\<lparr>cycles := fo_cycles f, terminal := fo_terminal f, end_pc := fo_pc f + 4, ranges := ranges b0\<rparr>"
      have same: "same_nodes b0 ?c" using c(2) by (simp add: same_nodes_def)
      then have "ended behaves fault fetch start limit ?c"
        using b0 does_same[OF _ same b0(2)] wf_block_same[OF same b0(2)] by (simp add: ended_def)
      moreover have "ranges c = ranges (l_block st)" by (rule rollback_fields[OF c(1)])
      ultimately show ?thesis using loop Inl Some assms b0 c(1) by (simp add: translate_block_into_def Let_def)
    qed
  qed
qed

end

section \<open>The translated instructions\<close>

text \<open>The meaning of a decoded instruction, where the translators are proved to implement it.\<close>

definition seq :: "(u64 \<Rightarrow> guest \<Rightarrow> guest) \<Rightarrow> behaviour" where
  "seq f = (\<lambda>pc s. (f pc s, At (pc + 4)))"

definition jump :: "(u64 \<Rightarrow> guest \<Rightarrow> guest \<times> u64) \<Rightarrow> behaviour" where
  "jump f = (\<lambda>pc s. map_prod id At (f pc s))"

definition provided :: "bool \<Rightarrow> 'a \<Rightarrow> 'a option" where
  "provided c x = (if c then Some x else None)"

fun arch_op :: "operation \<Rightarrow> behaviour option" where
  "arch_op (ADDSUB_IMM i) = (case addsub_imm_op i of None \<Rightarrow> None | Some (insn, is_sub, setf) \<Rightarrow>
     provided (\<not> setf \<or> reg insn 5 \<noteq> 31) (seq (\<lambda>_. a64_addsub_imm is_sub setf insn)))"
| "arch_op (ADDSUB_EXT i) = (case addsub_ext_op i of (insn, is_sub, setf) \<Rightarrow>
     provided ((\<not> setf \<or> reg insn 5 \<noteq> 31) \<and> bits insn 10 3 \<le> 4) (seq (\<lambda>_. a64_addsub_ext is_sub setf insn)))"
| "arch_op (ADDSUB_SHIFT i) = (case addsub_shift_op i of (insn, is_sub, setf) \<Rightarrow>
     provided (bits insn 22 2 \<noteq> 3 \<and> (bit insn 31 \<or> bits insn 10 6 < 32)) (seq (\<lambda>_. a64_addsub_shift is_sub setf insn)))"
| "arch_op (ADDSUB_CARRY i) = (case addsub_carry_op i of (insn, is_sub, setf) \<Rightarrow>
     Some (seq (\<lambda>_. a64_addsub_carry is_sub setf insn)))"
| "arch_op (LOG_IMM i) = (case log_imm_op i of (insn, p) \<Rightarrow>
     provided ((bit insn 31 \<or> \<not> bit insn 22) \<and>
       decode_bit_masks (bit1 insn 22) (bits insn 10 6) (bits insn 16 6) (if bit insn 31 then 64 else 32) \<noteq> None)
       (seq (\<lambda>_. a64_log_imm (log_kind p) (log_flags p) insn)))"
| "arch_op (LOG_SHIFT i) = (case log_shift_op i of (insn, p) \<Rightarrow>
     provided (bit insn 31 \<or> bits insn 10 6 < 32) (seq (\<lambda>_. a64_log_shift (log_kind p) (log_invert p) (log_flags p) insn)))"
| "arch_op (MOVEWIDE i) = (case movewide_op i of (kind, insn) \<Rightarrow>
     provided (bit insn 31 \<or> bits insn 21 2 < 2) (seq (\<lambda>_. a64_movewide kind insn)))"
| "arch_op (BITFIELD i) = (case bitfield_op i of (insn, kind) \<Rightarrow>
     provided (bit insn 22 = bit insn 31 \<and> (bit insn 31 \<or> bits insn 16 6 < 32 \<and> bits insn 10 6 < 32))
       (seq (\<lambda>_. a64_bitfield kind insn)))"
| "arch_op (EXTRACT (EXTR_Rd_Rn_Rm_IMMS insn)) =
     provided (bit insn 22 = bit insn 31 \<and> (bit insn 31 \<or> bits insn 10 6 < 32)) (seq (\<lambda>_. a64_extract insn))"
| "arch_op (CONDSEL i) = (case condsel_op i of (insn, cs) \<Rightarrow>
     Some (seq (\<lambda>_. a64_condsel (cs \<in> {Csinv, Csneg}) (cs \<in> {Csinc, Csneg}) insn)))"
| "arch_op (CONDCMP_IMM i) = (case condcmp_imm_op i of (insn, is_sub) \<Rightarrow> Some (seq (\<lambda>_. a64_condcmp is_sub True insn)))"
| "arch_op (CONDCMP_REG i) = (case condcmp_reg_op i of (insn, is_sub) \<Rightarrow> Some (seq (\<lambda>_. a64_condcmp is_sub False insn)))"
| "arch_op (DP_1SRC i) = (case dp_1src_op i of Inl insn \<Rightarrow> Some (seq (\<lambda>_ s. s))
     | Inr (insn, k) \<Rightarrow> provided (k \<noteq> Rev32 \<or> bit insn 31) (seq (\<lambda>_. a64_dp_1src k insn)))"
| "arch_op (DP_2SRC i) = (case dp_2src_op i of None \<Rightarrow> None | Some (Inl insn) \<Rightarrow> Some (seq (\<lambda>_. a64_crc insn))
     | Some (Inr (insn, k)) \<Rightarrow> Some (seq (\<lambda>_. a64_dp_2src k insn)))"
| "arch_op (DP_3SRC i) = (case dp_3src_op i of (insn, k) \<Rightarrow> Some (seq (\<lambda>_. a64_dp_3src k insn)))"
| "arch_op (PCRELADDR i) = (case pcreladdr_op i of (insn, page) \<Rightarrow> Some (seq (a64_adr page insn)))"
| "arch_op (BRANCH_IMM i) = (case branch_imm_op i of (insn, link) \<Rightarrow> Some (jump (a64_branch_imm link insn)))"
| "arch_op (BRANCH_REG i) = (case branch_reg_op i of None \<Rightarrow> None
     | Some (insn, link, is_ret) \<Rightarrow> Some (jump (a64_branch_reg link insn)))"
| "arch_op (CONDBRANCH i) = Some (jump (a64_condbranch (condbranch_word i)))"
| "arch_op (COMPBRANCH i) = (case compbranch_op i of (insn, negate) \<Rightarrow> Some (jump (a64_compbranch negate insn)))"
| "arch_op (TESTBRANCH i) = (case testbranch_op i of (insn, negate) \<Rightarrow> Some (jump (a64_testbranch negate insn)))"
| "arch_op (EXCEPTION i) = (case exception_op i of None \<Rightarrow> None
     | Some (p, kind, insn) \<Rightarrow> Some (\<lambda>pc s. (s, Raise kind (bits insn 5 16))))"
| "arch_op (IC_SYSTEM i) = (case i of
       SYS_UIMM3_OP1_CRn_CRm_UIMM3_OP2_Rt insn \<Rightarrow> provided (zva_op insn) (seq (\<lambda>_. a64_zva insn))
     | _ \<Rightarrow> provided (no_effect i) (seq (\<lambda>_ s. s)))"
| "arch_op (LDST_POS i) = (case ldst_pos_op i of MemPrefetch \<Rightarrow> Some (seq (\<lambda>_ s. s)) | MemOther \<Rightarrow> None
     | MemAccess insn kind x \<Rightarrow> provided (access_defined kind x insn) (seq (\<lambda>_. a64_ldst_pos kind x insn)))"
| "arch_op (LDST_UNSCALED i) = (case ldst_unscaled_op i of MemPrefetch \<Rightarrow> Some (seq (\<lambda>_ s. s)) | MemOther \<Rightarrow> None
     | MemAccess insn kind x \<Rightarrow> provided (access_defined kind x insn) (seq (\<lambda>_. a64_ldst_unscaled kind x insn)))"
| "arch_op (LDST_IMM9 i) = (case ldst_imm9_op i of MemPrefetch \<Rightarrow> Some (seq (\<lambda>_ s. s)) | MemOther \<Rightarrow> None
     | MemAccess insn kind x \<Rightarrow> provided (access_defined kind x insn) (seq (\<lambda>_. a64_ldst_imm9 kind x (imm9_mode insn) insn)))"
| "arch_op (LDST_REGOFF i) = (case ldst_regoff_op i of MemPrefetch \<Rightarrow> Some (seq (\<lambda>_ s. s)) | MemOther \<Rightarrow> None
     | MemAccess insn kind x \<Rightarrow> provided (access_defined kind x insn \<and> bits insn 13 3 \<in> {2, 3, 6, 7})
         (seq (\<lambda>_. a64_ldst_regoff kind x insn)))"
| "arch_op (LDSTPAIR_OFF i) = (case ldstpair_off_op i of None \<Rightarrow> None | Some (Inl insn) \<Rightarrow> Some (seq (\<lambda>_. a64_ldpsw Off insn))
     | Some (Inr (insn, is_load, is_fp)) \<Rightarrow> provided (pair_layout is_fp (bits insn 30 2) \<noteq> None)
         (seq (\<lambda>_. a64_pair is_load is_fp Off insn)))"
| "arch_op (LDSTPAIR_INDEXED i) = (case ldstpair_indexed_op i of None \<Rightarrow> None
     | Some (Inl insn) \<Rightarrow> Some (seq (\<lambda>_. a64_ldpsw (pair_mode insn) insn))
     | Some (Inr (insn, is_load, is_fp)) \<Rightarrow> provided (pair_layout is_fp (bits insn 30 2) \<noteq> None)
         (seq (\<lambda>_. a64_pair is_load is_fp (pair_mode insn) insn)))"
| "arch_op (LOADLIT i) = (case loadlit_op i of None \<Rightarrow> Some (seq (\<lambda>_ s. s))
     | Some insn \<Rightarrow> provided (bits insn 30 2 \<noteq> 3) (seq (a64_loadlit insn)))"
| "arch_op (LDSTEXCL i) = (case ldstexcl_op i of Some (insn, LoadAcq n x) \<Rightarrow> Some (seq (\<lambda>_. a64_ordered True n insn))
     | Some (insn, StoreRel n) \<Rightarrow> Some (seq (\<lambda>_. a64_ordered False n insn)) | _ \<Rightarrow> None)"
| "arch_op (LSE_ATOMIC (Lse name insn)) = (case map_of lse_table name of
       Some (f, fixed) \<Rightarrow> Some (seq (\<lambda>_. a64_lse f (lse_bytes fixed insn) insn))
     | None \<Rightarrow> provided (name \<in> set casp_names \<and> even (reg insn 16) \<and> even (reg insn 0)) (seq (\<lambda>_. a64_casp insn)))"
| "arch_op _ = None"

definition arch_insn :: "(u32 \<Rightarrow> operation option) \<Rightarrow> u32 \<Rightarrow> behaviour option" where
  "arch_insn decoder insn = (case decoder insn of None \<Rightarrow> None | Some operation \<Rightarrow> arch_op operation)"

lemma correct_implements:
  assumes "correct t f"
  shows "implements t (seq f)"
proof (rule implementsI)
  fix em s0 assume "em_wf em"
  then obtain em' where em': "t em = Some (Inr Continue, em')"
      "snd (runs s0 em') = f (current_pc em) (snd (runs s0 em))"
    using assms unfolding correct_def by metis
  then show "\<exists>status em'. t em = Some (Inr status, em') \<and> implemented (seq f) em s0 status em'"
    by (simp add: seq_def implemented_def)
qed

lemma terminator_implements:
  assumes "\<And>em s0. em_wf em \<Longrightarrow> \<exists>em'. t em = Some (Inr Terminator, em') \<and>
    (\<exists>e. block_exit (terminal (em_block em')) (fst (runs s0 em')) = Some e \<and>
      f (current_pc em) (snd (runs s0 em)) = (snd (runs s0 em'), e))"
  shows "implements t f"
  by (rule implementsI) (use assms in \<open>force simp: implemented_def\<close>)

lemma correct_branch_implements:
  assumes "correct_branch t f"
  shows "implements t (jump f)"
proof (rule terminator_implements)
  have not_exception: "block_exit t env = Some (At pc)" if "branch_target t (low64 \<circ> env) = Some pc" for t env pc
    using that by (cases t) simp_all
  fix em s0 assume wf: "em_wf em"
  obtain em' where em': "t em = Some (Inr Terminator, em')"
      "case runs s0 em' of (env, s) \<Rightarrow> \<exists>pc. branch_target (terminal (em_block em')) (low64 \<circ> env) = Some pc \<and>
        (s, pc) = f (current_pc em) (snd (runs s0 em))"
    using assms[unfolded correct_branch_def, THEN spec[of _ em], THEN spec[of _ s0], THEN mp, OF wf] by (elim exE conjE)
  obtain env s where run: "runs s0 em' = (env, s)" by (cases "runs s0 em'")
  then obtain pc where pc: "branch_target (terminal (em_block em')) (low64 \<circ> env) = Some pc"
      "f (current_pc em) (snd (runs s0 em)) = (s, pc)" using em'(2) by auto
  show "\<exists>em'. t em = Some (Inr Terminator, em') \<and> (\<exists>e. block_exit (terminal (em_block em')) (fst (runs s0 em')) = Some e \<and>
      jump f (current_pc em) (snd (runs s0 em)) = (snd (runs s0 em'), e))"
    by (intro exI[of _ em'] exI[of _ "At pc"]) (simp add: em' run pc not_exception jump_def)
qed

lemma exception_implements:
  assumes "exception_op i = Some (p, kind, insn)"
  shows "implements (translate_exception i) (\<lambda>pc s. (s, Raise kind (bits insn 5 16)))"
proof (rule terminator_implements)
  fix em s0 assume "em_wf em"
  from exception_result[OF assms this, of s0] obtain em' where "translate_exception i em = Some (Inr Terminator, em')"
    "snd (runs s0 em') = snd (runs s0 em)" "terminal (em_block em') = Exception kind (bits insn 5 16)" by blast
  then show "\<exists>em'. translate_exception i em = Some (Inr Terminator, em') \<and>
      (\<exists>e. block_exit (terminal (em_block em')) (fst (runs s0 em')) = Some e \<and>
        (snd (runs s0 em), Raise kind (bits insn 5 16)) = (snd (runs s0 em'), e))"
    by (intro exI[of _ em']) simp
qed

lemma provided_Some: "provided c x = Some y \<longleftrightarrow> c \<and> x = y"
  by (simp add: provided_def)

text \<open>The loads, stores and atomics.\<close>

lemma memory_implements:
  "arch_op (LDST_POS i1) = Some f \<Longrightarrow> implements (translate_ldst_pos i1) f"
  "arch_op (LDST_UNSCALED i2) = Some f \<Longrightarrow> implements (translate_ldst_unscaled i2) f"
  "arch_op (LDST_IMM9 i3) = Some f \<Longrightarrow> implements (translate_ldst_imm9 i3) f"
  "arch_op (LDST_REGOFF i4) = Some f \<Longrightarrow> implements (translate_ldst_regoff i4) f"
  "arch_op (LDSTPAIR_OFF i5) = Some f \<Longrightarrow> implements (translate_ldstpair_off i5) f"
  "arch_op (LDSTPAIR_INDEXED i6) = Some f \<Longrightarrow> implements (translate_ldstpair_indexed i6) f"
  "arch_op (LOADLIT i7) = Some f \<Longrightarrow> implements (translate_loadlit i7) f"
  "arch_op (LDSTEXCL i8) = Some f \<Longrightarrow> implements (translate_ldstexcl i8) f"
  "arch_op (LSE_ATOMIC i9) = Some f \<Longrightarrow> implements (translate_lse_atomic i9) f"
proof -
  show "arch_op (LSE_ATOMIC i9) = Some f \<Longrightarrow> implements (translate_lse_atomic i9) f"
    by (cases i9) (auto simp: provided_Some simp del: translate_lse_atomic.simps split: option.splits
        intro!: correct_implements lse_atomic_correct lse_pair_correct)
qed (auto simp: provided_Some split: mem_op.splits option.splits sum.splits excl_kind.splits intro!: correct_implements
    prefetch_correct ldst_pos_correct ldst_unscaled_correct ldst_imm9_correct ldst_regoff_correct pairs_correct
    ldpsw_forms_correct loadlit_correct ordered_correct)

lemma dispatch_implements:
  assumes "arch_op operation = Some f"
  shows "implements (dispatch decoder others operation insn) f"
proof (cases operation)
  case (IC_SYSTEM i)
  then show ?thesis
    using assms correct_implements[OF ic_system_hint_correct[of i]] correct_implements[OF zva_correct]
    by (cases i) (auto simp: provided_Some)
next
  case (CONDSEL i)
  then show ?thesis
    using assms condsel_correct[of i] by (cases "condsel_op i") (auto intro!: correct_implements)
next
  case (EXTRACT i)
  then show ?thesis
    using assms extract_correct by (cases i) (auto simp: provided_Some not_le intro!: correct_implements)
next
  case (LDST_POS i)
  then show ?thesis using assms memory_implements(1)[of i f] by (simp only: dispatch.simps)
next
  case (LDST_UNSCALED i)
  then show ?thesis using assms memory_implements(2)[of i f] by (simp only: dispatch.simps)
next
  case (LDST_IMM9 i)
  then show ?thesis using assms memory_implements(3)[of i f] by (simp only: dispatch.simps)
next
  case (LDST_REGOFF i)
  then show ?thesis using assms memory_implements(4)[of i f] by (simp only: dispatch.simps)
next
  case (LDSTPAIR_OFF i)
  then show ?thesis using assms memory_implements(5)[of i f] by (simp only: dispatch.simps)
next
  case (LDSTPAIR_INDEXED i)
  then show ?thesis using assms memory_implements(6)[of i f] by (simp only: dispatch.simps)
next
  case (LOADLIT i)
  then show ?thesis using assms memory_implements(7)[of i f] by (simp only: dispatch.simps)
next
  case (LDSTEXCL i)
  then show ?thesis using assms memory_implements(8)[of i f] by (simp only: dispatch.simps)
next
  case (LSE_ATOMIC i)
  then show ?thesis using assms memory_implements(9)[of i f] by (simp only: dispatch.simps)
qed (use assms in \<open>auto simp: provided_Some not_le not_less split: prod.splits option.splits sum.splits EXTRACT.splits if_splits
    intro!: correct_implements correct_branch_implements exception_implements
      addsub_imm_correct addsub_ext_correct addsub_shift_correct addsub_carry_correct log_imm_correct log_shift_correct
      movewide_correct bitfield_correct extract_correct condsel_correct condcmp_imm_correct condcmp_reg_correct
      dp_1src_correct pac_correct dp_2src_correct crc_correct dp_3src_correct pcreladdr_correct branch_imm_correct
      branch_reg_correct condbranch_correct compbranch_correct testbranch_correct\<close>)

lemma implements_instruction:
  assumes "arch_insn decoder insn = Some f"
  shows "implements (translate_instruction decoder others plan_of insn) f"
proof -
  obtain operation where d: "decoder insn = Some operation" "arch_op operation = Some f"
    using assms by (auto simp: arch_insn_def split: option.splits)
  show ?thesis
  proof (rule implementsI)
    fix em s0 assume "em_wf em"
    from implementsD[OF dispatch_implements[OF d(2), of decoder others insn] this, of s0]
    show "\<exists>status em'. translate_instruction decoder others plan_of insn em = Some (Inr status, em') \<and>
        implemented f em s0 status em'"
      using d(1) by (auto simp: translate_instruction_def)
  qed
qed

lemma translator_instruction:
  assumes "\<And>insn em. em_wf em \<Longrightarrow> grows em (others insn em)"
  shows "translator (translate_instruction decoder others plan_of) (arch_insn decoder)"
  by unfold_locales (use assms grows_instruction implements_instruction in blast)+

text \<open>With no other family translated, everything else goes to a helper or is unsupported.\<close>

interpretation int_translator: translator "translate_instruction decoder (\<lambda>insn. unsupported) plan_of" "arch_insn decoder"
  for decoder plan_of
  by (rule translator_instruction) (auto intro: grow_rules extends_refl)

text \<open>A branch to an addition, two words beyond.\<close>

definition sample_fetch :: "u64 \<Rightarrow> u32 option" where
  "sample_fetch a = (if a = 0x1000 then Some 0x14000002 else if a = 0x1008 then Some 0x91000420 else None)"

definition sample_decoder :: "u32 \<Rightarrow> operation option" where
  "sample_decoder w = (if w = 0x14000002 then Some (BRANCH_IMM (B_ADDR_PCREL26 w))
     else if w = 0x91000420 then Some (ADDSUB_IMM (ADD_Rd_SP_Rn_SP_AIMM w)) else None)"

definition sample_translate :: "u32 \<Rightarrow> (error option \<times> block) option" where
  "sample_translate n = translate_block_into (translate_instruction sample_decoder (\<lambda>_. unsupported) (\<lambda>_. None)) None
     (block_new 0) 0x1000 sample_fetch \<lparr>max_insts = n, multiblock = True\<rparr>"

lemma sample_translated:
  "(case sample_translate 2 of Some (None, b) \<Rightarrow> cycles b = 2 \<and> terminal b = LinkBlock 0x100C \<and> ranges b = [(0x1000, 0x1004), (0x1008, 0x100C)]
    | _ \<Rightarrow> False)"
  "(case sample_translate 64 of Some (None, b) \<Rightarrow> cycles b = 1 \<and> terminal b = DirectBranch 0x1008 False \<and> ranges b = [(0x1000, 0x1004)]
    | _ \<Rightarrow> False)"
  by code_simp+

section \<open>Errors\<close>

definition fails_at :: "(u32 \<Rightarrow> translation) \<Rightarrow> (u64 \<Rightarrow> u32 option) \<Rightarrow> u64 \<Rightarrow> error \<Rightarrow> bool" where
  "fails_at tr fetch pc e \<longleftrightarrow> (case fetch pc of None \<Rightarrow> e = GuestMemory pc
     | Some insn \<Rightarrow> \<exists>b em. tr insn \<lparr>em_block = b, current_pc = pc\<rparr> = Some (Inl e, em))"

lemma block_step_followed:
  "block_step tr fault fetch opts limit st = Some (Inr st') \<Longrightarrow> fetch (l_pc st) \<noteq> None \<and>
    (l_followed st' \<noteq> None \<or> l_followed st' = l_followed st \<and> l_pc st' = l_pc st + 4)"
  "block_step tr fault fetch opts limit st = Some (Inl (r, st')) \<Longrightarrow> l_followed st' = l_followed st"
  "block_step tr fault fetch opts limit st = Some (Inl (Inl e, st')) \<Longrightarrow> fails_at tr fetch (l_pc st) e"
  by (auto simp: block_step_def follow_def fails_at_def Let_def split: option.splits bind_splits sum.splits if_splits) blast

lemma followed_stays:
  "block_loop tr fault fetch opts limit n st = Some (r, st') \<Longrightarrow> l_followed st \<noteq> None \<Longrightarrow> l_followed st' \<noteq> None"
proof (induction n arbitrary: st)
  case (Suc n)
  show ?case
  proof (cases "cycles (l_block st) < limit")
    case True
    then obtain out where out: "block_step tr fault fetch opts limit st = Some out"
      "(case out of Inl out \<Rightarrow> Some out | Inr st \<Rightarrow> block_loop tr fault fetch opts limit n st) = Some (r, st')"
      using Suc.prems(1) by (auto split: bind_splits)
    show ?thesis
    proof (cases out)
      case (Inl a)
      then have "out = Inl (r, st')" using out(2) by simp
      from block_step_followed(2)[OF out(1)[unfolded this]] show ?thesis using Suc.prems(2) by simp
    next
      case (Inr st1)
      have "l_followed st1 \<noteq> None" using block_step_followed(1)[OF out(1)[unfolded Inr]] Suc.prems(2) by auto
      then show ?thesis using Suc.IH[of st1] out(2) Inr by simp
    qed
  qed (use Suc.prems in auto)
qed (auto split: if_splits)

lemma loop_error:
  assumes "block_loop tr fault fetch opts limit n st = Some (Inl e, st')" "l_followed st' = None"
  shows "\<exists>i<n. fails_at tr fetch (l_pc st + of_nat (4 * i)) e \<and> (\<forall>j<i. fetch (l_pc st + of_nat (4 * j)) \<noteq> None)"
  using assms
proof (induction n arbitrary: st)
  case (Suc n)
  then have "cycles (l_block st) < limit" by (auto split: if_splits)
  then obtain out where out: "block_step tr fault fetch opts limit st = Some out"
    "(case out of Inl out \<Rightarrow> Some out | Inr st \<Rightarrow> block_loop tr fault fetch opts limit n st) = Some (Inl e, st')"
    using Suc.prems(1) by (auto split: bind_splits)
  show ?case
  proof (cases out)
    case (Inl a)
    then show ?thesis using out block_step_followed(3)[of tr fault fetch opts limit st e st'] by (intro exI[of _ 0]) simp
  next
    case (Inr st1)
    then have loop: "block_loop tr fault fetch opts limit n st1 = Some (Inl e, st')" using out by simp
    then have "l_followed st1 = None" using followed_stays Suc.prems(2) by blast
    then have pc: "l_pc st1 = l_pc st + 4" "fetch (l_pc st) \<noteq> None" using block_step_followed(1)[OF out(1)[unfolded Inr]] by auto
    obtain i where i: "i < n" "fails_at tr fetch (l_pc st1 + of_nat (4 * i)) e" "\<forall>j<i. fetch (l_pc st1 + of_nat (4 * j)) \<noteq> None"
      using Suc.IH[OF loop Suc.prems(2)] by blast
    have shift: "l_pc st + of_nat (4 * Suc j) = l_pc st1 + of_nat (4 * j)" for j by (simp add: pc algebra_simps)
    have "\<forall>j<Suc i. fetch (l_pc st + of_nat (4 * j)) \<noteq> None"
    proof (intro allI impI)
      fix j assume "j < Suc i"
      then show "fetch (l_pc st + of_nat (4 * j)) \<noteq> None"
        using i(3) pc(2) shift by (cases j) (auto simp del: of_nat_mult mult_Suc_right)
    qed
    moreover have "fails_at tr fetch (l_pc st + of_nat (4 * Suc i)) e" unfolding shift by (rule i(2))
    ultimately show ?thesis using i(1) by blast
  qed
qed (auto split: if_splits)

section \<open>Properties\<close>







end
