(* ===== verification/Host_Memory.thy ===== *)
theory Host_Memory
  imports Prelude
begin

text \<open>
  The memory of the host that holds generated code, with the page protections that
  \<open>region::protect\<close> sets. A \<open>usize\<close> is a \<open>nat\<close> below \<open>2 ^ 64\<close>; where the source checks an
  addition, the model does. Masks with a power of two are written as quotients, which
  \<open>page_floor_mask\<close> justifies. A write to a page that is not writable has no result.
\<close>

datatype protection = READ_WRITE | READ_EXECUTE | READ_WRITE_EXECUTE

record code_host =
  h_mem :: "nat \<Rightarrow> u8"
  h_prot :: "nat \<Rightarrow> protection"

definition set_protection :: "nat \<Rightarrow> nat \<Rightarrow> protection \<Rightarrow> code_host \<Rightarrow> code_host" where
  "set_protection addr len p h = h\<lparr>h_prot := (\<lambda>a. if addr \<le> a \<and> a < addr + len then p else h_prot h a)\<rparr>"

fun write_bytes :: "nat \<Rightarrow> u8 list \<Rightarrow> code_host \<Rightarrow> code_host option" where
  "write_bytes addr [] h = Some h"
| "write_bytes addr (b # bs) h =
     (if h_prot h addr = READ_EXECUTE then None
      else write_bytes (addr + 1) bs (h\<lparr>h_mem := (h_mem h)(addr := b)\<rparr>))"

definition i32_bytes :: "int \<Rightarrow> u8 list" where
  "i32_bytes v = (let w = (word_of_int v :: u32) in [ucast w, ucast (drop_bit 8 w), ucast (drop_bit 16 w), ucast (drop_bit 24 w)])"

definition read_i32 :: "(nat \<Rightarrow> u8) \<Rightarrow> nat \<Rightarrow> int" where
  "read_i32 m a = sint (ucast (m a) OR push_bit 8 (ucast (m (a + 1))) OR push_bit 16 (ucast (m (a + 2))) OR
     push_bit 24 (ucast (m (a + 3))) :: u32)"

definition checked_add :: "nat \<Rightarrow> nat \<Rightarrow> nat option" where
  "checked_add a b = (if a + b < 2 ^ 64 then Some (a + b) else None)"

text \<open>\<open>a & !(page - 1)\<close> and \<open>(a + page - 1) & !(page - 1)\<close>.\<close>

definition page_floor :: "nat \<Rightarrow> nat \<Rightarrow> nat" where
  "page_floor page a = a div page * page"

definition page_ceil :: "nat \<Rightarrow> nat \<Rightarrow> nat" where
  "page_ceil page a = (a + page - 1) div page * page"

section \<open>Lemmas\<close>

lemma page_floor_mask:
  assumes "k < 64" "a < 2 ^ 64"
  shows "unat (of_nat a AND NOT (of_nat (2 ^ k) - 1) :: u64) = page_floor (2 ^ k) a"
proof -
  have w: "of_nat a AND NOT (of_nat (2 ^ k) - 1) = push_bit k (drop_bit k (of_nat a :: u64))"
    by (rule bit_word_eqI) (auto simp: bit_simps mask_eq_exp_minus_1[symmetric])
  have "page_floor (2 ^ k) a < 2 ^ 64" using le_less_trans[OF div_times_less_eq_dividend assms(2)] by (simp add: page_floor_def)
  moreover have "unat (of_nat a :: u64) = a" using assms(2) by (simp add: unat_of_nat)
  moreover have "unat (push_bit k (drop_bit k (of_nat a :: u64))) = take_bit 64 (push_bit k (drop_bit k (take_bit 64 (unat (of_nat a :: u64)))))"
    by (simp only: unsigned_push_bit_eq unsigned_drop_bit_eq) simp
  moreover have "push_bit k (drop_bit k a) = page_floor (2 ^ k) a" by (simp add: page_floor_def push_bit_eq_mult drop_bit_eq_div)
  ultimately show ?thesis unfolding w using assms(2) by (simp only: take_bit_nat_eq_self)
qed

lemma page_floor_le: "page_floor page a \<le> a"
  by (simp add: page_floor_def)

lemma page_ceil_ge: "0 < page \<Longrightarrow> a \<le> page_ceil page a"
proof -
  assume p: "0 < page"
  have "a + page - 1 < Suc ((a + page - 1) div page) * page" using p by (metis dividend_less_div_times add.commute mult_Suc)
  then show ?thesis using p by (simp add: page_ceil_def)
qed

lemma page_floor_mono: "a \<le> b \<Longrightarrow> page_floor page a \<le> page_floor page b"
  by (simp add: page_floor_def div_le_mono)

lemma page_floor_next: "0 < page \<Longrightarrow> a < page_floor page a + page"
  by (simp add: page_floor_def) (metis add.commute dividend_less_div_times)

lemma read_i32_cong:
  assumes "\<And>k. k < 4 \<Longrightarrow> m (a + k) = m' (a + k)"
  shows "read_i32 m a = read_i32 m' a"
  using assms[of 0] assms[of 1] assms[of 2] assms[of 3] by (simp add: read_i32_def)

lemma read_i32_bytes:
  assumes "\<And>k. k < 4 \<Longrightarrow> m (a + k) = i32_bytes v ! k" "- (2 ^ 31) \<le> v" "v < 2 ^ 31"
  shows "read_i32 m a = v"
proof -
  let ?w = "word_of_int v :: u32"
  have bytes: "m a = ucast ?w" "m (a + 1) = ucast (drop_bit 8 ?w)" "m (a + 2) = ucast (drop_bit 16 ?w)" "m (a + 3) = ucast (drop_bit 24 ?w)"
    using assms(1)[of 0] assms(1)[of 1] assms(1)[of 2] assms(1)[of 3] by (simp_all add: i32_bytes_def Let_def)
  have "ucast (m a) OR push_bit 8 (ucast (m (a + 1))) OR push_bit 16 (ucast (m (a + 2))) OR push_bit 24 (ucast (m (a + 3))) =
      (word_of_int v :: u32)"
    unfolding bytes
  proof (rule bit_word_eqI)
    fix n assume "n < LENGTH(32)"
    then consider "n < 8" | "8 \<le> n" "n < 16" | "16 \<le> n" "n < 24" | "24 \<le> n" "n < 32" by fastforce
    then show "bit (ucast (ucast ?w :: u8) OR push_bit 8 (ucast (ucast (drop_bit 8 ?w) :: u8)) OR
        push_bit 16 (ucast (ucast (drop_bit 16 ?w) :: u8)) OR push_bit 24 (ucast (ucast (drop_bit 24 ?w) :: u8)) :: u32) n \<longleftrightarrow> bit ?w n"
      by cases (auto simp: bit_simps)
  qed
  then show ?thesis using assms(2,3) by (simp add: read_i32_def sint_sbintrunc' signed_take_bit_int_eq_self)
qed

lemma write_bytes_result:
  assumes "\<And>k. k < length bs \<Longrightarrow> h_prot h (addr + k) \<noteq> READ_EXECUTE"
  shows "write_bytes addr bs h =
    Some (h\<lparr>h_mem := (\<lambda>a. if addr \<le> a \<and> a < addr + length bs then bs ! (a - addr) else h_mem h a)\<rparr>)"
  using assms
proof (induction bs arbitrary: addr h)
  case (Cons b bs)
  have "h_prot h addr \<noteq> READ_EXECUTE" using Cons.prems[of 0] by simp
  moreover have "h_prot h (addr + 1 + k) \<noteq> READ_EXECUTE" if "k < length bs" for k using Cons.prems[of "Suc k"] that by simp
  ultimately show ?case
    using Cons.IH[of "h\<lparr>h_mem := (h_mem h)(addr := b)\<rparr>" "addr + 1"]
    by (auto simp: nth_Cons' fun_eq_iff intro!: arg_cong[where f = "\<lambda>m. h\<lparr>h_mem := m\<rparr>"])
next
  case Nil
  have "(\<lambda>a. if addr \<le> a \<and> a < addr then [] ! (a - addr) else h_mem h a) = h_mem h" by (intro ext if_not_P) linarith
  then show ?case by simp
qed

lemma length_i32_bytes [simp]: "length (i32_bytes v) = 4"
  by (simp add: i32_bytes_def Let_def)

end
