(* ===== verification/Site_Registry.thy ===== *)
theory Site_Registry
  imports Host_Memory "HOL-Library.Monad_Syntax" "HOL-Library.Multiset"
begin

text \<open>
  The registry of inline guest memory accesses, \<open>src/jit/fastmem_direct.rs\<close>: the sites of all
  published blocks in the order of their offsets, the search by the faulting address, and the
  diversion of a fault to the slow path, by a short jump written over the access when it reaches.
  The signal handlers and the thread-local pointer to the current registry are not modelled;
  \<open>os lo len p\<close> says whether the operating system grants a change of protection.
\<close>

type_synonym os = "nat \<Rightarrow> nat \<Rightarrow> protection \<Rightarrow> bool"

definition PAGE :: nat where "PAGE = 4096"
definition SHORT_JMP :: u8 where "SHORT_JMP = 0xEB"
definition NOP :: u8 where "NOP = 0x90"

record direct_site =
  d_offset :: u32
  d_len :: u8
  d_slow_offset :: u32

record site =
  s_offset :: u32
  s_slow :: u32
  s_len :: u8

record site_registry =
  r_base :: nat
  r_rwx :: bool
  r_sites :: "site list"
  r_patched :: u64

definition registry_new :: "nat \<Rightarrow> bool \<Rightarrow> site_registry" where
  "registry_new b w = \<lparr>r_base = b, r_rwx = w, r_sites = [], r_patched = 0\<rparr>"

text \<open>\<open>partition_point\<close> with \<open>insert\<close>: before the first site that is not smaller.\<close>

definition insert_site :: "site \<Rightarrow> site list \<Rightarrow> site list" where
  "insert_site e ss =
     (if ss \<noteq> [] \<and> s_offset (last ss) \<ge> s_offset e
      then takeWhile (\<lambda>s. s_offset s < s_offset e) ss @ e # dropWhile (\<lambda>s. s_offset s < s_offset e) ss
      else ss @ [e])"

definition site_entry :: "nat \<Rightarrow> direct_site \<Rightarrow> site" where
  "site_entry block d = \<lparr>s_offset = of_nat (block + unat (d_offset d)), s_slow = of_nat (block + unat (d_slow_offset d)), s_len = d_len d\<rparr>"

definition register :: "nat \<Rightarrow> direct_site list \<Rightarrow> site_registry \<Rightarrow> site_registry" where
  "register host sites r =
     (let block = host - r_base r in r\<lparr>r_sites := fold (\<lambda>d. insert_site (site_entry block d)) sites (r_sites r)\<rparr>)"

definition registry_clear :: "site_registry \<Rightarrow> site_registry" where
  "registry_clear r = r\<lparr>r_sites := []\<rparr>"

definition registry_len :: "site_registry \<Rightarrow> nat" where
  "registry_len r = length (r_sites r)"

text \<open>\<open>slice::binary_search_by_key\<close> of the standard library.\<close>

function bsearch :: "u32 \<Rightarrow> site list \<Rightarrow> nat \<Rightarrow> nat \<Rightarrow> nat" where
  "bsearch key ss size0 start =
     (if size0 \<le> 1 then start
      else (let half = size0 div 2; mid = start + half
            in bsearch key ss (size0 - half) (if s_offset (ss ! mid) > key then start else mid)))"
  by auto
termination by (relation "measure (\<lambda>(_, _, n, _). n)") auto

declare bsearch.simps [simp del]

definition binary_search :: "u32 \<Rightarrow> site list \<Rightarrow> nat option" where
  "binary_search key ss =
     (if ss = [] then None
      else (let i = bsearch key ss (length ss) 0 in if s_offset (ss ! i) = key then Some i else None))"

definition find_site :: "nat \<Rightarrow> site_registry \<Rightarrow> site option" where
  "find_site rip r =
     (if rip < r_base r then None
      else if rip - r_base r \<ge> 2 ^ 32 then None
      else map_option (\<lambda>i. r_sites r ! i) (binary_search (of_nat (rip - r_base r)) (r_sites r)))"

definition write_patch :: "nat \<Rightarrow> u8 \<Rightarrow> int \<Rightarrow> code_host \<Rightarrow> code_host option" where
  "write_patch at len rel h = do {
     h \<leftarrow> write_bytes (at + 2) (replicate (unat len - 2) NOP) h;
     h \<leftarrow> write_bytes (at + 1) [word_of_int rel] h;
     write_bytes at [SHORT_JMP] h
   }"

definition page_span :: "nat \<Rightarrow> nat \<Rightarrow> nat \<times> nat" where
  "page_span addr len =
     (let lo = page_floor PAGE addr; hi = page_ceil PAGE (addr + len) in (lo, hi - lo))"

text \<open>\<open>os::with_writable\<close>: whether the write was made and the protection restored.\<close>

definition os_with_writable :: "os \<Rightarrow> nat \<Rightarrow> nat \<Rightarrow> (code_host \<Rightarrow> code_host option) \<Rightarrow> code_host \<Rightarrow> (bool \<times> code_host) option" where
  "os_with_writable os addr len f h =
     (case page_span addr len of (lo, span) \<Rightarrow>
        if \<not> os lo span READ_WRITE then Some (False, h)
        else do {
          h \<leftarrow> f (set_protection lo span READ_WRITE h);
          if os lo span READ_EXECUTE then Some (True, set_protection lo span READ_EXECUTE h) else Some (False, h)
        })"

text \<open>\<open>divert\<close>, with the counter \<open>HANDLED\<close> as its argument.\<close>

definition divert :: "os \<Rightarrow> nat \<Rightarrow> site_registry \<Rightarrow> u64 \<Rightarrow> code_host \<Rightarrow> (nat option \<times> site_registry \<times> u64 \<times> code_host) option" where
  "divert os rip r handled h =
     (case find_site rip r of None \<Rightarrow> Some (None, r, handled, h)
      | Some s \<Rightarrow>
          (let handled = handled + 1; slow = r_base r + unat (s_slow s); rel = int slow - (int rip + 2) in
           if - 128 \<le> rel \<and> rel < 128 then do {
             (patched, h) \<leftarrow> (if r_rwx r then map_option (Pair True) (write_patch rip (s_len s) rel h)
                              else os_with_writable os rip (unat (s_len s)) (write_patch rip (s_len s) rel) h);
             if patched then Some (Some rip, r\<lparr>r_patched := r_patched r + 1\<rparr>, handled, h)
             else Some (Some slow, r, handled, h)
           } else Some (Some slow, r, handled, h)))"

section \<open>The registry is sorted\<close>

definition registry_inv :: "site_registry \<Rightarrow> bool" where
  "registry_inv r \<longleftrightarrow> sorted (map s_offset (r_sites r))"

lemma insert_site_sorted:
  assumes "sorted (map s_offset ss)"
  shows "sorted (map s_offset (insert_site e ss))"
proof -
  let ?lt = "\<lambda>s. s_offset s < s_offset e"
  have "sorted (map s_offset (takeWhile ?lt ss @ e # dropWhile ?lt ss))"
    using assms
  proof (induction ss)
    case (Cons s ss)
    then show ?case by (cases "?lt s") (force dest: set_takeWhileD set_dropWhileD)+
  qed simp
  moreover have "sorted (map s_offset (ss @ [e]))" if "\<not> (ss \<noteq> [] \<and> s_offset (last ss) \<ge> s_offset e)"
  proof (cases ss rule: rev_cases)
    case (snoc ys y)
    then show ?thesis using assms that by (auto simp: sorted_append)
  qed simp
  ultimately show ?thesis by (simp only: insert_site_def split: if_split) blast
qed

lemma insert_site_set: "mset (insert_site e ss) = add_mset e (mset ss)"
proof -
  have "mset (takeWhile P ss) + mset (dropWhile P ss) = mset ss" for P
    by (metis mset_append takeWhile_dropWhile_id)
  then show ?thesis by (simp add: insert_site_def)
qed

lemma register_inv: "registry_inv r \<Longrightarrow> registry_inv (register host ds r)"
proof -
  have "sorted (map s_offset ss) \<Longrightarrow> sorted (map s_offset (fold (\<lambda>d. insert_site (site_entry b d)) ds ss))" for b ss
    by (induction ds arbitrary: ss) (simp_all add: insert_site_sorted)
  then show "registry_inv r \<Longrightarrow> registry_inv (register host ds r)" by (simp add: registry_inv_def register_def Let_def)
qed

lemma register_set: "set (r_sites (register host ds r)) = set (r_sites r) \<union> site_entry (host - r_base r) ` set ds"
proof -
  have "set (insert_site e ss) = insert e (set ss)" for e ss
    using arg_cong[OF insert_site_set[of e ss], of set_mset] by simp
  then have "set (fold (\<lambda>d. insert_site (site_entry b d)) ds ss) = set ss \<union> site_entry b ` set ds" for b ss
    by (induction ds arbitrary: ss) auto
  then show ?thesis by (simp add: register_def Let_def)
qed

section \<open>The search\<close>

text \<open>The search keeps the last element that is not greater within its window.\<close>

lemma bsearch_window:
  assumes "sorted (map s_offset ss)" "start + n \<le> length ss" "0 < n"
    and "\<And>i. i < length ss \<Longrightarrow> s_offset (ss ! i) = key \<Longrightarrow> \<exists>j. start \<le> j \<and> j < start + n \<and> s_offset (ss ! j) = key"
  shows "bsearch key ss n start < length ss \<and>
    ((\<exists>i < length ss. s_offset (ss ! i) = key) \<longrightarrow> s_offset (ss ! bsearch key ss n start) = key)"
  using assms(2-)
proof (induction n arbitrary: start rule: less_induct)
  case (less n)
  show ?case
  proof (cases "n \<le> 1")
    case True
    then have n: "n = 1" "bsearch key ss n start = start" using less.prems by (simp_all add: bsearch.simps)
    have "s_offset (ss ! start) = key" if i: "i < length ss" "s_offset (ss ! i) = key" for i
    proof -
      obtain j where j: "start \<le> j" "j < start + n" "s_offset (ss ! j) = key" using less.prems(3)[OF i(1) i(2)] by blast
      have "j = start" using j(1,2) n(1) by simp
      then show ?thesis using j(3) by simp
    qed
    then show ?thesis using less.prems(1) n by auto
  next
    case False
    let ?half = "n div 2" let ?mid = "start + n div 2"
    have h: "0 < ?half" "?half < n" "?mid < length ss" using False less.prems(1) by auto
    have mono: "s_offset (ss ! i) \<le> s_offset (ss ! j)" if "i \<le> j" "j < length ss" for i j
      using assms(1) that by (simp add: sorted_iff_nth_mono)
    let ?start = "if s_offset (ss ! ?mid) > key then start else ?mid"
    have "bsearch key ss (n - ?half) ?start < length ss \<and>
        ((\<exists>i < length ss. s_offset (ss ! i) = key) \<longrightarrow> s_offset (ss ! bsearch key ss (n - ?half) ?start) = key)"
    proof (rule less.IH)
      show "\<exists>j\<ge>?start. j < ?start + (n - ?half) \<and> s_offset (ss ! j) = key" if i: "i < length ss" "s_offset (ss ! i) = key" for i
      proof -
        obtain j where j: "start \<le> j" "j < start + n" "s_offset (ss ! j) = key" using less.prems(3)[OF i] by blast
        show ?thesis
        proof (cases "s_offset (ss ! ?mid) > key")
          case True
          then have "j < ?mid" using mono[of ?mid j] j less.prems(1) by fastforce
          then show ?thesis using True j by (intro exI[of _ j]) auto
        next
          case False
          show ?thesis
          proof (cases "?mid \<le> j")
            case True
            then show ?thesis using False j h by (intro exI[of _ j]) auto
          next
            case jm: False
            then have "s_offset (ss ! ?mid) = key" using mono[of j ?mid] False j h(3) by fastforce
            then show ?thesis using h by (intro exI[of _ ?mid]) auto
          qed
        qed
      qed
    qed (use h less.prems(1) in auto)
    moreover have "bsearch key ss n start = bsearch key ss (n - ?half) ?start"
      using False by (subst bsearch.simps) (simp only: Let_def if_False)
    ultimately show ?thesis by simp
  qed
qed

lemma binary_search_finds:
  assumes "sorted (map s_offset ss)"
  shows "(\<exists>s \<in> set ss. s_offset s = key) \<Longrightarrow> \<exists>i < length ss. binary_search key ss = Some i \<and> s_offset (ss ! i) = key"
    and "binary_search key ss = Some i \<Longrightarrow> i < length ss \<and> s_offset (ss ! i) = key"
proof -
  have w: "bsearch key ss (length ss) 0 < length ss \<and>
      ((\<exists>i < length ss. s_offset (ss ! i) = key) \<longrightarrow> s_offset (ss ! bsearch key ss (length ss) 0) = key)" if "ss \<noteq> []"
    by (rule bsearch_window[OF assms]) (use that in auto)
  show "(\<exists>s \<in> set ss. s_offset s = key) \<Longrightarrow> \<exists>i < length ss. binary_search key ss = Some i \<and> s_offset (ss ! i) = key"
  proof -
    assume "\<exists>s \<in> set ss. s_offset s = key"
    then have ex: "ss \<noteq> []" "\<exists>i < length ss. s_offset (ss ! i) = key" by (auto simp: in_set_conv_nth)
    then show ?thesis using w[OF ex(1)] by (simp add: binary_search_def Let_def)
  qed
  show "binary_search key ss = Some i \<Longrightarrow> i < length ss \<and> s_offset (ss ! i) = key"
    using w by (auto simp: binary_search_def Let_def split: if_splits)
qed

section \<open>Diversion\<close>

lemma find_registered:
  assumes "registry_inv r" "distinct (map s_offset (r_sites r))" "s \<in> set (r_sites r)"
  shows "find_site (r_base r + unat (s_offset s)) r = Some s"
proof -
  obtain i where i: "i < length (r_sites r)" "binary_search (s_offset s) (r_sites r) = Some i" "s_offset (r_sites r ! i) = s_offset s"
    using binary_search_finds(1)[of "r_sites r" "s_offset s"] assms(1,3) by (auto simp: registry_inv_def)
  have "r_sites r ! i = s" using assms(2,3) i(1,3) by (auto simp: distinct_map dest!: inj_onD[where f = s_offset])
  moreover have "unat (s_offset s) < 2 ^ 32" using unsigned_less[of "s_offset s"] by simp
  ultimately show ?thesis using i(2) by (simp add: find_site_def)
qed

lemma write_patch_result:
  assumes "\<And>k. k < unat len \<Longrightarrow> h_prot h (at + k) \<noteq> READ_EXECUTE" "2 \<le> unat len" "- 128 \<le> rel" "rel < 128"
  shows "\<exists>h'. write_patch at len rel h = Some h' \<and> h_prot h' = h_prot h \<and> h_mem h' at = SHORT_JMP \<and> sint (h_mem h' (at + 1)) = rel \<and>
    (\<forall>a. a < at \<or> at + unat len \<le> a \<longrightarrow> h_mem h' a = h_mem h a)"
proof -
  have p: "h_prot h at \<noteq> READ_EXECUTE" "h_prot h (at + 1) \<noteq> READ_EXECUTE" using assms(1)[of 0] assms(1)[of 1] assms(2) by simp_all
  have "h_prot h (at + 2 + k) \<noteq> READ_EXECUTE" if "k < unat len - 2" for k using assms(1)[of "k + 2"] that by (simp add: add.commute)
  then have "write_bytes (at + 2) (replicate (unat len - 2) NOP) h =
      Some (h\<lparr>h_mem := (\<lambda>a. if at + 2 \<le> a \<and> a < at + 2 + (unat len - 2) then replicate (unat len - 2) NOP ! (a - (at + 2)) else h_mem h a)\<rparr>)"
    by (subst write_bytes_result) simp_all
  moreover have "sint (word_of_int rel :: u8) = rel" using assms(3,4) by (simp add: sint_sbintrunc' signed_take_bit_int_eq_self)
  ultimately show ?thesis using p assms(2) by (auto simp: write_patch_def)
qed

lemma divert_result:
  assumes "registry_inv r" "distinct (map s_offset (r_sites r))" "s \<in> set (r_sites r)" "2 \<le> unat (s_len s)"
    and "r_rwx r \<Longrightarrow> \<forall>a. h_prot h a = READ_WRITE_EXECUTE"
  defines "rip \<equiv> r_base r + unat (s_offset s)" and "slow \<equiv> r_base r + unat (s_slow s)"
  shows "\<exists>a r' h'. divert os rip r n h = Some (Some a, r', n + 1, h') \<and> r_sites r' = r_sites r \<and>
    (a = slow \<or> a = rip \<and> h_mem h' rip = SHORT_JMP \<and> int rip + 2 + sint (h_mem h' (rip + 1)) = int slow) \<and>
    (\<forall>x. x < rip \<or> rip + unat (s_len s) \<le> x \<longrightarrow> h_mem h' x = h_mem h x)"
proof -
  let ?rel = "int slow - (int rip + 2)"
  let ?span = "page_span rip (unat (s_len s))"
  have find: "find_site rip r = Some s" unfolding rip_def by (rule find_registered[OF assms(1-3)])
  have patch: "\<exists>h'. write_patch rip (s_len s) ?rel g = Some h' \<and> h_prot h' = h_prot g \<and> h_mem h' rip = SHORT_JMP \<and>
      sint (h_mem h' (rip + 1)) = ?rel \<and> (\<forall>a. a < rip \<or> rip + unat (s_len s) \<le> a \<longrightarrow> h_mem h' a = h_mem h a)"
    if "- 128 \<le> ?rel" "?rel < 128" "h_mem g = h_mem h" "\<And>k. k < unat (s_len s) \<Longrightarrow> h_prot g (rip + k) \<noteq> READ_EXECUTE" for g
    using write_patch_result[of "s_len s" g rip ?rel] that assms(4) by simp
  have span: "fst ?span \<le> rip" "rip + unat (s_len s) \<le> fst ?span + snd ?span"
    using page_floor_le[of PAGE rip] page_ceil_ge[of PAGE "rip + unat (s_len s)"] by (auto simp: page_span_def PAGE_def Let_def)
  consider (far) "\<not> (- 128 \<le> ?rel \<and> ?rel < 128)" | (rwx) "- 128 \<le> ?rel" "?rel < 128" "r_rwx r" | (os) "- 128 \<le> ?rel" "?rel < 128" "\<not> r_rwx r" by blast
  then show ?thesis
  proof cases
    case far
    then show ?thesis by (intro exI[of _ slow] exI[of _ r] exI[of _ h]) (auto simp: divert_def find slow_def Let_def)
  next
    case rwx
    obtain h' where "write_patch rip (s_len s) ?rel h = Some h'" "h_mem h' rip = SHORT_JMP" "sint (h_mem h' (rip + 1)) = ?rel"
        "\<forall>a. a < rip \<or> rip + unat (s_len s) \<le> a \<longrightarrow> h_mem h' a = h_mem h a"
      using patch[OF rwx(1,2), of h] assms(5)[OF rwx(3)] by auto
    then show ?thesis
      using rwx by (intro exI[of _ rip] exI[of _ "r\<lparr>r_patched := r_patched r + 1\<rparr>"] exI[of _ h']) (simp add: divert_def find slow_def[symmetric] Let_def)
  next
    case os
    let ?g = "set_protection (fst ?span) (snd ?span) READ_WRITE h"
    have "h_prot ?g (rip + k) \<noteq> READ_EXECUTE" if "k < unat (s_len s)" for k
      using span that by (simp add: set_protection_def)
    moreover have "h_mem ?g = h_mem h" by (simp add: set_protection_def)
    ultimately obtain h' where h': "write_patch rip (s_len s) ?rel ?g = Some h'" "h_mem h' rip = SHORT_JMP" "sint (h_mem h' (rip + 1)) = ?rel"
        "\<forall>a. a < rip \<or> rip + unat (s_len s) \<le> a \<longrightarrow> h_mem h' a = h_mem h a"
      using patch[OF os(1,2), of ?g] by auto
    let ?w = "os_with_writable os rip (unat (s_len s)) (write_patch rip (s_len s) ?rel) h"
    have "?w = Some (False, h) \<or> ?w = Some (False, h') \<or> ?w = Some (True, set_protection (fst ?span) (snd ?span) READ_EXECUTE h')"
      using h'(1) by (auto simp: os_with_writable_def case_prod_unfold)
    then show ?thesis
    proof (elim disjE)
      assume "?w = Some (True, set_protection (fst ?span) (snd ?span) READ_EXECUTE h')"
      then show ?thesis using os h'
        by (intro exI[of _ rip] exI[of _ "r\<lparr>r_patched := r_patched r + 1\<rparr>"] exI[of _ "set_protection (fst ?span) (snd ?span) READ_EXECUTE h'"])
          (simp add: divert_def find slow_def[symmetric] Let_def set_protection_def)
    next
      assume "?w = Some (False, h)"
      then show ?thesis using os by (intro exI[of _ slow] exI[of _ r] exI[of _ h]) (simp add: divert_def find slow_def[symmetric] Let_def)
    next
      assume "?w = Some (False, h')"
      then show ?thesis using os h' by (intro exI[of _ slow] exI[of _ r] exI[of _ h']) (simp add: divert_def find slow_def[symmetric] Let_def)
    qed
  qed
qed

text \<open>
  C14. Diverting a fault at a registered access continues at its slow path: either the address of the
  slow path is returned, or the access has been overwritten by a short jump to it and is run again.
  No byte outside the access changes, whatever the operating system grants.
\<close>

theorem divert_reaches_slow_path:
  assumes "registry_inv r" "distinct (map s_offset (r_sites r))" "s \<in> set (r_sites r)" "2 \<le> unat (s_len s)"
    and "r_rwx r \<longrightarrow> (\<forall>a. h_prot h a = READ_WRITE_EXECUTE)"
  shows "\<exists>a r' h'. divert os (r_base r + unat (s_offset s)) r n h = Some (Some a, r', n + 1, h') \<and> r_sites r' = r_sites r \<and>
    (a = r_base r + unat (s_slow s) \<or>
     a = r_base r + unat (s_offset s) \<and> h_mem h' a = SHORT_JMP \<and> int a + 2 + sint (h_mem h' (a + 1)) = int (r_base r + unat (s_slow s))) \<and>
    (\<forall>x. x < r_base r + unat (s_offset s) \<or> r_base r + unat (s_offset s) + unat (s_len s) \<le> x \<longrightarrow> h_mem h' x = h_mem h x)"
proof -
  obtain a r' h' where d: "divert os (r_base r + unat (s_offset s)) r n h = Some (Some a, r', n + 1, h')" "r_sites r' = r_sites r"
      "a = r_base r + unat (s_slow s) \<or> a = r_base r + unat (s_offset s) \<and> h_mem h' (r_base r + unat (s_offset s)) = SHORT_JMP \<and>
        int (r_base r + unat (s_offset s)) + 2 + sint (h_mem h' (r_base r + unat (s_offset s) + 1)) = int (r_base r + unat (s_slow s))"
      "\<forall>x. x < r_base r + unat (s_offset s) \<or> r_base r + unat (s_offset s) + unat (s_len s) \<le> x \<longrightarrow> h_mem h' x = h_mem h x"
    using divert_result[OF assms(1-4), of h os n] assms(5) by blast
  show ?thesis by (intro exI[of _ a] exI[of _ r'] exI[of _ h'] conjI d) (use d(3) in blast)
qed

lemma divert_reaches_slow_path_witness:
  "\<exists>a r' h'. divert (\<lambda>_ _ _. True) (0x1000 + unat (0x104 :: u32))
      (register 0x1100 [\<lparr>d_offset = 4, d_len = 3, d_slow_offset = 12\<rparr>] (registry_new 0x1000 False)) 0
      \<lparr>h_mem = \<lambda>_. 0, h_prot = \<lambda>_. READ_EXECUTE\<rparr> = Some (Some a, r', 0 + 1, h') \<and>
    (a = 0x1000 + unat (0x10C :: u32) \<or> a = 0x1000 + unat (0x104 :: u32) \<and> h_mem h' a = SHORT_JMP)"
proof -
  let ?r = "register 0x1100 [\<lparr>d_offset = 4, d_len = 3, d_slow_offset = 12\<rparr>] (registry_new 0x1000 False)"
  let ?h = "\<lparr>h_mem = \<lambda>_. 0, h_prot = \<lambda>_. READ_EXECUTE\<rparr>"
  let ?s = "\<lparr>s_offset = 0x104, s_slow = 0x10C, s_len = 3\<rparr>"
  have r: "r_base ?r = 0x1000" "r_sites ?r = [?s]" "\<not> r_rwx ?r"
    by (simp_all add: register_def registry_new_def insert_site_def site_entry_def)
  have "registry_inv ?r" "distinct (map s_offset (r_sites ?r))" "?s \<in> set (r_sites ?r)" "2 \<le> unat (s_len ?s)"
      "r_rwx ?r \<longrightarrow> (\<forall>a. h_prot ?h a = READ_WRITE_EXECUTE)"
    using r(3) by (simp_all add: registry_inv_def r(2))
  from divert_reaches_slow_path[OF this, of "\<lambda>_ _ _. True" 0] show ?thesis
    unfolding r(1) site.simps by blast
qed

end
