(* ===== verification/Code_Cache.thy ===== *)
theory Code_Cache
  imports Site_Registry Frontend "HOL-Library.AList"
begin

text \<open>
  The code cache, \<open>src/jit/code_cache.rs\<close>: published blocks by their guest address, the
  direct-mapped dispatch table in front of them, the chain sites through which blocks jump to one
  another, and the memory they are in. The hash maps of the source are association lists where the
  source iterates over them (every order of the entries is a state of the model) and maps
  otherwise. Parameters: \<open>os lo len p\<close>, whether the operating system grants a change of
  protection; \<open>srt\<close>, the result of \<open>sort_unstable_by_key\<close>; the bytes of the entry thunk. The
  model is the build for systems other than Windows.
\<close>

section \<open>State\<close>

datatype thunk_kind = Full | XmmFree

record dispatch_slot =
  ds_pc :: u64
  ds_host :: nat

definition DISPATCH_BITS :: nat where "DISPATCH_BITS = 16"
definition DISPATCH_SLOTS :: nat where "DISPATCH_SLOTS = 2 ^ DISPATCH_BITS"
definition DISPATCH_MASK :: u32 where "DISPATCH_MASK = of_nat DISPATCH_SLOTS - 1"
definition EMPTY_PC :: u64 where "EMPTY_PC = 0xFFFFFFFFFFFFFFFF"

definition dispatch_index :: "u64 \<Rightarrow> nat" where
  "dispatch_index pc = unat ((ucast (drop_bit 2 pc XOR drop_bit (2 + DISPATCH_BITS) pc) :: u32) AND DISPATCH_MASK)"

definition SITE_REL_OFFSET :: nat where "SITE_REL_OFFSET = 1"
definition SITE_LEN :: nat where "SITE_LEN = 5"

record dispatch_meta =
  dm_host_ptr :: nat
  dm_guest_insns :: u32
  dm_thunk_kind :: thunk_kind

record cache_entry =
  e_host_ptr :: nat
  e_ranges :: "(u64 \<times> u64) list"
  e_out_sites :: "(u64 \<times> nat) list"
  e_guest_insns :: u32
  e_thunk_kind :: thunk_kind

record capped_entry =
  cp_host_ptr :: nat
  cp_ranges :: "(u64 \<times> u64) list"

record chain_site =
  ch_patch_offset :: u32
  ch_target_pc :: u64

text \<open>\<open>cc_base\<close>, \<open>cc_rwx\<close> and \<open>cc_host\<close> are the \<open>CodeMemory\<close>; the dispatch table is a function of the index.\<close>

record code_cache =
  cc_base :: nat
  cc_rwx :: bool
  cc_host :: code_host
  cc_cursor :: nat
  cc_capacity :: nat
  cc_page :: nat
  cc_table :: "(u64 \<times> cache_entry) list"
  cc_capped :: "((u64 \<times> u32) \<times> capped_entry) list"
  cc_links :: "u64 \<Rightarrow> nat list option"
  cc_dispatch :: "nat \<Rightarrow> dispatch_slot"
  cc_dispatch_meta :: "nat \<Rightarrow> u32 \<times> thunk_kind"
  cc_thunk :: nat
  cc_xmm_free_thunk :: nat
  cc_miss_stub :: nat
  cc_patches :: "(nat \<times> int) list"
  cc_direct_sites :: site_registry

type_synonym 'a cache_result = "((error + 'a) \<times> code_cache) option"

definition overlaps :: "(u64 \<times> u64) list \<Rightarrow> u64 \<Rightarrow> u64 \<Rightarrow> bool" where
  "overlaps rs start stop \<longleftrightarrow> list_ex (\<lambda>(s, e). s < stop \<and> e > start) rs"

section \<open>Memory\<close>

record publication =
  byte_start :: nat
  byte_end :: nat
  page_start :: nat
  page_len :: nat

definition publication_range :: "nat \<Rightarrow> nat \<Rightarrow> nat \<Rightarrow> nat \<Rightarrow> error + publication" where
  "publication_range cursor len capacity page_size =
     (if len = 0 then Inl (BackendError ''cannot publish an empty code block'')
      else case checked_add cursor 15 of None \<Rightarrow> Inl CodeCacheFull
      | Some a \<Rightarrow>
          (let start = page_floor 16 a in
           case checked_add start len of None \<Rightarrow> Inl CodeCacheFull
           | Some stop \<Rightarrow>
               if stop > capacity then Inl CodeCacheFull
               else (let pstart = start div page_size * page_size in
                     case checked_add stop (page_size - 1) of None \<Rightarrow> Inl CodeCacheFull
                     | Some b \<Rightarrow>
                         (let pend = b div page_size * page_size in
                          if pend > capacity then Inl CodeCacheFull
                          else Inr \<lparr>byte_start = start, byte_end = stop, page_start = pstart, page_len = pend - pstart\<rparr>))))"

definition protect_failed :: error where
  "protect_failed = HostAlloc ''region::protect''"

definition append_raw :: "os \<Rightarrow> u8 list \<Rightarrow> code_cache \<Rightarrow> nat cache_result" where
  "append_raw os bytes cc =
     (case publication_range (cc_cursor cc) (length bytes) (cc_capacity cc) (cc_page cc) of
        Inl e \<Rightarrow> Some (Inl e, cc)
      | Inr r \<Rightarrow>
          (let pages = cc_base cc + page_start r; dst = cc_base cc + byte_start r in
           if cc_rwx cc then do {
             h \<leftarrow> write_bytes dst bytes (cc_host cc);
             Some (Inr dst, cc\<lparr>cc_host := h, cc_cursor := byte_end r\<rparr>)
           }
           else if \<not> os pages (page_len r) READ_WRITE then Some (Inl protect_failed, cc)
           else do {
             h \<leftarrow> write_bytes dst bytes (set_protection pages (page_len r) READ_WRITE (cc_host cc));
             if \<not> os pages (page_len r) READ_EXECUTE then Some (Inl protect_failed, cc\<lparr>cc_host := h\<rparr>)
             else Some (Inr dst, cc\<lparr>cc_host := set_protection pages (page_len r) READ_EXECUTE h, cc_cursor := byte_end r\<rparr>)
           }))"

definition with_writable :: "os \<Rightarrow> nat \<Rightarrow> nat \<Rightarrow> (code_host \<Rightarrow> code_host option) \<Rightarrow> code_cache \<Rightarrow> unit cache_result" where
  "with_writable os addr len f cc =
     (if cc_rwx cc then do { h \<leftarrow> f (cc_host cc); Some (Inr (), cc\<lparr>cc_host := h\<rparr>) }
      else (let lo = page_floor (cc_page cc) addr; hi = page_ceil (cc_page cc) (addr + len) in
        if \<not> os lo (hi - lo) READ_WRITE then Some (Inl protect_failed, cc)
        else do {
          h \<leftarrow> f (set_protection lo (hi - lo) READ_WRITE (cc_host cc));
          if \<not> os lo (hi - lo) READ_EXECUTE then Some (Inl protect_failed, cc\<lparr>cc_host := h\<rparr>)
          else Some (Inr (), cc\<lparr>cc_host := set_protection lo (hi - lo) READ_EXECUTE h\<rparr>)
        }))"

section \<open>Patches\<close>

text \<open>\<open>i32::try_from(rel).expect(..)\<close>: a distance beyond 32 bits panics.\<close>

definition queue_link :: "nat \<Rightarrow> nat \<Rightarrow> code_cache \<Rightarrow> code_cache option" where
  "queue_link s target cc =
     (let rel = int target - (int s + int SITE_LEN) in
      if - (2 ^ 31) \<le> rel \<and> rel < 2 ^ 31 then Some (cc\<lparr>cc_patches := cc_patches cc @ [(s, rel)]\<rparr>) else None)"

text \<open>The runs of patches on adjacent pages: where the pages start and end, and the run.\<close>

fun patch_run :: "nat \<Rightarrow> nat \<Rightarrow> (nat \<times> int) list \<Rightarrow> nat \<times> (nat \<times> int) list \<times> (nat \<times> int) list" where
  "patch_run page hi [] = (hi, [], [])"
| "patch_run page hi (p # ps) =
     (if page_floor page (fst p) \<le> hi
      then (case patch_run page (max hi (page_ceil page (fst p + SITE_LEN))) ps of (hi', g, rest) \<Rightarrow> (hi', p # g, rest))
      else (hi, [], p # ps))"

lemma patch_run_rest: "patch_run page hi ps = (hi', g, rest) \<Longrightarrow> ps = g @ rest"
  by (induction page hi ps arbitrary: hi' g rest rule: patch_run.induct) (auto split: if_splits prod.splits)

lemma patch_run_less: "(hi', y) = patch_run page hi ps \<Longrightarrow> (g, rest) = y \<Longrightarrow> length rest < Suc (length ps)"
  using patch_run_rest[of page hi ps hi' g rest] by simp

function patch_groups :: "nat \<Rightarrow> (nat \<times> int) list \<Rightarrow> (nat \<times> nat \<times> (nat \<times> int) list) list" where
  "patch_groups page [] = []"
| "patch_groups page (p # ps) =
     (case patch_run page (page_ceil page (fst p + SITE_LEN)) ps of (hi, g, rest) \<Rightarrow>
        (page_floor page (fst p), hi, p # g) # patch_groups page rest)"
  by pat_completeness auto
termination by (relation "measure (\<lambda>(_, ps). length ps)") (simp, simp add: patch_run_less)

fun write_patches :: "(nat \<times> int) list \<Rightarrow> code_host \<Rightarrow> code_host option" where
  "write_patches [] h = Some h"
| "write_patches ((s, rel) # ps) h = do { h \<leftarrow> write_bytes (s + SITE_REL_OFFSET) (i32_bytes rel) h; write_patches ps h }"

fun write_groups :: "os \<Rightarrow> (nat \<times> nat \<times> (nat \<times> int) list) list \<Rightarrow> code_cache \<Rightarrow> code_cache option" where
  "write_groups os [] cc = Some cc"
| "write_groups os ((lo, hi, g) # gs) cc = do {
     (res, cc) \<leftarrow> with_writable os lo (hi - lo) (write_patches g) cc;
     case res of Inl e \<Rightarrow> None | Inr u \<Rightarrow> write_groups os gs cc
   }"

definition flush_patches :: "os \<Rightarrow> ((nat \<times> int) list \<Rightarrow> (nat \<times> int) list) \<Rightarrow> code_cache \<Rightarrow> code_cache option" where
  "flush_patches os srt cc =
     (if cc_patches cc = [] then Some cc
      else map_option (\<lambda>cc. cc\<lparr>cc_patches := []\<rparr>) (write_groups os (patch_groups (cc_page cc) (srt (cc_patches cc))) cc))"

section \<open>Lookup\<close>

definition lookup_meta_miss :: "u64 \<Rightarrow> nat \<Rightarrow> code_cache \<Rightarrow> dispatch_meta option \<times> code_cache" where
  "lookup_meta_miss pc index cc =
     (case map_of (cc_table cc) pc of None \<Rightarrow> (None, cc)
      | Some e \<Rightarrow>
          (Some \<lparr>dm_host_ptr = e_host_ptr e, dm_guest_insns = e_guest_insns e, dm_thunk_kind = e_thunk_kind e\<rparr>,
           cc\<lparr>cc_dispatch := (cc_dispatch cc)(index := \<lparr>ds_pc = pc, ds_host = e_host_ptr e\<rparr>),
              cc_dispatch_meta := (cc_dispatch_meta cc)(index := (e_guest_insns e, e_thunk_kind e))\<rparr>))"

definition lookup_dispatch_meta :: "u64 \<Rightarrow> code_cache \<Rightarrow> dispatch_meta option \<times> code_cache" where
  "lookup_dispatch_meta pc cc =
     (let index = dispatch_index pc; slot = cc_dispatch cc index in
      if ds_pc slot = pc then
        (case cc_dispatch_meta cc index of (insns, kind) \<Rightarrow>
           (Some \<lparr>dm_host_ptr = ds_host slot, dm_guest_insns = insns, dm_thunk_kind = kind\<rparr>, cc))
      else lookup_meta_miss pc index cc)"

definition lookup :: "u64 \<Rightarrow> code_cache \<Rightarrow> nat option \<times> code_cache" where
  "lookup pc cc = map_prod (map_option dm_host_ptr) id (lookup_dispatch_meta pc cc)"

definition lookup_meta :: "u64 \<Rightarrow> code_cache \<Rightarrow> (nat \<times> u32) option \<times> code_cache" where
  "lookup_meta pc cc = map_prod (map_option (\<lambda>m. (dm_host_ptr m, dm_guest_insns m))) id (lookup_dispatch_meta pc cc)"

definition contains :: "u64 \<Rightarrow> code_cache \<Rightarrow> bool" where
  "contains pc cc \<longleftrightarrow> map_of (cc_table cc) pc \<noteq> None"

definition lookup_capped :: "u64 \<Rightarrow> u32 \<Rightarrow> code_cache \<Rightarrow> nat option" where
  "lookup_capped pc cap cc = map_option cp_host_ptr (map_of (cc_capped cc) (pc, cap))"

definition cache_len :: "code_cache \<Rightarrow> nat" where "cache_len cc = length (cc_table cc)"
definition cache_is_empty :: "code_cache \<Rightarrow> bool" where "cache_is_empty cc \<longleftrightarrow> cc_table cc = []"
definition used_bytes :: "code_cache \<Rightarrow> nat" where "used_bytes cc = cc_cursor cc"

definition thunk_for :: "thunk_kind \<Rightarrow> code_cache \<Rightarrow> nat" where
  "thunk_for kind cc = (case kind of Full \<Rightarrow> cc_thunk cc | XmmFree \<Rightarrow> cc_xmm_free_thunk cc)"

definition direct_site_count :: "code_cache \<Rightarrow> nat" where "direct_site_count cc = registry_len (cc_direct_sites cc)"
definition direct_sites_patched :: "code_cache \<Rightarrow> u64" where "direct_sites_patched cc = r_patched (cc_direct_sites cc)"

definition inbound_links :: "u64 \<Rightarrow> code_cache \<Rightarrow> nat" where
  "inbound_links pc cc =
     (if map_of (cc_table cc) pc = None then 0 else case cc_links cc pc of None \<Rightarrow> 0 | Some s \<Rightarrow> length s)"

section \<open>Removal\<close>

fun unlink_site :: "u64 \<times> nat \<Rightarrow> (u64 \<Rightarrow> nat list option) \<Rightarrow> u64 \<Rightarrow> nat list option" where
  "unlink_site (target, s) links =
     (case links target of None \<Rightarrow> links
      | Some sites \<Rightarrow>
          (let sites = filter (\<lambda>x. x \<noteq> s) sites
           in if sites = [] then links(target := None) else links(target \<mapsto> sites)))"

definition remove_block :: "u64 \<Rightarrow> code_cache \<Rightarrow> code_cache" where
  "remove_block pc cc =
     (case map_of (cc_table cc) pc of None \<Rightarrow> cc
      | Some e \<Rightarrow>
          (let cc = cc\<lparr>cc_table := AList.delete pc (cc_table cc)\<rparr>;
               i = dispatch_index pc;
               cc = (if ds_pc (cc_dispatch cc i) = pc
                     then cc\<lparr>cc_dispatch := (cc_dispatch cc)(i := \<lparr>ds_pc = EMPTY_PC, ds_host = cc_miss_stub cc\<rparr>)\<rparr> else cc);
               cc = (case cc_links cc pc of None \<Rightarrow> cc
                     | Some sites \<Rightarrow> cc\<lparr>cc_patches := cc_patches cc @ map (\<lambda>s. (s, 0)) sites\<rparr>)
           in cc\<lparr>cc_links := fold unlink_site (e_out_sites e) (cc_links cc)\<rparr>))"

definition invalidate_range :: "os \<Rightarrow> ((nat \<times> int) list \<Rightarrow> (nat \<times> int) list) \<Rightarrow> u64 \<Rightarrow> u64 \<Rightarrow> code_cache \<Rightarrow> code_cache option" where
  "invalidate_range os srt start len cc =
     (let (start, stop) = (if uint start + uint len < 2 ^ 64 then (start, start + len) else (0, 0xFFFFFFFFFFFFFFFF));
          everything = (start = 0 \<and> stop = 0xFFFFFFFFFFFFFFFF);
          doomed = map fst (filter (\<lambda>(pc, e). everything \<or> overlaps (e_ranges e) start stop) (cc_table cc));
          cc = fold remove_block doomed cc;
          cc = cc\<lparr>cc_capped := filter (\<lambda>(k, c). \<not> everything \<and> \<not> overlaps (cp_ranges c) start stop) (cc_capped cc)\<rparr>
      in flush_patches os srt cc)"

section \<open>Installation\<close>

fun link_chains :: "nat \<Rightarrow> chain_site list \<Rightarrow> (u64 \<times> nat) list \<Rightarrow> code_cache \<Rightarrow> ((u64 \<times> nat) list \<times> code_cache) option" where
  "link_chains host_ptr [] out cc = Some (out, cc)"
| "link_chains host_ptr (c # cs) out cc =
     (let s = host_ptr + unat (ch_patch_offset c);
          out = out @ [(ch_target_pc c, s)];
          sites = (case cc_links cc (ch_target_pc c) of None \<Rightarrow> [] | Some sites \<Rightarrow> sites);
          cc = cc\<lparr>cc_links := (cc_links cc)(ch_target_pc c \<mapsto> sites @ [s])\<rparr>
      in do {
        cc \<leftarrow> (case map_of (cc_table cc) (ch_target_pc c) of None \<Rightarrow> Some cc | Some e \<Rightarrow> queue_link s (e_host_ptr e) cc);
        link_chains host_ptr cs out cc
      })"

fun queue_links :: "nat list \<Rightarrow> nat \<Rightarrow> code_cache \<Rightarrow> code_cache option" where
  "queue_links [] target cc = Some cc"
| "queue_links (s # ss) target cc = do { cc \<leftarrow> queue_link s target cc; queue_links ss target cc }"

definition saturating_pc :: "u64 \<Rightarrow> u64" where
  "saturating_pc pc = (if uint pc + 4 < 2 ^ 64 then pc + 4 else 0xFFFFFFFFFFFFFFFF)"

definition block_ranges :: "u64 \<Rightarrow> (u64 \<times> u64) list \<Rightarrow> (u64 \<times> u64) list" where
  "block_ranges guest_pc rs =
     (if rs = [] then [(guest_pc, saturating_pc guest_pc)]
      else map (\<lambda>(s, e). if e \<le> s then (s, 0xFFFFFFFFFFFFFFFF) else (s, e)) rs)"

definition install_block :: "os \<Rightarrow> ((nat \<times> int) list \<Rightarrow> (nat \<times> int) list) \<Rightarrow> u64 \<Rightarrow> (u64 \<times> u64) list \<Rightarrow> u32 \<Rightarrow> u8 list \<Rightarrow>
    chain_site list \<Rightarrow> direct_site list \<Rightarrow> u32 option \<Rightarrow> thunk_kind \<Rightarrow> code_cache \<Rightarrow> nat cache_result" where
  "install_block os srt guest_pc rs guest_insns bytes sites direct_sites cap kind cc = do {
     (res, cc) \<leftarrow> append_raw os bytes cc;
     case res of Inl e \<Rightarrow> Some (Inl e, cc)
     | Inr host_ptr \<Rightarrow>
         (let cc = cc\<lparr>cc_direct_sites := register host_ptr direct_sites (cc_direct_sites cc)\<rparr>;
              rs = block_ranges guest_pc rs
          in case cap of
               Some n \<Rightarrow> Some (Inr host_ptr,
                 cc\<lparr>cc_capped := AList.update (guest_pc, n) \<lparr>cp_host_ptr = host_ptr, cp_ranges = rs\<rparr> (cc_capped cc)\<rparr>)
             | None \<Rightarrow> do {
                 let cc = (if map_of (cc_table cc) guest_pc \<noteq> None then remove_block guest_pc cc else cc);
                 (out, cc) \<leftarrow> link_chains host_ptr sites [] cc;
                 let insns = max guest_insns 1;
                 let e = \<lparr>e_host_ptr = host_ptr, e_ranges = rs, e_out_sites = out, e_guest_insns = insns, e_thunk_kind = kind\<rparr>;
                 let i = dispatch_index guest_pc;
                 let cc = cc\<lparr>cc_table := AList.update guest_pc e (cc_table cc),
                             cc_dispatch := (cc_dispatch cc)(i := \<lparr>ds_pc = guest_pc, ds_host = host_ptr\<rparr>),
                             cc_dispatch_meta := (cc_dispatch_meta cc)(i := (insns, kind))\<rparr>;
                 cc \<leftarrow> (case cc_links cc guest_pc of None \<Rightarrow> Some cc | Some sites \<Rightarrow> queue_links sites host_ptr cc);
                 cc \<leftarrow> flush_patches os srt cc;
                 Some (Inr host_ptr, cc)
               })
   }"

definition install_emitted :: "os \<Rightarrow> ((nat \<times> int) list \<Rightarrow> (nat \<times> int) list) \<Rightarrow> u64 \<Rightarrow> u64 \<Rightarrow> u32 \<Rightarrow> u8 list \<Rightarrow> bool \<Rightarrow> thunk_kind \<Rightarrow>
    code_cache \<Rightarrow> nat cache_result" where
  "install_emitted os srt guest_pc guest_end guest_insns bytes cache_block kind cc =
     (if \<not> cache_block then append_raw os bytes cc
      else install_block os srt guest_pc [(guest_pc, max guest_end (saturating_pc guest_pc))] guest_insns bytes [] [] None kind cc)"

definition cache_install :: "os \<Rightarrow> ((nat \<times> int) list \<Rightarrow> (nat \<times> int) list) \<Rightarrow> u64 \<Rightarrow> u64 \<Rightarrow> u32 \<Rightarrow> u8 list \<Rightarrow> bool \<Rightarrow>
    code_cache \<Rightarrow> nat cache_result" where
  "cache_install os srt guest_pc guest_end guest_insns bytes cache_block cc =
     install_emitted os srt guest_pc guest_end guest_insns bytes cache_block Full cc"

section \<open>Creation and reset\<close>

definition clear_dispatch :: "code_cache \<Rightarrow> code_cache" where
  "clear_dispatch cc = cc\<lparr>cc_dispatch := (\<lambda>i. \<lparr>ds_pc = EMPTY_PC, ds_host = cc_miss_stub cc\<rparr>)\<rparr>"

definition install_runtime_stubs :: "os \<Rightarrow> error + u8 list \<Rightarrow> code_cache \<Rightarrow> unit cache_result" where
  "install_runtime_stubs os thunk_bytes cc =
     (case thunk_bytes of Inl e \<Rightarrow> Some (Inl e, cc)
      | Inr bytes \<Rightarrow> do {
          (res, cc) \<leftarrow> append_raw os bytes cc;
          case res of Inl e \<Rightarrow> Some (Inl e, cc)
          | Inr p \<Rightarrow> do {
              let cc = cc\<lparr>cc_thunk := p, cc_xmm_free_thunk := p\<rparr>;
              (res, cc) \<leftarrow> append_raw os [0xC3] cc;
              case res of Inl e \<Rightarrow> Some (Inl e, cc)
              | Inr p \<Rightarrow> Some (Inr (), clear_dispatch (cc\<lparr>cc_miss_stub := p\<rparr>))
            }
        })"

definition cache_reset :: "os \<Rightarrow> error + u8 list \<Rightarrow> code_cache \<Rightarrow> unit cache_result" where
  "cache_reset os thunk_bytes cc =
     install_runtime_stubs os thunk_bytes
       (cc\<lparr>cc_cursor := 0, cc_table := [], cc_capped := [], cc_links := (\<lambda>_. None), cc_patches := [],
          cc_direct_sites := registry_clear (cc_direct_sites cc)\<rparr>)"

text \<open>\<open>region::alloc\<close>: the address, the length and the initial memory.\<close>

type_synonym allocator = "nat \<Rightarrow> protection \<Rightarrow> (nat \<times> nat \<times> code_host) option"

definition with_rwx :: "os \<Rightarrow> allocator \<Rightarrow> nat \<Rightarrow> error + u8 list \<Rightarrow> nat \<Rightarrow> bool \<Rightarrow> (error + code_cache) option" where
  "with_rwx os alloc page_size thunk_bytes bytes rwx =
     (case alloc bytes (if rwx then READ_WRITE_EXECUTE else READ_WRITE) of
        None \<Rightarrow> Some (Inl (HostAlloc ''region::alloc''))
      | Some (base_addr, capacity, h) \<Rightarrow>
          if capacity > 2 ^ 31 - 1 then Some (Inl (HostAlloc ''code cache must be smaller than 2 GiB (rel32 block links)''))
          else do {
            (res, cc) \<leftarrow> install_runtime_stubs os thunk_bytes
              \<lparr>cc_base = base_addr, cc_rwx = rwx, cc_host = h, cc_cursor = 0, cc_capacity = capacity, cc_page = page_size,
               cc_table = [], cc_capped = [], cc_links = (\<lambda>_. None), cc_dispatch = (\<lambda>_. \<lparr>ds_pc = EMPTY_PC, ds_host = 0\<rparr>),
               cc_dispatch_meta = (\<lambda>_. (0, Full)), cc_thunk = 0, cc_xmm_free_thunk = 0, cc_miss_stub = 0, cc_patches = [],
               cc_direct_sites = registry_new base_addr rwx\<rparr>;
            Some (case res of Inl e \<Rightarrow> Inl e | Inr u \<Rightarrow> Inr cc)
          })"

definition code_cache_new :: "os \<Rightarrow> allocator \<Rightarrow> nat \<Rightarrow> error + u8 list \<Rightarrow> nat \<Rightarrow> (error + code_cache) option" where
  "code_cache_new os alloc page_size thunk_bytes bytes = with_rwx os alloc page_size thunk_bytes bytes False"

end
