(* ===== verification/Code_Cache_Inv.thy ===== *)
theory Code_Cache_Inv
  imports Code_Cache
begin

text \<open>
  The invariant of the code cache. Every chain site that a block of the table owns is linked: its
  jump goes to the block of its target while there is one, and falls through to the exit behind it
  otherwise. Between the queueing of patches and their flush this holds of the values the patches
  will leave. \<open>sort_unstable_by_key\<close> may reorder patches of the same site; with \<open>exact\<close> the order is
  kept and the links are exact, without it a site may also be left unlinked, but it is never stale.
\<close>

section \<open>Sites\<close>

abbreviation tab :: "code_cache \<Rightarrow> u64 \<Rightarrow> cache_entry option" where
  "tab cc \<equiv> map_of (cc_table cc)"

definition owned :: "(u64 \<Rightarrow> cache_entry option) \<Rightarrow> u64 \<Rightarrow> u64 \<Rightarrow> nat \<Rightarrow> bool" where
  "owned T pc t s \<longleftrightarrow> (\<exists>e. T pc = Some e \<and> (t, s) \<in> set (e_out_sites e))"

definition linkable :: "(u64 \<Rightarrow> cache_entry option) \<Rightarrow> u64 \<Rightarrow> nat \<Rightarrow> bool" where
  "linkable T t s \<longleftrightarrow> (\<exists>pc. owned T pc t s)"

definition in_links :: "(u64 \<Rightarrow> nat list option) \<Rightarrow> u64 \<Rightarrow> nat \<Rightarrow> bool" where
  "in_links L t s \<longleftrightarrow> (\<exists>ss. L t = Some ss \<and> s \<in> set ss)"

definition one_owner :: "(u64 \<Rightarrow> cache_entry option) \<Rightarrow> bool" where
  "one_owner T \<longleftrightarrow> (\<forall>pc t s pc' t'. owned T pc t s \<and> owned T pc' t' s \<longrightarrow> pc = pc' \<and> t = t')"

definition spaced :: "nat set \<Rightarrow> bool" where
  "spaced U \<longleftrightarrow> (\<forall>a \<in> U. \<forall>b \<in> U. a \<noteq> b \<longrightarrow> a + SITE_LEN \<le> b \<or> b + SITE_LEN \<le> a)"

text \<open>What the patches will leave at a site, and what is right there.\<close>

definition site_patches :: "(nat \<times> int) list \<Rightarrow> nat \<Rightarrow> int list" where
  "site_patches ps s = map snd (filter (\<lambda>p. fst p = s) ps)"

definition site_values :: "bool \<Rightarrow> (nat \<times> int) list \<Rightarrow> (nat \<Rightarrow> u8) \<Rightarrow> nat \<Rightarrow> int set" where
  "site_values exact ps m s =
     (if site_patches ps s = [] then {read_i32 m (s + SITE_REL_OFFSET)}
      else if exact then {last (site_patches ps s)} else set (site_patches ps s))"

definition link_right :: "bool \<Rightarrow> (u64 \<Rightarrow> cache_entry option) \<Rightarrow> u64 \<Rightarrow> nat \<Rightarrow> int \<Rightarrow> bool" where
  "link_right exact T t s r \<longleftrightarrow>
     (case T t of None \<Rightarrow> r = 0
      | Some e \<Rightarrow> int s + int SITE_LEN + r = int (e_host_ptr e) \<or> \<not> exact \<and> r = 0)"

definition sites_right :: "bool \<Rightarrow> code_cache \<Rightarrow> bool" where
  "sites_right exact cc \<longleftrightarrow>
     (\<forall>t s. linkable (tab cc) t s \<longrightarrow> (\<forall>r \<in> site_values exact (cc_patches cc) (h_mem (cc_host cc)) s. link_right exact (tab cc) t s r))"

section \<open>The invariant\<close>

definition geometry :: "code_cache \<Rightarrow> bool" where
  "geometry cc \<longleftrightarrow> 16 \<le> cc_page cc \<and> cc_page cc dvd cc_base cc \<and> cc_page cc dvd cc_capacity cc \<and>
     cc_capacity cc < 2 ^ 31 \<and> cc_cursor cc \<le> cc_capacity cc \<and> cc_page cc < 2 ^ 31"

definition protected :: "code_cache \<Rightarrow> bool" where
  "protected cc \<longleftrightarrow>
     (if cc_rwx cc then \<forall>a. cc_base cc \<le> a \<and> a < cc_base cc + cc_capacity cc \<longrightarrow> h_prot (cc_host cc) a = READ_WRITE_EXECUTE
      else (\<forall>a. cc_base cc \<le> a \<and> page_floor (cc_page cc) a < cc_base cc + cc_cursor cc \<longrightarrow> h_prot (cc_host cc) a = READ_EXECUTE) \<and>
        (\<forall>a. cc_base cc \<le> a \<and> a < cc_base cc + cc_capacity cc \<longrightarrow> h_prot (cc_host cc) a \<noteq> READ_WRITE_EXECUTE))"

definition dispatch_right :: "code_cache \<Rightarrow> bool" where
  "dispatch_right cc \<longleftrightarrow> tab cc EMPTY_PC = None \<and>
     (\<forall>i. let d = cc_dispatch cc i in
        ds_pc d = EMPTY_PC \<and> ds_host d = cc_miss_stub cc \<or>
        (\<exists>e. tab cc (ds_pc d) = Some e \<and> ds_host d = e_host_ptr e \<and> i = dispatch_index (ds_pc d) \<and>
          cc_dispatch_meta cc i = (e_guest_insns e, e_thunk_kind e)))"

definition sites_placed :: "nat set \<Rightarrow> code_cache \<Rightarrow> bool" where
  "sites_placed U cc \<longleftrightarrow> spaced U \<and> (\<forall>t s. linkable (tab cc) t s \<longrightarrow> s \<in> U) \<and> fst ` set (cc_patches cc) \<subseteq> U \<and>
     (\<forall>s \<in> U. cc_base cc \<le> s \<and> s + SITE_LEN \<le> cc_base cc + cc_cursor cc) \<and>
     (\<forall>p \<in> set (cc_patches cc). - (2 ^ 31) \<le> snd p \<and> snd p < 2 ^ 31) \<and>
     (\<forall>pc e. tab cc pc = Some e \<longrightarrow> cc_base cc \<le> e_host_ptr e \<and> e_host_ptr e < cc_base cc + cc_cursor cc)"

definition mid_inv :: "bool \<Rightarrow> nat set \<Rightarrow> code_cache \<Rightarrow> bool" where
  "mid_inv exact U cc \<longleftrightarrow> geometry cc \<and> protected cc \<and> dispatch_right cc \<and> distinct (map fst (cc_table cc)) \<and>
     (\<forall>t s. in_links (cc_links cc) t s \<longleftrightarrow> linkable (tab cc) t s) \<and> one_owner (tab cc) \<and> sites_placed U cc \<and> sites_right exact cc"

definition cache_inv :: "bool \<Rightarrow> code_cache \<Rightarrow> bool" where
  "cache_inv exact cc \<longleftrightarrow> cc_patches cc = [] \<and> (\<exists>U. mid_inv exact U cc)"

text \<open>The index into the dispatch table is in range.\<close>

lemma dispatch_index_bound: "dispatch_index pc < DISPATCH_SLOTS"
proof -
  have "x AND 65535 < (65536 :: u32)" for x
    using and_mask_less'[of 16 x] by (simp add: mask_eq_exp_minus_1)
  then show ?thesis by (simp add: dispatch_index_def DISPATCH_SLOTS_def DISPATCH_MASK_def DISPATCH_BITS_def word_less_nat_alt)
qed

section \<open>Removal\<close>

lemma in_links_unlink:
  "in_links (fold unlink_site outs L) t s \<longleftrightarrow> in_links L t s \<and> (t, s) \<notin> set outs"
proof (induction outs arbitrary: L)
  case (Cons o' outs)
  have "in_links (unlink_site o' L) t s \<longleftrightarrow> in_links L t s \<and> (t, s) \<noteq> o'"
    by (cases o') (auto simp: in_links_def Let_def filter_empty_conv split: option.splits)
  then show ?case using Cons.IH by auto
qed simp

lemma site_patches_append: "site_patches (ps @ qs) s = site_patches ps s @ site_patches qs s"
  by (simp add: site_patches_def)

lemma site_patches_zero: "site_patches (map (\<lambda>x. (x, r)) ss) s = replicate (count_list ss s) r"
  by (induction ss) (auto simp: site_patches_def)

lemma site_patches_elem: "r \<in> set (site_patches ps s) \<longleftrightarrow> (s, r) \<in> set ps"
  by (auto simp: site_patches_def intro!: image_eqI[where x = "(s, r)"])

definition zero_patches :: "code_cache \<Rightarrow> bool" where
  "zero_patches cc \<longleftrightarrow> (\<forall>p \<in> set (cc_patches cc). snd p = 0)"

lemma remove_block_fields:
  shows "cc_base (remove_block pc cc) = cc_base cc" "cc_rwx (remove_block pc cc) = cc_rwx cc"
    "cc_host (remove_block pc cc) = cc_host cc" "cc_cursor (remove_block pc cc) = cc_cursor cc"
    "cc_capacity (remove_block pc cc) = cc_capacity cc" "cc_page (remove_block pc cc) = cc_page cc"
    "cc_miss_stub (remove_block pc cc) = cc_miss_stub cc" "cc_dispatch_meta (remove_block pc cc) = cc_dispatch_meta cc"
    "cc_capped (remove_block pc cc) = cc_capped cc" "cc_direct_sites (remove_block pc cc) = cc_direct_sites cc"
    "cc_table (remove_block pc cc) = AList.delete pc (cc_table cc)"
  by (auto simp: remove_block_def Let_def map_of_eq_None_iff split: option.splits)

lemma remove_block_some:
  assumes "tab cc pc = Some e"
  shows "cc_patches (remove_block pc cc) = cc_patches cc @ map (\<lambda>s. (s, 0)) (case cc_links cc pc of None \<Rightarrow> [] | Some ss \<Rightarrow> ss)"
    "cc_links (remove_block pc cc) = fold unlink_site (e_out_sites e) (cc_links cc)"
    "cc_dispatch (remove_block pc cc) =
      (if ds_pc (cc_dispatch cc (dispatch_index pc)) = pc
       then (cc_dispatch cc)(dispatch_index pc := \<lparr>ds_pc = EMPTY_PC, ds_host = cc_miss_stub cc\<rparr>) else cc_dispatch cc)"
  using assms by (simp_all add: remove_block_def Let_def split: option.split)

lemma owned_removed: "owned (T(pc := None)) pc' t s \<longleftrightarrow> pc' \<noteq> pc \<and> owned T pc' t s"
  by (auto simp: owned_def)

lemma linkable_removed:
  assumes "one_owner T" "T pc = Some e"
  shows "linkable (T(pc := None)) t s \<longleftrightarrow> linkable T t s \<and> (t, s) \<notin> set (e_out_sites e)"
  using assms unfolding linkable_def owned_removed one_owner_def by (auto simp: owned_def; metis option.inject)

lemma remove_block_mid:
  assumes "mid_inv exact U cc" "zero_patches cc"
  shows "mid_inv exact U (remove_block pc cc) \<and> zero_patches (remove_block pc cc)"
proof (cases "tab cc pc")
  case None
  then show ?thesis using assms by (simp add: remove_block_def)
next
  case (Some e)
  let ?cc = "remove_block pc cc"
  have inv: "geometry cc" "protected cc" "dispatch_right cc" "distinct (map fst (cc_table cc))"
      "\<And>t s. in_links (cc_links cc) t s \<longleftrightarrow> linkable (tab cc) t s" "one_owner (tab cc)" "sites_placed U cc" "sites_right exact cc"
    using assms(1) by (auto simp: mid_inv_def)
  have tab: "tab ?cc = (tab cc)(pc := None)" by (simp add: remove_block_fields delete_conv')
  have reg: "linkable (tab ?cc) t s \<longleftrightarrow> linkable (tab cc) t s \<and> (t, s) \<notin> set (e_out_sites e)" for t s
    unfolding tab by (rule linkable_removed[OF inv(6) Some])
  define new where "new = map (\<lambda>s. (s, 0 :: int)) (case cc_links cc pc of None \<Rightarrow> [] | Some ss \<Rightarrow> ss)"
  have patches: "cc_patches ?cc = cc_patches cc @ new" unfolding new_def by (rule remove_block_some(1)[OF Some])
  have new: "(s, r) \<in> set new \<longleftrightarrow> r = 0 \<and> linkable (tab cc) pc s" for s r
    using inv(5)[of pc s] by (auto simp: new_def in_links_def split: option.splits)
  have zero: "zero_patches ?cc" using assms(2) new unfolding zero_patches_def patches by auto
  have dispatch: "dispatch_right ?cc"
    unfolding dispatch_right_def tab
  proof (intro conjI allI)
    show "((tab cc)(pc := None)) EMPTY_PC = None" using inv(3) by (simp add: dispatch_right_def)
    fix i
    let ?d = "cc_dispatch cc i"
    have d: "ds_pc ?d = EMPTY_PC \<and> ds_host ?d = cc_miss_stub cc \<or> (\<exists>e. tab cc (ds_pc ?d) = Some e \<and> ds_host ?d = e_host_ptr e \<and>
        i = dispatch_index (ds_pc ?d) \<and> cc_dispatch_meta cc i = (e_guest_insns e, e_thunk_kind e))"
      using inv(3) by (auto simp: dispatch_right_def Let_def)
    have "pc \<noteq> EMPTY_PC" using inv(3) Some by (auto simp: dispatch_right_def)
    then show "let d = cc_dispatch ?cc i in ds_pc d = EMPTY_PC \<and> ds_host d = cc_miss_stub ?cc \<or>
        (\<exists>e. ((tab cc)(pc := None)) (ds_pc d) = Some e \<and> ds_host d = e_host_ptr e \<and> i = dispatch_index (ds_pc d) \<and>
          cc_dispatch_meta ?cc i = (e_guest_insns e, e_thunk_kind e))"
      using d by (cases "ds_pc ?d = pc"; cases "i = dispatch_index pc")
        (auto simp: Let_def remove_block_some(3)[OF Some] remove_block_fields(7,8))
  qed
  have one: "one_owner (tab ?cc)" using inv(6) unfolding tab one_owner_def owned_removed by blast
  have sites_placed: "sites_placed U ?cc"
    using inv(7) new Some unfolding sites_placed_def patches remove_block_fields(1,4) reg tab
    by (auto simp: reg[unfolded tab] simp del: fun_upd_apply) (auto split: if_splits)
  have "link_right exact (tab ?cc) t s r"
    if reg': "linkable (tab ?cc) t s" and r: "r \<in> site_values exact (cc_patches ?cc) (h_mem (cc_host ?cc)) s" for t s r
  proof (cases "t = pc")
    case True
    have "linkable (tab cc) pc s" using reg' reg True by simp
    then have "(s, 0) \<in> set new" using new by simp
    then have "site_patches (cc_patches ?cc) s \<noteq> []" using site_patches_elem[of 0 "cc_patches ?cc" s] unfolding patches by auto
    then have "r \<in> set (site_patches (cc_patches ?cc) s)" using r unfolding site_values_def by (auto split: if_splits)
    then have "r = 0" using zero unfolding zero_patches_def site_patches_elem by fastforce
    then show ?thesis using True unfolding link_right_def tab by simp
  next
    case False
    have l: "linkable (tab cc) t s" using reg' reg by simp
    have "\<not> linkable (tab cc) pc s" using l False inv(6) unfolding one_owner_def linkable_def by blast
    then have "site_patches new s = []" using new site_patches_elem[of _ new s] by (metis list.set_intros(1) neq_Nil_conv)
    then have "site_patches (cc_patches ?cc) s = site_patches (cc_patches cc) s" unfolding patches site_patches_append by simp
    then have "site_values exact (cc_patches ?cc) (h_mem (cc_host ?cc)) s = site_values exact (cc_patches cc) (h_mem (cc_host cc)) s"
      by (simp add: site_values_def remove_block_fields(3))
    then have "link_right exact (tab cc) t s r" using inv(8) l r unfolding sites_right_def by blast
    then show ?thesis using False unfolding link_right_def tab by simp
  qed
  then have "sites_right exact ?cc" unfolding sites_right_def by blast
  moreover have "in_links (cc_links ?cc) t s \<longleftrightarrow> linkable (tab ?cc) t s" for t s
    unfolding remove_block_some(2)[OF Some] in_links_unlink reg using inv(5) by simp
  moreover have "geometry ?cc" "protected ?cc" using inv(1,2) by (simp_all add: geometry_def protected_def remove_block_fields)
  moreover have "distinct (map fst (cc_table ?cc))" using inv(4) by (simp add: remove_block_fields delete_keys distinct_removeAll)
  ultimately show ?thesis using dispatch one sites_placed zero unfolding mid_inv_def by blast
qed

lemma remove_blocks_mid:
  assumes "mid_inv exact U cc" "zero_patches cc"
  shows "mid_inv exact U (fold remove_block pcs cc) \<and> zero_patches (fold remove_block pcs cc) \<and>
    tab (fold remove_block pcs cc) = tab cc |` (- set pcs)"
  using assms
proof (induction pcs arbitrary: cc)
  case (Cons pc pcs)
  have "tab (remove_block pc cc) |` (- set pcs) = tab cc |` (- set (pc # pcs))"
    by (auto simp: remove_block_fields delete_conv' restrict_map_def fun_eq_iff)
  then show ?case using Cons.IH[of "remove_block pc cc"] remove_block_mid[OF Cons.prems] by auto
qed (simp add: restrict_map_def)

section \<open>Flushing\<close>

text \<open>The effect of a list of patches on memory: at each site the last one counts, and only the displacements change.\<close>

definition patched :: "nat set \<Rightarrow> (nat \<times> int) list \<Rightarrow> (nat \<Rightarrow> u8) \<Rightarrow> (nat \<Rightarrow> u8) \<Rightarrow> bool" where
  "patched U ps m m' \<longleftrightarrow>
     (\<forall>s \<in> U. read_i32 m' (s + SITE_REL_OFFSET) =
        (if site_patches ps s = [] then read_i32 m (s + SITE_REL_OFFSET) else last (site_patches ps s))) \<and>
     (\<forall>a. (\<forall>s \<in> fst ` set ps. a < s + SITE_REL_OFFSET \<or> s + SITE_LEN \<le> a) \<longrightarrow> m' a = m a)"

lemma patched_trans:
  assumes "patched U ps m m1" "patched U qs m1 m2"
  shows "patched U (ps @ qs) m m2"
  using assms unfolding patched_def site_patches_append by (auto simp: ball_Un)

lemma patched_one:
  assumes "spaced U" "s \<in> U" "- (2 ^ 31) \<le> r" "r < 2 ^ 31"
    and m': "m' = (\<lambda>a. if s + 1 \<le> a \<and> a < s + 5 then i32_bytes r ! (a - (s + 1)) else m a)"
  shows "patched U [(s, r)] m m'"
proof -
  have "read_i32 m' (s + 1) = r" by (rule read_i32_bytes) (use assms(3,4) in \<open>simp_all add: m'\<close>)
  moreover have "read_i32 m' (x + 1) = read_i32 m (x + 1)" if "x \<in> U" "x \<noteq> s" for x
  proof (rule read_i32_cong)
    fix k :: nat assume "k < 4"
    moreover have "x + 5 \<le> s \<or> s + 5 \<le> x" using assms(1,2) that by (auto simp: spaced_def SITE_LEN_def)
    ultimately show "m' (x + 1 + k) = m (x + 1 + k)" unfolding m' by (intro if_not_P) linarith
  qed
  ultimately show ?thesis by (auto simp: patched_def site_patches_def SITE_REL_OFFSET_def SITE_LEN_def m')
qed

lemma write_patches_result:
  assumes "spaced U" "\<And>s r. (s, r) \<in> set ps \<Longrightarrow> s \<in> U \<and> - (2 ^ 31) \<le> r \<and> r < 2 ^ 31"
    and "\<And>s r a. (s, r) \<in> set ps \<Longrightarrow> s \<le> a \<Longrightarrow> a < s + SITE_LEN \<Longrightarrow> h_prot h a \<noteq> READ_EXECUTE"
  shows "\<exists>m. write_patches ps h = Some (h\<lparr>h_mem := m\<rparr>) \<and> patched U ps (h_mem h) m"
  using assms(2,3)
proof (induction ps arbitrary: h)
  case Nil
  show ?case by (rule exI[of _ "h_mem h"]) (simp add: patched_def site_patches_def)
next
  case (Cons p ps)
  obtain s r where p: "p = (s, r)" by (cases p)
  let ?m = "\<lambda>a. if s + 1 \<le> a \<and> a < s + 5 then i32_bytes r ! (a - (s + 1)) else h_mem h a"
  have "h_prot h (s + 1 + k) \<noteq> READ_EXECUTE" if "k < 4" for k
    using Cons.prems(2)[of s r "s + 1 + k"] that by (simp add: p SITE_LEN_def)
  then have w: "write_bytes (s + SITE_REL_OFFSET) (i32_bytes r) h = Some (h\<lparr>h_mem := ?m\<rparr>)"
    unfolding SITE_REL_OFFSET_def by (subst write_bytes_result) (simp_all add: add.commute[of 5])
  have one: "patched U [(s, r)] (h_mem h) ?m"
    by (rule patched_one[OF assms(1)]) (use Cons.prems(1)[of s r] p in auto)
  obtain m where m: "write_patches ps (h\<lparr>h_mem := ?m\<rparr>) = Some (h\<lparr>h_mem := m\<rparr>)" "patched U ps ?m m"
    using Cons.IH[of "h\<lparr>h_mem := ?m\<rparr>"] Cons.prems by fastforce
  show ?case
    using w m patched_trans[OF one m(2)] by (intro exI[of _ m]) (simp add: p)
qed

text \<open>The runs cover their patches.\<close>

lemma patch_run_hi:
  "patch_run page hi ps = (hi', g, rest) \<Longrightarrow> hi \<le> hi' \<and> (\<forall>p \<in> set g. page_ceil page (fst p + SITE_LEN) \<le> hi')"
proof (induction page hi ps arbitrary: hi' g rest rule: patch_run.induct)
  case (2 page hi p ps)
  show ?case
  proof (cases "page_floor page (fst p) \<le> hi")
    case True
    let ?hi = "max hi (page_ceil page (fst p + SITE_LEN))"
    obtain hi1 g1 rest1 where run: "patch_run page ?hi ps = (hi1, g1, rest1)" by (metis prod_cases3)
    then show ?thesis using 2(1)[OF True run] 2(2) True by auto
  next
    case False
    then show ?thesis using 2(2) by simp
  qed
qed simp

lemma patch_groups_concat: "concat (map (snd \<circ> snd) (patch_groups page ps)) = ps"
  by (induction page ps rule: patch_groups.induct) (auto split: prod.splits dest: patch_run_rest)

lemma patch_groups_cover:
  assumes "0 < page" "sorted (map fst ps)" "(lo, hi, g) \<in> set (patch_groups page ps)" "p \<in> set g"
  shows "lo \<le> fst p \<and> fst p + SITE_LEN \<le> hi"
  using assms(1-3)
proof (induction page ps rule: patch_groups.induct)
  case (2 page q ps)
  obtain hi' g' rest where run: "patch_run page (page_ceil page (fst q + SITE_LEN)) ps = (hi', g', rest)" by (metis prod_cases3)
  have ps: "ps = g' @ rest" by (rule patch_run_rest[OF run])
  consider "(lo, hi, g) = (page_floor page (fst q), hi', q # g')" | "(lo, hi, g) \<in> set (patch_groups page rest)" using 2(4) run by auto
  then show ?case
  proof cases
    case 1
    have "fst q \<le> fst p" using 1 assms(4) 2(3) ps by auto
    moreover have "page_ceil page (fst p + SITE_LEN) \<le> hi" using 1 assms(4) patch_run_hi[OF run] by auto
    moreover have "page_floor page (fst q) \<le> fst q" by (rule page_floor_le)
    ultimately show ?thesis using 1 page_ceil_ge[OF 2(2), of "fst p + SITE_LEN"] by auto
  next
    case tl: 2
    show ?thesis by (rule "2.IH"[OF run[symmetric] refl _ _ tl]) (use 2(2,3) ps in \<open>simp_all add: sorted_append\<close>)
  qed
qed simp

text \<open>What the client may assume of the operating system and of the sort.\<close>

definition grants :: "os \<Rightarrow> bool" where
  "grants os \<longleftrightarrow> (\<forall>lo len p. os lo len p)"

definition sorts :: "((nat \<times> int) list \<Rightarrow> (nat \<times> int) list) \<Rightarrow> bool" where
  "sorts srt \<longleftrightarrow> (\<forall>ps. mset (srt ps) = mset ps \<and> sorted (map fst (srt ps)))"

definition stable :: "((nat \<times> int) list \<Rightarrow> (nat \<times> int) list) \<Rightarrow> bool" where
  "stable srt \<longleftrightarrow> (\<forall>ps s. filter (\<lambda>p. fst p = s) (srt ps) = filter (\<lambda>p. fst p = s) ps)"

lemma protected_mem: "protected (cc\<lparr>cc_host := (cc_host cc)\<lparr>h_mem := m\<rparr>\<rparr>) \<longleftrightarrow> protected cc"
  by (simp add: protected_def)

lemma protected_range:
  assumes "\<not> cc_rwx cc" "protected cc"
  shows "protected (cc\<lparr>cc_host := set_protection lo len READ_EXECUTE ((set_protection lo len READ_WRITE (cc_host cc))\<lparr>h_mem := m\<rparr>)\<rparr>)"
  using assms by (auto simp: protected_def set_protection_def)

lemma with_writable_result:
  assumes "grants os" "spaced U" "protected cc" "geometry cc"
    and g: "\<And>s r. (s, r) \<in> set g \<Longrightarrow> lo \<le> s \<and> s + SITE_LEN \<le> hi \<and> s \<in> U \<and> - (2 ^ 31) \<le> r \<and> r < 2 ^ 31"
    and area: "\<And>s. s \<in> U \<Longrightarrow> cc_base cc \<le> s \<and> s + SITE_LEN \<le> cc_base cc + cc_capacity cc"
  shows "\<exists>h. with_writable os lo (hi - lo) (write_patches g) cc = Some (Inr (), cc\<lparr>cc_host := h\<rparr>) \<and>
    protected (cc\<lparr>cc_host := h\<rparr>) \<and> patched U g (h_mem (cc_host cc)) (h_mem h)"
proof -
  let ?lo = "page_floor (cc_page cc) lo" let ?hi = "page_ceil (cc_page cc) (lo + (hi - lo))"
  have page: "0 < cc_page cc" using assms(4) by (simp add: geometry_def)
  show ?thesis
  proof (cases "cc_rwx cc")
    case True
    have "h_prot (cc_host cc) a \<noteq> READ_EXECUTE" if "(s, r) \<in> set g" "s \<le> a" "a < s + SITE_LEN" for s r a
      using that g[OF that(1)] area[of s] True assms(3) by (simp add: protected_def)
    then obtain m where "write_patches g (cc_host cc) = Some ((cc_host cc)\<lparr>h_mem := m\<rparr>)" "patched U g (h_mem (cc_host cc)) m"
      using write_patches_result[OF assms(2), of g "cc_host cc"] g by blast
    then show ?thesis using True assms(3)
      by (intro exI[of _ "(cc_host cc)\<lparr>h_mem := m\<rparr>"]) (simp add: with_writable_def protected_mem)
  next
    case False
    let ?h = "set_protection ?lo (?hi - ?lo) READ_WRITE (cc_host cc)"
    have "h_prot ?h a \<noteq> READ_EXECUTE" if s: "(s, r) \<in> set g" "s \<le> a" "a < s + SITE_LEN" for s r a
    proof -
      have "?lo \<le> a" using page_floor_le[of "cc_page cc" lo] g[OF s(1)] s(2) by linarith
      moreover have "lo + (hi - lo) = hi" using g[OF s(1)] by linarith
      then have "a < ?hi" using page_ceil_ge[OF page, of hi] g[OF s(1)] s(3) by simp
      ultimately show ?thesis by (simp add: set_protection_def)
    qed
    then obtain m where m: "write_patches g ?h = Some (?h\<lparr>h_mem := m\<rparr>)" "patched U g (h_mem ?h) m"
      using write_patches_result[OF assms(2), of g ?h] g by blast
    have "h_mem ?h = h_mem (cc_host cc)" "h_mem (set_protection ?lo (?hi - ?lo) READ_EXECUTE (?h\<lparr>h_mem := m\<rparr>)) = m"
      by (simp_all add: set_protection_def)
    then show ?thesis using m False assms(1) protected_range[OF False assms(3)]
      by (intro exI[of _ "set_protection ?lo (?hi - ?lo) READ_EXECUTE (?h\<lparr>h_mem := m\<rparr>)"]) (simp add: with_writable_def grants_def Let_def)
  qed
qed

lemma write_groups_result:
  assumes "grants os" "spaced U" "protected cc" "geometry cc"
    and "\<And>lo hi g s r. (lo, hi, g) \<in> set gs \<Longrightarrow> (s, r) \<in> set g \<Longrightarrow> lo \<le> s \<and> s + SITE_LEN \<le> hi \<and> s \<in> U \<and> - (2 ^ 31) \<le> r \<and> r < 2 ^ 31"
    and "\<And>s. s \<in> U \<Longrightarrow> cc_base cc \<le> s \<and> s + SITE_LEN \<le> cc_base cc + cc_capacity cc"
  shows "\<exists>h. write_groups os gs cc = Some (cc\<lparr>cc_host := h\<rparr>) \<and> protected (cc\<lparr>cc_host := h\<rparr>) \<and>
    patched U (concat (map (snd \<circ> snd) gs)) (h_mem (cc_host cc)) (h_mem h)"
  using assms(3-)
proof (induction gs arbitrary: cc)
  case Nil
  show ?case by (rule exI[of _ "cc_host cc"]) (use Nil in \<open>simp add: patched_def site_patches_def\<close>)
next
  case (Cons x gs)
  obtain lo hi g where x: "x = (lo, hi, g)" by (cases x)
  obtain h1 where h1: "with_writable os lo (hi - lo) (write_patches g) cc = Some (Inr (), cc\<lparr>cc_host := h1\<rparr>)"
      "protected (cc\<lparr>cc_host := h1\<rparr>)" "patched U g (h_mem (cc_host cc)) (h_mem h1)"
    using with_writable_result[OF assms(1,2) Cons.prems(1,2), of g lo hi] Cons.prems(3)[of lo hi g] Cons.prems(4) x by auto
  have geo: "geometry (cc\<lparr>cc_host := h1\<rparr>)" using Cons.prems(2) by (simp add: geometry_def)
  have gs: "lo \<le> s \<and> s + SITE_LEN \<le> hi \<and> s \<in> U \<and> - (2 ^ 31) \<le> r \<and> r < 2 ^ 31"
    if "(lo, hi, g) \<in> set gs" "(s, r) \<in> set g" for lo hi g s r
    using Cons.prems(3)[of lo hi g s r] that by (simp only: list.set insert_iff simp_thms)
  have "\<exists>h. write_groups os gs (cc\<lparr>cc_host := h1\<rparr>) = Some ((cc\<lparr>cc_host := h1\<rparr>)\<lparr>cc_host := h\<rparr>) \<and>
      protected ((cc\<lparr>cc_host := h1\<rparr>)\<lparr>cc_host := h\<rparr>) \<and>
      patched U (concat (map (snd \<circ> snd) gs)) (h_mem (cc_host (cc\<lparr>cc_host := h1\<rparr>))) (h_mem h)"
    by (rule Cons.IH[OF h1(2) geo gs]) (use Cons.prems(4) in simp_all)
  then obtain h where h: "write_groups os gs (cc\<lparr>cc_host := h1\<rparr>) = Some (cc\<lparr>cc_host := h\<rparr>)" "protected (cc\<lparr>cc_host := h\<rparr>)"
      "patched U (concat (map (snd \<circ> snd) gs)) (h_mem h1) (h_mem h)" by auto
  show ?case using h(1,2) h1(1) patched_trans[OF h1(3) h(3)] by (intro exI[of _ h]) (simp add: x comp_def)
qed

lemma in_groups: "(lo, hi, g) \<in> set gs \<Longrightarrow> p \<in> set g \<Longrightarrow> p \<in> set (concat (map (snd \<circ> snd) gs))"
  by (induction gs) auto

lemma sites_placed_patch: "sites_placed U cc \<Longrightarrow> (s, r) \<in> set (cc_patches cc) \<Longrightarrow> s \<in> U \<and> - (2 ^ 31) \<le> r \<and> r < 2 ^ 31"
  unfolding sites_placed_def image_subset_iff by (metis fst_conv snd_conv)

lemma flush_frame:
  "geometry (cc\<lparr>cc_host := h, cc_patches := ps\<rparr>) = geometry cc"
  "dispatch_right (cc\<lparr>cc_host := h, cc_patches := ps\<rparr>) = dispatch_right cc"
  by (simp_all add: geometry_def dispatch_right_def)

lemma flush_result:
  assumes "mid_inv exact U cc" "grants os" "sorts srt" "exact \<Longrightarrow> stable srt"
  shows "\<exists>h. flush_patches os srt cc = Some (cc\<lparr>cc_host := h, cc_patches := []\<rparr>) \<and> cache_inv exact (cc\<lparr>cc_host := h, cc_patches := []\<rparr>)"
proof (cases "cc_patches cc = []")
  case True
  then have eq: "cc\<lparr>cc_patches := []\<rparr> = cc" by (cases cc) simp
  have "cache_inv exact cc" using True assms(1) by (auto simp: cache_inv_def)
  moreover have "cc\<lparr>cc_host := cc_host cc, cc_patches := []\<rparr> = cc" using eq by simp
  ultimately show ?thesis using True by (intro exI[of _ "cc_host cc"]) (simp only: flush_patches_def if_True simp_thms)
next
  case False
  have inv: "geometry cc" "protected cc" "sites_placed U cc" "sites_right exact cc" using assms(1) by (auto simp: mid_inv_def)
  let ?ps = "srt (cc_patches cc)"
  have ps: "set ?ps = set (cc_patches cc)" "sorted (map fst ?ps)"
    using assms(3) by (auto simp: sorts_def dest: mset_eq_setD)
  let ?gs = "patch_groups (cc_page cc) ?ps"
  have group: "lo \<le> s \<and> s + SITE_LEN \<le> hi \<and> s \<in> U \<and> - (2 ^ 31) \<le> r \<and> r < 2 ^ 31"
    if "(lo, hi, g) \<in> set ?gs" "(s, r) \<in> set g" for lo hi g s r
  proof -
    have "(s, r) \<in> set (concat (map (snd \<circ> snd) ?gs))" using in_groups[OF that] .
    then have "(s, r) \<in> set (cc_patches cc)" unfolding patch_groups_concat ps(1) .
    then have "s \<in> U \<and> - (2 ^ 31) \<le> r \<and> r < 2 ^ 31" using sites_placed_patch[OF inv(3)] by blast
    moreover have "lo \<le> s \<and> s + SITE_LEN \<le> hi"
      using patch_groups_cover[OF _ ps(2) that] inv(1) by (simp add: geometry_def)
    ultimately show ?thesis by blast
  qed
  have area: "cc_base cc \<le> s \<and> s + SITE_LEN \<le> cc_base cc + cc_capacity cc" if "s \<in> U" for s
    using inv(1,3) that by (fastforce simp: geometry_def sites_placed_def)
  obtain h where h: "write_groups os ?gs cc = Some (cc\<lparr>cc_host := h\<rparr>)" "protected (cc\<lparr>cc_host := h\<rparr>)"
      "patched U ?ps (h_mem (cc_host cc)) (h_mem h)"
    using write_groups_result[OF assms(2) _ inv(2,1), of U ?gs] group area inv(3) unfolding patch_groups_concat sites_placed_def by blast
  let ?cc = "cc\<lparr>cc_host := h, cc_patches := []\<rparr>"
  have "read_i32 (h_mem h) (s + SITE_REL_OFFSET) \<in> site_values exact (cc_patches cc) (h_mem (cc_host cc)) s" if "s \<in> U" for s
  proof -
    have r: "read_i32 (h_mem h) (s + SITE_REL_OFFSET) =
        (if site_patches ?ps s = [] then read_i32 (h_mem (cc_host cc)) (s + SITE_REL_OFFSET) else last (site_patches ?ps s))"
      using h(3) that by (simp add: patched_def)
    have set: "set (site_patches ?ps s) = set (site_patches (cc_patches cc) s)" using ps(1) by (auto simp: site_patches_elem)
    have "site_patches ?ps s = site_patches (cc_patches cc) s" if exact
      using assms(4)[OF that] by (simp add: stable_def site_patches_def)
    then show ?thesis using set last_in_set[of "site_patches ?ps s"] unfolding r site_values_def by (cases "site_patches ?ps s = []") auto
  qed
  then have "sites_right exact ?cc"
    using inv(3,4) by (simp add: sites_right_def sites_placed_def site_values_def[of _ "[]"] site_patches_def[of "[]"])
  moreover have "protected ?cc" using h(2) by (cases "cc_rwx cc") (simp_all add: protected_def)
  moreover have "sites_placed U ?cc" using inv(3) by (simp add: sites_placed_def)
  moreover have "geometry ?cc" "dispatch_right ?cc" using assms(1) unfolding flush_frame mid_inv_def by blast+
  moreover have "distinct (map fst (cc_table ?cc))" "one_owner (tab ?cc)" "\<forall>t s. in_links (cc_links ?cc) t s \<longleftrightarrow> linkable (tab ?cc) t s"
    using assms(1) unfolding mid_inv_def by auto
  ultimately have "mid_inv exact U ?cc" unfolding mid_inv_def by blast
  then show ?thesis using False h(1) by (intro exI[of _ h]) (auto simp: flush_patches_def cache_inv_def)
qed

end
