(* ===== verification/Code_Cache_Install.thy ===== *)
theory Code_Cache_Install
  imports Code_Cache_Inv
begin

text \<open>
  Installation keeps the invariant of the code cache: the bytes are published behind everything
  that is used, the sites of the new block are linked to their targets, and the sites that wait for
  the new block are linked to it.
\<close>

section \<open>Publication\<close>

lemma multiple_less: "(page :: nat) dvd x \<Longrightarrow> page dvd y \<Longrightarrow> x < y \<Longrightarrow> x + page \<le> y"
  using dvd_imp_le[OF dvd_diff_nat[of page y x]] by simp

lemma page_floor_dvd: "page dvd page_floor page a"
  by (simp add: page_floor_def)

lemma publication_facts:
  assumes "publication_range cursor len capacity page = Inr r" "0 < page"
  shows "0 < len" "cursor \<le> byte_start r" "byte_start r \<le> cursor + 15" "16 dvd byte_start r" "byte_end r = byte_start r + len"
    "page_start r = page_floor page (byte_start r)" "byte_end r \<le> page_start r + page_len r" "page dvd page_start r + page_len r"
    "page_start r + page_len r \<le> capacity"
proof -
  let ?start = "page_floor 16 (cursor + 15)" let ?stop = "(?start + len + (page - 1)) div page * page"
  have r: "r = \<lparr>byte_start = ?start, byte_end = ?start + len, page_start = ?start div page * page, page_len = ?stop - ?start div page * page\<rparr>"
    and len: "0 < len" "?stop \<le> capacity"
    using assms(1) by (auto simp: publication_range_def Let_def checked_add_def split: if_splits option.splits)
  have "?stop = page_ceil page (?start + len)" using assms(2) by (simp add: page_ceil_def)
  then have e: "?start + len \<le> ?stop" using page_ceil_ge[OF assms(2), of "?start + len"] by simp
  have s: "?start div page * page \<le> ?start" by (rule div_times_less_eq_dividend)
  have sum: "?start div page * page + (?stop - ?start div page * page) = ?stop" using s e by linarith
  show "0 < len" "cursor \<le> byte_start r" "byte_start r \<le> cursor + 15" "16 dvd byte_start r" "byte_end r = byte_start r + len"
    "page_start r = page_floor page (byte_start r)" "byte_end r \<le> page_start r + page_len r" "page dvd page_start r + page_len r"
    "page_start r + page_len r \<le> capacity"
    using len e page_floor_next[of 16 "cursor + 15"] page_floor_le[of 16 "cursor + 15"]
    unfolding r publication.simps sum by (simp_all add: page_floor_dvd page_floor_def[of page])
qed

definition published :: "nat \<Rightarrow> u8 list \<Rightarrow> code_cache \<Rightarrow> code_cache \<Rightarrow> bool" where
  "published p bytes cc cc' \<longleftrightarrow> (\<exists>h. cc' = cc\<lparr>cc_host := h, cc_cursor := p + length bytes - cc_base cc\<rparr> \<and>
     h_mem h = (\<lambda>a. if p \<le> a \<and> a < p + length bytes then bytes ! (a - p) else h_mem (cc_host cc) a)) \<and>
     cc_base cc + cc_cursor cc \<le> p \<and> p + length bytes \<le> cc_base cc + cc_capacity cc \<and> bytes \<noteq> [] \<and> 16 dvd p - cc_base cc"

lemma protected_grows:
  assumes "geometry cc" "protected cc" "\<not> cc_rwx cc"
    and r: "publication_range (cc_cursor cc) len (cc_capacity cc) (cc_page cc) = Inr r"
    and pages: "lo = cc_base cc + page_start r"
  shows "protected (cc\<lparr>cc_host := set_protection lo (page_len r) READ_EXECUTE
      ((set_protection lo (page_len r) READ_WRITE (cc_host cc))\<lparr>h_mem := m\<rparr>), cc_cursor := byte_end r\<rparr>)"
proof -
  let ?page = "cc_page cc"
  have page: "16 \<le> ?page" "0 < ?page" using assms(1) by (auto simp: geometry_def)
  note f = publication_facts[OF r page(2)]
  have base: "?page dvd cc_base cc + page_start r" "?page dvd cc_base cc + (page_start r + page_len r)"
    using assms(1) f(6,8) page_floor_dvd[of ?page] by (auto simp: geometry_def)
  have "lo \<le> a \<and> a < lo + page_len r"
    if a: "page_floor ?page a < cc_base cc + byte_end r" "cc_base cc + cc_cursor cc \<le> page_floor ?page a" for a
  proof
    have "\<not> page_floor ?page a < cc_base cc + page_start r"
    proof
      assume "page_floor ?page a < cc_base cc + page_start r"
      then have "page_floor ?page a + ?page \<le> cc_base cc + page_start r" by (rule multiple_less[OF page_floor_dvd base(1)])
      moreover have "page_start r \<le> byte_start r" unfolding f(6) by (rule page_floor_le)
      ultimately show False using a(2) f(3) page(1) by linarith
    qed
    then show "lo \<le> a" using page_floor_le[of ?page a] pages by linarith
    have "page_floor ?page a + ?page \<le> cc_base cc + (page_start r + page_len r)"
      by (rule multiple_less[OF page_floor_dvd base(2)]) (use a(1) f(7) in linarith)
    then show "a < lo + page_len r" using page_floor_next[OF page(2), of a] pages by linarith
  qed
  then have "page_floor ?page a < cc_base cc + cc_cursor cc \<or> lo \<le> a \<and> a < lo + page_len r"
    if "page_floor ?page a < cc_base cc + byte_end r" for a using that by (meson not_less)
  then show ?thesis using assms(2,3) by (auto simp: protected_def set_protection_def)
qed

lemma site_values_cong:
  assumes "\<And>k. k < SITE_LEN \<Longrightarrow> m (s + k) = m' (s + k)"
  shows "site_values exact ps m s = site_values exact ps m' s"
proof -
  have "read_i32 m (s + SITE_REL_OFFSET) = read_i32 m' (s + SITE_REL_OFFSET)"
    by (rule read_i32_cong) (use assms in \<open>simp add: SITE_REL_OFFSET_def SITE_LEN_def add.assoc del: One_nat_def\<close>)
  then show ?thesis by (simp add: site_values_def)
qed

lemma published_inv:
  assumes inv: "mid_inv exact U cc" and pub: "published p bytes cc cc'" and prot: "protected cc'"
  shows "mid_inv exact U cc'"
proof -
  obtain h where cc': "cc' = cc\<lparr>cc_host := h, cc_cursor := p + length bytes - cc_base cc\<rparr>"
    and h: "h_mem h = (\<lambda>a. if p \<le> a \<and> a < p + length bytes then bytes ! (a - p) else h_mem (cc_host cc) a)"
    and p: "cc_base cc + cc_cursor cc \<le> p" "p + length bytes \<le> cc_base cc + cc_capacity cc"
    using pub by (auto simp: published_def)
  have i: "geometry cc" "sites_placed U cc" "sites_right exact cc" using inv by (auto simp: mid_inv_def)
  have "site_values exact (cc_patches cc) (h_mem h) s = site_values exact (cc_patches cc) (h_mem (cc_host cc)) s" if "s \<in> U" for s
  proof (rule site_values_cong)
    fix k assume "k < SITE_LEN"
    moreover have "s + SITE_LEN \<le> cc_base cc + cc_cursor cc" using i(2) that by (simp add: sites_placed_def)
    ultimately show "h_mem h (s + k) = h_mem (cc_host cc) (s + k)" unfolding h using p(1) by (intro if_not_P) linarith
  qed
  then have "sites_right exact cc'" using i(2,3) by (simp add: sites_right_def sites_placed_def cc')
  moreover have "geometry cc'" using i(1) p by (auto simp: geometry_def cc')
  moreover have "sites_placed U cc'"
    using i(2) p(1) unfolding sites_placed_def cc' by (auto simp: le_diff_conv2) (force dest: bspec)+
  moreover have "dispatch_right cc' = dispatch_right cc" by (simp add: dispatch_right_def cc')
  ultimately show ?thesis using inv prot unfolding mid_inv_def cc' by simp
qed

lemma publication_error: "publication_range cursor len capacity page = Inl e \<Longrightarrow> e = CodeCacheFull \<or> len = 0"
  by (auto simp: publication_range_def Let_def split: if_splits option.splits)

lemma append_raw_publishes:
  assumes i: "geometry cc" "protected cc" and os: "grants os"
  shows "(\<exists>e. append_raw os bytes cc = Some (Inl e, cc) \<and> (e = CodeCacheFull \<or> bytes = [])) \<or>
    (\<exists>p cc'. append_raw os bytes cc = Some (Inr p, cc') \<and> published p bytes cc cc' \<and> protected cc')"
proof (cases "publication_range (cc_cursor cc) (length bytes) (cc_capacity cc) (cc_page cc)")
  case (Inl e)
  then show ?thesis using publication_error[OF Inl] by (simp add: append_raw_def)
next
  case (Inr r)
  have page: "0 < cc_page cc" using i(1) by (auto simp: geometry_def)
  note f = publication_facts[OF Inr page]
  let ?p = "cc_base cc + byte_start r" let ?lo = "cc_base cc + page_start r"
  let ?m = "\<lambda>a. if ?p \<le> a \<and> a < ?p + length bytes then bytes ! (a - ?p) else h_mem (cc_host cc) a"
  let ?h = "if cc_rwx cc then cc_host cc else set_protection ?lo (page_len r) READ_WRITE (cc_host cc)"
  have start: "page_start r \<le> byte_start r" unfolding f(6) by (rule page_floor_le)
  have ok: "h_prot ?h (?p + k) \<noteq> READ_EXECUTE" if "k < length bytes" for k
  proof (cases "cc_rwx cc")
    case True
    then show ?thesis using i(2) that f(5,7,9) by (simp add: protected_def)
  next
    case False
    then show ?thesis using that start f(5,7) by (simp add: set_protection_def)
  qed
  have mem: "h_mem ?h = h_mem (cc_host cc)" by (simp add: set_protection_def)
  have w: "write_bytes ?p bytes ?h = Some (?h\<lparr>h_mem := ?m\<rparr>)"
    using write_bytes_result[OF ok] unfolding mem .
  let ?h' = "if cc_rwx cc then (cc_host cc)\<lparr>h_mem := ?m\<rparr> else set_protection ?lo (page_len r) READ_EXECUTE (?h\<lparr>h_mem := ?m\<rparr>)"
  let ?cc = "cc\<lparr>cc_host := ?h', cc_cursor := byte_end r\<rparr>"
  have app: "append_raw os bytes cc = Some (Inr ?p, ?cc)"
    using w os by (cases "cc_rwx cc") (simp_all add: append_raw_def Inr Let_def grants_def)
  have "h_mem ?h' = ?m" by (simp add: set_protection_def)
  moreover have "byte_end r = ?p + length bytes - cc_base cc" using f(5) by simp
  ultimately have pub: "published ?p bytes cc ?cc"
    unfolding published_def using f(1-5,7,9) by (intro conjI exI[of _ ?h']) auto
  have "protected ?cc"
  proof (cases "cc_rwx cc")
    case True
    then show ?thesis using i(2) by (simp add: protected_def)
  next
    case False
    then show ?thesis using protected_grows[OF i False Inr refl, of ?m] by simp
  qed
  then show ?thesis using app pub by blast
qed

lemma append_raw_result:
  assumes "mid_inv exact U cc" "grants os"
  shows "(\<exists>e. append_raw os bytes cc = Some (Inl e, cc) \<and> (e = CodeCacheFull \<or> bytes = [])) \<or>
    (\<exists>p cc'. append_raw os bytes cc = Some (Inr p, cc') \<and> published p bytes cc cc' \<and> mid_inv exact U cc')"
proof -
  have "geometry cc" "protected cc" using assms(1) by (auto simp: mid_inv_def)
  from append_raw_publishes[OF this assms(2), of bytes] show ?thesis using published_inv[OF assms(1)] by blast
qed

section \<open>Linking\<close>

definition chain_sites :: "nat \<Rightarrow> chain_site list \<Rightarrow> (u64 \<times> nat) list" where
  "chain_sites p cs = map (\<lambda>c. (ch_target_pc c, p + unat (ch_patch_offset c))) cs"

definition link_patches :: "(u64 \<Rightarrow> cache_entry option) \<Rightarrow> (u64 \<times> nat) list \<Rightarrow> (nat \<times> int) list" where
  "link_patches T ss = concat (map (\<lambda>(t, s). case T t of None \<Rightarrow> []
     | Some e \<Rightarrow> [(s, int (e_host_ptr e) - (int s + int SITE_LEN))]) ss)"

lemma link_patches_elem:
  "(s, r) \<in> set (link_patches T ss) \<longleftrightarrow> (\<exists>t e. (t, s) \<in> set ss \<and> T t = Some e \<and> r = int (e_host_ptr e) - (int s + int SITE_LEN))"
  by (force simp: link_patches_def split: option.splits)

lemma link_chains_result:
  assumes "\<And>t s e. (t, s) \<in> set (chain_sites p cs) \<Longrightarrow> tab cc t = Some e \<Longrightarrow>
      - (2 ^ 31) \<le> int (e_host_ptr e) - (int s + int SITE_LEN) \<and> int (e_host_ptr e) - (int s + int SITE_LEN) < 2 ^ 31"
  shows "\<exists>L. link_chains p cs out cc = Some (out @ chain_sites p cs,
      cc\<lparr>cc_links := L, cc_patches := cc_patches cc @ link_patches (tab cc) (chain_sites p cs)\<rparr>) \<and>
    (\<forall>t s. in_links L t s \<longleftrightarrow> in_links (cc_links cc) t s \<or> (t, s) \<in> set (chain_sites p cs))"
  using assms
proof (induction cs arbitrary: out cc)
  case Nil
  show ?case by (rule exI[of _ "cc_links cc"]) (simp add: chain_sites_def link_patches_def)
next
  case (Cons c cs)
  let ?t = "ch_target_pc c" let ?s = "p + unat (ch_patch_offset c)"
  let ?L = "(cc_links cc)(?t \<mapsto> (case cc_links cc ?t of None \<Rightarrow> [] | Some sites \<Rightarrow> sites) @ [?s])"
  let ?new = "link_patches (tab cc) [(?t, ?s)]"
  let ?cc = "cc\<lparr>cc_links := ?L, cc_patches := cc_patches cc @ ?new\<rparr>"
  have sites: "chain_sites p (c # cs) = (?t, ?s) # chain_sites p cs" by (simp add: chain_sites_def)
  have one: "link_chains p (c # cs) out cc = link_chains p cs (out @ [(?t, ?s)]) ?cc"
    using Cons.prems[of ?t ?s] by (cases "tab cc ?t") (simp_all add: sites Let_def queue_link_def link_patches_def)
  obtain L where L: "link_chains p cs (out @ [(?t, ?s)]) ?cc = Some ((out @ [(?t, ?s)]) @ chain_sites p cs,
      ?cc\<lparr>cc_links := L, cc_patches := cc_patches ?cc @ link_patches (tab ?cc) (chain_sites p cs)\<rparr>)"
    "\<forall>t s. in_links L t s \<longleftrightarrow> in_links (cc_links ?cc) t s \<or> (t, s) \<in> set (chain_sites p cs)"
    using Cons.IH[of ?cc "out @ [(?t, ?s)]"] Cons.prems unfolding sites by fastforce
  have "in_links ?L t s \<longleftrightarrow> in_links (cc_links cc) t s \<or> (t, s) = (?t, ?s)" for t s
    by (cases "cc_links cc ?t") (auto simp: in_links_def)
  moreover have "link_patches (tab cc) (chain_sites p (c # cs)) = ?new @ link_patches (tab cc) (chain_sites p cs)"
    by (simp add: sites link_patches_def)
  ultimately show ?case using L unfolding one by (intro exI[of _ L]) (auto simp: sites)
qed

lemma queue_links_result:
  assumes "\<And>s. s \<in> set ss \<Longrightarrow> - (2 ^ 31) \<le> int p - (int s + int SITE_LEN) \<and> int p - (int s + int SITE_LEN) < 2 ^ 31"
  shows "queue_links ss p cc = Some (cc\<lparr>cc_patches := cc_patches cc @ map (\<lambda>s. (s, int p - (int s + int SITE_LEN))) ss\<rparr>)"
  using assms by (induction ss arbitrary: cc) (simp_all add: queue_link_def Let_def)

text \<open>The new entry, with its sites and the patches of all sites that now have a target.\<close>

lemma distance_range:
  assumes "geometry cc" "cc_base cc \<le> s" "s + SITE_LEN \<le> cc_base cc + cc_cursor cc" "cc_base cc \<le> q" "q < cc_base cc + cc_cursor cc"
  shows "- (2 ^ 31) \<le> int q - (int s + int SITE_LEN) \<and> int q - (int s + int SITE_LEN) < 2 ^ 31"
  using assms by (auto simp: geometry_def)

definition entered :: "u64 \<Rightarrow> cache_entry \<Rightarrow> (u64 \<Rightarrow> nat list option) \<Rightarrow> code_cache \<Rightarrow> code_cache" where
  "entered pc e L cc = cc\<lparr>cc_links := L,
     cc_patches := (cc_patches cc @ link_patches (tab cc) (e_out_sites e)) @
       map (\<lambda>s. (s, int (e_host_ptr e) - (int s + int SITE_LEN))) (case L pc of None \<Rightarrow> [] | Some ss \<Rightarrow> ss),
     cc_table := AList.update pc e (cc_table cc),
     cc_dispatch := (cc_dispatch cc)(dispatch_index pc := \<lparr>ds_pc = pc, ds_host = e_host_ptr e\<rparr>),
     cc_dispatch_meta := (cc_dispatch_meta cc)(dispatch_index pc := (e_guest_insns e, e_thunk_kind e))\<rparr>"

lemma linkable_entered:
  "T pc = None \<Longrightarrow> linkable (T(pc \<mapsto> e)) t s \<longleftrightarrow> linkable T t s \<or> (t, s) \<in> set (e_out_sites e)"
  by (simp add: linkable_def owned_def) (metis option.distinct(1) option.inject)

lemma site_patches_nil: "(\<And>r. (s, r) \<notin> set ps) \<Longrightarrow> site_patches ps s = []"
  using site_patches_elem[of _ ps s] by (metis list.set_intros(1) neq_Nil_conv)

lemma site_patches_links:
  "site_patches (map (\<lambda>s. (s, g s)) ss) s = replicate (count_list ss s) (g s)"
  by (induction ss) (auto simp: site_patches_def)

lemma site_values_one:
  assumes "site_patches ps s \<noteq> []" "set (site_patches ps s) \<subseteq> {x}"
  shows "site_values exact ps m s = {x}"
proof -
  have "last (site_patches ps s) = x" using last_in_set[OF assms(1)] assms(2) by blast
  moreover have "set (site_patches ps s) = {x}" using assms by (metis set_empty subset_singletonD)
  ultimately show ?thesis using assms(1) by (simp add: site_values_def)
qed

lemma spaced_Un: "spaced U \<Longrightarrow> spaced V \<Longrightarrow> (\<And>a b. a \<in> U \<Longrightarrow> b \<in> V \<Longrightarrow> a + SITE_LEN \<le> b) \<Longrightarrow> spaced (U \<union> V)"
  unfolding spaced_def by blast

lemma entered_mid:
  assumes inv: "mid_inv exact U cc" and zero: "zero_patches cc" and fresh: "tab cc pc = None" and pc: "pc \<noteq> EMPTY_PC"
    and above: "\<And>s. s \<in> U \<Longrightarrow> s + SITE_LEN \<le> e_host_ptr e"
    and host: "cc_base cc \<le> e_host_ptr e" "e_host_ptr e < cc_base cc + cc_cursor cc"
    and sites: "\<And>t s. (t, s) \<in> set (e_out_sites e) \<Longrightarrow> e_host_ptr e \<le> s \<and> s + SITE_LEN \<le> cc_base cc + cc_cursor cc \<and>
        read_i32 (h_mem (cc_host cc)) (s + SITE_REL_OFFSET) = 0"
    and apart: "spaced (snd ` set (e_out_sites e))" "distinct (map snd (e_out_sites e))"
    and L: "\<And>t s. in_links L t s \<longleftrightarrow> in_links (cc_links cc) t s \<or> (t, s) \<in> set (e_out_sites e)"
  shows "mid_inv exact (U \<union> snd ` set (e_out_sites e)) (entered pc e L cc)"
proof -
  let ?ss = "e_out_sites e" and ?p = "e_host_ptr e" and ?cc = "entered pc e L cc" and ?U = "U \<union> snd ` set (e_out_sites e)"
  have i: "geometry cc" "protected cc" "dispatch_right cc" "distinct (map fst (cc_table cc))"
      "\<And>t s. in_links (cc_links cc) t s \<longleftrightarrow> linkable (tab cc) t s" "one_owner (tab cc)" "sites_placed U cc" "sites_right exact cc"
    using inv by (auto simp: mid_inv_def)
  have tab: "tab ?cc = (tab cc)(pc \<mapsto> e)" by (simp add: entered_def update_conv')
  have reg: "linkable (tab ?cc) t s \<longleftrightarrow> linkable (tab cc) t s \<or> (t, s) \<in> set ?ss" for t s
    unfolding tab by (rule linkable_entered[where T = "tab cc", OF fresh])
  have in_U: "s \<in> U" if "linkable (tab cc) t s" for t s using i(7) that by (simp add: sites_placed_def)
  have below: "s < ?p" if "s \<in> U" for s using above[OF that] by (simp add: SITE_LEN_def)
  have new_U: "s \<notin> U" if "(t, s) \<in> set ?ss" for t s using below sites[OF that] by fastforce
  have same_target: "t = t'" if "(t, s) \<in> set ?ss" "(t', s) \<in> set ?ss" for t t' s
    using inj_onD[of snd "set ?ss" "(t, s)" "(t', s)"] apart(2) that by (simp add: distinct_map)
  have one: "one_owner (tab ?cc)"
    unfolding one_owner_def tab
  proof (intro allI impI)
    fix q t s q' t' assume o: "owned ((tab cc)(pc \<mapsto> e)) q t s \<and> owned ((tab cc)(pc \<mapsto> e)) q' t' s"
    have own: "owned ((tab cc)(pc \<mapsto> e)) x y s \<longleftrightarrow> (if x = pc then (y, s) \<in> set ?ss else owned (tab cc) x y s)" for x y
      by (auto simp: owned_def)
    have lk: "owned (tab cc) x y s \<Longrightarrow> s \<in> U" for x y using in_U[of y s] by (auto simp: linkable_def)
    show "q = q' \<and> t = t'"
      using o i(6) lk new_U same_target unfolding own one_owner_def by (auto split: if_splits)
  qed
  define B where "B = map (\<lambda>s. (s, int ?p - (int s + int SITE_LEN))) (case L pc of None \<Rightarrow> [] | Some ss \<Rightarrow> ss)"
  let ?A = "link_patches (tab cc) ?ss"
  have patches: "cc_patches ?cc = (cc_patches cc @ ?A) @ B" by (simp add: entered_def B_def)
  have B: "(s, r) \<in> set B \<longleftrightarrow> r = int ?p - (int s + int SITE_LEN) \<and> linkable (tab ?cc) pc s" for s r
    using L[of pc s] i(5)[of pc s] reg[of pc s] by (auto simp: B_def in_links_def split: option.splits)
  have old: "s \<in> U" "r = 0" if "(s, r) \<in> set (cc_patches cc)" for s r
    using sites_placed_patch[OF i(7) that] zero that by (auto simp: zero_patches_def)
  have unique: "t = t'" if "linkable (tab ?cc) t s" "linkable (tab ?cc) t' s" for t t' s
    using one that unfolding one_owner_def linkable_def by blast
  have right: "link_right exact (tab ?cc) t s r"
    if lk: "linkable (tab ?cc) t s" and r: "r \<in> site_values exact (cc_patches ?cc) (h_mem (cc_host cc)) s" for t s r
  proof (cases "t = pc")
    case True
    let ?x = "int ?p - (int s + int SITE_LEN)"
    have "(s, ?x) \<in> set B" using B lk True by simp
    then have "site_patches B s \<noteq> []" using site_patches_elem[of ?x B s] by auto
    moreover have "set (site_patches B s) \<subseteq> {?x}" using B by (auto simp: site_patches_elem)
    moreover have "last (site_patches B s) \<in> set (site_patches B s)" using calculation(1) by (rule last_in_set)
    moreover have "(s, y) \<notin> set ?A" for y
    proof
      assume "(s, y) \<in> set ?A"
      then obtain t' e' where "(t', s) \<in> set ?ss" "tab cc t' = Some e'" unfolding link_patches_elem by blast
      then show False using unique[of t s t'] lk reg True fresh by auto
    qed
    ultimately have "r = ?x \<or> \<not> exact \<and> r = 0"
      using r old(2) unfolding patches site_values_def site_patches_append by (auto simp: site_patches_elem split: if_splits)
    then show ?thesis using True unfolding link_right_def tab by auto
  next
    case False
    have noB: "site_patches B s = []" by (rule site_patches_nil) (use B unique[OF lk, of pc] False in auto)
    show ?thesis
    proof (cases "(t, s) \<in> set ?ss")
      case True
      have none: "site_patches (cc_patches cc) s = []" by (rule site_patches_nil) (use old(1) new_U[OF True] in blast)
      have A: "(s, y) \<in> set ?A \<longleftrightarrow> (\<exists>e'. tab cc t = Some e' \<and> y = int (e_host_ptr e') - (int s + int SITE_LEN))" for y
        unfolding link_patches_elem using same_target[OF True] True by blast
      show ?thesis
      proof (cases "tab cc t")
        case None
        then have "site_patches ?A s = []" by (intro site_patches_nil) (simp add: A)
        then have "r = 0" using r none noB sites[OF True] unfolding patches site_values_def site_patches_append by simp
        then show ?thesis using None False unfolding link_right_def tab by simp
      next
        case (Some e')
        let ?x = "int (e_host_ptr e') - (int s + int SITE_LEN)"
        have "site_patches ?A s \<noteq> []" using A[of ?x] Some site_patches_elem[of ?x ?A s] by auto
        moreover have "set (site_patches ?A s) \<subseteq> {?x}"
        proof
          fix y assume "y \<in> set (site_patches ?A s)"
          then obtain e'' where "tab cc t = Some e''" "y = int (e_host_ptr e'') - (int s + int SITE_LEN)"
            unfolding site_patches_elem A by blast
          then show "y \<in> {?x}" using Some by simp
        qed
        moreover have "site_patches (cc_patches ?cc) s = site_patches ?A s" unfolding patches site_patches_append none noB by simp
        ultimately have "site_values exact (cc_patches ?cc) (h_mem (cc_host cc)) s = {?x}" by (intro site_values_one) simp_all
        then have "r = ?x" using r by simp
        then show ?thesis using Some False unfolding link_right_def tab by simp
      qed
    next
      case nin: False
      have lk': "linkable (tab cc) t s" using lk reg nin by simp
      have "(s, y) \<notin> set ?A" for y using new_U[of _ s] in_U[OF lk'] unfolding link_patches_elem by blast
      then have noA: "site_patches ?A s = []" by (rule site_patches_nil)
      have "site_patches (cc_patches ?cc) s = site_patches (cc_patches cc) s" unfolding patches site_patches_append noA noB by simp
      then have "site_values exact (cc_patches ?cc) (h_mem (cc_host cc)) s = site_values exact (cc_patches cc) (h_mem (cc_host cc)) s"
        by (simp add: site_values_def)
      then have "r \<in> site_values exact (cc_patches cc) (h_mem (cc_host cc)) s" using r by simp
      then have "link_right exact (tab cc) t s r" using i(8) lk' unfolding sites_right_def by blast
      then show ?thesis using False unfolding link_right_def tab by simp
    qed
  qed
  have "cc_host ?cc = cc_host cc" by (simp add: entered_def)
  then have "sites_right exact ?cc" using right unfolding sites_right_def by simp
  moreover have "dispatch_right ?cc"
    unfolding dispatch_right_def tab
  proof (intro conjI allI)
    show "((tab cc)(pc \<mapsto> e)) EMPTY_PC = None" using i(3) pc by (simp add: dispatch_right_def)
    fix j
    have "(let d = cc_dispatch cc j in ds_pc d = EMPTY_PC \<and> ds_host d = cc_miss_stub cc \<or>
        (\<exists>e. tab cc (ds_pc d) = Some e \<and> ds_host d = e_host_ptr e \<and> j = dispatch_index (ds_pc d) \<and>
          cc_dispatch_meta cc j = (e_guest_insns e, e_thunk_kind e)))" using i(3) by (simp add: dispatch_right_def)
    then show "let d = cc_dispatch ?cc j in ds_pc d = EMPTY_PC \<and> ds_host d = cc_miss_stub ?cc \<or>
        (\<exists>e'. ((tab cc)(pc \<mapsto> e)) (ds_pc d) = Some e' \<and> ds_host d = e_host_ptr e' \<and> j = dispatch_index (ds_pc d) \<and>
          cc_dispatch_meta ?cc j = (e_guest_insns e', e_thunk_kind e'))"
      using fresh by (cases "j = dispatch_index pc") (auto simp: Let_def entered_def)
  qed
  moreover have "sites_placed ?U ?cc"
  proof -
    have sp: "spaced ?U"
    proof (rule spaced_Un)
      show "spaced U" using i(7) by (simp add: sites_placed_def)
      show "spaced (snd ` set ?ss)" by (rule apart(1))
      show "a + SITE_LEN \<le> b" if "a \<in> U" "b \<in> snd ` set ?ss" for a b
        using that above[of a] sites by fastforce
    qed
    have area: "cc_base cc \<le> s \<and> s + SITE_LEN \<le> cc_base cc + cc_cursor cc" if "s \<in> ?U" for s
      using that i(7) sites host(1) unfolding sites_placed_def by fastforce
    have hosts: "cc_base cc \<le> e_host_ptr e' \<and> e_host_ptr e' < cc_base cc + cc_cursor cc" if "tab ?cc q = Some e'" for q e'
      using that host i(7) unfolding sites_placed_def tab by (auto split: if_splits)
    have lkU: "s \<in> ?U" if "linkable (tab ?cc) t s" for t s using that reg in_U by force
    have "s \<in> ?U \<and> - (2 ^ 31) \<le> r \<and> r < 2 ^ 31" if mem: "(s, r) \<in> set (cc_patches ?cc)" for s r
    proof -
      consider "(s, r) \<in> set (cc_patches cc)" | t e' where "(t, s) \<in> set ?ss" "tab cc t = Some e'" "r = int (e_host_ptr e') - (int s + int SITE_LEN)"
        | "r = int ?p - (int s + int SITE_LEN)" "linkable (tab ?cc) pc s"
        using mem unfolding patches by (auto simp: link_patches_elem B)
      then show ?thesis
      proof cases
        case 1
        then show ?thesis using sites_placed_patch[OF i(7)] by blast
      next
        case 2
        have u: "s \<in> ?U" using 2(1) by force
        have "t \<noteq> pc" using 2(2) fresh by auto
        then show ?thesis
          using distance_range[OF i(1) area[OF u, THEN conjunct1] area[OF u, THEN conjunct2]] hosts[of t e'] 2(2,3) u by (simp add: tab)
      next
        case 3
        have u: "s \<in> ?U" using lkU[OF 3(2)] .
        then show ?thesis
          using distance_range[OF i(1) area[OF u, THEN conjunct1] area[OF u, THEN conjunct2] host] 3(1) by simp
      qed
    qed
    then have "fst ` set (cc_patches ?cc) \<subseteq> ?U" "\<forall>x \<in> set (cc_patches ?cc). - (2 ^ 31) \<le> snd x \<and> snd x < 2 ^ 31" by fastforce+
    moreover have "cc_base ?cc = cc_base cc" "cc_cursor ?cc = cc_cursor cc" by (simp_all add: entered_def)
    ultimately show ?thesis using sp area hosts lkU unfolding sites_placed_def by simp
  qed
  moreover have "geometry ?cc" "protected ?cc" using i(1,2) by (simp_all add: geometry_def protected_def entered_def)
  moreover have "distinct (map fst (cc_table ?cc))" using i(4) by (simp add: entered_def distinct_update)
  moreover have "in_links (cc_links ?cc) t s \<longleftrightarrow> linkable (tab ?cc) t s" for t s
    unfolding reg i(5)[symmetric] L[symmetric] by (simp add: entered_def)
  ultimately show ?thesis using one unfolding mid_inv_def by blast
qed

section \<open>Installing a block\<close>

text \<open>What the emitter guarantees of the chain sites of a block: unlinked jumps inside it that do not overlap.\<close>

definition chains_wf :: "u8 list \<Rightarrow> chain_site list \<Rightarrow> bool" where
  "chains_wf bytes cs \<longleftrightarrow> distinct (map ch_patch_offset cs) \<and> spaced ((\<lambda>c. unat (ch_patch_offset c)) ` set cs) \<and>
     (\<forall>c \<in> set cs. unat (ch_patch_offset c) + SITE_LEN \<le> length bytes \<and>
        read_i32 (\<lambda>a. bytes ! a) (unat (ch_patch_offset c) + SITE_REL_OFFSET) = 0)"

lemma mid_inv_frame:
  "mid_inv exact U (cc\<lparr>cc_direct_sites := x\<rparr>) = mid_inv exact U cc" "mid_inv exact U (cc\<lparr>cc_capped := y\<rparr>) = mid_inv exact U cc"
  by (simp_all add: mid_inv_def geometry_def protected_def dispatch_right_def sites_placed_def sites_right_def)

lemma chain_sites_spaced:
  assumes "chains_wf bytes cs"
  shows "spaced (snd ` set (chain_sites p cs))" "distinct (map snd (chain_sites p cs))"
proof -
  have "snd ` set (chain_sites p cs) = (+) p ` (\<lambda>c. unat (ch_patch_offset c)) ` set cs" by (force simp: chain_sites_def)
  then show "spaced (snd ` set (chain_sites p cs))" using assms by (auto simp: chains_wf_def spaced_def)
  have "map snd (chain_sites p cs) = map (\<lambda>o'. p + unat o') (map ch_patch_offset cs)" by (simp add: chain_sites_def)
  moreover have "inj (\<lambda>o'. p + unat (o' :: u32))" by (simp add: inj_def flip: word_unat_eq_iff)
  ultimately show "distinct (map snd (chain_sites p cs))"
    using assms distinct_map[of "\<lambda>o'. p + unat o'" "map ch_patch_offset cs"] inj_on_subset[of _ UNIV] unfolding chains_wf_def by auto
qed

lemma read_i32_shift: "(\<And>k. k < 4 \<Longrightarrow> m (a + k) = m' (b + k)) \<Longrightarrow> read_i32 m a = read_i32 m' b"
proof -
  assume m: "\<And>k. k < 4 \<Longrightarrow> m (a + k) = m' (b + k)"
  show ?thesis using m[of 0] m[of 1] m[of 2] m[of 3] by (simp add: read_i32_def)
qed

lemma chain_sites_fresh:
  assumes "chains_wf bytes cs" "published p bytes cc cc'" "(t, s) \<in> set (chain_sites p cs)"
  shows "p \<le> s" "s + SITE_LEN \<le> cc_base cc' + cc_cursor cc'" "read_i32 (h_mem (cc_host cc')) (s + SITE_REL_OFFSET) = 0"
proof -
  obtain c where c: "c \<in> set cs" "s = p + unat (ch_patch_offset c)" using assms(3) by (auto simp: chain_sites_def)
  obtain h where cc': "cc' = cc\<lparr>cc_host := h, cc_cursor := p + length bytes - cc_base cc\<rparr>"
    and h: "h_mem h = (\<lambda>a. if p \<le> a \<and> a < p + length bytes then bytes ! (a - p) else h_mem (cc_host cc) a)"
    and p: "cc_base cc + cc_cursor cc \<le> p" using assms(2) by (auto simp: published_def)
  have off: "unat (ch_patch_offset c) + SITE_LEN \<le> length bytes" using assms(1) c(1) by (simp add: chains_wf_def)
  show "p \<le> s" "s + SITE_LEN \<le> cc_base cc' + cc_cursor cc'" using off p c(2) by (simp_all add: cc')
  have "h_mem h (s + SITE_REL_OFFSET + k) = bytes ! (unat (ch_patch_offset c) + SITE_REL_OFFSET + k)" if "k < 4" for k
  proof -
    have "p \<le> s + SITE_REL_OFFSET + k \<and> s + SITE_REL_OFFSET + k < p + length bytes"
      using that off c(2) by (auto simp: SITE_LEN_def SITE_REL_OFFSET_def)
    moreover have "s + SITE_REL_OFFSET + k - p = unat (ch_patch_offset c) + SITE_REL_OFFSET + k" using c(2) by simp
    ultimately show ?thesis unfolding h by simp
  qed
  then have "read_i32 (h_mem h) (s + SITE_REL_OFFSET) = read_i32 (\<lambda>a. bytes ! a) (unat (ch_patch_offset c) + SITE_REL_OFFSET)"
    using read_i32_shift[of "h_mem h" "s + SITE_REL_OFFSET" "\<lambda>a. bytes ! a"] by blast
  then show "read_i32 (h_mem (cc_host cc')) (s + SITE_REL_OFFSET) = 0" using assms(1) c(1) by (simp add: chains_wf_def cc')
qed

definition installed_entry :: "nat \<Rightarrow> u64 \<Rightarrow> (u64 \<times> u64) list \<Rightarrow> u32 \<Rightarrow> chain_site list \<Rightarrow> thunk_kind \<Rightarrow> cache_entry" where
  "installed_entry p pc rs insns cs kind = \<lparr>e_host_ptr = p, e_ranges = block_ranges pc rs, e_out_sites = chain_sites p cs,
     e_guest_insns = max insns 1, e_thunk_kind = kind\<rparr>"

lemma install_prepare:
  assumes "mid_inv exact U cc" "cc_patches cc = []"
  shows "\<exists>cc'. (if tab cc pc \<noteq> None then remove_block pc cc else cc) = cc' \<and> mid_inv exact U cc' \<and> zero_patches cc' \<and>
    tab cc' = (tab cc)(pc := None) \<and> cc_host cc' = cc_host cc \<and> cc_base cc' = cc_base cc \<and> cc_cursor cc' = cc_cursor cc \<and>
    cc_capped cc' = cc_capped cc \<and> cc_direct_sites cc' = cc_direct_sites cc"
proof -
  have zero: "zero_patches cc" using assms(2) by (simp add: zero_patches_def)
  then show ?thesis using assms(1) remove_block_mid[OF assms(1) zero, of pc]
    by (cases "tab cc pc") (auto simp: remove_block_fields delete_conv' fun_eq_iff)
qed

text \<open>The part of \<open>install_block\<close> behind the publication, for a block that is cached.\<close>

lemma install_links:
  assumes inv: "mid_inv exact U cc" "zero_patches cc" and fresh: "tab cc pc = None" "pc \<noteq> EMPTY_PC"
    and os: "grants os" "sorts srt" "exact \<longrightarrow> stable srt"
    and above: "\<forall>s \<in> U. s + SITE_LEN \<le> p" and host: "cc_base cc \<le> p" "p < cc_base cc + cc_cursor cc"
    and wf: "chains_wf bytes cs"
    and fresh_sites: "\<forall>x \<in> set (chain_sites p cs). p \<le> snd x \<and> snd x + SITE_LEN \<le> cc_base cc + cc_cursor cc \<and>
        read_i32 (h_mem (cc_host cc)) (snd x + SITE_REL_OFFSET) = 0"
    and e: "e_host_ptr e = p" "e_out_sites e = chain_sites p cs"
  shows "\<exists>L cc'. link_chains p cs [] cc = Some (chain_sites p cs,
        cc\<lparr>cc_links := L, cc_patches := cc_patches cc @ link_patches (tab cc) (chain_sites p cs)\<rparr>) \<and>
    (case L pc of None \<Rightarrow> Some | Some ss \<Rightarrow> queue_links ss p)
      (cc\<lparr>cc_links := L, cc_patches := cc_patches cc @ link_patches (tab cc) (chain_sites p cs),
        cc_table := AList.update pc e (cc_table cc),
        cc_dispatch := (cc_dispatch cc)(dispatch_index pc := \<lparr>ds_pc = pc, ds_host = p\<rparr>),
        cc_dispatch_meta := (cc_dispatch_meta cc)(dispatch_index pc := (e_guest_insns e, e_thunk_kind e))\<rparr>) = Some (entered pc e L cc) \<and>
    flush_patches os srt (entered pc e L cc) = Some cc' \<and> cache_inv exact cc' \<and> tab cc' = (tab cc)(pc \<mapsto> e) \<and>
    cc_base cc' = cc_base cc \<and> cc_cursor cc' = cc_cursor cc \<and> cc_capped cc' = cc_capped cc \<and> cc_direct_sites cc' = cc_direct_sites cc"
proof -
  have sites: "p \<le> s \<and> s + SITE_LEN \<le> cc_base cc + cc_cursor cc \<and> read_i32 (h_mem (cc_host cc)) (s + SITE_REL_OFFSET) = 0"
    if "(t, s) \<in> set (chain_sites p cs)" for t s using bspec[OF fresh_sites that] by simp
  have i: "geometry cc" "sites_placed U cc" "\<And>t s. in_links (cc_links cc) t s \<longleftrightarrow> linkable (tab cc) t s" using inv(1) by (auto simp: mid_inv_def)
  have range: "- (2 ^ 31) \<le> int (e_host_ptr e') - (int s + int SITE_LEN) \<and> int (e_host_ptr e') - (int s + int SITE_LEN) < 2 ^ 31"
    if "(t, s) \<in> set (chain_sites p cs)" "tab cc t' = Some e'" for t s t' e'
    by (rule distance_range[OF i(1)]) (use sites[OF that(1)] host i(2) that(2) in \<open>auto simp: sites_placed_def\<close>)
  obtain L where L: "link_chains p cs [] cc = Some ([] @ chain_sites p cs,
        cc\<lparr>cc_links := L, cc_patches := cc_patches cc @ link_patches (tab cc) (chain_sites p cs)\<rparr>)"
      "\<And>t s. in_links L t s \<longleftrightarrow> in_links (cc_links cc) t s \<or> (t, s) \<in> set (chain_sites p cs)"
    using link_chains_result[of p cs cc "[]"] range by blast
  have "- (2 ^ 31) \<le> int p - (int s + int SITE_LEN) \<and> int p - (int s + int SITE_LEN) < 2 ^ 31" if "L pc = Some ss" "s \<in> set ss" for s ss
  proof -
    have "linkable (tab cc) pc s \<or> (pc, s) \<in> set (chain_sites p cs)" using that L(2) i(3) by (auto simp: in_links_def)
    then have "cc_base cc \<le> s \<and> s + SITE_LEN \<le> cc_base cc + cc_cursor cc"
      using i(2) sites host(1) unfolding sites_placed_def by fastforce
    then show ?thesis using distance_range[OF i(1) _ _ host] by blast
  qed
  then have q: "(case L pc of None \<Rightarrow> Some | Some ss \<Rightarrow> queue_links ss p)
      (cc\<lparr>cc_links := L, cc_patches := cc_patches cc @ link_patches (tab cc) (chain_sites p cs),
        cc_table := AList.update pc e (cc_table cc),
        cc_dispatch := (cc_dispatch cc)(dispatch_index pc := \<lparr>ds_pc = pc, ds_host = p\<rparr>),
        cc_dispatch_meta := (cc_dispatch_meta cc)(dispatch_index pc := (e_guest_insns e, e_thunk_kind e))\<rparr>) = Some (entered pc e L cc)"
    by (cases "L pc") (simp_all add: queue_links_result entered_def e)
  have mid: "mid_inv exact (U \<union> snd ` set (e_out_sites e)) (entered pc e L cc)"
    by (rule entered_mid[OF inv fresh]) (use above host sites chain_sites_spaced[OF wf] L(2) e in auto)
  obtain h where "flush_patches os srt (entered pc e L cc) = Some ((entered pc e L cc)\<lparr>cc_host := h, cc_patches := []\<rparr>)"
      "cache_inv exact ((entered pc e L cc)\<lparr>cc_host := h, cc_patches := []\<rparr>)"
    using flush_result[OF mid os(1,2)] os(3) by blast
  then show ?thesis using L(1) q by (intro exI[of _ L] exI[of _ "(entered pc e L cc)\<lparr>cc_host := h, cc_patches := []\<rparr>"])
      (simp add: entered_def update_conv')
qed

lemma install_result:
  assumes inv: "cache_inv exact cc" and pc: "pc \<noteq> EMPTY_PC" and wf: "chains_wf bytes cs"
    and os: "grants os" "sorts srt" "exact \<longrightarrow> stable srt"
  shows "(\<exists>err. install_block os srt pc rs insns bytes cs ds cap kind cc = Some (Inl err, cc) \<and> (err = CodeCacheFull \<or> bytes = [])) \<or>
    (\<exists>p cc'. install_block os srt pc rs insns bytes cs ds cap kind cc = Some (Inr p, cc') \<and> cache_inv exact cc' \<and>
      cc_base cc + cc_cursor cc \<le> p \<and> p + length bytes = cc_base cc' + cc_cursor cc' \<and>
      cc_direct_sites cc' = register p ds (cc_direct_sites cc) \<and>
      (distinct (map fst (cc_capped cc)) \<longrightarrow> distinct (map fst (cc_capped cc'))) \<and>
      (case cap of None \<Rightarrow> tab cc' = (tab cc)(pc \<mapsto> installed_entry p pc rs insns cs kind) \<and> cc_capped cc' = cc_capped cc
       | Some n \<Rightarrow> tab cc' = tab cc \<and>
           map_of (cc_capped cc') = (map_of (cc_capped cc))((pc, n) \<mapsto> \<lparr>cp_host_ptr = p, cp_ranges = block_ranges pc rs\<rparr>)))"
proof -
  obtain U where U: "mid_inv exact U cc" "cc_patches cc = []" using inv by (auto simp: cache_inv_def)
  from append_raw_result[OF U(1) os(1), of bytes] show ?thesis
  proof (elim disjE exE conjE)
    fix err assume "append_raw os bytes cc = Some (Inl err, cc)" "err = CodeCacheFull"
    then show ?thesis by (simp add: install_block_def)
  next
    fix err assume "append_raw os bytes cc = Some (Inl err, cc)" "bytes = []"
    then show ?thesis by (simp add: install_block_def)
  next
    fix p cc1 assume app: "append_raw os bytes cc = Some (Inr p, cc1)" and pub: "published p bytes cc cc1" and mid: "mid_inv exact U cc1"
    let ?cc2 = "cc1\<lparr>cc_direct_sites := register p ds (cc_direct_sites cc1)\<rparr>"
    have eq: "tab ?cc2 = tab cc" "cc_capped ?cc2 = cc_capped cc" "cc_patches ?cc2 = []"
        "cc_direct_sites ?cc2 = register p ds (cc_direct_sites cc)" and
      at: "cc_base cc + cc_cursor cc \<le> p" "p + length bytes = cc_base ?cc2 + cc_cursor ?cc2" "bytes \<noteq> []" "cc_base ?cc2 = cc_base cc"
      using pub U(2) by (auto simp: published_def)
    have mid2: "mid_inv exact U ?cc2" using mid by (simp add: mid_inv_frame)
    show ?thesis
    proof (cases cap)
      case (Some n)
      let ?cc3 = "?cc2\<lparr>cc_capped := AList.update (pc, n) \<lparr>cp_host_ptr = p, cp_ranges = block_ranges pc rs\<rparr> (cc_capped ?cc2)\<rparr>"
      have "cache_inv exact ?cc3" using mid2 eq(3) mid_inv_frame(2)[where cc = ?cc2 and U = U and exact = exact] by (auto simp: cache_inv_def)
      then show ?thesis using app Some at eq
        by (intro disjI2 exI[of _ p] exI[of _ ?cc3]) (simp add: install_block_def Let_def update_conv' distinct_update)
    next
      case None
      let ?e = "installed_entry p pc rs insns cs kind"
      obtain cc3 where c3: "(if tab ?cc2 pc \<noteq> None then remove_block pc ?cc2 else ?cc2) = cc3" "mid_inv exact U cc3" "zero_patches cc3"
          "tab cc3 = (tab ?cc2)(pc := None)" "cc_host cc3 = cc_host ?cc2" "cc_base cc3 = cc_base ?cc2" "cc_cursor cc3 = cc_cursor ?cc2"
          "cc_capped cc3 = cc_capped ?cc2" "cc_direct_sites cc3 = cc_direct_sites ?cc2"
        using install_prepare[OF mid2 eq(3), of pc] by blast
      have above: "\<forall>s \<in> U. s + SITE_LEN \<le> p" using U(1) at(1) by (fastforce simp: mid_inv_def sites_placed_def)
      have sites: "\<forall>x \<in> set (chain_sites p cs). p \<le> snd x \<and> snd x + SITE_LEN \<le> cc_base cc3 + cc_cursor cc3 \<and>
          read_i32 (h_mem (cc_host cc3)) (snd x + SITE_REL_OFFSET) = 0"
        using chain_sites_fresh[OF wf pub] c3(5-7) by (auto simp: split_paired_all)
      have fresh: "tab cc3 pc = None" using c3(4) by simp
      have e: "e_host_ptr ?e = p" "e_out_sites ?e = chain_sites p cs" by (simp_all add: installed_entry_def)
      have host: "cc_base cc3 \<le> p" "p < cc_base cc3 + cc_cursor cc3" using at c3(6,7) by (cases bytes; simp)+
      obtain L cc' where L: "link_chains p cs [] cc3 = Some (chain_sites p cs,
            cc3\<lparr>cc_links := L, cc_patches := cc_patches cc3 @ link_patches (tab cc3) (chain_sites p cs)\<rparr>)"
          "(case L pc of None \<Rightarrow> Some | Some ss \<Rightarrow> queue_links ss p)
            (cc3\<lparr>cc_links := L, cc_patches := cc_patches cc3 @ link_patches (tab cc3) (chain_sites p cs),
              cc_table := AList.update pc ?e (cc_table cc3),
              cc_dispatch := (cc_dispatch cc3)(dispatch_index pc := \<lparr>ds_pc = pc, ds_host = p\<rparr>),
              cc_dispatch_meta := (cc_dispatch_meta cc3)(dispatch_index pc := (e_guest_insns ?e, e_thunk_kind ?e))\<rparr>) = Some (entered pc ?e L cc3)"
          "flush_patches os srt (entered pc ?e L cc3) = Some cc'" "cache_inv exact cc'" "tab cc' = (tab cc3)(pc \<mapsto> ?e)"
          "cc_base cc' = cc_base cc3" "cc_cursor cc' = cc_cursor cc3" "cc_capped cc' = cc_capped cc3"
          "cc_direct_sites cc' = cc_direct_sites cc3"
        using install_links[OF c3(2,3) fresh pc os above host wf sites e] by blast
      have "install_block os srt pc rs insns bytes cs ds cap kind cc = Some (Inr p, cc')"
        using app None c3(1) L(1-3)
        by (cases "L pc") (simp_all add: install_block_def Let_def installed_entry_def)
      then show ?thesis using None L(4-9) c3(4,6,7,8,9) at eq by (intro disjI2 exI[of _ p] exI[of _ cc']) simp
    qed
  qed
qed

end
