(* ===== verification/Code_Cache_Steps.thy ===== *)
theory Code_Cache_Steps
  imports Code_Cache_Install
begin

text \<open>
  The operations of the code cache as operations on the two maps it stands for, blocks by address
  and capped blocks by address and budget, and the states that any sequence of operations reaches.
\<close>

section \<open>Lookup\<close>

definition entry_meta :: "cache_entry \<Rightarrow> dispatch_meta" where
  "entry_meta e = \<lparr>dm_host_ptr = e_host_ptr e, dm_guest_insns = e_guest_insns e, dm_thunk_kind = e_thunk_kind e\<rparr>"

lemma dispatch_frame:
  "mid_inv exact U (cc\<lparr>cc_dispatch := d, cc_dispatch_meta := m\<rparr>) \<longleftrightarrow>
     mid_inv exact U cc \<and> dispatch_right (cc\<lparr>cc_dispatch := d, cc_dispatch_meta := m\<rparr>)" if "dispatch_right cc"
  using that by (auto simp: mid_inv_def geometry_def protected_def sites_placed_def sites_right_def)

lemma lookup_result:
  assumes inv: "cache_inv exact cc" and pc: "pc \<noteq> EMPTY_PC"
  shows "\<exists>cc'. lookup_dispatch_meta pc cc = (map_option entry_meta (tab cc pc), cc') \<and> cache_inv exact cc' \<and>
    cc_table cc' = cc_table cc \<and> cc_capped cc' = cc_capped cc"
proof -
  obtain U where U: "mid_inv exact U cc" "cc_patches cc = []" using inv by (auto simp: cache_inv_def)
  have d: "dispatch_right cc" using U(1) by (simp add: mid_inv_def)
  let ?i = "dispatch_index pc"
  show ?thesis
  proof (cases "ds_pc (cc_dispatch cc ?i) = pc")
    case True
    then obtain e where "tab cc pc = Some e" "ds_host (cc_dispatch cc ?i) = e_host_ptr e" "cc_dispatch_meta cc ?i = (e_guest_insns e, e_thunk_kind e)"
      using d pc by (auto simp: dispatch_right_def Let_def dest!: spec[of _ ?i])
    then show ?thesis using True inv by (intro exI[of _ cc]) (simp add: lookup_dispatch_meta_def Let_def entry_meta_def)
  next
    case miss: False
    show ?thesis
    proof (cases "tab cc pc")
      case None
      then show ?thesis using miss inv by (intro exI[of _ cc]) (simp add: lookup_dispatch_meta_def lookup_meta_miss_def Let_def)
    next
      case (Some e)
      let ?cc = "cc\<lparr>cc_dispatch := (cc_dispatch cc)(?i := \<lparr>ds_pc = pc, ds_host = e_host_ptr e\<rparr>),
          cc_dispatch_meta := (cc_dispatch_meta cc)(?i := (e_guest_insns e, e_thunk_kind e))\<rparr>"
      have "dispatch_right ?cc" using d Some by (simp add: dispatch_right_def Let_def)
      then have "mid_inv exact U ?cc" using U(1) dispatch_frame[OF d] by blast
      then have "cache_inv exact ?cc" using U(2) by (auto simp: cache_inv_def)
      then show ?thesis using miss Some by (intro exI[of _ ?cc]) (simp add: lookup_dispatch_meta_def lookup_meta_miss_def Let_def entry_meta_def)
    qed
  qed
qed

lemma lookup_any_inv: "cache_inv exact cc \<Longrightarrow> cache_inv exact (snd (lookup_dispatch_meta pc cc))"
proof (cases "pc = EMPTY_PC")
  case True
  assume inv: "cache_inv exact cc"
  then have "tab cc EMPTY_PC = None" by (auto simp: cache_inv_def mid_inv_def dispatch_right_def)
  then have "snd (lookup_dispatch_meta pc cc) = cc"
    using True by (simp add: lookup_dispatch_meta_def lookup_meta_miss_def Let_def split: prod.split)
  then show ?thesis using inv by simp
next
  case False
  assume "cache_inv exact cc"
  then show ?thesis using lookup_result[of exact cc pc] False by auto
qed

section \<open>Invalidation\<close>

text \<open>The range an invalidation works on: all of memory when it wraps around.\<close>

definition doomed_range :: "u64 \<Rightarrow> u64 \<Rightarrow> u64 \<times> u64" where
  "doomed_range start len = (if uint start + uint len < 2 ^ 64 then (start, start + len) else (0, 0xFFFFFFFFFFFFFFFF))"

definition hit_by :: "u64 \<Rightarrow> u64 \<Rightarrow> (u64 \<times> u64) list \<Rightarrow> bool" where
  "hit_by start len rs \<longleftrightarrow> doomed_range start len = (0, 0xFFFFFFFFFFFFFFFF) \<or>
     (\<exists>(s, e) \<in> set rs. s < snd (doomed_range start len) \<and> fst (doomed_range start len) < e)"

definition spared :: "('b \<Rightarrow> bool) \<Rightarrow> ('a \<Rightarrow> 'b option) \<Rightarrow> 'a \<Rightarrow> 'b option" where
  "spared P m k = (case m k of None \<Rightarrow> None | Some v \<Rightarrow> if P v then None else Some v)"

lemma hit_by_overlaps:
  "(case doomed_range start len of (a, b) \<Rightarrow> a = 0 \<and> b = 0xFFFFFFFFFFFFFFFF \<or> overlaps rs a b) \<longleftrightarrow> hit_by start len rs"
  by (auto simp: hit_by_def overlaps_def list_ex_iff split: prod.splits)

lemma restrict_spared:
  assumes "distinct (map fst xs)"
  shows "map_of xs |` (- set (map fst (filter (\<lambda>(k, v). P v) xs))) = spared P (map_of xs)"
proof
  fix k
  show "(map_of xs |` (- set (map fst (filter (\<lambda>(k, v). P v) xs)))) k = spared P (map_of xs) k"
  proof (cases "map_of xs k")
    case None
    then show ?thesis by (simp add: restrict_map_def spared_def)
  next
    case (Some v)
    have "(k, w) \<in> set xs \<longleftrightarrow> w = v" for w using Some map_of_is_SomeI[OF assms] by (metis map_of_SomeD option.inject)
    then have "k \<in> set (map fst (filter (\<lambda>(k, v). P v) xs)) \<longleftrightarrow> P v" by (force simp: image_iff)
    then show ?thesis using Some by (simp add: restrict_map_def spared_def)
  qed
qed

lemma map_of_filter_spared:
  assumes "distinct (map fst xs)"
  shows "map_of (filter (\<lambda>(k, v). \<not> P v) xs) = spared P (map_of xs)"
  using assms
proof (induction xs)
  case (Cons x xs)
  obtain k v where x: "x = (k, v)" by (cases x)
  have "map_of xs k = None" using Cons.prems x by (simp add: map_of_eq_None_iff)
  then show ?case using Cons x by (auto simp: spared_def fun_eq_iff)
qed (simp add: spared_def fun_eq_iff)

lemma invalidate_range_conv:
  "invalidate_range os srt start len cc =
     flush_patches os srt ((fold remove_block (map fst (filter (\<lambda>(pc, e). hit_by start len (e_ranges e)) (cc_table cc))) cc)
       \<lparr>cc_capped := filter (\<lambda>(k, c). \<not> hit_by start len (cp_ranges c))
         (cc_capped (fold remove_block (map fst (filter (\<lambda>(pc, e). hit_by start len (e_ranges e)) (cc_table cc))) cc))\<rparr>)"
proof -
  obtain a b where ab: "doomed_range start len = (a, b)" by (cases "doomed_range start len")
  have hit: "(a = 0 \<and> b = 0xFFFFFFFFFFFFFFFF \<or> overlaps rs a b) = hit_by start len rs" for rs
    using hit_by_overlaps[where start = start and len = len and rs = rs] by (simp add: ab)
  have not: "(\<not> (a = 0 \<and> b = 0xFFFFFFFFFFFFFFFF) \<and> \<not> overlaps rs a b) = (\<not> hit_by start len rs)" for rs
    unfolding hit[symmetric] by (simp only: de_Morgan_disj)
  show ?thesis
    unfolding invalidate_range_def doomed_range_def[symmetric] ab Let_def prod.case not hit ..
qed

lemma remove_blocks_capped: "cc_capped (fold remove_block pcs cc) = cc_capped cc" "cc_direct_sites (fold remove_block pcs cc) = cc_direct_sites cc"
  by (induction pcs arbitrary: cc) (simp_all add: remove_block_fields)

definition cache_ok :: "bool \<Rightarrow> code_cache \<Rightarrow> bool" where
  "cache_ok exact cc \<longleftrightarrow> cache_inv exact cc \<and> distinct (map fst (cc_capped cc)) \<and> registry_inv (cc_direct_sites cc)"

lemma distinct_keys_filter: "distinct (map fst xs) \<Longrightarrow> distinct (map fst (filter P xs))"
  by (induction xs) auto

lemma invalidate_result:
  assumes ok: "cache_ok exact cc" and os: "grants os" "sorts srt" "exact \<longrightarrow> stable srt"
  shows "\<exists>cc'. invalidate_range os srt start len cc = Some cc' \<and> cache_ok exact cc' \<and>
    tab cc' = spared (\<lambda>e. hit_by start len (e_ranges e)) (tab cc) \<and>
    map_of (cc_capped cc') = spared (\<lambda>c. hit_by start len (cp_ranges c)) (map_of (cc_capped cc))"
proof -
  obtain U where U: "mid_inv exact U cc" "cc_patches cc = []" using ok by (auto simp: cache_inv_def cache_ok_def)
  have dist: "distinct (map fst (cc_table cc))" using U(1) by (simp add: mid_inv_def)
  let ?pcs = "map fst (filter (\<lambda>(pc, e). hit_by start len (e_ranges e)) (cc_table cc))"
  let ?cc1 = "fold remove_block ?pcs cc"
  let ?capped = "filter (\<lambda>(k, c). \<not> hit_by start len (cp_ranges c)) (cc_capped cc)"
  let ?cc2 = "?cc1\<lparr>cc_capped := ?capped\<rparr>"
  have "zero_patches cc" using U(2) by (simp add: zero_patches_def)
  note r = remove_blocks_mid[OF U(1) this, of ?pcs]
  have mid: "mid_inv exact U ?cc2" using r unfolding mid_inv_frame by blast
  have flush: "exact \<Longrightarrow> stable srt" using os(3) by blast
  obtain h where h: "flush_patches os srt ?cc2 = Some (?cc2\<lparr>cc_host := h, cc_patches := []\<rparr>)" "cache_inv exact (?cc2\<lparr>cc_host := h, cc_patches := []\<rparr>)"
    using flush_result[OF mid os(1,2) flush] by blast
  let ?cc3 = "?cc2\<lparr>cc_host := h, cc_patches := []\<rparr>"
  have "invalidate_range os srt start len cc = Some ?cc3"
    unfolding invalidate_range_conv remove_blocks_capped by (rule h(1))
  moreover have "tab ?cc3 = spared (\<lambda>e. hit_by start len (e_ranges e)) (tab cc)"
    using r restrict_spared[OF dist, of "\<lambda>e. hit_by start len (e_ranges e)"] by simp
  moreover have "map_of (cc_capped ?cc3) = spared (\<lambda>c. hit_by start len (cp_ranges c)) (map_of (cc_capped cc))"
    using map_of_filter_spared[of "cc_capped cc" "\<lambda>c. hit_by start len (cp_ranges c)"] ok by (simp add: cache_ok_def)
  moreover have "cache_ok exact ?cc3"
    using h(2) ok by (simp add: cache_ok_def distinct_keys_filter remove_blocks_capped)
  ultimately show ?thesis by blast
qed

section \<open>Installation\<close>

lemma install_ok:
  assumes ok: "cache_ok exact cc" and pc: "pc \<noteq> EMPTY_PC" and wf: "chains_wf bytes cs"
    and os: "grants os" "sorts srt" "exact \<longrightarrow> stable srt"
  shows "(\<exists>err. install_block os srt pc rs insns bytes cs ds cap kind cc = Some (Inl err, cc) \<and> (err = CodeCacheFull \<or> bytes = [])) \<or>
    (\<exists>p cc'. install_block os srt pc rs insns bytes cs ds cap kind cc = Some (Inr p, cc') \<and> cache_ok exact cc' \<and>
      cc_base cc + cc_cursor cc \<le> p \<and> p + length bytes = cc_base cc' + cc_cursor cc' \<and>
      (case cap of None \<Rightarrow> tab cc' = (tab cc)(pc \<mapsto> installed_entry p pc rs insns cs kind) \<and> cc_capped cc' = cc_capped cc
       | Some n \<Rightarrow> tab cc' = tab cc \<and>
           map_of (cc_capped cc') = (map_of (cc_capped cc))((pc, n) \<mapsto> \<lparr>cp_host_ptr = p, cp_ranges = block_ranges pc rs\<rparr>)))"
proof -
  have "cache_inv exact cc" using ok by (simp add: cache_ok_def)
  from install_result[OF this pc wf os, of rs insns ds cap kind] show ?thesis
  proof (elim disjE)
    assume "\<exists>err. install_block os srt pc rs insns bytes cs ds cap kind cc = Some (Inl err, cc) \<and> (err = CodeCacheFull \<or> bytes = [])"
    then show ?thesis by (rule disjI1)
  next
    assume "\<exists>p cc'. install_block os srt pc rs insns bytes cs ds cap kind cc = Some (Inr p, cc') \<and> cache_inv exact cc' \<and>
      cc_base cc + cc_cursor cc \<le> p \<and> p + length bytes = cc_base cc' + cc_cursor cc' \<and>
      cc_direct_sites cc' = register p ds (cc_direct_sites cc) \<and>
      (distinct (map fst (cc_capped cc)) \<longrightarrow> distinct (map fst (cc_capped cc'))) \<and>
      (case cap of None \<Rightarrow> tab cc' = (tab cc)(pc \<mapsto> installed_entry p pc rs insns cs kind) \<and> cc_capped cc' = cc_capped cc
       | Some n \<Rightarrow> tab cc' = tab cc \<and>
           map_of (cc_capped cc') = (map_of (cc_capped cc))((pc, n) \<mapsto> \<lparr>cp_host_ptr = p, cp_ranges = block_ranges pc rs\<rparr>))"
    then obtain p cc' where i: "install_block os srt pc rs insns bytes cs ds cap kind cc = Some (Inr p, cc')" "cache_inv exact cc'"
        "cc_base cc + cc_cursor cc \<le> p" "p + length bytes = cc_base cc' + cc_cursor cc'"
        "cc_direct_sites cc' = register p ds (cc_direct_sites cc)"
        "distinct (map fst (cc_capped cc)) \<longrightarrow> distinct (map fst (cc_capped cc'))"
        "case cap of None \<Rightarrow> tab cc' = (tab cc)(pc \<mapsto> installed_entry p pc rs insns cs kind) \<and> cc_capped cc' = cc_capped cc
         | Some n \<Rightarrow> tab cc' = tab cc \<and>
           map_of (cc_capped cc') = (map_of (cc_capped cc))((pc, n) \<mapsto> \<lparr>cp_host_ptr = p, cp_ranges = block_ranges pc rs\<rparr>)"
      by blast
    have "distinct (map fst (cc_capped cc))" "registry_inv (cc_direct_sites cc)" using ok by (simp_all add: cache_ok_def)
    then have "cache_ok exact cc'" using i(2,5,6) by (simp only: cache_ok_def register_inv simp_thms)
    then show ?thesis by (intro disjI2 exI[of _ p] exI[of _ cc'] conjI i(1,3,4,7))
  qed
qed

lemma install_error:
  assumes "install_block os srt pc rs insns bytes cs ds cap kind cc = Some (Inl err, cc2)"
  shows "\<exists>cc1. append_raw os bytes cc = Some (Inl err, cc1)"
  using assms by (auto simp: install_block_def Let_def split: bind_splits sum.splits option.splits prod.splits if_splits)

lemma append_ok:
  assumes "cache_ok exact cc" "grants os"
  shows "(\<exists>e. append_raw os bytes cc = Some (Inl e, cc) \<and> (e = CodeCacheFull \<or> bytes = [])) \<or>
    (\<exists>p cc'. append_raw os bytes cc = Some (Inr p, cc') \<and> cache_ok exact cc')"
proof -
  obtain U where U: "mid_inv exact U cc" "cc_patches cc = []" using assms(1) by (auto simp: cache_inv_def cache_ok_def)
  have "cache_ok exact cc'" if "published p bytes cc cc'" "mid_inv exact U cc'" for p cc'
    using that assms(1) U(2) by (auto simp: cache_ok_def cache_inv_def published_def)
  then show ?thesis using append_raw_result[OF U(1) assms(2), of bytes] by blast
qed

section \<open>Creation and reset\<close>

definition dispatch_empty :: "code_cache \<Rightarrow> bool" where
  "dispatch_empty cc \<longleftrightarrow> (\<forall>i. cc_dispatch cc i = \<lparr>ds_pc = EMPTY_PC, ds_host = cc_miss_stub cc\<rparr>)"

lemma empty_cache_inv:
  assumes "geometry cc" "protected cc" "dispatch_empty cc" "cc_table cc = []" "cc_links cc = (\<lambda>_. None)" "cc_patches cc = []"
  shows "cache_inv exact cc"
proof -
  have none: "\<not> linkable (tab cc) t s" "\<not> owned (tab cc) pc t s" for pc t s using assms(4) by (simp_all add: linkable_def owned_def)
  have "mid_inv exact {} cc"
    using assms none unfolding mid_inv_def
    by (simp add: dispatch_right_def dispatch_empty_def Let_def in_links_def one_owner_def sites_placed_def spaced_def sites_right_def)
  then show ?thesis using assms(6) by (auto simp: cache_inv_def)
qed

lemma published_geometry: "published p bytes cc cc' \<Longrightarrow> geometry cc \<Longrightarrow> geometry cc'"
  by (auto simp: published_def geometry_def)

lemma stubs_result:
  assumes "geometry cc" "protected cc" "grants os" "cc_table cc = []" "cc_links cc = (\<lambda>_. None)" "cc_patches cc = []"
  shows "(\<exists>err cc'. install_runtime_stubs os tb cc = Some (Inl err, cc') \<and> (err = CodeCacheFull \<or> tb = Inl err \<or> tb = Inr [])) \<or>
    (\<exists>cc'. install_runtime_stubs os tb cc = Some (Inr (), cc') \<and> cache_inv exact cc' \<and> cc_table cc' = [] \<and>
      cc_capped cc' = cc_capped cc \<and> cc_direct_sites cc' = cc_direct_sites cc)"
proof (cases tb)
  case (Inl e)
  then show ?thesis by (simp add: install_runtime_stubs_def)
next
  case (Inr bytes)
  from append_raw_publishes[OF assms(1-3), of bytes] show ?thesis
  proof (elim disjE exE conjE)
    fix e assume "append_raw os bytes cc = Some (Inl e, cc)" "e = CodeCacheFull"
    then show ?thesis using Inr by (simp add: install_runtime_stubs_def)
  next
    fix e assume "append_raw os bytes cc = Some (Inl e, cc)" "bytes = []"
    then show ?thesis using Inr by (simp add: install_runtime_stubs_def)
  next
    fix p cc1 assume a: "append_raw os bytes cc = Some (Inr p, cc1)" "published p bytes cc cc1" "protected cc1"
    let ?cc2 = "cc1\<lparr>cc_thunk := p, cc_xmm_free_thunk := p\<rparr>"
    have g: "geometry ?cc2" "protected ?cc2"
      using published_geometry[OF a(2) assms(1)] a(3) by (simp_all add: geometry_def protected_def)
    have same: "cc_table ?cc2 = []" "cc_links ?cc2 = (\<lambda>_. None)" "cc_patches ?cc2 = []" "cc_capped ?cc2 = cc_capped cc"
        "cc_direct_sites ?cc2 = cc_direct_sites cc"
      using a(2) assms(4-6) by (auto simp: published_def)
    from append_raw_publishes[OF g assms(3), of "[0xC3]"] show ?thesis
    proof (elim disjE exE conjE)
      fix e assume "append_raw os [0xC3] ?cc2 = Some (Inl e, ?cc2)" "e = CodeCacheFull"
      then show ?thesis using Inr a(1) by (simp add: install_runtime_stubs_def)
    next
      fix q cc3 assume b: "append_raw os [0xC3] ?cc2 = Some (Inr q, cc3)" "published q [0xC3] ?cc2 cc3" "protected cc3"
      let ?cc4 = "clear_dispatch (cc3\<lparr>cc_miss_stub := q\<rparr>)"
      have "geometry ?cc4" "protected ?cc4"
        using published_geometry[OF b(2) g(1)] b(3) by (simp_all add: geometry_def protected_def clear_dispatch_def)
      moreover have "dispatch_empty ?cc4" by (simp add: dispatch_empty_def clear_dispatch_def)
      moreover have "cc_table ?cc4 = []" "cc_links ?cc4 = (\<lambda>_. None)" "cc_patches ?cc4 = []"
          "cc_capped ?cc4 = cc_capped cc" "cc_direct_sites ?cc4 = cc_direct_sites cc"
        using b(2) same by (auto simp: published_def clear_dispatch_def)
      ultimately have "cache_inv exact ?cc4 \<and> cc_table ?cc4 = [] \<and> cc_capped ?cc4 = cc_capped cc \<and> cc_direct_sites ?cc4 = cc_direct_sites cc"
        using empty_cache_inv by blast
      moreover have "install_runtime_stubs os tb cc = Some (Inr (), ?cc4)"
        using Inr a(1) b(1) by (simp add: install_runtime_stubs_def)
      ultimately show ?thesis by blast
    qed simp
  qed
qed

lemma reset_result:
  assumes "cache_ok exact cc" "grants os"
  shows "(\<exists>err cc'. cache_reset os tb cc = Some (Inl err, cc') \<and> (err = CodeCacheFull \<or> tb = Inl err \<or> tb = Inr [])) \<or>
    (\<exists>cc'. cache_reset os tb cc = Some (Inr (), cc') \<and> cache_ok exact cc' \<and> tab cc' = Map.empty \<and> map_of (cc_capped cc') = Map.empty)"
proof -
  let ?cc = "cc\<lparr>cc_cursor := 0, cc_table := [], cc_capped := [], cc_links := (\<lambda>_. None), cc_patches := [],
      cc_direct_sites := registry_clear (cc_direct_sites cc)\<rparr>"
  obtain U where U: "geometry cc" "protected cc" using assms(1) by (auto simp: cache_inv_def cache_ok_def mid_inv_def)
  have "geometry ?cc" "protected ?cc" using U by (auto simp: geometry_def protected_def)
  then have "(\<exists>err cc'. install_runtime_stubs os tb ?cc = Some (Inl err, cc') \<and> (err = CodeCacheFull \<or> tb = Inl err \<or> tb = Inr [])) \<or>
      (\<exists>cc'. install_runtime_stubs os tb ?cc = Some (Inr (), cc') \<and> cache_inv exact cc' \<and> cc_table cc' = [] \<and>
        cc_capped cc' = cc_capped ?cc \<and> cc_direct_sites cc' = cc_direct_sites ?cc)"
    by (rule stubs_result[OF _ _ assms(2)]) simp_all
  then show ?thesis
    unfolding cache_reset_def cache_ok_def by (elim disjE exE conjE) (blast, auto simp: registry_clear_def registry_inv_def)
qed

text \<open>What \<open>region::alloc\<close> and \<open>region::page::size\<close> promise.\<close>

definition allocates :: "allocator \<Rightarrow> nat \<Rightarrow> bool" where
  "allocates alloc page \<longleftrightarrow> 16 \<le> page \<and> page < 2 ^ 31 \<and>
     (\<forall>n p b c h. alloc n p = Some (b, c, h) \<longrightarrow> page dvd b \<and> page dvd c \<and> (\<forall>a. b \<le> a \<and> a < b + c \<longrightarrow> h_prot h a = p))"

lemma fresh_protected:
  assumes "cc_page cc dvd cc_base cc" "cc_cursor cc = 0"
    and "\<forall>a. cc_base cc \<le> a \<and> a < cc_base cc + cc_capacity cc \<longrightarrow> h_prot (cc_host cc) a = (if cc_rwx cc then READ_WRITE_EXECUTE else READ_WRITE)"
  shows "protected cc"
proof -
  have "page_floor (cc_page cc) (cc_base cc) = cc_base cc" using assms(1) by (simp add: page_floor_def)
  then have "\<not> page_floor (cc_page cc) a < cc_base cc" if "cc_base cc \<le> a" for a using page_floor_mono[OF that, of "cc_page cc"] by simp
  then show ?thesis using assms(2,3) by (auto simp: protected_def)
qed

lemma with_rwx_result:
  assumes alloc: "allocates alloc page" and os: "grants os"
  shows "with_rwx os alloc page tb n rwx \<noteq> None"
    "with_rwx os alloc page tb n rwx = Some (Inr cc) \<Longrightarrow> cache_ok exact cc \<and> cc_table cc = [] \<and> cc_capped cc = []"
proof -
  have "with_rwx os alloc page tb n rwx \<noteq> None \<and>
    (\<forall>cc. with_rwx os alloc page tb n rwx = Some (Inr cc) \<longrightarrow> cache_ok exact cc \<and> cc_table cc = [] \<and> cc_capped cc = [])"
  proof (cases "alloc n (if rwx then READ_WRITE_EXECUTE else READ_WRITE)")
    case None
    then show ?thesis by (simp add: with_rwx_def)
  next
    case (Some x)
    obtain b c h where x: "x = (b, c, h)" by (cases x)
    have a: "page dvd b" "page dvd c" "16 \<le> page" "page < 2 ^ 31"
        "\<forall>a. b \<le> a \<and> a < b + c \<longrightarrow> h_prot h a = (if rwx then READ_WRITE_EXECUTE else READ_WRITE)"
      using alloc Some unfolding x allocates_def by blast+
    let ?cc = "\<lparr>cc_base = b, cc_rwx = rwx, cc_host = h, cc_cursor = 0, cc_capacity = c, cc_page = page,
               cc_table = [], cc_capped = [], cc_links = (\<lambda>_. None), cc_dispatch = (\<lambda>_. \<lparr>ds_pc = EMPTY_PC, ds_host = 0\<rparr>),
               cc_dispatch_meta = (\<lambda>_. (0, Full)), cc_thunk = 0, cc_xmm_free_thunk = 0, cc_miss_stub = 0, cc_patches = [],
               cc_direct_sites = registry_new b rwx\<rparr>"
    show ?thesis
    proof (cases "c > 2 ^ 31 - 1")
      case True
      then show ?thesis using Some by (simp add: with_rwx_def x)
    next
      case False
      have w: "with_rwx os alloc page tb n rwx = (case install_runtime_stubs os tb ?cc of None \<Rightarrow> None
          | Some (res, cc) \<Rightarrow> Some (case res of Inl e \<Rightarrow> Inl e | Inr u \<Rightarrow> Inr cc))"
        using Some False by (simp add: with_rwx_def x split: option.split)
      have "geometry ?cc" using a False by (simp add: geometry_def)
      moreover have "protected ?cc" using fresh_protected[of ?cc] a(1,5) by simp
      ultimately have "(\<exists>err cc'. install_runtime_stubs os tb ?cc = Some (Inl err, cc') \<and> (err = CodeCacheFull \<or> tb = Inl err \<or> tb = Inr [])) \<or>
        (\<exists>cc'. install_runtime_stubs os tb ?cc = Some (Inr (), cc') \<and> cache_inv exact cc' \<and> cc_table cc' = [] \<and>
          cc_capped cc' = cc_capped ?cc \<and> cc_direct_sites cc' = cc_direct_sites ?cc)"
        by (rule stubs_result[OF _ _ os]) simp_all
      then show ?thesis unfolding w by (elim disjE exE conjE) (auto simp: cache_ok_def registry_new_def registry_inv_def)
    qed
  qed
  then show "with_rwx os alloc page tb n rwx \<noteq> None"
    "with_rwx os alloc page tb n rwx = Some (Inr cc) \<Longrightarrow> cache_ok exact cc \<and> cc_table cc = [] \<and> cc_capped cc = []" by blast+
qed

section \<open>Reachable states\<close>

inductive cache_reachable :: "os \<Rightarrow> ((nat \<times> int) list \<Rightarrow> (nat \<times> int) list) \<Rightarrow> allocator \<Rightarrow> nat \<Rightarrow> error + u8 list \<Rightarrow> code_cache \<Rightarrow> bool"
  for os srt alloc page tb where
  created: "with_rwx os alloc page tb n rwx = Some (Inr cc) \<Longrightarrow> cache_reachable os srt alloc page tb cc"
| looked_up: "cache_reachable os srt alloc page tb cc \<Longrightarrow> cache_reachable os srt alloc page tb (snd (lookup_dispatch_meta pc cc))"
| installed: "cache_reachable os srt alloc page tb cc \<Longrightarrow> pc \<noteq> EMPTY_PC \<Longrightarrow> chains_wf bytes cs \<Longrightarrow>
    install_block os srt pc rs insns bytes cs ds cap kind cc = Some (res, cc') \<Longrightarrow> cache_reachable os srt alloc page tb cc'"
| emitted: "cache_reachable os srt alloc page tb cc \<Longrightarrow> pc \<noteq> EMPTY_PC \<Longrightarrow>
    install_emitted os srt pc stop insns bytes cached kind cc = Some (res, cc') \<Longrightarrow> cache_reachable os srt alloc page tb cc'"
| invalidated: "cache_reachable os srt alloc page tb cc \<Longrightarrow>
    invalidate_range os srt start len cc = Some cc' \<Longrightarrow> cache_reachable os srt alloc page tb cc'"
| was_reset: "cache_reachable os srt alloc page tb cc \<Longrightarrow>
    cache_reset os tb cc = Some (Inr (), cc') \<Longrightarrow> cache_reachable os srt alloc page tb cc'"

lemma chains_wf_Nil: "chains_wf bytes []"
  by (simp add: chains_wf_def spaced_def)

lemma reachable_ok:
  assumes "cache_reachable os srt alloc page tb cc" "allocates alloc page" "grants os" "sorts srt" "exact \<longrightarrow> stable srt"
  shows "cache_ok exact cc"
  using assms(1)
proof induction
  case (created n rwx cc)
  then show ?case using with_rwx_result(2)[OF assms(2,3)] by blast
next
  case (looked_up cc pc)
  obtain m cc' where l: "lookup_dispatch_meta pc cc = (m, cc')" by (cases "lookup_dispatch_meta pc cc")
  have "cc_capped cc' = cc_capped cc" "cc_direct_sites cc' = cc_direct_sites cc"
    using l by (auto simp: lookup_dispatch_meta_def lookup_meta_miss_def Let_def split: if_splits option.splits prod.splits)
  then show ?case using looked_up.IH lookup_any_inv[of exact cc pc] l by (simp add: cache_ok_def)
next
  case (installed cc pc bytes cs rs insns ds cap kind res cc')
  from install_ok[OF installed.IH installed.hyps(2,3) assms(3-5), of rs insns ds cap kind] show ?case
    using installed.hyps(4) installed.IH by (elim disjE exE conjE) simp_all
next
  case (emitted cc pc stop insns bytes cached kind res cc')
  show ?case
  proof (cases cached)
    case True
    then have "install_block os srt pc [(pc, max stop (saturating_pc pc))] insns bytes [] [] None kind cc = Some (res, cc')"
      using emitted.hyps(3) by (simp add: install_emitted_def)
    moreover from install_ok[OF emitted.IH emitted.hyps(2) chains_wf_Nil[of bytes] assms(3-5),
        of "[(pc, max stop (saturating_pc pc))]" insns "[]" None kind]
    have "\<exists>res cc'. install_block os srt pc [(pc, max stop (saturating_pc pc))] insns bytes [] [] None kind cc = Some (res, cc') \<and> cache_ok exact cc'"
      using emitted.IH by blast
    ultimately show ?thesis by simp
  next
    case False
    then show ?thesis using append_ok[OF emitted.IH assms(3), of bytes] emitted.hyps(3) emitted.IH by (auto simp: install_emitted_def)
  qed
next
  case (invalidated cc start len cc')
  then show ?case using invalidate_result[OF invalidated.IH assms(3-5), of start len] by auto
next
  case (was_reset cc cc')
  then show ?case using reset_result[OF was_reset.IH assms(3), of tb] by auto
qed

lemma cache_ok_facts:
  assumes "cache_ok exact cc"
  shows "tab cc EMPTY_PC = None" "sites_right exact cc" "cc_patches cc = []"
    "ds_pc (cc_dispatch cc (dispatch_index EMPTY_PC)) = EMPTY_PC \<Longrightarrow> ds_host (cc_dispatch cc (dispatch_index EMPTY_PC)) = cc_miss_stub cc"
proof -
  have d: "dispatch_right cc" "sites_right exact cc" "cc_patches cc = []" using assms by (auto simp: cache_ok_def cache_inv_def mid_inv_def)
  then show "tab cc EMPTY_PC = None" "sites_right exact cc" "cc_patches cc = []" by (simp_all add: dispatch_right_def)
  then show "ds_pc (cc_dispatch cc (dispatch_index EMPTY_PC)) = EMPTY_PC \<Longrightarrow> ds_host (cc_dispatch cc (dispatch_index EMPTY_PC)) = cc_miss_stub cc"
    using d(1) by (auto simp: dispatch_right_def Let_def dest!: spec[of _ "dispatch_index EMPTY_PC"])
qed

text \<open>Where the jump at a chain site goes; a jump that is not linked goes to the exit behind it.\<close>

definition jump_target :: "code_cache \<Rightarrow> nat \<Rightarrow> int" where
  "jump_target cc s = int s + int SITE_LEN + read_i32 (h_mem (cc_host cc)) (s + SITE_REL_OFFSET)"

lemma site_jump:
  assumes "cache_ok exact cc" "tab cc pc = Some e" "(t, s) \<in> set (e_out_sites e)"
  shows "link_right exact (tab cc) t s (jump_target cc s - (int s + int SITE_LEN))"
proof -
  have "linkable (tab cc) t s" using assms(2,3) by (auto simp: linkable_def owned_def)
  then show ?thesis
    using cache_ok_facts(2,3)[OF assms(1)] by (simp add: sites_right_def site_values_def site_patches_def jump_target_def)
qed

section \<open>A cache with one block\<close>

text \<open>An allocator, an operating system and a block that jumps to itself, for the witnesses.\<close>

definition demo_alloc :: allocator where
  "demo_alloc n p = Some (0x10000, 8192, \<lparr>h_mem = \<lambda>_. 0, h_prot = \<lambda>_. p\<rparr>)"

definition demo_os :: os where "demo_os lo len p = True"
definition demo_code :: "u8 list" where "demo_code = [0xE9, 0, 0, 0, 0, 0xC3]"
definition demo_chains :: "chain_site list" where "demo_chains = [\<lparr>ch_patch_offset = 0, ch_target_pc = 0x1000\<rparr>]"

lemma demo_allocates: "allocates demo_alloc 4096"
  by (auto simp: allocates_def demo_alloc_def)

lemma demo_grants: "grants demo_os"
  by (simp add: grants_def demo_os_def)

lemma demo_sorts: "sorts (sort_key fst)"
  by (simp add: sorts_def)

lemma demo_stable: "stable (sort_key fst)"
  by (simp add: stable_def sort_key_stable)

lemma demo_chains_wf: "chains_wf demo_code demo_chains"
  by (simp add: chains_wf_def demo_code_def demo_chains_def spaced_def SITE_LEN_def SITE_REL_OFFSET_def read_i32_def)

lemma demo_created:
  "\<exists>cc. with_rwx demo_os demo_alloc 4096 (Inr [0xC3]) 8192 True = Some (Inr cc) \<and> cc_cursor cc = 17 \<and> cc_capacity cc = 8192 \<and>
     cc_page cc = 4096 \<and> cc_rwx cc"
  by (simp add: with_rwx_def demo_alloc_def install_runtime_stubs_def append_raw_def publication_range_def checked_add_def
    page_floor_def clear_dispatch_def Let_def)

lemma demo_reachable:
  "\<exists>p cc. cache_reachable demo_os (sort_key fst) demo_alloc 4096 (Inr [0xC3]) cc \<and>
     tab cc = [0x1000 \<mapsto> installed_entry p 0x1000 [(0x1000, 0x1004)] 1 demo_chains Full]"
proof -
  obtain cc where cc: "with_rwx demo_os demo_alloc 4096 (Inr [0xC3]) 8192 True = Some (Inr cc)" "cc_cursor cc = 17" "cc_capacity cc = 8192"
      "cc_page cc = 4096" "cc_rwx cc"
    using demo_created by blast
  have r: "cache_reachable demo_os (sort_key fst) demo_alloc 4096 (Inr [0xC3]) cc" by (rule cache_reachable.created[OF cc(1)])
  have ok: "cache_ok True cc" "cc_table cc = []" using with_rwx_result(2)[OF demo_allocates demo_grants cc(1)] by blast+
  have pc: "(0x1000 :: u64) \<noteq> EMPTY_PC" by (simp add: EMPTY_PC_def)
  let ?install = "install_block demo_os (sort_key fst) 0x1000 [(0x1000, 0x1004)] 1 demo_code demo_chains [] None Full cc"
  have "append_raw demo_os demo_code cc \<noteq> Some (Inl e, cc1)" for e cc1
    using cc(2-5) by (simp add: append_raw_def publication_range_def checked_add_def page_floor_def demo_code_def Let_def)
  then have "?install \<noteq> Some (Inl e, cc)" for e using install_error[of demo_os "sort_key fst"] by blast
  then obtain p cc' where i: "?install = Some (Inr p, cc')"
      "tab cc' = (tab cc)(0x1000 \<mapsto> installed_entry p 0x1000 [(0x1000, 0x1004)] 1 demo_chains Full)"
    using install_ok[OF ok(1) pc demo_chains_wf demo_grants demo_sorts, of "[(0x1000, 0x1004)]" 1 "[]" None Full] demo_stable by auto
  have "cache_reachable demo_os (sort_key fst) demo_alloc 4096 (Inr [0xC3]) cc'"
    by (rule cache_reachable.installed[OF r pc demo_chains_wf i(1)])
  then show ?thesis using i(2) ok(2) by auto
qed

section \<open>Properties\<close>

text \<open>
  C10. In every state that operations on a code cache reach, a chain site of a cached block jumps to
  the block of its target or falls through to the exit behind it, never to code that is not in the
  table; and when the patches of a site keep their order in the sort, it jumps to the block of its
  target exactly while that block is in the table.
\<close>

theorem chain_sites_linked:
  assumes "cache_reachable os srt alloc page tb cc" "allocates alloc page" "grants os" "sorts srt"
    and "map_of (cc_table cc) pc = Some e" "(t, s) \<in> set (e_out_sites e)"
  shows "(jump_target cc s = int s + int SITE_LEN \<or> (\<exists>e'. map_of (cc_table cc) t = Some e' \<and> jump_target cc s = int (e_host_ptr e'))) \<and>
    (stable srt \<longrightarrow> jump_target cc s = (case map_of (cc_table cc) t of None \<Rightarrow> int s + int SITE_LEN | Some e' \<Rightarrow> int (e_host_ptr e')))"
proof (intro conjI impI)
  have "cache_ok False cc" using reachable_ok[OF assms(1-4)] by simp
  from site_jump[OF this assms(5,6)]
  show "jump_target cc s = int s + int SITE_LEN \<or> (\<exists>e'. map_of (cc_table cc) t = Some e' \<and> jump_target cc s = int (e_host_ptr e'))"
    by (auto simp: link_right_def split: option.splits)
next
  assume "stable srt"
  then have "cache_ok True cc" using reachable_ok[OF assms(1-4)] by simp
  from site_jump[OF this assms(5,6)]
  show "jump_target cc s = (case map_of (cc_table cc) t of None \<Rightarrow> int s + int SITE_LEN | Some e' \<Rightarrow> int (e_host_ptr e'))"
    by (auto simp: link_right_def split: option.splits)
qed

lemma chain_sites_linked_witness:
  "\<exists>p cc. cache_reachable demo_os (sort_key fst) demo_alloc 4096 (Inr [0xC3]) cc \<and>
     map_option e_host_ptr (map_of (cc_table cc) 0x1000) = Some p \<and> jump_target cc p = int p"
proof -
  obtain p cc where cc: "cache_reachable demo_os (sort_key fst) demo_alloc 4096 (Inr [0xC3]) cc"
      "tab cc = [0x1000 \<mapsto> installed_entry p 0x1000 [(0x1000, 0x1004)] 1 demo_chains Full]"
    using demo_reachable by blast
  let ?e = "installed_entry p 0x1000 [(0x1000, 0x1004)] 1 demo_chains Full"
  have e: "tab cc 0x1000 = Some ?e" "(0x1000, p) \<in> set (e_out_sites ?e)" "e_host_ptr ?e = p"
    using cc(2) by (simp_all add: installed_entry_def chain_sites_def demo_chains_def)
  have "jump_target cc p = int p"
    using chain_sites_linked[OF cc(1) demo_allocates demo_grants demo_sorts e(1,2)] demo_stable e(1,3) by simp
  then show ?thesis using cc(1) e(1,3) by (intro exI[of _ p] exI[of _ cc]) simp
qed





text \<open>
  C13. A lookup in a reachable state returns the block of the map at its address, whatever the dispatch
  table holds, and leaves both maps as they are. The exception is the address that marks empty slots:
  no block is ever there, but its lookup returns the miss stub as one while its slot is empty.
\<close>

theorem lookup_refines:
  assumes "cache_reachable os srt alloc page tb cc" "allocates alloc page" "grants os" "sorts srt"
  shows "(if pc \<noteq> EMPTY_PC
      then \<exists>cc'. lookup_dispatch_meta pc cc = (map_option (\<lambda>e.
          \<lparr>dm_host_ptr = e_host_ptr e, dm_guest_insns = e_guest_insns e, dm_thunk_kind = e_thunk_kind e\<rparr>) (map_of (cc_table cc) pc), cc') \<and>
        cc_table cc' = cc_table cc \<and> cc_capped cc' = cc_capped cc
      else \<not> contains pc cc \<and> snd (lookup pc cc) = cc \<and>
        fst (lookup pc cc) = (if ds_pc (cc_dispatch cc (dispatch_index pc)) = EMPTY_PC then Some (cc_miss_stub cc) else None))"
proof -
  have ok: "cache_ok False cc" using reachable_ok[OF assms(1-4)] by simp
  show ?thesis
  proof (cases "pc = EMPTY_PC")
    case True
    then show ?thesis using cache_ok_facts(1,4)[OF ok]
      by (simp add: contains_def lookup_def lookup_dispatch_meta_def lookup_meta_miss_def Let_def split: prod.split)
  next
    case False
    then show ?thesis using lookup_result[OF _ False, of False cc] ok unfolding entry_meta_def cache_ok_def by auto
  qed
qed

lemma lookup_refines_witness:
  "\<exists>p cc. cache_reachable demo_os (sort_key fst) demo_alloc 4096 (Inr [0xC3]) cc \<and>
     fst (lookup_dispatch_meta 0x1000 cc) = Some \<lparr>dm_host_ptr = p, dm_guest_insns = 1, dm_thunk_kind = Full\<rparr> \<and> \<not> contains EMPTY_PC cc"
proof -
  obtain p cc where cc: "cache_reachable demo_os (sort_key fst) demo_alloc 4096 (Inr [0xC3]) cc"
      "tab cc = [0x1000 \<mapsto> installed_entry p 0x1000 [(0x1000, 0x1004)] 1 demo_chains Full]"
    using demo_reachable by blast
  have pc: "(0x1000 :: u64) \<noteq> EMPTY_PC" by (simp add: EMPTY_PC_def)
  show ?thesis
    using lookup_refines[OF cc(1) demo_allocates demo_grants demo_sorts, where pc = "0x1000"]
      lookup_refines[OF cc(1) demo_allocates demo_grants demo_sorts, where pc = EMPTY_PC] cc pc
    by (intro exI[of _ p] exI[of _ cc]) (auto simp: installed_entry_def)
qed

end
